(* ===== verification/Prelude.thy ===== *)
theory Prelude
  imports Main "HOL-Library.Word"
begin

unbundle bit_operations_syntax

section \<open>Shared vocabulary of the tcppump development\<close>

text \<open>
  The machine types of the program, its exceptions as one datatype, the two monads the
  components are written in, fixed-size memory with bounds-checked copies, and the generic
  lemmas the component theories share.

  The model is that of a little-endian LP64 host (the CMake default, \<open>HAVE_BIG_ENDIAN\<close> unset):
  \<open>size_t\<close> has 64 bits and is a \<open>nat\<close> whose wrap-around is written out with \<open>sz\<close>.
\<close>

type_synonym byte = "8 word"
type_synonym u16 = "16 word"
type_synonym u32 = "32 word"
type_synonym u64 = "64 word"

named_theorems monad_simps "unfolding of the two monads"
named_theorems packet_simps "what the packet operations do to the observable frame"

subsection \<open>Exceptions\<close>

text \<open>
  \<open>FormatException\<close> (src/compiler/formatexception.hpp) carries a cause and the offending value: a
  pointer into the instruction, which is here the text from that pointer on, and a length.
  \<open>ParseException\<close> and \<open>FileParseException\<close> are those of instructionparser.hpp and fileparser.hpp.
  \<open>Bug\<close> is a failed \<open>BUG_ON\<close>/\<open>BUG\<close>; \<open>Undefined\<close> marks what C++ leaves undefined (a write outside
  a buffer, a division by zero), so that its absence can be proved.
\<close>

datatype cause = exParUnknown | exParRange | exParFormat | exParUnused

datatype error =
    FormatException cause "string option" nat
  | ParseException string string "string option" nat "string option"
  | FileParseException string int "string option" string "string option" nat "string option"
  | FileIOException string string
  | RuntimeError string
  | OutOfRange string
  | Bug string
  | Undefined string

definition why :: "cause \<Rightarrow> string" where
  "why c = (case c of
      exParUnknown \<Rightarrow> ''Unknown or missing parameter''
    | exParRange \<Rightarrow> ''Range of parameter violated''
    | exParFormat \<Rightarrow> ''Invalid parameter format''
    | exParUnused \<Rightarrow> ''Unexpected parameter'')"

subsection \<open>Results and stateful computations\<close>

type_synonym 'a res = "error + 'a"

definition bindE :: "'a res \<Rightarrow> ('a \<Rightarrow> 'b res) \<Rightarrow> 'b res" where
  "bindE r f = (case r of Inl e \<Rightarrow> Inl e | Inr x \<Rightarrow> f x)"

definition bugOn :: "bool \<Rightarrow> string \<Rightarrow> unit res" where
  "bugOn b msg = (if b then Inl (Bug msg) else Inr ())"

fun mapE :: "('a \<Rightarrow> 'b res) \<Rightarrow> 'a list \<Rightarrow> 'b list res" where
  "mapE f [] = Inr []"
| "mapE f (x # xs) = bindE (f x) (\<lambda>y. bindE (mapE f xs) (\<lambda>ys. Inr (y # ys)))"

text \<open>
  A C++ exception leaves the state as it is at the throw, so a computation returns a state in
  both cases, and a handler starts from it.
\<close>

type_synonym ('s, 'a) M = "'s \<Rightarrow> 'a res \<times> 's"

definition returnM :: "'a \<Rightarrow> ('s, 'a) M" where
  "returnM x s = (Inr x, s)"

definition throwM :: "error \<Rightarrow> ('s, 'a) M" where
  "throwM e s = (Inl e, s)"

definition bindM :: "('s, 'a) M \<Rightarrow> ('a \<Rightarrow> ('s, 'b) M) \<Rightarrow> ('s, 'b) M" where
  "bindM m f s = (case m s of (r, s') \<Rightarrow> (case r of Inl e \<Rightarrow> (Inl e, s') | Inr x \<Rightarrow> f x s'))"

definition catchM :: "('s, 'a) M \<Rightarrow> (error \<Rightarrow> ('s, 'a) M) \<Rightarrow> ('s, 'a) M" where
  "catchM m h s = (case m s of (r, s') \<Rightarrow> (case r of Inl e \<Rightarrow> h e s' | Inr x \<Rightarrow> (Inr x, s')))"

definition getM :: "('s \<Rightarrow> 'a) \<Rightarrow> ('s, 'a) M" where
  "getM f s = (Inr (f s), s)"

definition modifyM :: "('s \<Rightarrow> 's) \<Rightarrow> ('s, unit) M" where
  "modifyM f s = (Inr (), f s)"

definition liftE :: "'a res \<Rightarrow> ('s, 'a) M" where
  "liftE r s = (r, s)"

text \<open>
  A computation that need not return: None is no result at all. It is used where the code waits or
  repeats until something happens outside.
\<close>

type_synonym ('s, 'a) N = "'s \<Rightarrow> ('a res \<times> 's) option"

definition liftN :: "('s, 'a) M \<Rightarrow> ('s, 'a) N" where
  "liftN m s = Some (m s)"

definition bindN :: "('s, 'a) N \<Rightarrow> ('a \<Rightarrow> ('s, 'b) N) \<Rightarrow> ('s, 'b) N" where
  "bindN m f s = (case m s of None \<Rightarrow> None | Some (r, s') \<Rightarrow> (case r of Inl e \<Rightarrow> Some (Inl e, s') | Inr x \<Rightarrow> f x s'))"

definition isFormatException :: "error \<Rightarrow> bool" where
  "isFormatException e = (case e of FormatException _ _ _ \<Rightarrow> True | _ \<Rightarrow> False)"

lemma bindE_simps [simp, monad_simps]:
  "bindE (Inl e) f = Inl e"
  "bindE (Inr x) f = f x"
  by (simp_all add: bindE_def)

lemma bindE_Inr_iff: "bindE r f = Inr y \<longleftrightarrow> (\<exists>x. r = Inr x \<and> f x = Inr y)"
  by (cases r) simp_all

lemma bindE_InrE [elim!]:
  assumes "bindE r f = Inr y"
  obtains x where "r = Inr x" and "f x = Inr y"
  using assms by (auto simp: bindE_Inr_iff)

lemma bindE_assoc: "bindE (bindE r f) g = bindE r (\<lambda>x. bindE (f x) g)"
  by (cases r) simp_all

lemma bugOn_Inr_iff [simp]: "bugOn b msg = Inr u \<longleftrightarrow> \<not> b"
  by (simp add: bugOn_def)

lemma bugOn_simps [simp, monad_simps]:
  "bugOn False msg = Inr ()"
  "bugOn True msg = Inl (Bug msg)"
  by (simp_all add: bugOn_def)

lemma mapE_length: "mapE f xs = Inr ys \<Longrightarrow> length ys = length xs"
  by (induction xs arbitrary: ys) auto

lemma returnM_apply [simp, monad_simps]: "returnM x s = (Inr x, s)"
  by (simp add: returnM_def)

lemma throwM_apply [simp, monad_simps]: "throwM e s = (Inl e, s)"
  by (simp add: throwM_def)

lemma getM_apply [simp, monad_simps]: "getM f s = (Inr (f s), s)"
  by (simp add: getM_def)

lemma modifyM_apply [simp, monad_simps]: "modifyM f s = (Inr (), f s)"
  by (simp add: modifyM_def)

lemma liftE_apply [simp, monad_simps]: "liftE r s = (r, s)"
  by (simp add: liftE_def)

lemma bindM_apply [monad_simps]:
  "bindM m f s = (case m s of (r, s') \<Rightarrow> (case r of Inl e \<Rightarrow> (Inl e, s') | Inr x \<Rightarrow> f x s'))"
  by (rule bindM_def)

lemma bindM_Inr_iff:
  "bindM m f s = (Inr y, s'') \<longleftrightarrow> (\<exists>x s'. m s = (Inr x, s') \<and> f x s' = (Inr y, s''))"
  by (auto simp: bindM_def split: prod.splits sum.splits)

lemma bindM_InrE [elim!]:
  assumes "bindM m f s = (Inr y, s'')"
  obtains x s' where "m s = (Inr x, s')" and "f x s' = (Inr y, s'')"
  using assms by (auto simp: bindM_Inr_iff)

lemma bindM_left_return [simp]: "bindM (returnM x) f = f x"
  by (rule ext) (simp add: bindM_def)

lemma bindM_Pair [simp]: "bindM (Pair (Inr x)) f = f x" "bindM (Pair (Inl e)) f = Pair (Inl e)"
  by (rule ext, simp add: bindM_def)+

lemma liftN_apply [simp]: "liftN m s = Some (m s)"
  by (simp add: liftN_def)

lemma bindN_lift [simp]: "m s = (Inr x, s') \<Longrightarrow> bindN (liftN m) f s = f x s'"
  by (simp add: bindN_def)

lemma bindN_Some [simp]: "m s = Some (Inr x, s') \<Longrightarrow> bindN m f s = f x s'"
  by (simp add: bindN_def)

lemma bindN_mono [partial_function_mono]:
  fixes m :: "('x \<Rightarrow> 'y option) \<Rightarrow> ('s, 'a) N"
  assumes "mono_option (\<lambda>f. m f s)" and "\<And>x s'. mono_option (\<lambda>f. g f x s')"
  shows "mono_option (\<lambda>f. bindN (m f) (g f) s)"
proof (rule monotoneI)
  fix a b :: "'x \<Rightarrow> 'y option"
  assume ab: "fun_ord option_ord a b"
  have m: "m a s = None \<or> m a s = m b s" using assms(1) ab unfolding monotone_def flat_ord_def by blast
  have g: "g a x s' = None \<or> g a x s' = g b x s'" for x s'
    using assms(2) [of x s'] ab unfolding monotone_def flat_ord_def by blast
  show "option_ord (bindN (m a) (g a) s) (bindN (m b) (g b) s)"
  proof (cases "m a s")
    case (Some r)
    then have "m b s = Some r" using m by simp
    then show ?thesis using Some g by (cases "fst r"; cases r) (auto simp: bindN_def flat_ord_def)
  qed (simp add: bindN_def flat_ord_def)
qed

text \<open>
  \<open>preserves f m\<close>: however \<open>m\<close> ends, by returning or by throwing, it leaves the component \<open>f\<close> of
  the state alone. \<open>only_errors P m\<close>: whatever \<open>m\<close> throws satisfies \<open>P\<close>.
\<close>

definition preserves :: "('s \<Rightarrow> 'c) \<Rightarrow> ('s, 'a) M \<Rightarrow> bool" where
  "preserves f m \<longleftrightarrow> (\<forall>s. f (snd (m s)) = f s)"

named_theorems preserves_intros "computations that leave a state component alone"

lemma preservesD: "preserves f m \<Longrightarrow> f (snd (m s)) = f s"
  by (simp add: preserves_def)

lemma preserves_apply: "preserves f m \<Longrightarrow> m s = (r, s') \<Longrightarrow> f s' = f s"
  by (metis preservesD snd_conv)

lemma preserves_returnM [preserves_intros]: "preserves f (returnM x)"
  by (simp add: preserves_def)

lemma preserves_Pair [preserves_intros, simp]: "preserves f (Pair r)"
  by (simp add: preserves_def)

lemma preserves_throwM [preserves_intros]: "preserves f (throwM e)"
  by (simp add: preserves_def)

lemma preserves_getM [preserves_intros]: "preserves f (getM g)"
  by (simp add: preserves_def)

lemma preserves_liftE [preserves_intros]: "preserves f (liftE r)"
  by (simp add: preserves_def)

lemma preserves_modifyM: "(\<And>s. f (g s) = f s) \<Longrightarrow> preserves f (modifyM g)"
  by (simp add: preserves_def)

lemma preserves_bindM [preserves_intros]:
  assumes "preserves f m" and "\<And>x. preserves f (k x)"
  shows "preserves f (bindM m k)"
proof -
  have "f (snd (bindM m k s)) = f s" for s
  proof -
    obtain r s' where r: "m s = (r, s')" by fastforce
    have "f s' = f s" using assms(1) r by (rule preserves_apply)
    then show ?thesis
      using preservesD [OF assms(2)] r by (cases r) (simp_all add: bindM_def)
  qed
  then show ?thesis by (simp add: preserves_def)
qed

lemma preserves_catchM [preserves_intros]:
  assumes "preserves f m" and "\<And>e. preserves f (h e)"
  shows "preserves f (catchM m h)"
proof -
  have "f (snd (catchM m h s)) = f s" for s
  proof -
    obtain r s' where r: "m s = (r, s')" by fastforce
    have "f s' = f s" using assms(1) r by (rule preserves_apply)
    then show ?thesis
      using preservesD [OF assms(2)] r by (cases r) (simp_all add: catchM_def)
  qed
  then show ?thesis by (simp add: preserves_def)
qed

lemma preserves_if [preserves_intros]:
  "(b \<Longrightarrow> preserves f m) \<Longrightarrow> (\<not> b \<Longrightarrow> preserves f n) \<Longrightarrow> preserves f (if b then m else n)"
  by simp

lemma preserves_case_option [preserves_intros]:
  "(x = None \<Longrightarrow> preserves f m) \<Longrightarrow> (\<And>y. x = Some y \<Longrightarrow> preserves f (n y)) \<Longrightarrow>
   preserves f (case x of None \<Rightarrow> m | Some y \<Rightarrow> n y)"
  by (cases x) simp_all

lemma preserves_case_prod [preserves_intros]:
  "(\<And>a b. p = (a, b) \<Longrightarrow> preserves f (n a b)) \<Longrightarrow> preserves f (case p of (a, b) \<Rightarrow> n a b)"
  by (cases p) simp

lemma preserves_Let [preserves_intros]:
  "(\<And>x. preserves f (n x)) \<Longrightarrow> preserves f (let x = v in n x)"
  by simp

text \<open>\<open>never_throws m\<close>: in every state \<open>m\<close> returns.\<close>

definition never_throws :: "('s, 'a) M \<Rightarrow> bool" where
  "never_throws m \<longleftrightarrow> (\<forall>s. \<exists>r s'. m s = (Inr r, s'))"

named_theorems total_intros "computations that always return"

lemma never_throwsE:
  assumes "never_throws m"
  obtains r s' where "m s = (Inr r, s')"
  using assms unfolding never_throws_def by blast

lemma never_throws_basic [total_intros]:
  "never_throws (returnM x)" "never_throws (getM g)" "never_throws (modifyM h)"
  by (simp_all add: never_throws_def)

lemma never_throws_Pair [total_intros, simp]: "never_throws (Pair (Inr x))"
  by (simp add: never_throws_def)

lemma never_throws_liftE [total_intros]: "r = Inr x \<Longrightarrow> never_throws (liftE r)"
  by (simp add: never_throws_def)

lemma never_throws_bindM [total_intros]:
  assumes "never_throws m" and "\<And>x. never_throws (k x)"
  shows "never_throws (bindM m k)"
proof -
  have "\<exists>r s'. bindM m k s = (Inr r, s')" for s
  proof -
    obtain x s1 where m: "m s = (Inr x, s1)" using assms(1) by (rule never_throwsE)
    obtain r s' where "k x s1 = (Inr r, s')" using assms(2) by (rule never_throwsE)
    with m show ?thesis by (simp add: bindM_def)
  qed
  then show ?thesis by (simp add: never_throws_def)
qed

lemma never_throws_if [total_intros]:
  "(b \<Longrightarrow> never_throws m) \<Longrightarrow> (\<not> b \<Longrightarrow> never_throws n) \<Longrightarrow> never_throws (if b then m else n)"
  by simp

lemma never_throws_case [total_intros]:
  "(x = None \<Longrightarrow> never_throws m) \<Longrightarrow> (\<And>y. x = Some y \<Longrightarrow> never_throws (n y)) \<Longrightarrow>
   never_throws (case x of None \<Rightarrow> m | Some y \<Rightarrow> n y)"
  "(\<And>a b. p = (a, b) \<Longrightarrow> never_throws (k a b)) \<Longrightarrow> never_throws (case p of (a, b) \<Rightarrow> k a b)"
  "(\<And>e. r = Inl e \<Longrightarrow> never_throws (f e)) \<Longrightarrow> (\<And>v. r = Inr v \<Longrightarrow> never_throws (g v)) \<Longrightarrow>
   never_throws (case r of Inl e \<Rightarrow> f e | Inr v \<Rightarrow> g v)"
  by (cases x, simp_all) (cases p, simp, cases r, simp_all)

lemma preserves_case_sum [preserves_intros]:
  "(\<And>e. r = Inl e \<Longrightarrow> preserves h (f e)) \<Longrightarrow> (\<And>v. r = Inr v \<Longrightarrow> preserves h (g v)) \<Longrightarrow>
   preserves h (case r of Inl e \<Rightarrow> f e | Inr v \<Rightarrow> g v)"
  by (cases r) simp_all

subsection \<open>size\_t arithmetic\<close>

lemma unat_ucast_up [simp]:
  fixes w :: "'a::len word"
  assumes "LENGTH('a) \<le> LENGTH('b::len)"
  shows "unat (ucast w :: 'b word) = unat w"
proof -
  have "unat w < 2 ^ LENGTH('a)" by (rule unsigned_less)
  also have "\<dots> \<le> 2 ^ LENGTH('b)" using assms by simp
  finally show ?thesis by (simp add: unsigned_ucast_eq take_bit_nat_eq_self)
qed

definition sz :: "nat \<Rightarrow> nat" where
  "sz n = n mod 2 ^ 64"

definition szsub :: "nat \<Rightarrow> nat \<Rightarrow> nat" where
  "szsub a b = (a + 2 ^ 64 - b mod 2 ^ 64) mod 2 ^ 64"

lemma sz_id [simp]: "n < 2 ^ 64 \<Longrightarrow> sz n = n"
  by (simp add: sz_def)

lemma sz_less [simp]: "sz n < 2 ^ 64"
  by (simp add: sz_def)

lemma szsub_id: "b \<le> a \<Longrightarrow> a < 2 ^ 64 \<Longrightarrow> szsub a b = a - b"
proof -
  assume h: "b \<le> a" "a < 2 ^ 64"
  then have "b mod 2 ^ 64 = b" by simp
  then have "szsub a b = ((a - b) + 2 ^ 64) mod 2 ^ 64" using h by (simp add: szsub_def)
  also have "\<dots> = (a - b) mod 2 ^ 64" by (rule mod_add_self2)
  also have "\<dots> = a - b" using h by simp
  finally show ?thesis .
qed

subsection \<open>Fixed-size memory\<close>

text \<open>
  A buffer is the list of its bytes. \<open>memcpy_at\<close> writes \<open>src\<close> at an offset, \<open>memmove_at\<close> copies
  inside the buffer; both are \<open>Undefined\<close> when they leave it.
\<close>

definition memcpy_at :: "nat \<Rightarrow> byte list \<Rightarrow> byte list \<Rightarrow> byte list res" where
  "memcpy_at off src buf =
     (if off + length src \<le> length buf
      then Inr (take off buf @ src @ drop (off + length src) buf)
      else Inl (Undefined ''write outside of buffer''))"

definition memmove_at :: "nat \<Rightarrow> nat \<Rightarrow> nat \<Rightarrow> byte list \<Rightarrow> byte list res" where
  "memmove_at dst src n buf =
     (if src + n \<le> length buf then memcpy_at dst (take n (drop src buf)) buf
      else Inl (Undefined ''read outside of buffer''))"

lemma memcpy_at_ok:
  "off + length src \<le> length buf \<Longrightarrow>
   memcpy_at off src buf = Inr (take off buf @ src @ drop (off + length src) buf)"
  by (simp add: memcpy_at_def)

lemma memcpy_at_length: "memcpy_at off src buf = Inr buf' \<Longrightarrow> length buf' = length buf"
  by (auto simp: memcpy_at_def split: if_splits)

lemma memmove_at_ok:
  "src + n \<le> length buf \<Longrightarrow> dst + n \<le> length buf \<Longrightarrow>
   memmove_at dst src n buf = Inr (take dst buf @ take n (drop src buf) @ drop (dst + n) buf)"
  by (simp add: memmove_at_def memcpy_at_def)

lemma memmove_at_length: "memmove_at dst src n buf = Inr buf' \<Longrightarrow> length buf' = length buf"
  by (auto simp: memmove_at_def dest: memcpy_at_length split: if_splits)

lemma memcpy_at_Inr_iff:
  "memcpy_at off src buf = Inr buf' \<longleftrightarrow>
   off + length src \<le> length buf \<and> buf' = take off buf @ src @ drop (off + length src) buf"
  by (auto simp: memcpy_at_def)

text \<open>
  What \<open>new uint8_t[n]\<close> returns: \<open>n\<close> bytes of indeterminate content. The content is a
  parameter, so a theorem for every \<open>junk\<close> says that it cannot be observed.
\<close>

definition fresh :: "(nat \<Rightarrow> byte) \<Rightarrow> nat \<Rightarrow> byte list" where
  "fresh junk n = map junk [0..<n]"

lemma length_fresh [simp]: "length (fresh junk n) = n"
  by (simp add: fresh_def)

subsection \<open>Lists\<close>

lemma take_drop_split: "a \<le> b \<Longrightarrow> take a xs @ take (b - a) (drop a xs) = take b xs"
  using take_add [of a "b - a" xs] by simp

lemma concat_replicate_Nil [simp]: "concat (replicate n []) = []"
  by (induction n) simp_all

end
