(* ===== verification/Endian.thy ===== *)
theory Endian
  imports Prelude
begin

section \<open>Byte order\<close>

text \<open>
  src/common/endian.h and the \<open>htons\<close> family of src/common/inet.h on a little-endian host, and
  the bytes an integer occupies in memory there.
\<close>

definition htons :: "u16 \<Rightarrow> u16" where
  "htons v = push_bit 8 v OR drop_bit 8 v"

definition htonl :: "u32 \<Rightarrow> u32" where
  "htonl v = push_bit 24 v OR (push_bit 8 v AND 0x00ff0000)
     OR (drop_bit 8 v AND 0x0000ff00) OR drop_bit 24 v"

definition toBE16 :: "u16 \<Rightarrow> u16" where
  "toBE16 v = htons v"

definition toBE32 :: "u32 \<Rightarrow> u32" where
  "toBE32 v = htonl v"

definition toBE64 :: "u64 \<Rightarrow> u64" where
  "toBE64 v = push_bit 32 (ucast (htonl (ucast v))) OR ucast (htonl (ucast (drop_bit 32 v)))"

definition toLE16 :: "u16 \<Rightarrow> u16" where
  "toLE16 v = v"

definition toLE32 :: "u32 \<Rightarrow> u32" where
  "toLE32 v = v"

definition toLE64 :: "u64 \<Rightarrow> u64" where
  "toLE64 v = v"

text \<open>Object representation of the unsigned types.\<close>

definition mem16 :: "u16 \<Rightarrow> byte list" where
  "mem16 v = [ucast v, ucast (drop_bit 8 v)]"

definition mem32 :: "u32 \<Rightarrow> byte list" where
  "mem32 v = [ucast v, ucast (drop_bit 8 v), ucast (drop_bit 16 v), ucast (drop_bit 24 v)]"

definition mem64 :: "u64 \<Rightarrow> byte list" where
  "mem64 v = mem32 (ucast v) @ mem32 (ucast (drop_bit 32 v))"

text \<open>Network order, the order a receiver reads.\<close>

definition be16 :: "u16 \<Rightarrow> byte list" where
  "be16 v = [ucast (drop_bit 8 v), ucast v]"

definition be32 :: "u32 \<Rightarrow> byte list" where
  "be32 v = [ucast (drop_bit 24 v), ucast (drop_bit 16 v), ucast (drop_bit 8 v), ucast v]"

definition be64 :: "u64 \<Rightarrow> byte list" where
  "be64 v = be32 (ucast (drop_bit 32 v)) @ be32 (ucast v)"

definition rd16 :: "byte \<Rightarrow> byte \<Rightarrow> u16" where
  "rd16 a b = push_bit 8 (ucast a) OR ucast b"

definition rd32 :: "byte list \<Rightarrow> u32" where
  "rd32 bs = foldl (\<lambda>acc b. push_bit 8 acc OR ucast b) 0 bs"

lemma htons_involution [simp]: "htons (htons v) = v"
  by (rule bit_word_eqI) (auto simp: htons_def bit_simps)

lemma mem16_htons: "mem16 (htons v) = be16 v"
  by (auto simp: mem16_def be16_def htons_def bit_simps intro!: bit_word_eqI)

lemma mem16_toBE16: "mem16 (toBE16 v) = be16 v"
  by (simp add: toBE16_def mem16_htons)

lemma mask_bits:
  "bit (0x00ff0000 :: u32) n \<longleftrightarrow> 16 \<le> n \<and> n < 24"
  "bit (0x0000ff00 :: u32) n \<longleftrightarrow> 8 \<le> n \<and> n < 16"
proof -
  have a: "(0x00ff0000 :: u32) = push_bit 16 (mask 8)" by (simp add: mask_eq_exp_minus_1)
  have b: "(0x0000ff00 :: u32) = push_bit 8 (mask 8)" by (simp add: mask_eq_exp_minus_1)
  show "bit (0x00ff0000 :: u32) n \<longleftrightarrow> 16 \<le> n \<and> n < 24"
    unfolding a by (auto simp: bit_simps)
  show "bit (0x0000ff00 :: u32) n \<longleftrightarrow> 8 \<le> n \<and> n < 16"
    unfolding b by (auto simp: bit_simps)
qed

lemma bit_beyond [simp]: "LENGTH('a) \<le> n \<Longrightarrow> \<not> bit (w :: 'a::len word) n"
  by (meson bit_imp_le_length leD)

lemma bit_htonl:
  "bit (htonl v) n \<longleftrightarrow>
    (if n < 8 then bit v (n + 24) else if n < 16 then bit v (n + 8)
     else if n < 24 then bit v (n - 8) else n < 32 \<and> bit v (n - 24))"
  unfolding htonl_def bit_or_iff bit_and_iff mask_bits
  by (auto simp: bit_simps add.commute)

lemma mem32_htonl: "mem32 (htonl v) = be32 v"
  by (auto simp: mem32_def be32_def bit_htonl bit_simps add.commute intro!: bit_word_eqI)

lemma mem32_toBE32: "mem32 (toBE32 v) = be32 v"
  by (simp add: toBE32_def mem32_htonl)

lemma mem64_toBE64: "mem64 (toBE64 v) = be64 v"
proof -
  have lo: "(ucast (toBE64 v) :: u32) = htonl (ucast (drop_bit 32 v))"
    by (rule bit_word_eqI) (auto simp: toBE64_def bit_simps)
  have hi: "(ucast (drop_bit 32 (toBE64 v)) :: u32) = htonl (ucast v)"
    by (rule bit_word_eqI) (auto simp: toBE64_def bit_simps)
  show ?thesis by (simp add: mem64_def be64_def lo hi mem32_htonl)
qed

lemma length_mem [simp]:
  "length (mem16 v) = 2" "length (mem32 w) = 4" "length (mem64 x) = 8"
  "length (be16 v) = 2" "length (be32 w) = 4" "length (be64 x) = 8"
  by (simp_all add: mem16_def mem32_def mem64_def be16_def be32_def be64_def)

lemma rd16_be16: "rd16 (ucast (drop_bit 8 v)) (ucast v) = v"
  by (rule bit_word_eqI) (auto simp: rd16_def bit_simps)

lemma be16_rd16: "be16 (rd16 a b) = [a, b]"
  by (auto simp: be16_def rd16_def bit_simps intro!: bit_word_eqI)

lemma be16_inject [simp]: "be16 v = be16 w \<longleftrightarrow> v = w"
  by (metis be16_def list.inject rd16_be16)

lemma bit_rd32:
  "bit (rd32 [a, b, c, d]) n \<longleftrightarrow>
    (if n < 8 then bit d n else if n < 16 then bit c (n - 8)
     else if n < 24 then bit b (n - 16) else n < 32 \<and> bit a (n - 24))"
  by (auto simp: rd32_def bit_simps)

lemma rd32_be32: "rd32 (be32 v) = v"
  unfolding be32_def by (rule bit_word_eqI) (auto simp: bit_rd32 bit_simps)

lemma be32_rd32: "be32 (rd32 [a, b, c, d]) = [a, b, c, d]"
  by (auto simp: be32_def bit_rd32 bit_simps intro!: bit_word_eqI)

lemma unat_rd16: "unat (rd16 a b) = unat a * 256 + unat b"
proof -
  have "(push_bit 8 (ucast a :: u16)) AND ucast b = 0"
    by (rule bit_word_eqI) (auto simp: bit_simps)
  then have "rd16 a b = push_bit 8 (ucast a) + ucast b"
    unfolding rd16_def by (simp add: disjunctive_add_eq_or)
  also have "\<dots> = word_of_nat (unat a * 256 + unat b)"
    by (simp add: push_bit_eq_mult)
  finally have eq: "rd16 a b = word_of_nat (unat a * 256 + unat b)" .
  have "unat a * 256 + unat b < 2 ^ 16"
    using unsigned_less [of a, where 'a = nat] unsigned_less [of b, where 'a = nat] by simp
  then show ?thesis by (simp only: eq unat_of_nat) simp
qed

end
