(* ===== verification/Environment.thy ===== *)
theory Environment
  imports Endian
begin

section \<open>The state every component shares\<close>

text \<open>
  The program keeps some state outside of its objects: the random source (src/common/random.cpp,
  \<open>cRandom::instance\<close>), the settings (src/common/settings.cpp, \<open>globalSettings\<close>), the counters
  \<open>cIPv4Packet::nextIdentification\<close> and \<open>cTcpPacket::sequence\<close>, and \<open>errno\<close>. All of it is one
  record that is passed along.

  Three of its fields stand for what the sources do not define: \<open>prng\<close> is the stream of the
  library's Mersenne twister and \<open>prngPos\<close> how much of it was used, \<open>junk\<close> the content of memory
  fresh from \<open>new[]\<close>, \<open>inet_pton6\<close> the C library's \<open>inet_pton(AF_INET6)\<close>. No theorem assumes
  anything of the first two.
\<close>

record env =
  countOnly :: bool
  seq :: u64
  prng :: "nat \<Rightarrow> u64"
  prngPos :: nat
  errno_range :: bool
  m_hasMAC :: bool
  m_hasIPv4 :: bool
  m_hasIPv6 :: bool
  m_myMAC :: "byte list"
  m_myIP :: "byte list"
  m_myIPv6 :: "byte list"
  m_mtu :: u32
  m_ifName :: string
  nextIdentification :: u16
  tcp_sequence :: u32
  junk_of :: "nat \<Rightarrow> byte"
  inet_pton6 :: "string \<Rightarrow> byte list option"

text \<open>
  The state at the start of \<open>main\<close>: the initialisers of settings.cpp, ippacket.cpp (\<open>1\<close>) and
  tcppacket.cpp (\<open>42\<close>), with the two counters' and settings' defaults.
\<close>

definition initial_env :: "(nat \<Rightarrow> u64) \<Rightarrow> (nat \<Rightarrow> byte) \<Rightarrow> (string \<Rightarrow> byte list option) \<Rightarrow> env" where
  "initial_env rnd jk pton = \<lparr>countOnly = False, seq = 0, prng = rnd, prngPos = 0, errno_range = False,
     m_hasMAC = False, m_hasIPv4 = False, m_hasIPv6 = False, m_myMAC = replicate 6 0,
     m_myIP = replicate 4 0, m_myIPv6 = replicate 16 0, m_mtu = 1500, m_ifName = [],
     nextIdentification = 1, tcp_sequence = 42, junk_of = jk, inet_pton6 = pton\<rparr>"

subsection \<open>cRandom\<close>

definition setCounterMode :: "u32 \<Rightarrow> ('z env_scheme, unit) M" where
  "setCounterMode startValue = modifyM (\<lambda>s. s\<lparr>countOnly := True, seq := ucast startValue\<rparr>)"

definition sequence_next :: "('z env_scheme, u64) M" where
  "sequence_next = bindM (getM seq) (\<lambda>r. bindM (modifyM (\<lambda>s. s\<lparr>seq := seq s + 1\<rparr>)) (\<lambda>_. returnM r))"

definition pseudoRandom :: "('z env_scheme, u64) M" where
  "pseudoRandom =
     bindM (getM (\<lambda>s. prng s (prngPos s))) (\<lambda>r.
     bindM (modifyM (\<lambda>s. s\<lparr>prngPos := prngPos s + 1\<rparr>)) (\<lambda>_. returnM r))"

definition rand :: "u64 \<Rightarrow> u64 \<Rightarrow> ('z env_scheme, u64) M" where
  "rand lo hi =
     bindM (getM countOnly) (\<lambda>count.
     bindM (if count then sequence_next else pseudoRandom) (\<lambda>r.
     let range = hi - lo + 1
     in returnM ((if range \<noteq> 0 then r mod range else r) + lo)))"

definition rand64 :: "u64 \<Rightarrow> u64 \<Rightarrow> ('z env_scheme, u64) M" where
  "rand64 lo hi = rand lo hi"

definition rand32 :: "u32 \<Rightarrow> u32 \<Rightarrow> ('z env_scheme, u32) M" where
  "rand32 lo hi = bindM (rand (ucast lo) (ucast hi)) (\<lambda>r. returnM (ucast r))"

definition rand16 :: "u16 \<Rightarrow> u16 \<Rightarrow> ('z env_scheme, u16) M" where
  "rand16 lo hi = bindM (rand (ucast lo) (ucast hi)) (\<lambda>r. returnM (ucast r))"

definition rand8 :: "byte \<Rightarrow> byte \<Rightarrow> ('z env_scheme, byte) M" where
  "rand8 lo hi = bindM (rand (ucast lo) (ucast hi)) (\<lambda>r. returnM (ucast r))"

text \<open>
  \<open>rand (p, len)\<close> fills a block with the widest aligned stores; \<open>al\<close> is the block's address.
\<close>

fun rand_words :: "nat \<Rightarrow> ('z env_scheme, byte list) M" where
  "rand_words 0 = returnM []"
| "rand_words (Suc n) =
     bindM pseudoRandom (\<lambda>r. bindM (rand_words n) (\<lambda>bs. returnM (mem32 (ucast r) @ bs)))"

definition rand_byte_if :: "bool \<Rightarrow> ('z env_scheme, byte list) M" where
  "rand_byte_if b = (if b then bindM pseudoRandom (\<lambda>r. returnM [ucast r]) else returnM [])"

definition rand_half_if :: "bool \<Rightarrow> ('z env_scheme, byte list) M" where
  "rand_half_if b = (if b then bindM pseudoRandom (\<lambda>r. returnM (mem16 (ucast r))) else returnM [])"

definition rand_aligned :: "nat \<Rightarrow> ('z env_scheme, byte list) M" where
  "rand_aligned len =
     bindM (rand_words (len div 4)) (\<lambda>b2.
     bindM (rand_half_if (len mod 4 \<ge> 2)) (\<lambda>b3.
     bindM (rand_byte_if (odd len)) (\<lambda>b4. returnM (b2 @ b3 @ b4))))"

definition rand_buf :: "nat \<Rightarrow> nat \<Rightarrow> ('z env_scheme, byte list) M" where
  "rand_buf al len =
     bindM (getM countOnly) (\<lambda>count.
     if count then returnM (map of_nat [0..<len])
     else if odd al \<and> len = 0 then throwM (Undefined ''write outside of buffer'')
     else bindM (rand_byte_if (odd al)) (\<lambda>b0.
          let al = al + length b0;
              len = len - length b0
          in bindM (rand_half_if (len \<ge> 2 \<and> odd (al div 2))) (\<lambda>b1.
             bindM (rand_aligned (len - length b1)) (\<lambda>b2. returnM (b0 @ b1 @ b2)))))"

subsection \<open>What a random source promises\<close>

text \<open>
  A bounded draw never fails and stays inside its bounds. The address and parameter parsers use
  no more of \<open>cRandom\<close> than this.
\<close>

locale random_source =
  fixes draw :: "u64 \<Rightarrow> u64 \<Rightarrow> ('s, u64) M"
  assumes draw_total: "\<exists>r s'. draw lo hi s = (Inr r, s')"
    and draw_bounds: "lo \<le> hi \<Longrightarrow> draw lo hi s = (Inr r, s') \<Longrightarrow> lo \<le> r \<and> r \<le> hi"
begin

lemma draw_eqE:
  obtains r s' where "draw lo hi s = (Inr r, s')"
  using draw_total by blast

lemma draw_same: "draw v v s = (Inr r, s') \<Longrightarrow> r = v"
  using draw_bounds [of v v s r s'] by (simp add: order_antisym)

lemma draw_fits: "lo \<le> hi \<Longrightarrow> hi < 2 ^ n \<Longrightarrow> n < 64 \<Longrightarrow> draw lo hi s = (Inr r, s') \<Longrightarrow> r < 2 ^ n"
  using draw_bounds order_le_less_trans by blast

end

lemma mod_range_bounds:
  assumes "lo \<le> hi" and "hi - lo + 1 \<noteq> (0 :: u64)"
  shows "lo \<le> r mod (hi - lo + 1) + lo \<and> r mod (hi - lo + 1) + lo \<le> hi"
proof -
  let ?m = "r mod (hi - lo + 1)"
  have d: "unat (hi - lo) = unat hi - unat lo"
    using assms(1) by (simp add: unat_sub)
  have n: "unat (hi - lo + 1) = unat hi - unat lo + 1"
  proof -
    have eq: "unat (hi - lo + 1) = (unat (hi - lo) + 1) mod 2 ^ 64"
      by (simp add: unat_word_ariths)
    have "unat (hi - lo) + 1 \<noteq> 2 ^ 64"
      using assms(2) eq by (metis mod_self unat_eq_zero)
    then have "unat (hi - lo) + 1 < 2 ^ 64"
      using unsigned_less [of "hi - lo", where 'a = nat] by simp
    then show ?thesis using eq d by simp
  qed
  have m: "unat ?m \<le> unat hi - unat lo"
  proof -
    have "unat ?m = unat r mod unat (hi - lo + 1)" by (simp add: unat_mod)
    also have "\<dots> < unat (hi - lo + 1)" using n by (intro mod_less_divisor) simp
    finally show ?thesis using n by simp
  qed
  have le: "unat lo \<le> unat hi" using assms(1) by (simp add: word_le_nat_alt)
  have "unat ?m + unat lo < 2 ^ 64"
    using m le unsigned_less [of hi, where 'a = nat] by simp
  then have "unat (?m + lo) = unat ?m + unat lo"
    by (simp add: unat_word_ariths)
  then show ?thesis using m le by (simp add: word_le_nat_alt)
qed

lemma full_range:
  assumes "hi - lo + 1 = (0 :: u64)" and "lo \<le> hi"
  shows "lo = 0 \<and> hi = - 1"
proof -
  have lo: "hi + 1 = lo" using assms(1) by (simp add: algebra_simps)
  have "hi = - 1"
  proof (rule ccontr)
    assume "hi \<noteq> - 1"
    then have "hi + 1 \<noteq> 0" by (simp add: add_eq_0_iff2)
    moreover have "unat (hi + 1) = (unat hi + 1) mod 2 ^ 64" by (simp add: unat_word_ariths)
    ultimately have "unat hi + 1 \<noteq> 2 ^ 64" by (metis mod_self unat_eq_zero)
    then have "unat hi + 1 < 2 ^ 64"
      using unsigned_less [of hi, where 'a = nat] by simp
    then have "unat (hi + 1) = unat hi + 1" by (simp add: unat_word_ariths)
    with lo assms(2) show False by (simp add: word_le_nat_alt)
  qed
  with lo show ?thesis by simp
qed

lemma rand_total: "\<exists>r s'. rand lo hi s = (Inr r, s')"
  by (cases "countOnly s")
    (simp_all add: rand_def bindM_def sequence_next_def pseudoRandom_def Let_def)

lemma rand_bounds: "lo \<le> hi \<Longrightarrow> rand lo hi s = (Inr r, s') \<Longrightarrow> lo \<le> r \<and> r \<le> hi"
proof -
  assume le: "lo \<le> hi" and r: "rand lo hi s = (Inr r, s')"
  obtain q where q: "r = (if hi - lo + 1 \<noteq> 0 then q mod (hi - lo + 1) else q) + lo"
    using r by (cases "countOnly s")
      (auto simp: rand_def bindM_def sequence_next_def pseudoRandom_def Let_def)
  show ?thesis
  proof (cases "hi - lo + 1 = 0")
    case True
    with le have "lo = 0 \<and> hi = - 1" by (rule full_range [rotated])
    then show ?thesis by simp
  next
    case False
    with le q show ?thesis using mod_range_bounds [OF le False, of q] by simp
  qed
qed

interpretation rng: random_source rand
  by unfold_locales (fact rand_total, fact rand_bounds)

lemma never_throws_rand8 [total_intros]: "never_throws (rand8 lo hi)"
  unfolding rand8_def
  by (intro total_intros) (simp add: never_throws_def rand_total)

lemma rand8_total: "\<exists>r s'. rand8 lo hi s = (Inr r, s')"
proof -
  obtain r s' where "rand (ucast lo) (ucast hi) s = (Inr r, s')" by (rule rng.draw_eqE)
  then show ?thesis by (simp add: rand8_def bindM_def)
qed

lemma rand8_bounds:
  assumes "lo \<le> hi" and "rand8 lo hi s = (Inr b, s')"
  shows "lo \<le> b \<and> b \<le> hi"
proof -
  obtain r where r: "rand (ucast lo) (ucast hi) s = (Inr r, s')" and b: "b = ucast r"
    using assms(2) unfolding rand8_def by auto
  have le: "(ucast lo :: u64) \<le> ucast hi"
    using assms(1) by (simp add: word_le_nat_alt)
  have "(ucast lo :: u64) \<le> r \<and> r \<le> ucast hi"
    using rng.draw_bounds [OF le r] .
  then have n: "unat lo \<le> unat r" "unat r \<le> unat hi"
    by (simp_all add: word_le_nat_alt)
  moreover have "unat b = unat r"
    using n(2) unsigned_less [of hi, where 'a = nat]
    by (simp add: b unsigned_ucast_eq take_bit_eq_mod)
  ultimately show ?thesis by (simp add: word_le_nat_alt)
qed

text \<open>A component of the state that the random source and \<open>errno\<close> do not touch.\<close>

definition rng_neutral :: "('z env_scheme \<Rightarrow> 'c) \<Rightarrow> bool" where
  "rng_neutral f \<longleftrightarrow> (\<forall>s v. f (s\<lparr>seq := v\<rparr>) = f s) \<and> (\<forall>s v. f (s\<lparr>prngPos := v\<rparr>) = f s)
     \<and> (\<forall>s v. f (s\<lparr>errno_range := v\<rparr>) = f s)"

lemma preserves_pseudoRandom [preserves_intros]: "rng_neutral f \<Longrightarrow> preserves f pseudoRandom"
  by (auto simp: pseudoRandom_def rng_neutral_def intro!: preserves_intros preserves_modifyM)

lemma preserves_rand [preserves_intros]: "rng_neutral f \<Longrightarrow> preserves f (rand lo hi)"
  by (auto simp: rand_def sequence_next_def rng_neutral_def Let_def
      intro!: preserves_intros preserves_modifyM)

lemma preserves_randN [preserves_intros]:
  assumes "rng_neutral f"
  shows "preserves f (rand8 a b)" "preserves f (rand16 c d)" "preserves f (rand32 e g)"
    "preserves f (rand64 h i)"
  by (auto simp: rand8_def rand16_def rand32_def rand64_def intro!: preserves_intros assms)

lemma preserves_set_errno [preserves_intros]:
  "rng_neutral f \<Longrightarrow> preserves f (modifyM (\<lambda>s. s\<lparr>errno_range := e\<rparr>))"
  by (simp add: rng_neutral_def preserves_modifyM)

lemma preserves_rand_words [preserves_intros]: "rng_neutral f \<Longrightarrow> preserves f (rand_words n)"
proof (induction n)
  case (Suc n)
  then show ?case unfolding rand_words.simps by (intro preserves_intros)
qed (simp add: preserves_intros)

lemma preserves_rand_parts [preserves_intros]:
  assumes "rng_neutral f"
  shows "preserves f (rand_byte_if b)" "preserves f (rand_half_if b)"
  unfolding rand_byte_if_def rand_half_if_def by (intro preserves_intros assms)+

lemma preserves_rand_buf [preserves_intros]: "rng_neutral f \<Longrightarrow> preserves f (rand_buf al len)"
  unfolding rand_buf_def rand_aligned_def by (intro preserves_intros)

text \<open>\<open>rand (p, len)\<close> fills exactly its block.\<close>

lemma rand_words_length: "rand_words n s = (Inr bs, s') \<Longrightarrow> length bs = 4 * n"
proof (induction n arbitrary: s bs s')
  case (Suc n)
  from Suc.prems obtain r :: u64 and s1 bs' where
    "rand_words n s1 = (Inr bs', s')" and "bs = mem32 (ucast r) @ bs'"
    by auto
  with Suc.IH show ?case by fastforce
qed auto

lemma rand_parts_length:
  "rand_byte_if b s = (Inr bs, s') \<Longrightarrow> length bs = of_bool b"
  "rand_half_if b s = (Inr bs, s') \<Longrightarrow> length bs = 2 * of_bool b"
  by (auto simp: rand_byte_if_def rand_half_if_def split: if_splits)

lemma rand_aligned_length:
  assumes "rand_aligned len s = (Inr bs, s')"
  shows "length bs = len"
proof -
  from assms obtain b2 b3 b4 s2 s3 where
    "rand_words (len div 4) s = (Inr b2, s2)" "rand_half_if (len mod 4 \<ge> 2) s2 = (Inr b3, s3)"
    "rand_byte_if (odd len) s3 = (Inr b4, s')" and bs: "bs = b2 @ b3 @ b4"
    unfolding rand_aligned_def by auto
  then have "length bs = 4 * (len div 4) + 2 * of_bool (len mod 4 \<ge> 2) + of_bool (odd len)"
    using rand_words_length [of "len div 4" s b2 s2] rand_parts_length(2) [of "len mod 4 \<ge> 2" s2 b3 s3]
      rand_parts_length(1) [of "odd len" s3 b4 s'] by simp
  also have "\<dots> = len"
  proof -
    have "len mod 4 = (if len mod 4 \<ge> 2 then 2 else 0) + (if odd len then 1 else 0)" by presburger
    then have "len mod 4 = 2 * of_bool (len mod 4 \<ge> 2) + of_bool (odd len)" by (simp split: if_splits)
    then show ?thesis using mult_div_mod_eq [of 4 len] by linarith
  qed
  finally show ?thesis .
qed

lemma rand_buf_length:
  assumes "rand_buf al len s = (Inr bs, s')"
  shows "length bs = len"
proof (cases "countOnly s")
  case True
  with assms show ?thesis by (auto simp: rand_buf_def bindM_def)
next
  case False
  from assms False obtain b0 b1 b2 s0 s1 where
    ne: "\<not> (odd al \<and> len = 0)" and
    b0: "rand_byte_if (odd al) s = (Inr b0, s0)" and
    b1: "rand_half_if (len - length b0 \<ge> 2 \<and> odd ((al + length b0) div 2)) s0 = (Inr b1, s1)" and
    b2: "rand_aligned (len - length b0 - length b1) s1 = (Inr b2, s')" and
    bs: "bs = b0 @ b1 @ b2"
    unfolding rand_buf_def Let_def
    by (auto elim!: bindM_InrE split: if_splits)
  have "length b0 \<le> len" using rand_parts_length(1) [OF b0] ne by auto
  moreover have "length b1 \<le> len - length b0"
    using rand_parts_length(2) [OF b1] by (simp split: if_splits)
  ultimately show ?thesis using rand_aligned_length [OF b2] by (simp add: bs)
qed

end
