(* ===== verification/ParseHelper.thy ===== *)
theory ParseHelper
  imports Prelude
begin

section \<open>Characters and numbers of the instruction language\<close>

text \<open>
  src/compiler/parsehelper.hpp and parsehelper.cpp. A \<open>const char*\<close> is the text from the pointer
  to the terminating NUL, so advancing the pointer drops characters and a pointer difference is a
  difference of lengths. \<open>char_at s i\<close> is \<open>s[i]\<close>. A null pointer that a function may return is
  \<open>None\<close>. The C library functions used (\<open>isspace\<close>, \<open>isalpha\<close>, \<open>isdigit\<close> in the "C" locale and
  \<open>strtoull\<close>, which is \<open>strtoul\<close> where \<open>unsigned long\<close> has 64 bits) come first.
\<close>

definition NUL :: char where
  "NUL = CHR 0x00"

definition char_at :: "string \<Rightarrow> nat \<Rightarrow> char" where
  "char_at s i = (if i < length s then s ! i else NUL)"

definition chars_at :: "string \<Rightarrow> nat \<Rightarrow> string" where
  "chars_at s n = map (char_at s) [0..<n]"

definition code_of :: "char \<Rightarrow> nat" where
  "code_of c = of_char c"

definition isspace :: "char \<Rightarrow> bool" where
  "isspace c = (code_of c = 32 \<or> 9 \<le> code_of c \<and> code_of c \<le> 13)"

definition isdigit :: "char \<Rightarrow> bool" where
  "isdigit c = (48 \<le> code_of c \<and> code_of c \<le> 57)"

definition isalpha :: "char \<Rightarrow> bool" where
  "isalpha c = (65 \<le> code_of c \<and> code_of c \<le> 90 \<or> 97 \<le> code_of c \<and> code_of c \<le> 122)"

subsection \<open>strtoull\<close>

definition digit_val :: "char \<Rightarrow> nat option" where
  "digit_val c = (if isdigit c then Some (code_of c - 48)
     else if 97 \<le> code_of c \<and> code_of c \<le> 122 then Some (code_of c - 87)
     else if 65 \<le> code_of c \<and> code_of c \<le> 90 then Some (code_of c - 55) else None)"

definition is_digit_of :: "nat \<Rightarrow> char \<Rightarrow> bool" where
  "is_digit_of base c = (case digit_val c of Some d \<Rightarrow> d < base | None \<Rightarrow> False)"

fun digits_value :: "nat \<Rightarrow> nat \<Rightarrow> string \<Rightarrow> nat" where
  "digits_value base acc [] = acc"
| "digits_value base acc (c # cs) = digits_value base (acc * base + the (digit_val c)) cs"

definition number_base :: "nat \<Rightarrow> string \<Rightarrow> nat \<times> string" where
  "number_base base s =
     (if (base = 0 \<or> base = 16) \<and> char_at s 0 = CHR ''0''
         \<and> (char_at s 1 = CHR ''x'' \<or> char_at s 1 = CHR ''X'') \<and> is_digit_of 16 (char_at s 2)
      then (16, drop 2 s)
      else if base = 0 then (if char_at s 0 = CHR ''0'' then 8 else 10, s)
      else (base, s))"

text \<open>The value, the text at \<open>endptr\<close>, and whether \<open>errno\<close> was set to \<open>ERANGE\<close>.\<close>

definition strtoull :: "string \<Rightarrow> nat \<Rightarrow> nat \<times> string \<times> bool" where
  "strtoull s base =
     (let t = dropWhile isspace s;
          neg = (char_at t 0 = CHR ''-'');
          u = (if neg \<or> char_at t 0 = CHR ''+'' then tl t else t);
          (b, v) = number_base base u;
          ds = takeWhile (is_digit_of b) v;
          n = digits_value b 0 ds
      in if ds = [] then (0, s, False)
         else if 2 ^ 64 \<le> n then (2 ^ 64 - 1, drop (length ds) v, True)
         else (if neg then (2 ^ 64 - n) mod 2 ^ 64 else n, drop (length ds) v, False))"

subsection \<open>cParseHelper\<close>

definition skipWhitespaces :: "string \<Rightarrow> string" where
  "skipWhitespaces p = dropWhile isspace p"

fun isOneOf :: "char \<Rightarrow> string \<Rightarrow> bool" where
  "isOneOf c [] = False"
| "isOneOf c (a # accept) = (if a = c then True else isOneOf c accept)"

definition accepted :: "bool \<Rightarrow> bool \<Rightarrow> string option \<Rightarrow> char \<Rightarrow> bool" where
  "accepted alpha num accept c =
     (alpha \<and> isalpha c \<or> num \<and> isdigit c
      \<or> (case accept of None \<Rightarrow> False | Some a \<Rightarrow> isOneOf c a))"

definition nextTokenStart :: "string \<Rightarrow> bool \<Rightarrow> bool \<Rightarrow> string option \<Rightarrow> string option" where
  "nextTokenStart p alpha num accept =
     (let p = skipWhitespaces p
      in if accepted alpha num accept (char_at p 0) then Some p else None)"

fun nextTokenEnd :: "string \<Rightarrow> bool \<Rightarrow> bool \<Rightarrow> string option \<Rightarrow> string" where
  "nextTokenEnd [] alpha num accept = []"
| "nextTokenEnd (c # p) alpha num accept =
     (if accepted alpha num accept c then nextTokenEnd p alpha num accept else c # p)"

definition nextKeyStart :: "string \<Rightarrow> string option" where
  "nextKeyStart p = nextTokenStart p True False None"

definition nextKeyEnd :: "string \<Rightarrow> string" where
  "nextKeyEnd p = nextTokenEnd p True True (Some ''-'')"

definition nextValueStart :: "string \<Rightarrow> string option" where
  "nextValueStart p = nextTokenStart p True True (Some [CHR 0x22, CHR ''*'', CHR ''<''])"

definition nextValueEnd :: "string \<Rightarrow> string" where
  "nextValueEnd p = nextTokenEnd p True True (Some ''.:*[-]'')"

definition nextCharIgnoreWhitspaces :: "string \<Rightarrow> char \<Rightarrow> string option" where
  "nextCharIgnoreWhitspaces p c =
     (let p = skipWhitespaces p in if p \<noteq> [] \<and> char_at p 0 = c then Some p else None)"

definition hexCharToInt :: "char \<Rightarrow> byte res" where
  "hexCharToInt c =
     (case digit_val c of
        Some d \<Rightarrow> if d < 16 then Inr (of_nat d) else Inl (OutOfRange ''invalid hex character'')
      | None \<Rightarrow> Inl (OutOfRange ''invalid hex character''))"

definition decCharToInt :: "char \<Rightarrow> nat res" where
  "decCharToInt c =
     (if isdigit c then Inr (code_of c - 48) else Inl (OutOfRange ''invalid decimal character''))"

fun hexPairs :: "string \<Rightarrow> byte list res" where
  "hexPairs (a # b # r) =
     bindE (hexCharToInt a) (\<lambda>x. bindE (hexCharToInt b) (\<lambda>y.
     bindE (hexPairs r) (\<lambda>bs. Inr ((push_bit 4 x OR y) # bs))))"
| "hexPairs _ = Inr []"

definition hexStringToBin :: "string \<Rightarrow> nat \<Rightarrow> byte list option" where
  "hexStringToBin hexString hexStringLen =
     (let len = (if hexStringLen \<noteq> 0 then hexStringLen else length hexString)
      in if len = 0 \<or> odd len then None
         else case hexPairs (chars_at hexString len) of Inl _ \<Rightarrow> None | Inr bin \<Rightarrow> Some bin)"

text \<open>
  \<open>range\<close> reads \<open>errno\<close> without having cleared it, so the flag it finds is an argument and the flag
  it leaves is part of the result.
\<close>

definition range :: "bool \<Rightarrow> string \<Rightarrow> nat \<Rightarrow> nat \<Rightarrow> (nat \<times> nat) option \<times> bool" where
  "range erange p len base =
     (if len < 5 then (None, erange)
      else if char_at p 0 \<noteq> CHR ''['' \<or> char_at p (len - 1) \<noteq> CHR '']'' then (None, erange)
      else if isspace (char_at p 1) then (None, erange)
      else let (b, numend, o1) = strtoull (drop 1 p) base;
               erange = (erange \<or> o1);
               pos = length p - length numend
        in if erange \<or> char_at numend 0 \<noteq> CHR ''-'' \<or> pos + 1 \<ge> len then (None, erange)
           else if isspace (char_at numend 1) then (None, erange)
           else let (e, numend, o2) = strtoull (drop 1 numend) base;
                    erange = (erange \<or> o2);
                    pos = length p - length numend
             in if erange \<or> char_at numend 0 \<noteq> CHR '']'' \<or> pos \<ge> len then (None, erange)
                else if b > e then (None, erange)
                else (Some (b, e), erange))"

definition strToUint8 :: "string \<Rightarrow> nat \<Rightarrow> nat \<Rightarrow> byte res" where
  "strToUint8 p len base =
     (if base = 16 \<and> len > 2 \<or> base = 10 \<and> len > 3 then Inl (OutOfRange ''string too long'')
      else if base = 16
      then (if len = 2
            then bindE (hexCharToInt (char_at p 0)) (\<lambda>x.
                 bindE (hexCharToInt (char_at p 1)) (\<lambda>y. Inr (push_bit 4 x OR y)))
            else hexCharToInt (char_at p 0))
      else bindE (if len = 3
                  then bindE (decCharToInt (char_at p 0)) (\<lambda>x.
                       bindE (decCharToInt (char_at p 1)) (\<lambda>y.
                       bindE (decCharToInt (char_at p 2)) (\<lambda>z. Inr (x * 100 + y * 10 + z))))
                  else if len = 2
                  then bindE (decCharToInt (char_at p 0)) (\<lambda>x.
                       bindE (decCharToInt (char_at p 1)) (\<lambda>y. Inr (x * 10 + y)))
                  else decCharToInt (char_at p 0)) (\<lambda>val.
           if val > 255 then Inl (OutOfRange ''value > 255'') else Inr (of_nat val)))"

subsection \<open>Lemmas on texts\<close>

lemma char_at_Cons [simp]: "char_at (c # s) 0 = c" "char_at (c # s) (Suc n) = char_at s n"
  by (simp_all add: char_at_def)

lemma char_at_Nil [simp]: "char_at [] n = NUL"
  by (simp add: char_at_def)

lemma char_at_append1: "n < length s \<Longrightarrow> char_at (s @ t) n = char_at s n"
  by (simp add: char_at_def nth_append)

lemma chars_at_append [simp]: "chars_at (s @ t) (length s) = s"
  by (rule nth_equalityI) (simp_all add: chars_at_def char_at_def nth_append)

lemma chars_at_all [simp]: "chars_at s (length s) = s"
  using chars_at_append [of s "[]"] by simp

lemma length_chars_at [simp]: "length (chars_at s n) = n"
  by (simp add: chars_at_def)

lemma chars_at_take: "n \<le> length s \<Longrightarrow> chars_at s n = take n s"
  by (rule nth_equalityI) (simp_all add: chars_at_def char_at_def)

lemma nextTokenEnd_suffix: "\<exists>t. p = t @ nextTokenEnd p a n acc \<and> (\<forall>c\<in>set t. accepted a n acc c)"
proof (induction p)
  case Nil
  then show ?case by simp
next
  case (Cons c p)
  then obtain t where t: "p = t @ nextTokenEnd p a n acc" "\<forall>c\<in>set t. accepted a n acc c" by blast
  show ?case
  proof (cases "accepted a n acc c")
    case True
    with t show ?thesis by (intro exI [of _ "c # t"]) simp
  qed simp
qed

lemma nextTokenEnd_length: "length (nextTokenEnd p a n acc) \<le> length p"
  by (induction p) auto

lemma nextTokenEnd_append:
  "\<forall>c\<in>set t. accepted a n acc c \<Longrightarrow> nextTokenEnd (t @ s) a n acc = nextTokenEnd s a n acc"
  by (induction t) simp_all

lemma skipWhitespaces_length: "length (skipWhitespaces p) \<le> length p"
  by (simp add: skipWhitespaces_def length_dropWhile_le)

lemma nextTokenStart_length:
  "nextTokenStart p a n acc = Some q \<Longrightarrow> length q \<le> length p"
  by (auto simp: nextTokenStart_def Let_def skipWhitespaces_length split: if_splits)

lemma nextCharIgnoreWhitspaces_length:
  "nextCharIgnoreWhitspaces p c = Some q \<Longrightarrow> q \<noteq> [] \<and> length q \<le> length p"
  by (auto simp: nextCharIgnoreWhitspaces_def Let_def skipWhitespaces_length split: if_splits)

subsection \<open>Hexadecimal text\<close>

definition hex_digit :: "nat \<Rightarrow> char" where
  "hex_digit n = (if n < 10 then char_of (48 + n) else char_of (87 + n))"

definition hex_byte :: "byte \<Rightarrow> string" where
  "hex_byte b = [hex_digit (unat (drop_bit 4 b)), hex_digit (unat (b AND 0x0f))]"

lemma code_of_char_of: "n < 256 \<Longrightarrow> code_of (char_of n) = n"
  by (simp add: code_of_def)

lemma digit_val_hex_digit: "n < 16 \<Longrightarrow> digit_val (hex_digit n) = Some n"
  by (auto simp: digit_val_def hex_digit_def isdigit_def code_of_char_of)

lemma hexCharToInt_hex_digit: "n < 16 \<Longrightarrow> hexCharToInt (hex_digit n) = Inr (of_nat n)"
  by (simp add: hexCharToInt_def digit_val_hex_digit)

lemma nibbles: "unat (drop_bit 4 (b :: byte)) < 16" "unat (b AND 0x0f) < 16"
proof -
  have "unat b < 256" using unsigned_less [of b, where 'a = nat] by simp
  then show "unat (drop_bit 4 b) < 16"
    by (simp add: drop_bit_eq_div unat_div)
  have "b AND 0x0f = take_bit 4 b" by (simp add: take_bit_eq_mask mask_eq_exp_minus_1)
  then have "unat (b AND 0x0f) = unat b mod 16"
    by (simp only: unsigned_take_bit_eq) (simp add: take_bit_eq_mod)
  then show "unat (b AND 0x0f) < 16" by simp
qed

lemma nibbles_join: "push_bit 4 (drop_bit 4 b) OR (b AND 0x0f) = (b :: byte)"
proof -
  have m: "(0x0f :: byte) = mask 4" by (simp add: mask_eq_exp_minus_1)
  show ?thesis unfolding m by (rule bit_word_eqI) (auto simp: bit_simps)
qed

lemma hexPairs_hex_bytes: "hexPairs (concat (map hex_byte bs)) = Inr bs"
proof (induction bs)
  case (Cons b bs)
  then show ?case
    using nibbles [of b] nibbles_join [of b] by (simp add: hex_byte_def hexCharToInt_hex_digit)
qed simp

lemma length_hex_bytes: "length (concat (map hex_byte bs)) = 2 * length bs"
  by (induction bs) (simp_all add: hex_byte_def)

lemma hexStringToBin_hex_bytes:
  "bs \<noteq> [] \<Longrightarrow> hexStringToBin (concat (map hex_byte bs) @ rest) (2 * length bs) = Some bs"
  using chars_at_append [of "concat (map hex_byte bs)" rest]
  by (simp add: hexStringToBin_def hexPairs_hex_bytes length_hex_bytes)

lemma hexPairs_length: "even (length s) \<Longrightarrow> hexPairs s = Inr bs \<Longrightarrow> length s = 2 * length bs"
  by (induction s arbitrary: bs rule: hexPairs.induct) auto

lemma hexCharToInt_Inr_iff:
  "(\<exists>v. hexCharToInt c = Inr v) \<longleftrightarrow> is_digit_of 16 c"
  by (auto simp: hexCharToInt_def is_digit_of_def split: option.splits if_splits)

lemma hexPairs_Inr_iff:
  "even (length s) \<Longrightarrow> (\<exists>bs. hexPairs s = Inr bs) \<longleftrightarrow> (\<forall>c\<in>set s. is_digit_of 16 c)"
proof (induction s rule: hexPairs.induct)
  case (1 a b r)
  then show ?case
    unfolding hexCharToInt_Inr_iff [symmetric] by (fastforce simp: bindE_Inr_iff)
qed auto

subsection \<open>Decimal text\<close>

definition dec_digit :: "nat \<Rightarrow> char" where
  "dec_digit n = char_of (48 + n)"

fun show_nat :: "nat \<Rightarrow> string" where
  "show_nat n = (if n < 10 then [dec_digit n] else show_nat (n div 10) @ [dec_digit (n mod 10)])"

declare show_nat.simps [simp del]

lemma isdigit_dec_digit: "n < 10 \<Longrightarrow> isdigit (dec_digit n)"
  by (simp add: isdigit_def dec_digit_def code_of_char_of)

lemma digit_val_dec_digit: "n < 10 \<Longrightarrow> digit_val (dec_digit n) = Some n"
  by (simp add: digit_val_def isdigit_dec_digit) (simp add: dec_digit_def code_of_char_of)

lemma decCharToInt_dec_digit: "n < 10 \<Longrightarrow> decCharToInt (dec_digit n) = Inr n"
  by (simp add: decCharToInt_def isdigit_dec_digit) (simp add: dec_digit_def code_of_char_of)

lemma show_nat_digits: "\<forall>c\<in>set (show_nat n). isdigit c"
proof (induction n rule: show_nat.induct)
  case (1 n)
  then show ?case
    by (subst show_nat.simps) (auto simp: isdigit_dec_digit)
qed

lemma show_nat_not_Nil [simp]: "show_nat n \<noteq> []"
  by (subst show_nat.simps) simp

lemma digits_value_append:
  "digits_value b acc (s @ t) = digits_value b (digits_value b acc s) t"
  by (induction s arbitrary: acc) simp_all

lemma digits_value_show_nat: "digits_value 10 0 (show_nat n) = n"
proof (induction n rule: show_nat.induct)
  case (1 n)
  show ?case
  proof (cases "n < 10")
    case True
    then show ?thesis by (subst show_nat.simps) (simp add: digit_val_dec_digit)
  next
    case False
    with 1 show ?thesis
      by (subst show_nat.simps) (simp add: digits_value_append digit_val_dec_digit)
  qed
qed

lemma isdigit_digit_of_10: "is_digit_of 10 c \<longleftrightarrow> isdigit c"
  by (auto simp: is_digit_of_def digit_val_def isdigit_def split: option.splits)

lemma isdigit_not:
  assumes "isdigit c"
  shows "\<not> isspace c" "c \<noteq> CHR ''-''" "c \<noteq> CHR ''+''" "c \<noteq> CHR ''[''" "c \<noteq> CHR '']''"
  using assms by (auto simp: isdigit_def isspace_def code_of_def)

lemma strtoull_show_nat:
  assumes "n < 2 ^ 64" and "\<not> isdigit (char_at rest 0)"
  shows "strtoull (show_nat n @ rest) 10 = (n, rest, False)"
proof -
  obtain c cs where s: "show_nat n = c # cs" by (cases "show_nat n") auto
  have dig: "\<forall>c\<in>set (show_nat n). isdigit c" by (rule show_nat_digits)
  then have c: "isdigit c" using s by simp
  have tw: "takeWhile (is_digit_of 10) (show_nat n @ rest) = show_nat n"
    using dig assms(2)
    by (cases rest) (auto simp: isdigit_digit_of_10 takeWhile_append2 takeWhile_tail)
  have dw: "dropWhile isspace (show_nat n @ rest) = show_nat n @ rest"
    using s isdigit_not [OF c] by simp
  show ?thesis
    using assms(1) s isdigit_not [OF c] tw
    by (simp add: strtoull_def dw number_base_def digits_value_show_nat Let_def
        flip: s) (simp add: s)
qed

lemma show_nat_small:
  "n < 10 \<Longrightarrow> show_nat n = [dec_digit n]"
  "10 \<le> n \<Longrightarrow> n < 100 \<Longrightarrow> show_nat n = [dec_digit (n div 10), dec_digit (n mod 10)]"
  "100 \<le> n \<Longrightarrow> n < 1000 \<Longrightarrow>
     show_nat n = [dec_digit (n div 100), dec_digit (n div 10 mod 10), dec_digit (n mod 10)]"
proof -
  show a: "n < 10 \<Longrightarrow> show_nat n = [dec_digit n]" for n by (subst show_nat.simps) simp
  show b: "10 \<le> n \<Longrightarrow> n < 100 \<Longrightarrow> show_nat n = [dec_digit (n div 10), dec_digit (n mod 10)]" for n
    by (subst show_nat.simps) (simp add: a)
  show "100 \<le> n \<Longrightarrow> n < 1000 \<Longrightarrow>
     show_nat n = [dec_digit (n div 100), dec_digit (n div 10 mod 10), dec_digit (n mod 10)]"
    by (subst show_nat.simps) (simp add: b div_mult2_eq [symmetric])
qed

lemma strToUint8_digits:
  "x < 10 \<Longrightarrow> strToUint8 (dec_digit x # rest) 1 10 = Inr (of_nat x)"
  "x < 10 \<Longrightarrow> y < 10 \<Longrightarrow>
     strToUint8 (dec_digit x # dec_digit y # rest) 2 10 = Inr (of_nat (x * 10 + y))"
  "x < 10 \<Longrightarrow> y < 10 \<Longrightarrow> z < 10 \<Longrightarrow> x * 100 + y * 10 + z < 256 \<Longrightarrow>
     strToUint8 (dec_digit x # dec_digit y # dec_digit z # rest) 3 10
       = Inr (of_nat (x * 100 + y * 10 + z))"
  by (simp_all add: strToUint8_def decCharToInt_dec_digit numeral_2_eq_2)

lemma strToUint8_show_nat:
  assumes "n < 256"
  shows "strToUint8 (show_nat n @ rest) (length (show_nat n)) 10 = Inr (of_nat n)"
proof -
  consider "n < 10" | "10 \<le> n" "n < 100" | "100 \<le> n" "n < 1000" using assms by linarith
  then show ?thesis
  proof cases
    case 1
    then show ?thesis using strToUint8_digits(1) [of n rest] by (simp add: show_nat_small)
  next
    case 2
    then show ?thesis
      using strToUint8_digits(2) [of "n div 10" "n mod 10" rest]
      by (simp add: show_nat_small less_mult_imp_div_less numeral_2_eq_2)
  next
    case 3
    have eq: "n div 100 * 100 + n div 10 mod 10 * 10 + n mod 10 = n"
    proof -
      have "n div 10 div 10 * 10 + n div 10 mod 10 = n div 10" by (rule div_mult_mod_eq)
      moreover have "n div 10 * 10 + n mod 10 = n" by (rule div_mult_mod_eq)
      moreover have "n div 10 div 10 = n div 100" by (simp add: div_mult2_eq [symmetric])
      ultimately show ?thesis by linarith
    qed
    have "n div 100 < 10" using 3 by (simp add: less_mult_imp_div_less)
    from strToUint8_digits(3) [OF this, of "n div 10 mod 10" "n mod 10" rest, unfolded eq] assms
    have "strToUint8 (dec_digit (n div 100) # dec_digit (n div 10 mod 10) # dec_digit (n mod 10) # rest)
        3 10 = Inr (of_nat n)" by simp
    with 3 show ?thesis by (simp only: show_nat_small(3)) (simp add: numeral_3_eq_3)
  qed
qed

end
