(* ===== verification/Address.thy ===== *)
theory Address
  imports Environment ParseHelper
begin

section \<open>MAC and IP addresses\<close>

text \<open>
  src/common/macaddress.hpp, ipaddress.hpp and settings.cpp. An address is the list of its bytes in
  memory order (6, 4 or 16 of them). \<open>set\<close> returns \<open>None\<close> where the code returns false and leaves
  the object as it was; the random numbers drawn until then stay drawn.
\<close>

subsection \<open>Tokens with wildcards\<close>

text \<open>The loop that collects the tokens of a text, and their bounds.\<close>

fun token_starts :: "char \<Rightarrow> nat \<Rightarrow> string \<Rightarrow> nat list" where
  "token_starts sep n [] = []"
| "token_starts sep n (c # cs) =
     (if c = sep \<and> n \<noteq> 0 then Suc n # token_starts sep (Suc n) cs else token_starts sep (Suc n) cs)"

definition token_bounds :: "nat list \<Rightarrow> nat \<Rightarrow> (nat \<times> nat) list" where
  "token_bounds starts len = zip starts (map (\<lambda>x. x - 1) (tl starts) @ [len])"

definition parse_token :: "nat \<Rightarrow> string \<Rightarrow> nat \<Rightarrow> ('z env_scheme, byte option) M" where
  "parse_token base tok tokLen =
     (if tokLen = 0 then returnM None
      else if char_at tok 0 = CHR ''*'' then
        if tokLen = 1 then bindM (rand8 0 0xff) (\<lambda>b. returnM (Some b))
        else bindM (getM errno_range) (\<lambda>er.
             case range er (drop 1 tok) (tokLen - 1) base of (r, er') \<Rightarrow>
             bindM (modifyM (\<lambda>s. s\<lparr>errno_range := er'\<rparr>)) (\<lambda>_.
             case r of None \<Rightarrow> returnM None
             | Some (lo, hi) \<Rightarrow>
                 if lo > 255 \<or> hi > 255 then returnM None
                 else bindM (rand8 (of_nat lo) (of_nat hi)) (\<lambda>b. returnM (Some b))))
      else (case strToUint8 tok tokLen base of Inl _ \<Rightarrow> returnM None | Inr b \<Rightarrow> returnM (Some b)))"

fun parse_tokens :: "nat \<Rightarrow> string \<Rightarrow> (nat \<times> nat) list \<Rightarrow> ('z env_scheme, byte list option) M" where
  "parse_tokens base s [] = returnM (Some [])"
| "parse_tokens base s ((b, e) # ts) =
     bindM (parse_token base (drop b s) (e - b)) (\<lambda>r.
     case r of None \<Rightarrow> returnM None
     | Some x \<Rightarrow> bindM (parse_tokens base s ts) (\<lambda>xs. returnM (map_option ((#) x) xs)))"

subsection \<open>cMacAddress\<close>

definition mac_setRandom :: "bool \<Rightarrow> bool \<Rightarrow> ('z env_scheme, byte list) M" where
  "mac_setRandom unicast multicast =
     bindM (liftE (bugOn (\<not> unicast \<and> \<not> multicast) ''!unicast && !multicast'')) (\<lambda>_.
     bindM (rand8 0 0xff) (\<lambda>b0. bindM (rand8 0 0xff) (\<lambda>b1. bindM (rand8 0 0xff) (\<lambda>b2.
     bindM (rand8 0 0xff) (\<lambda>b3. bindM (rand8 0 0xff) (\<lambda>b4. bindM (rand8 0 0xff) (\<lambda>b5.
     returnM ((if unicast \<and> \<not> multicast then b0 AND 0xfe
               else if \<not> unicast \<and> multicast then b0 OR 1 else b0) # [b1, b2, b3, b4, b5]))))))))"

definition mac_set :: "string \<Rightarrow> nat \<Rightarrow> ('z env_scheme, byte list option) M" where
  "mac_set sMac len0 =
     (let len = (if len0 = 0 then length sMac else len0)
      in if len = 1 \<and> char_at sMac 0 = CHR ''*'' then
           bindM (mac_setRandom True False) (\<lambda>m. returnM (Some m))
         else if len < 11 then returnM None
         else let starts = 0 # token_starts CHR '':'' 0 (chars_at sMac len)
              in if length starts > 6 then returnM None
                 else if length starts < 6 then returnM None
                 else parse_tokens 16 sMac (token_bounds starts len))"

definition mac_of_string :: "string \<Rightarrow> nat \<Rightarrow> ('z env_scheme, byte list) M" where
  "mac_of_string s len =
     bindM (mac_set s len) (\<lambda>m. case m of
       None \<Rightarrow> throwM (OutOfRange ''invalid mac address string'') | Some m \<Rightarrow> returnM m)"

definition mac_set_all :: "nat \<Rightarrow> byte list" where
  "mac_set_all val = replicate 6 (of_nat val)"

definition mac_set_mem :: "byte list \<Rightarrow> byte list res" where
  "mac_set_mem b = bindE (bugOn (length b < 6) ''len < size()'') (\<lambda>_. Inr (take 6 b))"

definition mac_setAt :: "byte list \<Rightarrow> nat \<Rightarrow> byte \<Rightarrow> byte list res" where
  "mac_setAt m offset val = bindE (bugOn (offset > 5) ''offset > 5'') (\<lambda>_. Inr (m[offset := val]))"

definition mac_get_string :: "byte list \<Rightarrow> string" where
  "mac_get_string m =
     hex_byte (m ! 0) @ '':'' @ hex_byte (m ! 1) @ '':'' @ hex_byte (m ! 2) @ '':''
     @ hex_byte (m ! 3) @ '':'' @ hex_byte (m ! 4) @ '':'' @ hex_byte (m ! 5)"

definition mac_isNull :: "byte list \<Rightarrow> bool" where
  "mac_isNull m = list_all (\<lambda>b. b = 0) m"

definition mac_isBroadcast :: "byte list \<Rightarrow> bool" where
  "mac_isBroadcast m = list_all (\<lambda>b. b = 0xff) m"

definition mac_isMulticast :: "byte list \<Rightarrow> bool" where
  "mac_isMulticast m = (m ! 0 AND 1 \<noteq> 0 \<and> \<not> mac_isBroadcast m)"

definition mac_isUnicast :: "byte list \<Rightarrow> bool" where
  "mac_isUnicast m = (m ! 0 AND 1 = 0)"

subsection \<open>cIPv4\<close>

definition ipv4_setRandom :: "('z env_scheme, byte list) M" where
  "ipv4_setRandom =
     bindM (rand32 0 0xffffffff) (\<lambda>ip.
     let ip = (if ip AND 0xF0000000 = 0xE0000000 then ip AND 0x7FFFFFFF else ip)
     in returnM (mem32 (htonl ip)))"

definition ipv4_set :: "string \<Rightarrow> nat \<Rightarrow> ('z env_scheme, byte list option) M" where
  "ipv4_set ip len =
     (if len = 1 \<and> char_at ip 0 = CHR ''*'' then bindM ipv4_setRandom (\<lambda>a. returnM (Some a))
      else if len < 7 then returnM None
      else let starts = 0 # token_starts CHR ''.'' 0 (chars_at ip len)
           in if length starts > 4 then returnM None
              else if length starts < 4 then returnM None
              else parse_tokens 10 ip (token_bounds starts len))"

definition ipv4_isNull :: "byte list \<Rightarrow> bool" where
  "ipv4_isNull a = (rd32 a = 0)"

definition ipv4_isMulticast :: "byte list \<Rightarrow> bool" where
  "ipv4_isMulticast a = (rd32 a AND 0xF0000000 = 0xE0000000)"

definition ipv4_eq :: "byte list \<Rightarrow> byte list \<Rightarrow> bool" where
  "ipv4_eq a b = (a = b)"

definition ipv4_less :: "byte list \<Rightarrow> byte list \<Rightarrow> bool" where
  "ipv4_less a b = (rd32 a < rd32 b)"

subsection \<open>cIPv6\<close>

definition ipv6_setRandom :: "('z env_scheme, byte list) M" where
  "ipv6_setRandom =
     bindM (rand32 0 0xffffffff) (\<lambda>r0. bindM (rand32 0 0xffffffff) (\<lambda>r1.
     bindM (rand32 0 0xffffffff) (\<lambda>r2. bindM (rand32 0 0xffffffff) (\<lambda>r3.
     let a = mem32 r0 @ mem32 r1 @ mem32 r2 @ mem32 r3
     in returnM (if a ! 0 = 0xff then a[0 := a ! 0 AND 0x3f] else a)))))"

definition INET6_ADDRSTRLEN :: nat where
  "INET6_ADDRSTRLEN = 46"

definition ipv6_set :: "string \<Rightarrow> nat \<Rightarrow> ('z env_scheme, byte list option) M" where
  "ipv6_set ip len =
     (if len + 1 > INET6_ADDRSTRLEN then returnM None
      else getM (\<lambda>s. inet_pton6 s (takeWhile (\<lambda>c. c \<noteq> NUL) (chars_at ip len))))"

definition ipv6_set_text :: "string \<Rightarrow> ('z env_scheme, byte list option) M" where
  "ipv6_set_text ip = getM (\<lambda>s. inet_pton6 s ip)"

definition ipv6_isNull :: "byte list \<Rightarrow> bool" where
  "ipv6_isNull a = list_all (\<lambda>b. b = 0) a"

definition ipv6_isMulticast :: "byte list \<Rightarrow> bool" where
  "ipv6_isMulticast a = (a ! 0 = 0xff)"

subsection \<open>cSettings\<close>

definition setMyMAC_text :: "string \<Rightarrow> ('z env_scheme, bool) M" where
  "setMyMAC_text mac =
     bindM (mac_set mac 0) (\<lambda>r.
     bindM (modifyM (\<lambda>s. s\<lparr>m_hasMAC := r \<noteq> None, m_myMAC := (case r of None \<Rightarrow> m_myMAC s | Some m \<Rightarrow> m)\<rparr>)) (\<lambda>_.
     returnM (r \<noteq> None)))"

definition setMyMAC :: "byte list \<Rightarrow> ('z env_scheme, unit) M" where
  "setMyMAC mac = modifyM (\<lambda>s. s\<lparr>m_hasMAC := True, m_myMAC := mac\<rparr>)"

definition setMyIPv4_text :: "string \<Rightarrow> ('z env_scheme, bool) M" where
  "setMyIPv4_text ip =
     bindM (ipv4_set ip (length ip)) (\<lambda>r.
     bindM (modifyM (\<lambda>s. s\<lparr>m_hasIPv4 := r \<noteq> None, m_myIP := (case r of None \<Rightarrow> m_myIP s | Some m \<Rightarrow> m)\<rparr>)) (\<lambda>_.
     returnM (r \<noteq> None)))"

definition setMyIPv4 :: "byte list \<Rightarrow> ('z env_scheme, unit) M" where
  "setMyIPv4 ip = modifyM (\<lambda>s. s\<lparr>m_hasIPv4 := True, m_myIP := ip\<rparr>)"

definition setMyIPv6_text :: "string \<Rightarrow> ('z env_scheme, bool) M" where
  "setMyIPv6_text ip =
     bindM (ipv6_set_text ip) (\<lambda>r.
     bindM (modifyM (\<lambda>s. s\<lparr>m_hasIPv6 := r \<noteq> None, m_myIPv6 := (case r of None \<Rightarrow> m_myIPv6 s | Some m \<Rightarrow> m)\<rparr>)) (\<lambda>_.
     returnM (r \<noteq> None)))"

definition setMyIPv6 :: "byte list \<Rightarrow> ('z env_scheme, unit) M" where
  "setMyIPv6 ip = modifyM (\<lambda>s. s\<lparr>m_hasIPv6 := True, m_myIPv6 := ip\<rparr>)"

definition setMyMTU :: "u32 \<Rightarrow> ('z env_scheme, unit) M" where
  "setMyMTU mtu = modifyM (\<lambda>s. s\<lparr>m_mtu := mtu\<rparr>)"

definition getMyMAC :: "('z env_scheme, byte list) M" where
  "getMyMAC = bindM (getM m_hasMAC) (\<lambda>h.
     if \<not> h then throwM (RuntimeError ''Could not determine mac address of interface.'')
     else getM m_myMAC)"

definition getMyIPv4 :: "('z env_scheme, byte list) M" where
  "getMyIPv4 = bindM (getM m_hasIPv4) (\<lambda>h.
     if \<not> h then throwM (RuntimeError ''Could not determine IPv4 address of interface.'')
     else getM m_myIP)"

definition getMyIPv6 :: "('z env_scheme, byte list) M" where
  "getMyIPv6 = bindM (getM m_hasIPv6) (\<lambda>h.
     if \<not> h then throwM (RuntimeError ''Could not determine IPv6 address of interface.'')
     else getM m_myIPv6)"

definition getMyMTU :: "('z env_scheme, u32) M" where
  "getMyMTU = getM m_mtu"

definition setIfName :: "string \<Rightarrow> ('z env_scheme, unit) M" where
  "setIfName ifc = modifyM (\<lambda>s. s\<lparr>m_ifName := ifc\<rparr>)"

definition getIfName :: "('z env_scheme, string) M" where
  "getIfName = bindM (getM m_ifName) (\<lambda>n.
     if length n = 0 then throwM (RuntimeError ''Could not determine network interface name.'')
     else returnM n)"

subsection \<open>Tokens\<close>

lemma length_token_bounds [simp]: "length (token_bounds (a # starts) len) = Suc (length starts)"
  by (simp add: token_bounds_def)

lemma parse_tokens_length:
  "parse_tokens base t ts s = (Inr (Some bs), s') \<Longrightarrow> length bs = length ts"
  by (induction ts arbitrary: s bs) (auto split: option.splits)

lemma never_throws_parse_token [total_intros]: "never_throws (parse_token base tok n)"
  unfolding parse_token_def by (intro total_intros)

lemma never_throws_parse_tokens [total_intros]: "never_throws (parse_tokens base t ts)"
proof (induction ts)
  case (Cons be ts)
  then show ?case by (cases be) (simp, intro total_intros)
qed simp

lemma never_throws_setRandom [total_intros]: "u \<or> m \<Longrightarrow> never_throws (mac_setRandom u m)"
  by (auto simp: mac_setRandom_def bugOn_def intro!: total_intros)

lemma never_throws_mac_set: "never_throws (mac_set s len)"
  unfolding mac_set_def Let_def by (intro total_intros) simp

lemma preserves_parse_token [preserves_intros]:
  assumes "rng_neutral f"
  shows "preserves f (parse_token base tok n)"
  unfolding parse_token_def by (intro preserves_intros assms)

lemma preserves_parse_tokens [preserves_intros]:
  assumes "rng_neutral f"
  shows "preserves f (parse_tokens base t ts)"
proof (induction ts)
  case (Cons be ts)
  then show ?case by (cases be) (simp, intro preserves_intros assms)
qed simp

lemma preserves_setRandom [preserves_intros]:
  assumes "rng_neutral f"
  shows "preserves f (mac_setRandom u m)" "preserves f ipv4_setRandom" "preserves f ipv6_setRandom"
  unfolding mac_setRandom_def ipv4_setRandom_def ipv6_setRandom_def
  by (intro preserves_intros assms)+

lemma preserves_address_set [preserves_intros]:
  assumes "rng_neutral f"
  shows "preserves f (mac_set s len)" "preserves f (ipv4_set s len)" "preserves f (ipv6_set s len)"
  unfolding mac_set_def ipv4_set_def ipv6_set_def by (intro preserves_intros assms)+

lemma preserves_mac_of_string [preserves_intros]:
  assumes "rng_neutral f"
  shows "preserves f (mac_of_string s len)"
  unfolding mac_of_string_def by (intro preserves_intros assms)

subsection \<open>Printed addresses are read back\<close>

lemma token_starts_append:
  "token_starts sep n (a @ b) = token_starts sep n a @ token_starts sep (n + length a) b"
  by (induction a arbitrary: n) simp_all

lemma token_starts_free: "sep \<notin> set a \<Longrightarrow> token_starts sep n a = []"
  by (induction a arbitrary: n) auto

lemma hex_digit_cases: "n < 16 \<Longrightarrow> hex_digit n \<noteq> CHR '':'' \<and> hex_digit n \<noteq> CHR ''*''"
proof -
  assume n: "n < 16"
  have "code_of (hex_digit n) \<noteq> 58 \<and> code_of (hex_digit n) \<noteq> 42"
    using n by (auto simp: hex_digit_def code_of_char_of)
  then show ?thesis by (auto simp: code_of_def)
qed

lemma hex_byte_free: "CHR '':'' \<notin> set (hex_byte b)" "length (hex_byte b) = 2"
    "char_at (hex_byte b @ r) 0 \<noteq> CHR ''*''"
  using hex_digit_cases [OF nibbles(1) [of b]] hex_digit_cases [OF nibbles(2) [of b]]
  by (auto simp: hex_byte_def)

lemma strToUint8_hex_byte: "strToUint8 (hex_byte b @ r) 2 16 = Inr b"
  using nibbles [of b] nibbles_join [of b]
  by (simp add: strToUint8_def hex_byte_def hexCharToInt_hex_digit)

lemma parse_token_hex_byte: "parse_token 16 (hex_byte b @ r) 2 = returnM (Some b)"
  by (rule ext) (simp add: parse_token_def hex_byte_free strToUint8_hex_byte)

lemma mac_set_print:
  "mac_set (mac_get_string [m0, m1, m2, m3, m4, m5]) 0 = returnM (Some [m0, m1, m2, m3, m4, m5])"
proof -
  let ?t = "mac_get_string [m0, m1, m2, m3, m4, m5]"
  have t: "?t = hex_byte m0 @ '':'' @ hex_byte m1 @ '':'' @ hex_byte m2 @ '':''
     @ hex_byte m3 @ '':'' @ hex_byte m4 @ '':'' @ hex_byte m5"
    by (simp add: mac_get_string_def)
  have len: "length ?t = 17" by (simp add: t hex_byte_free)
  have starts: "0 # token_starts CHR '':'' 0 ?t = [0, 3, 6, 9, 12, 15]"
    by (simp add: t token_starts_append token_starts_free hex_byte_free)
  have "?t = hex_byte m0 @ drop 2 ?t" "drop 3 ?t = hex_byte m1 @ drop 5 ?t"
    "drop 6 ?t = hex_byte m2 @ drop 8 ?t" "drop 9 ?t = hex_byte m3 @ drop 11 ?t"
    "drop 12 ?t = hex_byte m4 @ drop 14 ?t" "drop 15 ?t = hex_byte m5 @ drop 17 ?t"
    by (simp_all add: t hex_byte_def)
  then have toks: "parse_token 16 ?t 2 = returnM (Some m0)"
    "parse_token 16 (drop 3 ?t) 2 = returnM (Some m1)"
    "parse_token 16 (drop 6 ?t) 2 = returnM (Some m2)"
    "parse_token 16 (drop 9 ?t) 2 = returnM (Some m3)"
    "parse_token 16 (drop 12 ?t) 2 = returnM (Some m4)"
    "parse_token 16 (drop 15 ?t) 2 = returnM (Some m5)"
    by (metis parse_token_hex_byte)+
  have chars: "chars_at ?t 17 = ?t" using chars_at_all [of ?t] len by simp
  have bounds: "token_bounds [0, 3, 6, 9, 12, 15] 17
      = [(0, 2), (3, 5), (6, 8), (9, 11), (12, 14), (15, 17)]"
    by (simp add: token_bounds_def)
  show ?thesis
    by (rule ext) (simp add: mac_set_def len starts chars bounds bindM_def toks)
qed

definition dotted :: "byte list \<Rightarrow> string" where
  "dotted a = show_nat (unat (a ! 0)) @ ''.'' @ show_nat (unat (a ! 1)) @ ''.''
     @ show_nat (unat (a ! 2)) @ ''.'' @ show_nat (unat (a ! 3))"

lemma show_nat_free:
  "CHR ''.'' \<notin> set (show_nat n)" "char_at (show_nat n @ r) 0 \<noteq> CHR ''*''"
proof -
  have d: "isdigit c" if "c \<in> set (show_nat n)" for c using show_nat_digits that by blast
  have "\<not> isdigit CHR ''.''" "\<not> isdigit CHR ''*''" by (simp_all add: isdigit_def code_of_def)
  with d show "CHR ''.'' \<notin> set (show_nat n)" by blast
  have "char_at (show_nat n @ r) 0 \<in> set (show_nat n)"
    by (simp add: char_at_append1) (simp add: char_at_def)
  then show "char_at (show_nat n @ r) 0 \<noteq> CHR ''*''"
    using d \<open>\<not> isdigit CHR ''*''\<close> by metis
qed

lemma parse_token_show_nat:
  "parse_token 10 (show_nat (unat b) @ r) (length (show_nat (unat b))) = returnM (Some b)"
  using strToUint8_show_nat [of "unat b" r] unsigned_less [of b, where 'a = nat]
  by (intro ext) (simp add: parse_token_def show_nat_free)

lemma ipv4_set_print:
  "ipv4_set (dotted [a, b, c, d] @ rest) (length (dotted [a, b, c, d])) = returnM (Some [a, b, c, d])"
proof -
  let ?s = "\<lambda>b. show_nat (unat b)"
  let ?t = "dotted [a, b, c, d]"
  have t: "?t = ?s a @ ''.'' @ ?s b @ ''.'' @ ?s c @ ''.'' @ ?s d"
    by (simp add: dotted_def)
  have pos: "1 \<le> length (?s x)" for x :: byte by (simp add: Suc_leI)
  have len: "7 \<le> length ?t"
    using pos [of a] pos [of b] pos [of c] pos [of d] unfolding t length_append list.size
    by linarith
  let ?p = "length (?s a) + 1" let ?q = "?p + length (?s b) + 1" let ?r = "?q + length (?s c) + 1"
  have starts: "0 # token_starts CHR ''.'' 0 ?t = [0, ?p, ?q, ?r]"
    by (simp add: t token_starts_append token_starts_free show_nat_free)
  have bounds: "token_bounds [0, ?p, ?q, ?r] (length ?t)
      = [(0, length (?s a)), (?p, ?p + length (?s b)), (?q, ?q + length (?s c)), (?r, length ?t)]"
    by (simp add: token_bounds_def)
  have ends: "length ?t - ?r = length (?s d)" by (simp add: t)
  have drops: "?t @ rest = ?s a @ ''.'' @ ?s b @ ''.'' @ ?s c @ ''.'' @ ?s d @ rest"
    "drop ?p (?t @ rest) = ?s b @ ''.'' @ ?s c @ ''.'' @ ?s d @ rest"
    "drop ?q (?t @ rest) = ?s c @ ''.'' @ ?s d @ rest"
    "drop ?r (?t @ rest) = ?s d @ rest"
    by (simp_all add: t numeral_3_eq_3)
  then have toks: "parse_token 10 (drop 0 (?t @ rest)) (length (?s a)) = returnM (Some a)"
    "parse_token 10 (drop ?p (?t @ rest)) (length (?s b)) = returnM (Some b)"
    "parse_token 10 (drop ?q (?t @ rest)) (length (?s c)) = returnM (Some c)"
    "parse_token 10 (drop ?r (?t @ rest)) (length (?s d)) = returnM (Some d)"
    by (simp_all only: drop_0 parse_token_show_nat)
  have diffs: "?p + length (?s b) - ?p = length (?s b)" "?q + length (?s c) - ?q = length (?s c)"
    by simp_all
  have ne: "length ?t \<noteq> 1" "\<not> length ?t < 7" using len by simp_all
  have "parse_tokens 10 (?t @ rest) (token_bounds [0, ?p, ?q, ?r] (length ?t))
      = returnM (Some [a, b, c, d])"
    unfolding bounds parse_tokens.simps diffs ends diff_zero toks
    by (rule ext) (simp add: bindM_def)
  then show ?thesis
    unfolding ipv4_set_def chars_at_append starts Let_def using ne by simp
qed

end
