(* ===== verification/Double.thy ===== *)
theory Double
  imports ParseHelper
begin

section \<open>Binary floating point, as far as the program uses it\<close>

text \<open>
  \<open>double\<close> on the targets of the program is IEEE 754 binary64 with rounding to nearest even.
  \<open>Fin m e\<close> is \<open>m * 2 ^ e\<close>. The sources multiply and divide by constants, compare, truncate to an
  integer and read a number with \<open>std::stod\<close>.
\<close>

datatype double = Fin int int | Inf bool | NaN

fun bits :: "nat \<Rightarrow> nat" where
  "bits n = (if n = 0 then 0 else Suc (bits (n div 2)))"

declare bits.simps [simp del]

text \<open>\<open>n / d\<close> to the nearest double; the flag is the \<open>ERANGE\<close> of an overflow or a tiny result.\<close>

definition round_nearest :: "nat \<Rightarrow> nat \<Rightarrow> nat \<times> int \<times> bool" where
  "round_nearest n d =
     (let e0 = int (bits n) - int (bits d) - 53;
          scaled = (\<lambda>e. if e \<ge> 0 then (n, d * 2 ^ nat e) else (n * 2 ^ nat (- e), d));
          (n0, d0) = scaled e0;
          e1 = (if n0 div d0 < 2 ^ 53 then e0 else e0 + 1);
          e2 = max (-1074) e1;
          (n2, d2) = scaled e2;
          q = n2 div d2;
          r = n2 mod d2;
          m = (if 2 * r > d2 \<or> 2 * r = d2 \<and> odd q then q + 1 else q)
      in (m, e2, r \<noteq> 0 \<and> m < 2 ^ 52 \<or> bits m + nat (e2 + 1074) > 2098))"

definition to_double :: "int \<Rightarrow> nat \<Rightarrow> double \<times> bool" where
  "to_double n d =
     (if n = 0 then (Fin 0 0, False)
      else let (m, e, erange) = round_nearest (nat \<bar>n\<bar>) d
           in if bits m + nat (e + 1074) > 2098 then (Inf (n < 0), True)
              else (Fin (if n < 0 then - int m else int m) e, erange))"

definition dbl :: "nat \<Rightarrow> nat \<Rightarrow> double" where
  "dbl n d = fst (to_double (int n) d)"

definition dmult :: "double \<Rightarrow> double \<Rightarrow> double" where
  "dmult a b = (case (a, b) of
     (Fin m e, Fin m' e') \<Rightarrow> fst (if e + e' \<ge> 0 then to_double (m * m' * 2 ^ nat (e + e')) 1
                             else to_double (m * m') (2 ^ nat (- (e + e'))))
   | (Fin m e, Inf s) \<Rightarrow> if m = 0 then NaN else Inf (s \<noteq> (m < 0))
   | (Inf s, Fin m e) \<Rightarrow> if m = 0 then NaN else Inf (s \<noteq> (m < 0))
   | (Inf s, Inf t) \<Rightarrow> Inf (s \<noteq> t)
   | _ \<Rightarrow> NaN)"

text \<open>Division by a positive constant.\<close>

definition ddiv :: "double \<Rightarrow> double \<Rightarrow> double" where
  "ddiv a b = (case (a, b) of
     (Fin m e, Fin m' e') \<Rightarrow>
       if m' \<le> 0 then NaN
       else fst (if e - e' \<ge> 0 then to_double (m * 2 ^ nat (e - e')) (nat m')
                 else to_double m (nat m' * 2 ^ nat (e' - e)))
   | (Inf s, Fin m' e') \<Rightarrow> Inf s
   | _ \<Rightarrow> NaN)"

definition dless :: "double \<Rightarrow> double \<Rightarrow> bool" where
  "dless a b = (case (a, b) of
     (Fin m e, Fin m' e') \<Rightarrow> let k = min e e' in m * 2 ^ nat (e - k) < m' * 2 ^ nat (e' - k)
   | (Inf s, Fin _ _) \<Rightarrow> s
   | (Fin _ _, Inf s) \<Rightarrow> \<not> s
   | (Inf s, Inf t) \<Rightarrow> s \<and> \<not> t
   | _ \<Rightarrow> False)"

text \<open>Truncation towards zero; there is none for infinities and NaN.\<close>

definition dtrunc :: "double \<Rightarrow> int option" where
  "dtrunc a = (case a of
     Fin m e \<Rightarrow> Some (let v = (if e \<ge> 0 then \<bar>m\<bar> * 2 ^ nat e else \<bar>m\<bar> div 2 ^ nat (- e))
                      in if m < 0 then - v else v)
   | _ \<Rightarrow> None)"

text \<open>Conversion to an unsigned type is undefined outside of the type's range.\<close>

definition dto_unsigned :: "nat \<Rightarrow> double \<Rightarrow> nat res" where
  "dto_unsigned w a = (case dtrunc a of
     Some v \<Rightarrow> if 0 \<le> v \<and> v < 2 ^ w then Inr (nat v)
               else Inl (Undefined ''floating point value out of range of the integer type'')
   | None \<Rightarrow> Inl (Undefined ''floating point value out of range of the integer type''))"

subsection \<open>std::stod\<close>

definition lower :: "char \<Rightarrow> char" where
  "lower c = (if 65 \<le> code_of c \<and> code_of c \<le> 90 then char_of (code_of c + 32) else c)"

definition has_prefix :: "string \<Rightarrow> string \<Rightarrow> bool" where
  "has_prefix p s = (map lower (take (length p) s) = p)"

text \<open>The digits of a mantissa: value, number of digits after the point, and the rest.\<close>

definition mantissa :: "nat \<Rightarrow> string \<Rightarrow> nat \<times> nat \<times> nat \<times> string" where
  "mantissa base s =
     (let i = takeWhile (is_digit_of base) s;
          r = drop (length i) s;
          f = (if char_at r 0 = CHR ''.'' then takeWhile (is_digit_of base) (tl r) else []);
          n = length i + length f
      in if n = 0 then (0, 0, 0, s)
         else (digits_value base 0 (i @ f), length f, n,
               if char_at r 0 = CHR ''.'' then drop (length f) (tl r) else r))"

text \<open>An exponent is read only if it has a digit.\<close>

definition exponent :: "char \<Rightarrow> string \<Rightarrow> int \<times> string" where
  "exponent c s =
     (if lower (char_at s 0) \<noteq> c then (0, s)
      else let t = tl s;
               neg = (char_at t 0 = CHR ''-'');
               u = (if neg \<or> char_at t 0 = CHR ''+'' then tl t else t);
               ds = takeWhile isdigit u;
               v = int (digits_value 10 0 ds)
           in if ds = [] then (0, s) else (if neg then - v else v, drop (length ds) u))"

definition scale :: "nat \<Rightarrow> nat \<Rightarrow> nat \<Rightarrow> int \<Rightarrow> nat \<times> nat" where
  "scale base m frac e =
     (if e \<ge> int frac then (m * base ^ nat (e - int frac), 1) else (m, base ^ nat (int frac - e)))"

text \<open>
  \<open>Inr (value, rest)\<close>, or what it throws: \<open>invalid_argument\<close> without a number at the start,
  \<open>out_of_range\<close> on \<open>ERANGE\<close>.
\<close>

definition stod :: "string \<Rightarrow> (double \<times> string) res" where
  "stod s =
     (let t = dropWhile isspace s;
          neg = (char_at t 0 = CHR ''-'');
          u = (if neg \<or> char_at t 0 = CHR ''+'' then tl t else t);
          finish = (\<lambda>(n, d) r. let (v, erange) = to_double (if neg then - int n else int n) d
             in if erange then Inl (OutOfRange ''stod'') else Inr (v, r))
      in if has_prefix ''infinity'' u then Inr (Inf neg, drop 8 u)
         else if has_prefix ''inf'' u then Inr (Inf neg, drop 3 u)
         else if has_prefix ''nan'' u then Inr (NaN, drop 3 u)
         else if has_prefix ''0x'' u
                 \<and> (is_digit_of 16 (char_at u 2)
                    \<or> char_at u 2 = CHR ''.'' \<and> is_digit_of 16 (char_at u 3)) then
           (let (m, frac, n, r) = mantissa 16 (drop 2 u); (e, r') = exponent CHR ''p'' r
            in finish (scale 2 m (4 * frac) e) r')
         else (let (m, frac, n, r) = mantissa 10 u; (e, r') = exponent CHR ''e'' r
               in if n = 0 then Inl (RuntimeError ''stod'') else finish (scale 10 m frac e) r'))"

subsection \<open>Integers of up to 53 bits are exact\<close>

lemma bits_0 [simp]: "bits 0 = 0"
  by (simp add: bits.simps)

lemma bits_double: "0 < n \<Longrightarrow> bits (2 * n) = Suc (bits n)"
  by (subst bits.simps) simp

lemma bits_shift: "0 < n \<Longrightarrow> bits (n * 2 ^ j) = bits n + j"
proof (induction j)
  case (Suc j)
  have "n * 2 ^ Suc j = 2 * (n * 2 ^ j)" by simp
  then show ?case using Suc bits_double [of "n * 2 ^ j"] by (simp only:) simp
qed simp

lemma bits_1 [simp]: "bits (Suc 0) = 1"
  using bits_double [of 0] by (subst bits.simps) simp

lemma bits_bounds: "n < 2 ^ bits n" "0 < n \<Longrightarrow> 2 ^ (bits n - 1) \<le> n" "0 < n \<Longrightarrow> 0 < bits n"
proof (induction n rule: bits.induct)
  case (1 n)
  {
    case 1
    then show ?case using "1.IH" by (cases "n = 0") (subst bits.simps, simp)+
  next
    case 2
    have b: "bits n = Suc (bits (n div 2))" using 2 by (subst bits.simps) simp
    show ?case
    proof (cases "n div 2 = 0")
      case True then show ?thesis using 2 b by simp
    next
      case False
      then have "2 ^ (bits (n div 2) - 1) \<le> n div 2" "0 < bits (n div 2)" using "1.IH" 2 by auto
      then show ?thesis using b by (cases "bits (n div 2)") auto
    qed
  next
    case 3
    then show ?case by (subst bits.simps) simp
  }
qed

lemma bits_le: "n < 2 ^ k \<Longrightarrow> bits n \<le> k"
proof (rule ccontr)
  assume h: "n < 2 ^ k" "\<not> bits n \<le> k"
  then have "0 < n" by (cases n) auto
  then have "2 ^ (bits n - 1) \<le> n" by (rule bits_bounds)
  moreover have "(2::nat) ^ k \<le> 2 ^ (bits n - 1)" using h(2) by (intro power_increasing) auto
  ultimately show False using h(1) by linarith
qed

lemma round_exact:
  assumes "0 < n" and "n < 2 ^ 53"
  shows "round_nearest (n * 2 ^ j) (2 ^ j) = (n * 2 ^ (53 - bits n), int (bits n) - 53, False)"
proof -
  let ?b = "bits n"
  have b: "0 < ?b" "?b \<le> 53" "2 ^ (?b - 1) \<le> n" "n < 2 ^ ?b"
    using assms bits_bounds [of n] bits_le [of n 53] by auto
  have bj: "bits (2 ^ j) = j + 1" using bits_shift [of 1 j] by simp
  have e0: "int (bits (n * 2 ^ j)) - int (bits (2 ^ j)) - 53 = int ?b - 54"
    using assms(1) by (simp add: bits_shift bj)
  have "(2::nat) ^ (?b - 1) * 2 ^ (54 - ?b) = 2 ^ 53" using b by (simp add: power_add [symmetric])
  moreover have "2 ^ (?b - 1) * 2 ^ (54 - ?b) \<le> n * (2::nat) ^ (54 - ?b)" using b(3) by simp
  ultimately have big: "\<not> n * 2 ^ (54 - ?b) < 2 ^ 53" by linarith
  have div: "n * 2 ^ j * 2 ^ k div 2 ^ j = n * 2 ^ k" "n * 2 ^ j * 2 ^ k mod 2 ^ j = (0::nat)" for k
    by (simp_all add: mult.assoc mult.commute [of "2 ^ j"])
  have n1: "nat (54 - int ?b) = 54 - ?b" "nat (53 - int ?b) = 53 - ?b" using b by auto
  have "(2::nat) ^ (?b - 1) * 2 ^ (53 - ?b) = 2 ^ 52" using b by (simp add: power_add [symmetric])
  moreover have "2 ^ (?b - 1) * 2 ^ (53 - ?b) \<le> n * (2::nat) ^ (53 - ?b)" using b(3) by simp
  ultimately have m: "2 ^ 52 \<le> n * (2::nat) ^ (53 - ?b)" by linarith
  have bm: "bits (n * 2 ^ (53 - ?b)) = 53" using bits_shift [OF assms(1)] b by simp
  show ?thesis
  proof (cases "?b = 53")
    case True
    then show ?thesis unfolding round_nearest_def e0 Let_def using big n1 bm div [of 0] div [of 1]
      by (simp add: assms)
  next
    case False
    then have "int ?b - 53 < 0" "int ?b - 54 < 0" using b by auto
    then show ?thesis unfolding round_nearest_def e0 Let_def using big n1 m bm b by (simp add: div)
  qed
qed

lemma to_double_exact:
  assumes "0 < n" and "n < 2 ^ 53"
  shows "to_double (int n * 2 ^ j) (2 ^ j) = (Fin (int n * 2 ^ (53 - bits n)) (int (bits n) - 53), False)"
proof -
  have "bits (n * 2 ^ (53 - bits n)) = 53" using bits_shift [OF assms(1)] bits_le [OF assms(2)] by simp
  moreover have "nat \<bar>int n * 2 ^ j\<bar> = n * 2 ^ j" by (simp add: abs_mult nat_mult_distrib nat_power_eq)
  moreover have "nat (1021 + int (bits n)) \<le> 2045" using bits_le [OF assms(2)] by linarith
  ultimately show ?thesis using assms
    by (simp add: to_double_def round_exact [OF assms] mult_less_0_iff not_less)
qed

end
