(* ===== verification/Uuid.thy ===== *)
theory Uuid
  imports ParseHelper
begin

section \<open>cUUID\<close>

text \<open>
  src/common/uuid.hpp. A UUID is the 16 bytes of its union; the constructors return them or what
  they throw. The destination of the string constructor starts uninitialised (\<open>junk\<close>), and a
  write behind it is \<open>Undefined\<close>.
\<close>

definition uuid_stringSize :: nat where
  "uuid_stringSize = 36"

definition uuid_fromBytes :: "byte list \<Rightarrow> byte \<Rightarrow> byte list" where
  "uuid_fromBytes uuid version =
     (let u = take 16 uuid
      in if version > 0 \<and> version < 16
         then (let u = u[6 := (u ! 6 AND 0x0f) OR version] in u[8 := (u ! 8 AND 0x3f) OR 0x80])
         else u)"

definition uuid_fromMD5 :: "byte list \<Rightarrow> byte list" where
  "uuid_fromMD5 md5 = uuid_fromBytes md5 3"

definition uuid_fromSHA1 :: "byte list \<Rightarrow> byte list" where
  "uuid_fromSHA1 sha1 = uuid_fromBytes sha1 5"

definition uuid_fromZero :: "byte list" where
  "uuid_fromZero = replicate 16 0"

definition uuid_version :: "byte list \<Rightarrow> byte" where
  "uuid_version u = drop_bit 4 (u ! 6) AND 0x0F"

definition dash_position :: "nat \<Rightarrow> bool" where
  "dash_position n = (n = 8 \<or> n = 13 \<or> n = 18 \<or> n = 23)"

text \<open>
  The loop of the string constructor: position \<open>n\<close>, number \<open>index\<close> of nibbles read, the pending
  upper nibble, the array. It returns the final \<open>n\<close> and the array.
\<close>

fun uuid_loop :: "nat \<Rightarrow> nat \<Rightarrow> char \<Rightarrow> byte list \<Rightarrow> string \<Rightarrow> (nat \<times> byte list) res" where
  "uuid_loop n index upper u [] = Inr (n, u)"
| "uuid_loop n index upper u (c # cs) =
     (if n \<ge> 36 then Inr (n, u)
      else if c = CHR ''-'' then
        (if \<not> dash_position n then Inl (OutOfRange ''invalid uuid string'')
         else uuid_loop (n + 1) index upper u cs)
      else if \<not> is_digit_of 16 c then Inl (OutOfRange ''invalid uuid string'')
      else if odd index then
        (if index div 2 \<ge> 16 then Inl (Undefined ''write outside of buffer'')
         else uuid_loop (n + 1) (index + 1) upper
                (u[index div 2 := of_nat (fst (strtoull [upper, c] 16))]) cs)
      else uuid_loop (n + 1) (index + 1) c u cs)"

definition uuid_fromString :: "(nat \<Rightarrow> byte) \<Rightarrow> string \<Rightarrow> byte list res" where
  "uuid_fromString junk str =
     bindE (uuid_loop 0 0 NUL (fresh junk 16) str) (\<lambda>(n, u).
       if n \<noteq> 36 then Inl (OutOfRange ''invalid uuid string length'') else Inr u)"

text \<open>The five dash separated groups of lower case hex digits that \<open>snprintf\<close> prints.\<close>

definition uuid_asString :: "byte list \<Rightarrow> string" where
  "uuid_asString u =
     concat (map hex_byte (take 4 u)) @ ''-'' @ concat (map hex_byte (take 2 (drop 4 u))) @ ''-''
     @ concat (map hex_byte (take 2 (drop 6 u))) @ ''-'' @ concat (map hex_byte (take 2 (drop 8 u)))
     @ ''-'' @ concat (map hex_byte (take 6 (drop 10 u)))"

subsection \<open>Reading back what was printed\<close>

lemma hex_digit_char:
  "n < 16 \<Longrightarrow> is_digit_of 16 (hex_digit n)"
  "n < 16 \<Longrightarrow> hex_digit n \<noteq> CHR ''-''"
  "n < 16 \<Longrightarrow> \<not> isspace (hex_digit n)"
  "n < 16 \<Longrightarrow> hex_digit n \<noteq> CHR ''+''"
  "n < 16 \<Longrightarrow> hex_digit n \<noteq> CHR ''x'' \<and> hex_digit n \<noteq> CHR ''X''"
proof -
  assume n: "n < 16"
  show "is_digit_of 16 (hex_digit n)" using n by (simp add: is_digit_of_def digit_val_hex_digit)
  have c: "code_of (hex_digit n) = (if n < 10 then 48 + n else 87 + n)"
    using n by (simp add: hex_digit_def code_of_char_of)
  have ne: "hex_digit n \<noteq> d" if "code_of d \<notin> {48..57} \<union> {97..102}" for d
    using that c n by (auto split: if_splits)
  show "hex_digit n \<noteq> CHR ''-''" "hex_digit n \<noteq> CHR ''+''"
    "hex_digit n \<noteq> CHR ''x'' \<and> hex_digit n \<noteq> CHR ''X''"
    by (auto intro!: ne simp: code_of_def)
  show "\<not> isspace (hex_digit n)" using c n by (auto simp: isspace_def split: if_splits)
qed

lemma strtoull_two_hex:
  assumes "a < 16" and "b < 16"
  shows "fst (strtoull [hex_digit a, hex_digit b] 16) = a * 16 + b"
proof -
  have "number_base 16 [hex_digit a, hex_digit b] = (16, [hex_digit a, hex_digit b])"
    using hex_digit_char(5) [OF assms(2)] by (simp add: number_base_def)
  then show ?thesis
    using assms by (simp add: strtoull_def Let_def hex_digit_char digit_val_hex_digit)
qed

lemma nibbles_value: "unat (drop_bit 4 b) * 16 + unat (b AND 0x0f) = unat (b :: byte)"
proof -
  have "b AND 0x0f = take_bit 4 b" by (simp add: take_bit_eq_mask mask_eq_exp_minus_1)
  then have "unat (b AND 0x0f) = unat b mod 16"
    by (simp only: unsigned_take_bit_eq) (simp add: take_bit_eq_mod)
  moreover have "unat (drop_bit 4 b) = unat b div 16"
    by (simp add: drop_bit_eq_div unat_div)
  ultimately show ?thesis by simp
qed

lemma uuid_loop_hex_byte:
  assumes "n + 2 \<le> 36" and "k < 16"
  shows "uuid_loop n (2 * k) up u (hex_byte b @ cs) =
     uuid_loop (n + 2) (2 * (k + 1)) (hex_digit (unat (drop_bit 4 b))) (u[k := b]) cs"
proof -
  have "fst (strtoull [hex_digit (unat (drop_bit 4 b)), hex_digit (unat (b AND 0x0f))] 16) = unat b"
    using nibbles [of b] nibbles_value [of b] by (simp add: strtoull_two_hex)
  then show ?thesis
    using assms nibbles [of b] by (simp add: hex_byte_def hex_digit_char)
qed

lemma uuid_loop_dash:
  "dash_position n \<Longrightarrow> n < 36 \<Longrightarrow> uuid_loop n i up u (CHR ''-'' # cs) = uuid_loop (n + 1) i up u cs"
  by simp

text \<open>The pending nibble does not matter at an even index, so it is normalised to NUL.\<close>

lemma uuid_loop_upper: "even i \<Longrightarrow> uuid_loop n i up u cs = uuid_loop n i NUL u cs"
  by (induction cs arbitrary: n) simp_all

lemma uuid_loop_hex_bytes:
  assumes "n + 2 * length bs \<le> 36" and "k + length bs \<le> 16" and "length u = 16"
  shows "uuid_loop n (2 * k) NUL u (concat (map hex_byte bs) @ cs) =
     uuid_loop (n + 2 * length bs) (2 * (k + length bs)) NUL (take k u @ bs @ drop (k + length bs) u) cs"
  using assms
proof (induction bs arbitrary: n k u)
  case (Cons b bs)
  have "uuid_loop n (2 * k) NUL u (concat (map hex_byte (b # bs)) @ cs) =
     uuid_loop (n + 2) (2 * Suc k) NUL (u[k := b]) (concat (map hex_byte bs) @ cs)"
    using Cons.prems uuid_loop_hex_byte [of n k NUL u b "concat (map hex_byte bs) @ cs"]
    by (simp add: uuid_loop_upper [where i = "Suc (Suc (2 * k))" and up = "hex_digit x" for x]
        del: uuid_loop.simps)
  also have "\<dots> = uuid_loop (n + 2 + 2 * length bs) (2 * (Suc k + length bs)) NUL
       (take (Suc k) (u[k := b]) @ bs @ drop (Suc k + length bs) (u[k := b])) cs"
    using Cons.prems by (intro Cons.IH) simp_all
  also have "take (Suc k) (u[k := b]) = take k u @ [b]"
    using Cons.prems by (simp add: take_Suc_conv_app_nth)
  finally show ?case using Cons.prems by simp
qed simp

lemma uuid_print_parse:
  assumes "length u = 16"
  shows "uuid_fromString junk (uuid_asString u) = Inr u"
proof -
  let ?g = "\<lambda>k j. concat (map hex_byte (take j (drop k u)))"
  let ?v = "\<lambda>k. take k u @ drop k (fresh junk 16)"
  have step: "uuid_loop n (2 * k) NUL (?v k) (?g k j @ cs) = uuid_loop (n + 2 * j) (2 * (k + j)) NUL (?v (k + j)) cs"
    if "n + 2 * j \<le> 36" "k + j \<le> 16" for n k j cs
  proof -
    have l: "length (take j (drop k u)) = j" "length (?v k) = 16" "length (take k u) = k"
      using that assms by simp_all
    have "?v (k + j) = take k (?v k) @ take j (drop k u) @ drop (k + j) (?v k)"
      using l(3) by (simp add: take_add) (simp add: add.commute)
    then show ?thesis
      using uuid_loop_hex_bytes [of n "take j (drop k u)" k "?v k" cs] that unfolding l by simp
  qed
  have dash: "uuid_loop n (2 * k) NUL (?v k) (?g k j @ ''-'' @ cs) =
      uuid_loop (n + 2 * j + 1) (2 * (k + j)) NUL (?v (k + j)) cs"
    if "n + 2 * j < 36" "k + j \<le> 16" "dash_position (n + 2 * j)" for n k j cs
    using step [of n j k "''-'' @ cs"] uuid_loop_dash [of "n + 2 * j"] that
    by (simp del: uuid_loop.simps)
  have "uuid_loop 0 (2 * 0) NUL (?v 0) (uuid_asString u) = uuid_loop 36 (2 * 16) NUL (?v 16) []"
    using dash [of 0 4 0] dash [of 9 2 4] dash [of 14 2 6] dash [of 19 2 8] step [of 24 6 10 "[]"]
    by (simp add: uuid_asString_def dash_position_def del: uuid_loop.simps)
  then show ?thesis using assms by (simp add: uuid_fromString_def)
qed

text \<open>A text without dashes is accepted digit by digit until the array is full.\<close>

lemma uuid_without_dashes:
  assumes "length u = 18"
  shows "uuid_fromString junk (concat (map hex_byte u)) = Inl (Undefined ''write outside of buffer'')"
proof -
  have "length (drop 16 u) = Suc (Suc 0)" using assms by simp
  then obtain b c where "drop 16 u = [b, c]" by (auto simp: length_Suc_conv simp del: length_drop)
  then have u: "u = take 16 u @ [b, c]" using append_take_drop_id [of 16 u] by simp
  have "uuid_loop 0 (2 * 0) NUL (fresh junk 16) (concat (map hex_byte (take 16 u)) @ hex_byte b @ hex_byte c)
      = uuid_loop 32 (2 * 16) NUL (take 16 u) (hex_byte b @ hex_byte c)"
    using uuid_loop_hex_bytes [of 0 "take 16 u" 0 "fresh junk 16"] assms
    by (simp del: uuid_loop.simps)
  also have "\<dots> = Inl (Undefined ''write outside of buffer'')"
    using nibbles [of b] by (simp add: hex_byte_def hex_digit_char)
  finally show ?thesis
    by (subst u) (simp add: uuid_fromString_def del: uuid_loop.simps)
qed

text \<open>The version field is the upper nibble of byte 6, where the constructor clears it.\<close>

lemma uuid_version_lost: "length u \<ge> 16 \<Longrightarrow> uuid_version (uuid_fromMD5 u) = 0"
proof -
  have "drop_bit 4 ((x AND 0x0f) OR 3) AND 0x0F = (0 :: byte)" for x :: byte
  proof -
    have m: "(0x0f :: byte) = mask 4" by (simp add: mask_eq_exp_minus_1)
    have t: "(3 :: byte) = mask 2" by (simp add: mask_eq_exp_minus_1)
    show ?thesis unfolding m t by (rule bit_word_eqI) (auto simp: bit_simps)
  qed
  then show "length u \<ge> 16 \<Longrightarrow> ?thesis"
    by (simp add: uuid_version_def uuid_fromMD5_def uuid_fromBytes_def Let_def)
qed

end
