(* ===== verification/Parameters.thy ===== *)
theory Parameters
  imports Address Double Uuid
begin

section \<open>cParameter and cParameterList\<close>

text \<open>
  src/compiler/parameterlist.hpp and parameterlist.cpp. \<open>parameter\<close> and \<open>par_value\<close> are the texts from
  the two pointers on, \<open>par_data\<close> is \<open>None\<close> for a null pointer. What a compile run changes besides the
  packets is the record \<open>pstate\<close>: the shared state, the parameter list of the instruction being
  compiled and the members of \<open>cInstructionParser\<close>. A \<open>cParameter*\<close> is a position of the list or
  the default parameter; a null pointer is \<open>None\<close>.
\<close>

record cParameter =
  parameter :: string
  parLen :: nat
  par_value :: string
  valLen :: nat
  par_index :: int
  par_data :: "byte list option"

record cDefaultParameter =
  def_int32 :: u32
  def_mac :: "byte list"
  def_ip :: "byte list"
  def_dbl :: double

record cParameterList =
  plist :: "cParameter list"
  par_used :: "bool list"
  parseError :: "string option"
  defaultParameter :: cDefaultParameter

record pstate = env +
  params :: cParameterList
  m_currentInstruction :: string
  m_ipOptionalDestMAC :: bool
  m_recursionDepth :: u32
  m_deleted :: bool

datatype pref = PRef nat | PDefault

definition nullPointer :: error where
  "nullPointer = Undefined ''null pointer''"

subsection \<open>Values of a parameter\<close>

definition formatError :: "cause \<Rightarrow> cParameter \<Rightarrow> error" where
  "formatError c p = FormatException c (Some (par_value p)) (valLen p)"

definition formatErrorAfterStar :: "cause \<Rightarrow> cParameter \<Rightarrow> error" where
  "formatErrorAfterStar c p = FormatException c (Some (drop 1 (par_value p))) (szsub (valLen p) 1)"

text \<open>The offset of a pointer into the value.\<close>

definition endOf :: "cParameter \<Rightarrow> string \<Rightarrow> nat" where
  "endOf p rest = length (par_value p) - length rest"

definition set_errno :: "bool \<Rightarrow> ('z env_scheme, unit) M" where
  "set_errno e = modifyM (\<lambda>s. s\<lparr>errno_range := e\<rparr>)"

text \<open>\<open>None\<close> is the result -1.\<close>

definition isRandom :: "cParameter \<Rightarrow> bool \<Rightarrow> ('z env_scheme, nat option) M" where
  "isRandom p allowRange =
     (if valLen p = 0 \<or> char_at (par_value p) 0 \<noteq> CHR ''*'' then returnM None
      else if valLen p = 1 then returnM (Some 0)
      else if allowRange then
        (case strtoull (drop 1 (par_value p)) 0 of (r, rest, erange) \<Rightarrow>
           bindM (set_errno erange) (\<lambda>_.
           if endOf p rest \<noteq> valLen p then throwM (formatErrorAfterStar exParFormat p)
           else if \<not> (1 \<le> r \<and> r \<le> 65535) \<or> erange then throwM (formatErrorAfterStar exParRange p)
           else returnM (Some r)))
      else throwM (formatErrorAfterStar exParFormat p))"

text \<open>\<open>None\<close> is the result -1, \<open>Some None\<close> is 0 and \<open>Some (Some (min, max))\<close> is 1.\<close>

definition isRandomInteger :: "cParameter \<Rightarrow> ('z env_scheme, (nat \<times> nat) option option) M" where
  "isRandomInteger p =
     (if valLen p = 0 \<or> char_at (par_value p) 0 \<noteq> CHR ''*'' then returnM None
      else if valLen p = 1 then returnM (Some None)
      else bindM (getM errno_range) (\<lambda>e.
           case range e (drop 1 (par_value p)) (valLen p - 1) 0 of (r, e') \<Rightarrow>
           bindM (set_errno e') (\<lambda>_. case r of
             None \<Rightarrow> throwM (formatErrorAfterStar exParFormat p)
           | Some mm \<Rightarrow> returnM (Some (Some mm)))))"

text \<open>
  \<open>asInt32\<close> and \<open>asInt64\<close> differ in the width of the range and of the random source only.
\<close>

definition asInt :: "(nat \<Rightarrow> nat \<Rightarrow> ('z env_scheme, nat) M) \<Rightarrow> cParameter \<Rightarrow> nat \<Rightarrow> nat \<Rightarrow> ('z env_scheme, nat) M" where
  "asInt draw p rangeBegin rangeEnd =
     bindM (liftE (bugOn (rangeEnd < rangeBegin) ''rangeEnd < rangeBegin'')) (\<lambda>_.
     bindM (isRandomInteger p) (\<lambda>r. case r of
       Some None \<Rightarrow> draw rangeBegin rangeEnd
     | Some (Some (lo, hi)) \<Rightarrow>
         if lo < rangeBegin \<or> hi > rangeEnd then throwM (formatError exParRange p) else draw lo hi
     | None \<Rightarrow>
         (case strtoull (par_value p) 0 of (v, rest, erange) \<Rightarrow>
          bindM (set_errno erange) (\<lambda>_.
          if endOf p rest \<noteq> valLen p then throwM (formatError exParFormat p)
          else if \<not> (rangeBegin \<le> v \<and> v \<le> rangeEnd) \<or> erange then throwM (formatError exParRange p)
          else returnM v))))"

definition par_asInt32 :: "cParameter \<Rightarrow> u32 \<Rightarrow> u32 \<Rightarrow> ('z env_scheme, u32) M" where
  "par_asInt32 p lo hi =
     bindM (asInt (\<lambda>a b. bindM (rand32 (of_nat a) (of_nat b)) (\<lambda>r. returnM (unat r))) p (unat lo) (unat hi))
       (\<lambda>v. returnM (of_nat v))"

definition par_asInt64 :: "cParameter \<Rightarrow> u64 \<Rightarrow> u64 \<Rightarrow> ('z env_scheme, u64) M" where
  "par_asInt64 p lo hi =
     bindM (asInt (\<lambda>a b. bindM (rand64 (of_nat a) (of_nat b)) (\<lambda>r. returnM (unat r))) p (unat lo) (unat hi))
       (\<lambda>v. returnM (of_nat v))"

definition par_asInt16 :: "cParameter \<Rightarrow> u16 \<Rightarrow> u16 \<Rightarrow> ('z env_scheme, u16) M" where
  "par_asInt16 p lo hi = bindM (par_asInt32 p (ucast lo) (ucast hi)) (\<lambda>v. returnM (ucast v))"

definition par_asInt8 :: "cParameter \<Rightarrow> byte \<Rightarrow> byte \<Rightarrow> ('z env_scheme, byte) M" where
  "par_asInt8 p lo hi = bindM (par_asInt32 p (ucast lo) (ucast hi)) (\<lambda>v. returnM (ucast v))"

definition par_asDouble :: "cParameter \<Rightarrow> double \<Rightarrow> double \<Rightarrow> ('z env_scheme, double) M" where
  "par_asDouble p rangeBegin rangeEnd =
     bindM (liftE (bugOn (dless rangeEnd rangeBegin) ''rangeEnd < rangeBegin'')) (\<lambda>_.
     case stod (par_value p) of
       Inl (OutOfRange _) \<Rightarrow> bindM (set_errno True) (\<lambda>_. throwM (formatError exParRange p))
     | Inl _ \<Rightarrow> throwM (formatError exParFormat p)
     | Inr (v, rest) \<Rightarrow>
         if endOf p rest \<noteq> valLen p then throwM (formatError exParFormat p)
         else if dless v rangeBegin \<or> dless rangeEnd v then throwM (formatError exParRange p)
         else returnM v)"

definition par_asMac :: "cParameter \<Rightarrow> ('z env_scheme, byte list) M" where
  "par_asMac p = catchM (mac_of_string (par_value p) (valLen p)) (\<lambda>e. case e of
     OutOfRange _ \<Rightarrow> throwM (formatError exParFormat p) | _ \<Rightarrow> throwM e)"

definition par_asIPv4 :: "cParameter \<Rightarrow> ('z env_scheme, byte list) M" where
  "par_asIPv4 p = bindM (ipv4_set (par_value p) (valLen p)) (\<lambda>a. case a of
     Some a \<Rightarrow> returnM a | None \<Rightarrow> throwM (formatError exParFormat p))"

definition par_asIPv6 :: "cParameter \<Rightarrow> ('z env_scheme, byte list) M" where
  "par_asIPv6 p = bindM (isRandom p False) (\<lambda>r.
     if r = Some 0 then ipv6_setRandom
     else bindM (ipv6_set (par_value p) (valLen p)) (\<lambda>a. case a of
            Some a \<Rightarrow> returnM a | None \<Rightarrow> throwM (formatError exParFormat p)))"

text \<open>
  What \<open>asStream\<close> returns: a block of its own, or a pointer into the instruction and a length.
\<close>

datatype stream = Block "byte list" | Text string nat

definition bytes_of_text :: "string \<Rightarrow> byte list" where
  "bytes_of_text t = map (\<lambda>c. of_nat (code_of c)) t"

fun stream_bytes :: "stream \<Rightarrow> byte list" where
  "stream_bytes (Block b) = b"
| "stream_bytes (Text t n) = bytes_of_text (chars_at t n)"

fun stream_len :: "stream \<Rightarrow> nat" where
  "stream_len (Block b) = length b"
| "stream_len (Text t n) = n"

text \<open>The stream, \<open>isEmbedded\<close>, and the parameter with its cached block.\<close>

definition cached :: "cParameter \<Rightarrow> nat \<Rightarrow> byte list \<Rightarrow> ('z env_scheme, stream \<times> bool \<times> cParameter) M" where
  "cached p maxLen d =
     (if length d > maxLen then throwM (formatError exParFormat p)
      else returnM (Block d, False, p\<lparr>par_data := Some d\<rparr>))"

definition asStreamOrEmbedded :: "bool \<Rightarrow> nat \<Rightarrow> cParameter \<Rightarrow> ('z env_scheme, stream \<times> bool \<times> cParameter) M" where
  "asStreamOrEmbedded allowEmbPacket maxLen p =
     (case par_data p of
        Some d \<Rightarrow> cached p maxLen d
      | None \<Rightarrow>
          bindM (isRandom p True) (\<lambda>randLen. case randLen of
            Some n \<Rightarrow> bindM (rand_buf 0 (if n = 0 then 32 else n)) (\<lambda>d. cached p maxLen d)
          | None \<Rightarrow>
              let c = char_at (par_value p) 0
              in if allowEmbPacket \<and> (c = CHR 0x22 \<or> c = CHR ''<'') \<or> \<not> allowEmbPacket \<and> c = CHR 0x22
                 then (let len = szsub (valLen p) 2
                       in if len > maxLen then throwM (formatError exParFormat p)
                          else returnM (Text (drop 1 (par_value p)) len, c = CHR ''<'', p))
                 else (case hexStringToBin (par_value p) (valLen p) of
                         None \<Rightarrow> throwM (formatError exParFormat p)
                       | Some d \<Rightarrow> cached p maxLen d)))"

subsection \<open>Virtual calls\<close>

definition SIZE_MAX :: nat where
  "SIZE_MAX = 2 ^ 64 - 1"

definition the_param :: "nat \<Rightarrow> (pstate, cParameter) M" where
  "the_param n = bindM (getM (plist \<circ> params)) (\<lambda>l.
     if n < length l then returnM (l ! n) else throwM nullPointer)"

definition onParam :: "(cParameter \<Rightarrow> (pstate, 'a) M) \<Rightarrow> (cDefaultParameter \<Rightarrow> 'a res) \<Rightarrow> pref \<Rightarrow> (pstate, 'a) M" where
  "onParam f g r = (case r of
     PRef n \<Rightarrow> bindM (the_param n) f
   | PDefault \<Rightarrow> bindM (getM (defaultParameter \<circ> params)) (\<lambda>d. liftE (g d)))"

definition asInt32 :: "u32 \<Rightarrow> u32 \<Rightarrow> pref \<Rightarrow> (pstate, u32) M" where
  "asInt32 lo hi = onParam (\<lambda>p. par_asInt32 p lo hi) (\<lambda>d. Inr (def_int32 d))"

definition asInt16 :: "u16 \<Rightarrow> u16 \<Rightarrow> pref \<Rightarrow> (pstate, u16) M" where
  "asInt16 lo hi = onParam (\<lambda>p. par_asInt16 p lo hi) (\<lambda>d. Inr (ucast (def_int32 d)))"

definition asInt8 :: "byte \<Rightarrow> byte \<Rightarrow> pref \<Rightarrow> (pstate, byte) M" where
  "asInt8 lo hi = onParam (\<lambda>p. par_asInt8 p lo hi) (\<lambda>d. Inr (ucast (def_int32 d)))"

text \<open>\<open>cDefaultParameter\<close> does not override \<open>asInt64\<close> and \<open>asIPv6\<close>: they read its null value.\<close>

definition asInt64 :: "u64 \<Rightarrow> u64 \<Rightarrow> pref \<Rightarrow> (pstate, u64) M" where
  "asInt64 lo hi = onParam (\<lambda>p. par_asInt64 p lo hi) (\<lambda>d. Inl nullPointer)"

definition asDouble :: "double \<Rightarrow> double \<Rightarrow> pref \<Rightarrow> (pstate, double) M" where
  "asDouble lo hi = onParam (\<lambda>p. par_asDouble p lo hi) (\<lambda>d. Inr (def_dbl d))"

definition asMac :: "pref \<Rightarrow> (pstate, byte list) M" where
  "asMac = onParam par_asMac (\<lambda>d. Inr (def_mac d))"

definition asIPv4 :: "pref \<Rightarrow> (pstate, byte list) M" where
  "asIPv4 = onParam par_asIPv4 (\<lambda>d. Inr (def_ip d))"

definition asIPv6 :: "pref \<Rightarrow> (pstate, byte list) M" where
  "asIPv6 = onParam par_asIPv6 (\<lambda>d. Inl nullPointer)"

definition put_param :: "nat \<Rightarrow> cParameter \<Rightarrow> (pstate, unit) M" where
  "put_param n p = modifyM (\<lambda>s. s\<lparr>params := params s\<lparr>plist := (plist (params s))[n := p]\<rparr>\<rparr>)"

definition streamOf :: "bool \<Rightarrow> nat \<Rightarrow> pref \<Rightarrow> (pstate, stream \<times> bool) M" where
  "streamOf allowEmbPacket maxLen r = (case r of
     PDefault \<Rightarrow> throwM (Bug ''no raw access for optional parameters'')
   | PRef n \<Rightarrow> bindM (the_param n) (\<lambda>p.
       bindM (asStreamOrEmbedded allowEmbPacket maxLen p) (\<lambda>(v, isEmbedded, p).
       bindM (put_param n p) (\<lambda>_. returnM (v, isEmbedded)))))"

definition asStream :: "nat \<Rightarrow> pref \<Rightarrow> (pstate, byte list) M" where
  "asStream maxLen r = bindM (streamOf False maxLen r) (\<lambda>(v, _). returnM (stream_bytes v))"

definition asEmbedded :: "pref \<Rightarrow> (pstate, stream \<times> bool) M" where
  "asEmbedded = streamOf True SIZE_MAX"

definition asUUID :: "pref \<Rightarrow> (pstate, byte list) M" where
  "asUUID r = (case r of
     PDefault \<Rightarrow> returnM uuid_fromZero
   | PRef n \<Rightarrow> bindM (asStream uuid_stringSize r) (\<lambda>pUuid. bindM (the_param n) (\<lambda>p. bindM (getM junk_of) (\<lambda>junk.
       case uuid_fromString junk (takeWhile (\<lambda>c. c \<noteq> NUL) (map (\<lambda>b. char_of (unat b)) pUuid)) of
         Inl (Undefined m) \<Rightarrow> throwM (Undefined m)
       | Inl _ \<Rightarrow> throwM (formatError exParFormat p)
       | Inr u \<Rightarrow> returnM u))))"

subsection \<open>Parsing a parameter list\<close>

definition BOOLVALUE :: string where
  "BOOLVALUE = ''01''"
text \<open>
  A syntax error is the position the parser returns, \<open>Inl p\<close>. First the end of a value that starts
  at \<open>token\<close>, then a value after the key with its text and length, then one round of the loop of
  \<open>parseParameters\<close>: the text after the parameter and its comma, and the parameter that was stored,
  which an error after it does not take back.
\<close>

definition value_end :: "string \<Rightarrow> string + string" where
  "value_end token =
     (let c = char_at token 0;
          isString = (c = CHR 0x22);
          isEmbedded = (c = CHR ''<'')
      in if isString \<or> isEmbedded
         then (let p = drop 1 token;
                   e = dropWhile (\<lambda>d. d \<noteq> (if isString then CHR 0x22 else CHR ''>'')) p
               in if e = [] then Inl p else Inr (drop 1 e))
         else Inr (nextValueEnd token))"

definition parse_value :: "string \<Rightarrow> string + (string \<times> string \<times> nat)" where
  "parse_value p =
     (if isOneOf (char_at p 0) '',)'' then Inr (p, BOOLVALUE, 2)
      else if char_at p 0 \<noteq> CHR ''='' then Inl p
      else case nextValueStart (drop 1 p) of
             None \<Rightarrow> Inl (drop 1 p)
           | Some token \<Rightarrow>
               (case value_end token of
                  Inl err \<Rightarrow> Inl err
                | Inr q \<Rightarrow> Inr (q, token, length token - length q)))"

definition parse_one :: "nat \<Rightarrow> string \<Rightarrow> (string + string) \<times> cParameter option" where
  "parse_one idx p =
     (case nextKeyStart p of
        None \<Rightarrow> (Inl p, None)
      | Some token \<Rightarrow>
          let keyEnd = nextKeyEnd token
          in case parse_value (skipWhitespaces keyEnd) of
               Inl err \<Rightarrow> (Inl err, None)
             | Inr (q, v, vlen) \<Rightarrow>
                 let par = \<lparr>parameter = token, parLen = length token - length keyEnd, par_value = v,
                            valLen = vlen, par_index = int idx, par_data = None\<rparr>;
                     r = skipWhitespaces q
                 in if \<not> isOneOf (char_at r 0) '',)'' then (Inl r, Some par)
                    else (Inr (if char_at r 0 = CHR '','' then drop 1 r else r), Some par))"

lemma isOneOf_iff: "isOneOf c s \<longleftrightarrow> c \<in> set s"
  by (induction s) auto

lemma nextTokenStart_Some:
  "nextTokenStart p a n acc = Some t \<Longrightarrow> t = skipWhitespaces p \<and> accepted a n acc (char_at t 0)"
  by (auto simp: nextTokenStart_def Let_def split: if_splits)

lemma char_at_hd: "char_at t 0 \<noteq> NUL \<Longrightarrow> t \<noteq> [] \<and> hd t = char_at t 0"
  by (cases t) auto

lemma nextKeyStart_Some:
  assumes "nextKeyStart p = Some t"
  shows "t = skipWhitespaces p" "t \<noteq> []" "isalpha (hd t)"
proof -
  have *: "t = skipWhitespaces p" "isalpha (char_at t 0)"
    using nextTokenStart_Some [OF assms [unfolded nextKeyStart_def]] by (auto simp: accepted_def)
  then have "char_at t 0 \<noteq> NUL" by (auto simp: isalpha_def NUL_def code_of_def)
  then show "t = skipWhitespaces p" "t \<noteq> []" "isalpha (hd t)" using * char_at_hd [of t] by auto
qed

lemma nextValueStart_Some:
  assumes "nextValueStart p = Some t"
  shows "t = skipWhitespaces p" "t \<noteq> []"
    "isalpha (hd t) \<or> isdigit (hd t) \<or> hd t \<in> {CHR 0x22, CHR ''*'', CHR ''<''}"
proof -
  have *: "t = skipWhitespaces p"
    "isalpha (char_at t 0) \<or> isdigit (char_at t 0) \<or> char_at t 0 \<in> {CHR 0x22, CHR ''*'', CHR ''<''}"
    using nextTokenStart_Some [OF assms [unfolded nextValueStart_def]]
    by (auto simp: accepted_def split: if_splits)
  then have "char_at t 0 \<noteq> NUL" by (auto simp: isalpha_def isdigit_def NUL_def code_of_def)
  then show "t = skipWhitespaces p" "t \<noteq> []"
    "isalpha (hd t) \<or> isdigit (hd t) \<or> hd t \<in> {CHR 0x22, CHR ''*'', CHR ''<''}"
    using * char_at_hd [of t] by auto
qed

lemma nextKeyEnd_shorter: "t \<noteq> [] \<Longrightarrow> isalpha (hd t) \<Longrightarrow> length (nextKeyEnd t) < length t"
  by (cases t) (auto simp: nextKeyEnd_def accepted_def le_imp_less_Suc nextTokenEnd_length)

lemma value_end_shorter:
  assumes "value_end t = Inr q" and "t \<noteq> []"
    and "isalpha (hd t) \<or> isdigit (hd t) \<or> hd t \<in> {CHR 0x22, CHR ''*'', CHR ''<''}"
  shows "length q < length t"
proof -
  have d: "length (dropWhile P (drop 1 t)) \<le> length t - 1" for P
    using length_dropWhile_le [of P "drop 1 t"] by simp
  obtain c u where t: "t = c # u" using assms(2) by (cases t) auto
  show ?thesis
  proof (cases "c = CHR 0x22 \<or> c = CHR ''<''")
    case True
    then have "\<exists>P. q = drop 1 (dropWhile P (drop 1 t)) \<and> dropWhile P (drop 1 t) \<noteq> []"
      using assms(1) t by (auto simp: value_end_def Let_def split: if_splits)
    then obtain P where "q = drop 1 (dropWhile P (drop 1 t))" by blast
    then show ?thesis using d [of P] t by simp
  next
    case False
    then have "q = nextValueEnd t" using assms(1) t by (simp add: value_end_def Let_def)
    moreover have "accepted True True (Some ''.:*[-]'') c"
      using assms(3) False t by (auto simp: accepted_def)
    ultimately show ?thesis using t by (simp add: nextValueEnd_def le_imp_less_Suc nextTokenEnd_length)
  qed
qed

lemma parse_value_length: "parse_value p = Inr (q, v, n) \<Longrightarrow> length q \<le> length p"
proof -
  assume pv: "parse_value p = Inr (q, v, n)"
  show ?thesis
  proof (cases "isOneOf (char_at p 0) '',)''")
    case False
    with pv obtain token where t: "nextValueStart (drop 1 p) = Some token" "value_end token = Inr q"
      by (auto simp: parse_value_def split: if_splits option.splits sum.splits)
    have "length q < length token"
      using t(2) nextValueStart_Some(2,3) [OF t(1)] by (rule value_end_shorter)
    also have "\<dots> \<le> length (drop 1 p)"
      using t(1) unfolding nextValueStart_def by (rule nextTokenStart_length)
    finally show ?thesis by simp
  qed (use pv in \<open>simp add: parse_value_def del: isOneOf.simps\<close>)
qed

lemma parse_one_shorter:
  assumes "parse_one idx p = (Inr q, v)"
  shows "length q < length p"
proof -
  obtain token where t: "nextKeyStart p = Some token"
    using assms by (auto simp: parse_one_def split: option.splits)
  obtain r w n where pv: "parse_value (skipWhitespaces (nextKeyEnd token)) = Inr (r, w, n)"
    and q: "length q \<le> length (skipWhitespaces r)"
    using assms t by (auto simp: parse_one_def Let_def split: sum.splits if_splits prod.splits)
  have "length q \<le> length r" using q skipWhitespaces_length [of r] by simp
  also have "\<dots> \<le> length (skipWhitespaces (nextKeyEnd token))" using pv by (rule parse_value_length)
  also have "\<dots> \<le> length (nextKeyEnd token)" by (rule skipWhitespaces_length)
  also have "\<dots> < length token" using nextKeyStart_Some(2,3) [OF t] by (rule nextKeyEnd_shorter)
  also have "\<dots> \<le> length p" using nextKeyStart_Some(1) [OF t] skipWhitespaces_length [of p] by simp
  finally show ?thesis .
qed

text \<open>The list, and the position where the loop stopped or the syntax error.\<close>

function parse_loop :: "string \<Rightarrow> cParameter list \<Rightarrow> cParameter list \<times> (string + string)" where
  "parse_loop p l =
     (if char_at p 0 = NUL \<or> char_at p 0 = CHR '')'' then (l, Inr p)
      else case parse_one (length l) p of
             (Inl err, v) \<Rightarrow> (l @ (case v of None \<Rightarrow> [] | Some v \<Rightarrow> [v]), Inl err)
           | (Inr q, v) \<Rightarrow> parse_loop q (l @ (case v of None \<Rightarrow> [] | Some v \<Rightarrow> [v])))"
  by pat_completeness auto
termination
  by (relation "measure (\<lambda>(p, l). length p)") (auto dest: parse_one_shorter [OF sym])

declare parse_loop.simps [simp del]

text \<open>The list and the position of the syntax error, which is null where there is none.\<close>

definition parseParameters :: "string \<Rightarrow> bool \<Rightarrow> (cParameter list \<times> string option) res" where
  "parseParameters parameters ignoreTrailingGarbage =
     bindE (bugOn (char_at parameters 0 \<noteq> CHR ''('') ''no opening parenthesis'') (\<lambda>_.
     case parse_loop (drop 1 parameters) [] of
       (l, Inl err) \<Rightarrow> Inr (l, Some err)
     | (l, Inr p) \<Rightarrow>
         if char_at p 0 \<noteq> CHR '')'' then Inr (l, Some p)
         else if \<not> ignoreTrailingGarbage \<and> skipWhitespaces (drop 1 p) \<noteq> []
         then Inr (l, Some (skipWhitespaces (drop 1 p)))
         else Inr (l, None))"

text \<open>The members of the default parameter that no constructor initialises are fresh memory.\<close>

definition new_cParameterList :: "string \<Rightarrow> bool \<Rightarrow> (pstate, cParameterList) M" where
  "new_cParameterList parameters ignoreTrailingGarbage =
     bindM (liftE (parseParameters parameters ignoreTrailingGarbage)) (\<lambda>(l, err).
     bindM (getM junk_of) (\<lambda>junk.
     returnM \<lparr>plist = l, par_used = replicate (length l) False, parseError = err,
       defaultParameter = \<lparr>def_int32 = rd32 (fresh junk 4), def_mac = fresh junk 6, def_ip = fresh junk 4,
                           def_dbl = NaN\<rparr>\<rparr>))"

subsection \<open>Looking parameters up\<close>

text \<open>\<open>!strncmp (a, b, n)\<close> on texts that end where the list ends.\<close>

definition strncmp_eq :: "string \<Rightarrow> string \<Rightarrow> nat \<Rightarrow> bool" where
  "strncmp_eq a b n = (take n a = take n b)"

definition has_name :: "string \<Rightarrow> cParameter \<Rightarrow> bool" where
  "has_name name p = (length name = parLen p \<and> strncmp_eq name (parameter p) (parLen p))"

fun find_from :: "string option \<Rightarrow> string \<Rightarrow> cParameter list \<Rightarrow> nat \<Rightarrow> nat option" where
  "find_from stopAt name [] n = None"
| "find_from stopAt name (p # ps) n =
     (if (case stopAt of None \<Rightarrow> False | Some s \<Rightarrow> has_name s p) then None
      else if has_name name p then Some n
      else find_from stopAt name ps (n + 1))"

definition setUsed :: "nat \<Rightarrow> bool \<Rightarrow> (pstate, unit) M" where
  "setUsed n v = bindM (getM (par_used \<circ> params)) (\<lambda>u.
     if n < length u then modifyM (\<lambda>s. s\<lparr>params := params s\<lparr>par_used := (par_used (params s))[n := v]\<rparr>\<rparr>)
     else throwM (OutOfRange ''vector::at''))"

definition startIndex :: "pref option \<Rightarrow> (pstate, nat) M" where
  "startIndex startAfter = (case startAfter of
     None \<Rightarrow> returnM 0
   | Some PDefault \<Rightarrow> getM (length \<circ> plist \<circ> params)
   | Some (PRef n) \<Rightarrow> bindM (the_param n) (\<lambda>p.
       if par_index p \<ge> 0 then returnM (nat (par_index p) + 1) else getM (length \<circ> plist \<circ> params)))"

definition findParameterFrom :: "pref option \<Rightarrow> string option \<Rightarrow> string \<Rightarrow> bool \<Rightarrow> (pstate, pref option) M" where
  "findParameterFrom startAfter stopAt name isOptional =
     bindM (startIndex startAfter) (\<lambda>n.
     bindM (getM (plist \<circ> params)) (\<lambda>l.
     case find_from stopAt name (drop n l) n of
       Some k \<Rightarrow> bindM (setUsed k True) (\<lambda>_. returnM (Some (PRef k)))
     | None \<Rightarrow> if \<not> isOptional then throwM (FormatException exParUnknown (Some name) (length name))
               else returnM None))"

definition findOptional :: "string \<Rightarrow> (pstate, pref option) M" where
  "findOptional name = findParameterFrom None None name True"

definition deref :: "pref option \<Rightarrow> (pstate, pref) M" where
  "deref r = (case r of Some r \<Rightarrow> returnM r | None \<Rightarrow> throwM nullPointer)"

text \<open>A mandatory parameter, whose pointer the callers use at once.\<close>

definition findParameter :: "string \<Rightarrow> (pstate, pref) M" where
  "findParameter name = bindM (findParameterFrom None None name False) deref"

definition setDefault :: "(cDefaultParameter \<Rightarrow> cDefaultParameter) \<Rightarrow> (pstate, pref) M" where
  "setDefault f = bindM (modifyM (\<lambda>s. s\<lparr>params := params s\<lparr>defaultParameter := f (defaultParameter (params s))\<rparr>\<rparr>))
     (\<lambda>_. returnM PDefault)"

definition findOr :: "pref option \<Rightarrow> string option \<Rightarrow> string \<Rightarrow> (cDefaultParameter \<Rightarrow> cDefaultParameter) \<Rightarrow> (pstate, pref) M" where
  "findOr startAfter stopAt name f =
     bindM (findParameterFrom startAfter stopAt name True) (\<lambda>r. case r of
       Some r \<Rightarrow> returnM r | None \<Rightarrow> setDefault f)"

definition findIntFrom :: "pref option \<Rightarrow> string option \<Rightarrow> string \<Rightarrow> u32 \<Rightarrow> (pstate, pref) M" where
  "findIntFrom startAfter stopAt name optionalValue =
     findOr startAfter stopAt name (\<lambda>d. d\<lparr>def_int32 := optionalValue\<rparr>)"

definition findDoubleFrom :: "pref option \<Rightarrow> string option \<Rightarrow> string \<Rightarrow> double \<Rightarrow> (pstate, pref) M" where
  "findDoubleFrom startAfter stopAt name optionalValue =
     findOr startAfter stopAt name (\<lambda>d. d\<lparr>def_dbl := optionalValue\<rparr>)"

definition findMacFrom :: "pref option \<Rightarrow> string option \<Rightarrow> string \<Rightarrow> byte list \<Rightarrow> (pstate, pref) M" where
  "findMacFrom startAfter stopAt name optionalValue =
     findOr startAfter stopAt name (\<lambda>d. d\<lparr>def_mac := optionalValue\<rparr>)"

definition findIPv4From :: "pref option \<Rightarrow> string option \<Rightarrow> string \<Rightarrow> byte list \<Rightarrow> (pstate, pref) M" where
  "findIPv4From startAfter stopAt name optionalValue =
     findOr startAfter stopAt name (\<lambda>d. d\<lparr>def_ip := optionalValue\<rparr>)"

definition findInt :: "string \<Rightarrow> u32 \<Rightarrow> (pstate, pref) M" where
  "findInt = findIntFrom None None"

definition findDouble :: "string \<Rightarrow> double \<Rightarrow> (pstate, pref) M" where
  "findDouble = findDoubleFrom None None"

definition findMac :: "string \<Rightarrow> byte list \<Rightarrow> (pstate, pref) M" where
  "findMac = findMacFrom None None"

definition findIPv4 :: "string \<Rightarrow> byte list \<Rightarrow> (pstate, pref) M" where
  "findIPv4 = findIPv4From None None"

fun first_unused :: "cParameter list \<Rightarrow> bool list \<Rightarrow> cParameter option" where
  "first_unused (p # ps) (u # us) = (if \<not> u then Some p else first_unused ps us)"
| "first_unused _ _ = None"

definition checkForUnusedParameters :: "(pstate, unit) M" where
  "checkForUnusedParameters = bindM (getM params) (\<lambda>l.
     bindM (liftE (bugOn (length (plist l) \<noteq> length (par_used l)) ''list.size() != used.size()'')) (\<lambda>_.
     case first_unused (plist l) (par_used l) of
       None \<Rightarrow> returnM ()
     | Some p \<Rightarrow> throwM (FormatException exParUnused (Some (parameter p)) (parLen p))))"

end
