(* ===== verification/Syntax_Tables.thy ===== *)
theory Syntax_Tables
  imports Prelude
begin

section \<open>The instruction language's tables\<close>

text \<open>
  src/compiler/syntax.hpp: the parameters and protocols the program knows, one definition per
  constant, under its name and in its order. A pointer to a constant table entry is the entry, and
  a macro that expands to several entries (\<open>PAR_VLAN\<close>, \<open>PAR_IP4_OPT\<close>) is a list of them.
\<close>

datatype Type = Integer | Float | Mac | IP | Bytestream | Bit

record Parameter =
  par_syntax :: string
  par_descr :: string
  par_type :: Type

record Protocol =
  pr_syntax :: string
  pr_descr :: string
  mandatory :: "Parameter list"
  optional :: "Parameter list"

definition PAR_RAW_BYTE :: Parameter where
  "PAR_RAW_BYTE = \<lparr>par_syntax = ''byte'', par_descr = ''Raw byte value'', par_type = Integer\<rparr>"

definition PAR_RAW_BE16 :: Parameter where
  "PAR_RAW_BE16 = \<lparr>par_syntax = ''be16'', par_descr = ''Big-endian 16-bit value'', par_type = Integer\<rparr>"

definition PAR_RAW_BE32 :: Parameter where
  "PAR_RAW_BE32 = \<lparr>par_syntax = ''be32'', par_descr = ''Big-endian 32-bit value'', par_type = Integer\<rparr>"

definition PAR_RAW_BE64 :: Parameter where
  "PAR_RAW_BE64 = \<lparr>par_syntax = ''be64'', par_descr = ''Big-endian 64-bit value'', par_type = Integer\<rparr>"

definition PAR_RAW_LE16 :: Parameter where
  "PAR_RAW_LE16 = \<lparr>par_syntax = ''le16'', par_descr = ''Little-endian 16-bit value'', par_type = Integer\<rparr>"

definition PAR_RAW_LE32 :: Parameter where
  "PAR_RAW_LE32 = \<lparr>par_syntax = ''le32'', par_descr = ''Little-endian 32-bit value'', par_type = Integer\<rparr>"

definition PAR_RAW_LE64 :: Parameter where
  "PAR_RAW_LE64 = \<lparr>par_syntax = ''le64'', par_descr = ''Little-endian 64-bit value'', par_type = Integer\<rparr>"

definition PAR_RAW_IP4 :: Parameter where
  "PAR_RAW_IP4 = \<lparr>par_syntax = ''ip4'', par_descr = ''IPv4 address'', par_type = IP\<rparr>"

definition PAR_RAW_IP6 :: Parameter where
  "PAR_RAW_IP6 = \<lparr>par_syntax = ''ip6'', par_descr = ''IPv6 address'', par_type = IP\<rparr>"

definition PAR_RAW_MAC :: Parameter where
  "PAR_RAW_MAC = \<lparr>par_syntax = ''mac'', par_descr = ''EUI-48 Mac address'', par_type = Mac\<rparr>"

definition PAR_RAW_STREAM :: Parameter where
  "PAR_RAW_STREAM = \<lparr>par_syntax = ''stream'', par_descr = ''Data stream'', par_type = Bytestream\<rparr>"

definition PR_RAW :: Protocol where
  "PR_RAW = \<lparr>pr_syntax = ''raw'', pr_descr = ''raw custom packet'',
     mandatory = [],
     optional = [PAR_RAW_BYTE, PAR_RAW_BE16, PAR_RAW_BE32, PAR_RAW_BE64, PAR_RAW_LE16, PAR_RAW_LE32,
       PAR_RAW_LE64, PAR_RAW_IP4, PAR_RAW_IP6, PAR_RAW_MAC, PAR_RAW_STREAM]\<rparr>"

definition PAR_ETH_SMAC :: Parameter where
  "PAR_ETH_SMAC = \<lparr>par_syntax = ''smac'', par_descr = ''Source EUI-48 Mac address'', par_type = Mac\<rparr>"

definition PAR_ETH_DMAC :: Parameter where
  "PAR_ETH_DMAC = \<lparr>par_syntax = ''dmac'', par_descr = ''Destination EUI-48 Mac address'', par_type = Mac\<rparr>"

definition PAR_ETH_DSAP :: Parameter where
  "PAR_ETH_DSAP = \<lparr>par_syntax = ''dsap'', par_descr = ''IEEE 802.2 DSAP field'', par_type = Integer\<rparr>"

definition PAR_ETH_SSAP :: Parameter where
  "PAR_ETH_SSAP = \<lparr>par_syntax = ''ssap'', par_descr = ''IEEE 802.2 SSAP field'', par_type = Integer\<rparr>"

definition PAR_ETH_CONTROL :: Parameter where
  "PAR_ETH_CONTROL = \<lparr>par_syntax = ''control'', par_descr = ''Control field'', par_type = Integer\<rparr>"

definition PAR_ETH_OUI :: Parameter where
  "PAR_ETH_OUI = \<lparr>par_syntax = ''oui'', par_descr = ''Organizationally Unique Identifier'', par_type = Integer\<rparr>"

definition PAR_ETH_PROTOCOL :: Parameter where
  "PAR_ETH_PROTOCOL = \<lparr>par_syntax = ''protocol'', par_descr = ''Protocol identifier'', par_type = Integer\<rparr>"

definition PAR_ETH_PAYLOAD :: Parameter where
  "PAR_ETH_PAYLOAD = \<lparr>par_syntax = ''payload'', par_descr = ''Ethernet payload data'', par_type = Bytestream\<rparr>"

definition PAR_ETH_ETHERTYPE :: Parameter where
  "PAR_ETH_ETHERTYPE = \<lparr>par_syntax = ''ethertype'', par_descr = ''EtherType field'', par_type = Integer\<rparr>"

definition PAR_ETH_VID :: Parameter where
  "PAR_ETH_VID = \<lparr>par_syntax = ''vid'', par_descr = ''VLAN Identifier'', par_type = Integer\<rparr>"

definition PAR_ETH_VTYPE :: Parameter where
  "PAR_ETH_VTYPE = \<lparr>par_syntax = ''vtype'', par_descr = ''VLAN Type'', par_type = Integer\<rparr>"

definition PAR_ETH_PRIO :: Parameter where
  "PAR_ETH_PRIO = \<lparr>par_syntax = ''prio'', par_descr = ''VLAN Priority'', par_type = Integer\<rparr>"

definition PAR_ETH_DEI :: Parameter where
  "PAR_ETH_DEI = \<lparr>par_syntax = ''dei'', par_descr = ''Drop Eligible Indicator'', par_type = Bit\<rparr>"

definition PAR_VLAN :: "Parameter list" where
  "PAR_VLAN = [PAR_ETH_VID, PAR_ETH_VTYPE, PAR_ETH_PRIO, PAR_ETH_DEI]"

definition PR_ETH :: Protocol where
  "PR_ETH = \<lparr>pr_syntax = ''eth'', pr_descr = ''Ethernet II or IEEE802.3 packet'',
     mandatory = [PAR_ETH_DMAC, PAR_ETH_PAYLOAD],
     optional = [PAR_ETH_SMAC, PAR_ETH_ETHERTYPE] @ PAR_VLAN @ [PAR_ETH_DSAP, PAR_ETH_SSAP, PAR_ETH_CONTROL,
       PAR_ETH_OUI, PAR_ETH_PROTOCOL]\<rparr>"

definition PAR_IP_DSCP :: Parameter where
  "PAR_IP_DSCP = \<lparr>par_syntax = ''dscp'', par_descr = ''Differentiated Services Code Point'', par_type = Integer\<rparr>"

definition PAR_IP_ECN :: Parameter where
  "PAR_IP_ECN = \<lparr>par_syntax = ''ecn'', par_descr = ''Explicit Congestion Notification'', par_type = Integer\<rparr>"

definition PAR_IP_TTL :: Parameter where
  "PAR_IP_TTL = \<lparr>par_syntax = ''ttl'', par_descr = ''Time To Live'', par_type = Integer\<rparr>"

definition PAR_IP_DIP :: Parameter where
  "PAR_IP_DIP = \<lparr>par_syntax = ''dip'', par_descr = ''Destination IP address'', par_type = IP\<rparr>"

definition PAR_IP_SIP :: Parameter where
  "PAR_IP_SIP = \<lparr>par_syntax = ''sip'', par_descr = ''Source IP address'', par_type = IP\<rparr>"

definition PAR_IP_PROTOCOL :: Parameter where
  "PAR_IP_PROTOCOL = \<lparr>par_syntax = ''protocol'', par_descr = ''Transport layer protocol'', par_type = Integer\<rparr>"

definition PAR_IP_PAYLOAD :: Parameter where
  "PAR_IP_PAYLOAD = \<lparr>par_syntax = ''payload'', par_descr = ''IP packet payload'', par_type = Bytestream\<rparr>"

definition PAR_IP4_ID :: Parameter where
  "PAR_IP4_ID = \<lparr>par_syntax = ''id'', par_descr = ''IPv4 packet identifier'', par_type = Integer\<rparr>"

definition PAR_IP4_DF :: Parameter where
  "PAR_IP4_DF = \<lparr>par_syntax = ''df'', par_descr = (''IPv4 Don'' @ [CHR 0x27] @ ''t Fragment flag''), par_type = Bit\<rparr>"

definition PAR_IP4_CHKSUM :: Parameter where
  "PAR_IP4_CHKSUM = \<lparr>par_syntax = ''hchksum'', par_descr = ''IPv4 header checksum'', par_type = Integer\<rparr>"

definition PAR_IP6_FL :: Parameter where
  "PAR_IP6_FL = \<lparr>par_syntax = ''fl'', par_descr = ''IPv6 Flow Label'', par_type = Integer\<rparr>"

definition PAR_IP4_OPT :: "Parameter list" where
  "PAR_IP4_OPT = [PAR_IP_DSCP, PAR_IP_ECN, PAR_IP_TTL, PAR_IP4_DF, PAR_IP_SIP, PAR_IP4_ID, PAR_IP4_CHKSUM]"

definition PAR_IP4 :: "Parameter list" where
  "PAR_IP4 = [PAR_IP_DIP]"

definition PAR_IP6_OPT :: "Parameter list" where
  "PAR_IP6_OPT = [PAR_IP_DSCP, PAR_IP_ECN, PAR_IP_TTL, PAR_IP_SIP, PAR_IP6_FL]"

definition PAR_IP6 :: "Parameter list" where
  "PAR_IP6 = [PAR_IP_DIP]"

definition PR_IPV4 :: Protocol where
  "PR_IPV4 = \<lparr>pr_syntax = ''ipv4'', pr_descr = ''Raw IPv4 packet'',
     mandatory = PAR_IP4 @ [PAR_IP_PROTOCOL, PAR_IP_PAYLOAD],
     optional = [PAR_ETH_SMAC, PAR_ETH_DMAC] @ PAR_IP4_OPT @ PAR_VLAN\<rparr>"

definition PR_IPV6 :: Protocol where
  "PR_IPV6 = \<lparr>pr_syntax = ''ipv6'', pr_descr = ''Raw IPv6 packet'',
     mandatory = PAR_IP6 @ [PAR_IP_PROTOCOL, PAR_IP_PAYLOAD],
     optional = [PAR_ETH_SMAC, PAR_ETH_DMAC] @ PAR_IP6_OPT @ PAR_VLAN\<rparr>"

definition PAR_UDP_SPORT :: Parameter where
  "PAR_UDP_SPORT = \<lparr>par_syntax = ''sport'', par_descr = ''Source UDP port'', par_type = Integer\<rparr>"

definition PAR_UDP_DPORT :: Parameter where
  "PAR_UDP_DPORT = \<lparr>par_syntax = ''dport'', par_descr = ''Destination UDP port'', par_type = Integer\<rparr>"

definition PAR_UDP_PAYLOAD :: Parameter where
  "PAR_UDP_PAYLOAD = \<lparr>par_syntax = ''payload'', par_descr = ''UDP packet payload'', par_type = Bytestream\<rparr>"

definition PAR_UDP_CHKSUM :: Parameter where
  "PAR_UDP_CHKSUM = \<lparr>par_syntax = ''chksum'', par_descr = ''UDP checksum'', par_type = Integer\<rparr>"

definition PR_UDP4 :: Protocol where
  "PR_UDP4 = \<lparr>pr_syntax = ''udp'', pr_descr = ''IPv4 User Datagram Protocol'',
     mandatory = PAR_IP4 @ [PAR_UDP_SPORT, PAR_UDP_DPORT],
     optional = [PAR_ETH_SMAC, PAR_ETH_DMAC] @ PAR_IP4_OPT @ PAR_VLAN @ [PAR_UDP_PAYLOAD, PAR_UDP_CHKSUM]\<rparr>"

definition PR_UDP6 :: Protocol where
  "PR_UDP6 = \<lparr>pr_syntax = ''udp6'', pr_descr = ''IPv6 User Datagram Protocol'',
     mandatory = PAR_IP6 @ [PAR_UDP_SPORT, PAR_UDP_DPORT],
     optional = [PAR_ETH_SMAC, PAR_ETH_DMAC] @ PAR_IP6_OPT @ PAR_VLAN @ [PAR_UDP_PAYLOAD, PAR_UDP_CHKSUM]\<rparr>"

definition PAR_ARP_OP :: Parameter where
  "PAR_ARP_OP = \<lparr>par_syntax = ''op'', par_descr = ''Opcode, 1 = request, 2 = reply'', par_type = Integer\<rparr>"

definition PR_ARP :: Protocol where
  "PR_ARP = \<lparr>pr_syntax = ''arp'', pr_descr = ''Raw ARP packet'',
     mandatory = [PAR_ARP_OP, PAR_IP_DIP],
     optional = [PAR_ETH_SMAC, PAR_ETH_DMAC, PAR_IP_SIP] @ PAR_VLAN\<rparr>"

definition PR_ARP_PROBE :: Protocol where
  "PR_ARP_PROBE = \<lparr>pr_syntax = ''arp-probe'', pr_descr = ''ARP probe packet'',
     mandatory = [PAR_IP_DIP],
     optional = PAR_VLAN\<rparr>"

definition PR_ARP_ANNOUNCE :: Protocol where
  "PR_ARP_ANNOUNCE = \<lparr>pr_syntax = ''arp-announce'', pr_descr = ''ARP announce packet'',
     mandatory = [],
     optional = [PAR_IP_DIP] @ PAR_VLAN\<rparr>"

definition PAR_VRRP_VRIP :: Parameter where
  "PAR_VRRP_VRIP = \<lparr>par_syntax = ''vrip'', par_descr = ''Virtual Router IP address'', par_type = IP\<rparr>"

definition PAR_VRRP_VRID :: Parameter where
  "PAR_VRRP_VRID = \<lparr>par_syntax = ''vrid'', par_descr = ''Virtual Router ID'', par_type = Integer\<rparr>"

definition PAR_VRRP_VRPRIO :: Parameter where
  "PAR_VRRP_VRPRIO = \<lparr>par_syntax = ''vrprio'', par_descr = ''Virtual Router Priority'', par_type = Integer\<rparr>"

definition PAR_VRRP_TYPE :: Parameter where
  "PAR_VRRP_TYPE = \<lparr>par_syntax = ''type'', par_descr = ''VRRP message type'', par_type = Integer\<rparr>"

definition PAR_VRRP_AINT :: Parameter where
  "PAR_VRRP_AINT = \<lparr>par_syntax = ''aint'', par_descr = ''Advertisement Interval'', par_type = Integer\<rparr>"

definition PAR_VRRP_CHKSUM :: Parameter where
  "PAR_VRRP_CHKSUM = \<lparr>par_syntax = ''chksum'', par_descr = ''VRRP checksum'', par_type = Integer\<rparr>"

definition PR_VRRP :: Protocol where
  "PR_VRRP = \<lparr>pr_syntax = ''vrrp'', pr_descr = ''Virual Router Redundancy Protocol V2'',
     mandatory = [PAR_VRRP_VRIP, PAR_VRRP_VRID],
     optional = [PAR_ETH_SMAC, PAR_IP_SIP, PAR_VRRP_VRPRIO, PAR_VRRP_TYPE, PAR_VRRP_AINT, PAR_VRRP_CHKSUM] @
       PAR_VLAN\<rparr>"

definition PR_VRRP3 :: Protocol where
  "PR_VRRP3 = \<lparr>pr_syntax = ''vrrp3'', pr_descr = ''Virual Router Redundancy Protocol V3'',
     mandatory = [PAR_VRRP_VRIP, PAR_VRRP_VRID],
     optional = [PAR_ETH_SMAC, PAR_IP_SIP, PAR_VRRP_VRPRIO, PAR_VRRP_TYPE, PAR_VRRP_AINT, PAR_VRRP_CHKSUM] @
       PAR_VLAN\<rparr>"

definition PAR_STP_RBPRIO :: Parameter where
  "PAR_STP_RBPRIO = \<lparr>par_syntax = ''rbprio'', par_descr = ''Root Bridge Priority'', par_type = Integer\<rparr>"

definition PAR_STP_RBIDEXT :: Parameter where
  "PAR_STP_RBIDEXT = \<lparr>par_syntax = ''rbidext'', par_descr = ''Root Bridge ID Extension'', par_type = Integer\<rparr>"

definition PAR_STP_RBMAC :: Parameter where
  "PAR_STP_RBMAC = \<lparr>par_syntax = ''rbmac'', par_descr = ''Root Bridge EUI-48 Mac address'', par_type = Mac\<rparr>"

definition PAR_STP_BPRIO :: Parameter where
  "PAR_STP_BPRIO = \<lparr>par_syntax = ''bprio'', par_descr = ''Bridge Priority'', par_type = Integer\<rparr>"

definition PAR_STP_BIDEXT :: Parameter where
  "PAR_STP_BIDEXT = \<lparr>par_syntax = ''bidext'', par_descr = ''Bridge ID Extension'', par_type = Integer\<rparr>"

definition PAR_STP_BMAC :: Parameter where
  "PAR_STP_BMAC = \<lparr>par_syntax = ''bmac'', par_descr = ''Bridge EUI-48 Mac address'', par_type = Mac\<rparr>"

definition PAR_STP_PPRIO :: Parameter where
  "PAR_STP_PPRIO = \<lparr>par_syntax = ''pprio'', par_descr = ''Port Priority'', par_type = Integer\<rparr>"

definition PAR_STP_PNUM :: Parameter where
  "PAR_STP_PNUM = \<lparr>par_syntax = ''pnum'', par_descr = ''Port Number'', par_type = Integer\<rparr>"

definition PAR_STP_MSGAGE :: Parameter where
  "PAR_STP_MSGAGE = \<lparr>par_syntax = ''msgage'', par_descr = ''Message Age'', par_type = Integer\<rparr>"

definition PAR_STP_MAXAGE :: Parameter where
  "PAR_STP_MAXAGE = \<lparr>par_syntax = ''maxage'', par_descr = ''Max Age'', par_type = Integer\<rparr>"

definition PAR_STP_HELLO :: Parameter where
  "PAR_STP_HELLO = \<lparr>par_syntax = ''hello'', par_descr = ''Hello Time'', par_type = Integer\<rparr>"

definition PAR_STP_DELAY :: Parameter where
  "PAR_STP_DELAY = \<lparr>par_syntax = ''delay'', par_descr = ''Forward Delay'', par_type = Integer\<rparr>"

definition PAR_STP_TOPOCHANGE :: Parameter where
  "PAR_STP_TOPOCHANGE = \<lparr>par_syntax = ''topochange'', par_descr = ''Topology Change'', par_type = Bit\<rparr>"

definition PAR_STP_TOPOCHANGEACK :: Parameter where
  "PAR_STP_TOPOCHANGEACK = \<lparr>par_syntax = ''topochangeack'', par_descr = ''Topology Change Acknowledgement'', par_type = Bit\<rparr>"

definition PAR_STP_RPATHCOST :: Parameter where
  "PAR_STP_RPATHCOST = \<lparr>par_syntax = ''rpathcost'', par_descr = ''Root Path Cost'', par_type = Integer\<rparr>"

definition PAR_STP_PORTROLE :: Parameter where
  "PAR_STP_PORTROLE = \<lparr>par_syntax = ''portrole'', par_descr = ''Port Role'', par_type = Integer\<rparr>"

definition PAR_STP_PROPOSAL :: Parameter where
  "PAR_STP_PROPOSAL = \<lparr>par_syntax = ''proposal'', par_descr = ''Proposal'', par_type = Bit\<rparr>"

definition PAR_STP_LEARNING :: Parameter where
  "PAR_STP_LEARNING = \<lparr>par_syntax = ''learning'', par_descr = ''Learning Mode'', par_type = Bit\<rparr>"

definition PAR_STP_FORWARDING :: Parameter where
  "PAR_STP_FORWARDING = \<lparr>par_syntax = ''forwarding'', par_descr = ''Forwarding Mode'', par_type = Bit\<rparr>"

definition PAR_STP_AGREEMENT :: Parameter where
  "PAR_STP_AGREEMENT = \<lparr>par_syntax = ''agreement'', par_descr = ''Agreement'', par_type = Bit\<rparr>"

definition PR_STP :: Protocol where
  "PR_STP = \<lparr>pr_syntax = ''stp'', pr_descr = ''Spanning Tree Protocol'',
     mandatory = [],
     optional = [PAR_ETH_SMAC, PAR_STP_RBPRIO, PAR_STP_RBIDEXT, PAR_STP_RBMAC, PAR_STP_BPRIO,
       PAR_STP_BIDEXT, PAR_STP_BMAC, PAR_STP_PPRIO, PAR_STP_PNUM, PAR_STP_MSGAGE, PAR_STP_MAXAGE,
       PAR_STP_HELLO, PAR_STP_DELAY, PAR_STP_TOPOCHANGE, PAR_STP_TOPOCHANGEACK, PAR_STP_RPATHCOST]
       @ PAR_VLAN\<rparr>"

definition PR_RSTP :: Protocol where
  "PR_RSTP = \<lparr>pr_syntax = ''rstp'', pr_descr = ''Rapid Spanning Tree Protocol'',
     mandatory = [],
     optional = [PAR_ETH_SMAC, PAR_STP_RBPRIO, PAR_STP_RBIDEXT, PAR_STP_RBMAC, PAR_STP_BPRIO,
       PAR_STP_BIDEXT, PAR_STP_BMAC, PAR_STP_PPRIO, PAR_STP_PNUM, PAR_STP_MSGAGE, PAR_STP_MAXAGE,
       PAR_STP_HELLO, PAR_STP_DELAY, PAR_STP_TOPOCHANGE, PAR_STP_TOPOCHANGEACK, PAR_STP_RPATHCOST,
       PAR_STP_PORTROLE, PAR_STP_PROPOSAL, PAR_STP_LEARNING, PAR_STP_FORWARDING, PAR_STP_AGREEMENT]
       @ PAR_VLAN\<rparr>"

definition PR_STP_TCN :: Protocol where
  "PR_STP_TCN = \<lparr>pr_syntax = ''stp-tcn'', pr_descr = ''STP Topology Change Notification'',
     mandatory = [],
     optional = []\<rparr>"

definition PAR_IGMP_S :: Parameter where
  "PAR_IGMP_S = \<lparr>par_syntax = ''s'', par_descr = ''Suppress Router-side Processing'', par_type = Bit\<rparr>"

definition PAR_IGMP_QRV :: Parameter where
  "PAR_IGMP_QRV = \<lparr>par_syntax = ''qrv'', par_descr = ''Query Response Interval'', par_type = Integer\<rparr>"

definition PAR_IGMP_QQIC :: Parameter where
  "PAR_IGMP_QQIC = \<lparr>par_syntax = ''qqic'', par_descr = (''Querier'' @ [CHR 0x27] @ ''s Query Interval Count''), par_type = Float\<rparr>"

definition PAR_IGMP_TIME :: Parameter where
  "PAR_IGMP_TIME = \<lparr>par_syntax = ''time'', par_descr = ''IGMP Time'', par_type = Float\<rparr>"

definition PAR_IGMP_RSIP :: Parameter where
  "PAR_IGMP_RSIP = \<lparr>par_syntax = ''rsip'', par_descr = ''Router Source IP address'', par_type = IP\<rparr>"

definition PAR_IGMP_GROUP :: Parameter where
  "PAR_IGMP_GROUP = \<lparr>par_syntax = ''group'', par_descr = ''Multicast group address'', par_type = IP\<rparr>"

definition PAR_IGMP_TYPE :: Parameter where
  "PAR_IGMP_TYPE = \<lparr>par_syntax = ''type'', par_descr = ''IGMP message type'', par_type = Integer\<rparr>"

definition PR_IGMP :: Protocol where
  "PR_IGMP = \<lparr>pr_syntax = ''igmp'', pr_descr = ''Raw IGMP V1/V2 packet'',
     mandatory = [PAR_ETH_DMAC] @ PAR_IP4 @ [PAR_IGMP_GROUP, PAR_IGMP_TYPE],
     optional = [PAR_IGMP_TIME, PAR_ETH_SMAC] @ PAR_IP4_OPT @ PAR_VLAN\<rparr>"

definition PR_IGMP_QUERY :: Protocol where
  "PR_IGMP_QUERY = \<lparr>pr_syntax = ''igmp-query'', pr_descr = ''IGMP V1/V2 Query'',
     mandatory = [],
     optional = [PAR_IGMP_TIME, PAR_IGMP_GROUP] @ PAR_IP4_OPT @ PAR_VLAN\<rparr>"

definition PR_IGMP3_QUERY :: Protocol where
  "PR_IGMP3_QUERY = \<lparr>pr_syntax = ''igmp3-query'', pr_descr = ''IGMP V3 Query'',
     mandatory = [],
     optional = [PAR_IGMP_TIME, PAR_IGMP_GROUP, PAR_IGMP_S, PAR_IGMP_QRV, PAR_IGMP_QQIC, PAR_IGMP_RSIP] @
       PAR_IP4_OPT @ PAR_VLAN\<rparr>"

definition PR_IGMP_REPORT :: Protocol where
  "PR_IGMP_REPORT = \<lparr>pr_syntax = ''igmp-report'', pr_descr = ''IGMP V1/V2 Report'',
     mandatory = [PAR_IGMP_GROUP],
     optional = PAR_IP4_OPT @ PAR_VLAN\<rparr>"

definition PR_IGMP_LEAVE :: Protocol where
  "PR_IGMP_LEAVE = \<lparr>pr_syntax = ''igmp-leave'', pr_descr = ''IGMP V1/V2 Leave'',
     mandatory = [PAR_IGMP_GROUP],
     optional = PAR_IP4_OPT @ PAR_VLAN\<rparr>"

definition PAR_ICMP4_TYPE :: Parameter where
  "PAR_ICMP4_TYPE = \<lparr>par_syntax = ''type'', par_descr = ''ICMPv4 message type'', par_type = Integer\<rparr>"

definition PAR_ICMP4_CODE :: Parameter where
  "PAR_ICMP4_CODE = \<lparr>par_syntax = ''code'', par_descr = ''ICMPv4 message code'', par_type = Integer\<rparr>"

definition PAR_ICMP4_PAYLOAD :: Parameter where
  "PAR_ICMP4_PAYLOAD = \<lparr>par_syntax = ''payload'', par_descr = ''ICMPv4 message payload'', par_type = Bytestream\<rparr>"

definition PAR_ICMP4_CHKSUM :: Parameter where
  "PAR_ICMP4_CHKSUM = \<lparr>par_syntax = ''chksum'', par_descr = ''ICMPv4 checksum'', par_type = Integer\<rparr>"

definition PAR_ICMP4_GW :: Parameter where
  "PAR_ICMP4_GW = \<lparr>par_syntax = ''gw'', par_descr = ''Gateway address'', par_type = IP\<rparr>"

definition PAR_ICMP4_ID :: Parameter where
  "PAR_ICMP4_ID = \<lparr>par_syntax = ''id'', par_descr = ''ICMPv4 identifier'', par_type = Integer\<rparr>"

definition PAR_ICMP4_SEQ :: Parameter where
  "PAR_ICMP4_SEQ = \<lparr>par_syntax = ''seq'', par_descr = ''ICMPv4 sequence number'', par_type = Integer\<rparr>"

definition PR_ICMP4 :: Protocol where
  "PR_ICMP4 = \<lparr>pr_syntax = ''icmp'', pr_descr = ''Raw ICMPv4 packet'',
     mandatory = [PAR_ETH_DMAC] @ PAR_IP4 @ [PAR_ICMP4_TYPE, PAR_ICMP4_CODE],
     optional = [PAR_ICMP4_PAYLOAD, PAR_ICMP4_CHKSUM, PAR_ETH_SMAC] @ PAR_IP4_OPT @ PAR_VLAN\<rparr>"

definition PR_ICMP4_UNREACH :: Protocol where
  "PR_ICMP4_UNREACH = \<lparr>pr_syntax = ''icmp-unreachable'', pr_descr = ''ICMPv4 Unreachable'',
     mandatory = [PAR_ETH_DMAC] @ PAR_IP4,
     optional = [PAR_ICMP4_CODE, PAR_ICMP4_PAYLOAD, PAR_ICMP4_CHKSUM, PAR_ETH_SMAC] @ PAR_IP4_OPT @ PAR_VLAN\<rparr>"

definition PR_ICMP4_SRCQ :: Protocol where
  "PR_ICMP4_SRCQ = \<lparr>pr_syntax = ''icmp-src-quench'', pr_descr = ''ICMPv4 Source Quench'',
     mandatory = [PAR_ETH_DMAC] @ PAR_IP4,
     optional = [PAR_ICMP4_CODE, PAR_ICMP4_PAYLOAD, PAR_ICMP4_CHKSUM, PAR_ETH_SMAC] @ PAR_IP4_OPT @ PAR_VLAN\<rparr>"

definition PR_ICMP4_TIMEX :: Protocol where
  "PR_ICMP4_TIMEX = \<lparr>pr_syntax = ''icmp-time-exceeded'', pr_descr = ''ICMPv4 Time Exceeded'',
     mandatory = [PAR_ETH_DMAC] @ PAR_IP4,
     optional = [PAR_ICMP4_CODE, PAR_ICMP4_PAYLOAD, PAR_ICMP4_CHKSUM, PAR_ETH_SMAC] @ PAR_IP4_OPT @ PAR_VLAN\<rparr>"

definition PR_ICMP4_REDIR :: Protocol where
  "PR_ICMP4_REDIR = \<lparr>pr_syntax = ''icmp-redirect'', pr_descr = ''ICMPv4 Redirect'',
     mandatory = [PAR_ETH_DMAC] @ PAR_IP4 @ [PAR_ICMP4_GW],
     optional = [PAR_ICMP4_CODE, PAR_ICMP4_PAYLOAD, PAR_ICMP4_CHKSUM, PAR_ETH_SMAC] @ PAR_IP4_OPT @ PAR_VLAN\<rparr>"

definition PR_ICMP4_ECHO :: Protocol where
  "PR_ICMP4_ECHO = \<lparr>pr_syntax = ''icmp-echo'', pr_descr = ''ICMPv4 Echo Request (Ping)'',
     mandatory = [PAR_ETH_DMAC] @ PAR_IP4,
     optional = [PAR_ICMP4_ID, PAR_ICMP4_SEQ, PAR_ICMP4_PAYLOAD, PAR_ICMP4_CHKSUM, PAR_ETH_SMAC] @
       PAR_IP4_OPT @ PAR_VLAN\<rparr>"

definition PR_ICMP4_ECHOR :: Protocol where
  "PR_ICMP4_ECHOR = \<lparr>pr_syntax = ''icmp-echo-reply'', pr_descr = ''ICMPv4 Echo Reply'',
     mandatory = [PAR_ETH_DMAC] @ PAR_IP4,
     optional = [PAR_ICMP4_ID, PAR_ICMP4_SEQ, PAR_ICMP4_PAYLOAD, PAR_ICMP4_CHKSUM, PAR_ETH_SMAC] @
       PAR_IP4_OPT @ PAR_VLAN\<rparr>"

definition PAR_TCP_SPORT :: Parameter where
  "PAR_TCP_SPORT = \<lparr>par_syntax = ''sport'', par_descr = ''Source TCP port'', par_type = Integer\<rparr>"

definition PAR_TCP_DPORT :: Parameter where
  "PAR_TCP_DPORT = \<lparr>par_syntax = ''dport'', par_descr = ''Destination TCP port'', par_type = Integer\<rparr>"

definition PAR_TCP_SEQ :: Parameter where
  "PAR_TCP_SEQ = \<lparr>par_syntax = ''seq'', par_descr = ''TCP sequence number'', par_type = Integer\<rparr>"

definition PAR_TCP_ACK :: Parameter where
  "PAR_TCP_ACK = \<lparr>par_syntax = ''ack'', par_descr = ''TCP acknowledgment number'', par_type = Integer\<rparr>"

definition PAR_TCP_WIN :: Parameter where
  "PAR_TCP_WIN = \<lparr>par_syntax = ''win'', par_descr = ''TCP window size'', par_type = Integer\<rparr>"

definition PAR_TCP_URGPTR :: Parameter where
  "PAR_TCP_URGPTR = \<lparr>par_syntax = ''urgptr'', par_descr = ''TCP urgent pointer'', par_type = Integer\<rparr>"

definition PAR_TCP_FIN :: Parameter where
  "PAR_TCP_FIN = \<lparr>par_syntax = ''FIN'', par_descr = ''TCP FIN flag'', par_type = Bit\<rparr>"

definition PAR_TCP_SYN :: Parameter where
  "PAR_TCP_SYN = \<lparr>par_syntax = ''SYN'', par_descr = ''TCP SYN flag'', par_type = Bit\<rparr>"

definition PAR_TCP_RESET :: Parameter where
  "PAR_TCP_RESET = \<lparr>par_syntax = ''RESET'', par_descr = ''TCP RESET flag'', par_type = Bit\<rparr>"

definition PAR_TCP_PUSH :: Parameter where
  "PAR_TCP_PUSH = \<lparr>par_syntax = ''PUSH'', par_descr = ''TCP PUSH flag'', par_type = Bit\<rparr>"

definition PAR_TCP_ACKFLAG :: Parameter where
  "PAR_TCP_ACKFLAG = \<lparr>par_syntax = ''ACK'', par_descr = ''TCP ACK flag'', par_type = Bit\<rparr>"

definition PAR_TCP_URGENT :: Parameter where
  "PAR_TCP_URGENT = \<lparr>par_syntax = ''URGENT'', par_descr = ''TCP URGENT flag'', par_type = Bit\<rparr>"

definition PAR_TCP_ECN :: Parameter where
  "PAR_TCP_ECN = \<lparr>par_syntax = ''ECN'', par_descr = ''TCP ECN flag'', par_type = Bit\<rparr>"

definition PAR_TCP_CWR :: Parameter where
  "PAR_TCP_CWR = \<lparr>par_syntax = ''CWR'', par_descr = ''TCP CWR flag'', par_type = Bit\<rparr>"

definition PAR_TCP_NONCE :: Parameter where
  "PAR_TCP_NONCE = \<lparr>par_syntax = ''NONCE'', par_descr = ''TCP nonce'', par_type = Bit\<rparr>"

definition PAR_TCP_PAYLOAD :: Parameter where
  "PAR_TCP_PAYLOAD = \<lparr>par_syntax = ''payload'', par_descr = ''TCP packet payload'', par_type = Bytestream\<rparr>"

definition PAR_TCP_CHKSUM :: Parameter where
  "PAR_TCP_CHKSUM = \<lparr>par_syntax = ''chksum'', par_descr = ''TCP checksum'', par_type = Integer\<rparr>"

definition PR_TCP4 :: Protocol where
  "PR_TCP4 = \<lparr>pr_syntax = ''tcp'', pr_descr = ''Raw TCPv4 packet'',
     mandatory = [PAR_ETH_DMAC] @ PAR_IP4 @ [PAR_TCP_SPORT, PAR_TCP_DPORT, PAR_TCP_SEQ, PAR_TCP_ACK],
     optional = [PAR_ETH_SMAC] @ PAR_IP4_OPT @ [PAR_TCP_WIN, PAR_TCP_URGPTR, PAR_TCP_FIN, PAR_TCP_SYN,
       PAR_TCP_RESET, PAR_TCP_PUSH, PAR_TCP_ACKFLAG, PAR_TCP_URGENT, PAR_TCP_ECN, PAR_TCP_CWR,
       PAR_TCP_NONCE, PAR_TCP_PAYLOAD, PAR_TCP_CHKSUM] @ PAR_VLAN\<rparr>"

definition PR_TCP6 :: Protocol where
  "PR_TCP6 = \<lparr>pr_syntax = ''tcp6'', pr_descr = ''Raw TCPv6 packet'',
     mandatory = [PAR_ETH_DMAC] @ PAR_IP6 @ [PAR_TCP_SPORT, PAR_TCP_DPORT, PAR_TCP_SEQ, PAR_TCP_ACK],
     optional = [PAR_ETH_SMAC] @ PAR_IP6_OPT @ [PAR_TCP_WIN, PAR_TCP_URGPTR, PAR_TCP_FIN, PAR_TCP_SYN,
       PAR_TCP_RESET, PAR_TCP_PUSH, PAR_TCP_ACKFLAG, PAR_TCP_URGENT, PAR_TCP_ECN, PAR_TCP_CWR,
       PAR_TCP_NONCE, PAR_TCP_PAYLOAD, PAR_TCP_CHKSUM] @ PAR_VLAN\<rparr>"

definition PAR_VXLAN_VNI :: Parameter where
  "PAR_VXLAN_VNI = \<lparr>par_syntax = ''vni'', par_descr = ''VXLAN Network Identifier'', par_type = Integer\<rparr>"

definition PAR_VXLAN_PAYLOAD :: Parameter where
  "PAR_VXLAN_PAYLOAD = \<lparr>par_syntax = ''payload'', par_descr = ''VXLAN payload data'', par_type = Bytestream\<rparr>"

definition PR_VXLAN4 :: Protocol where
  "PR_VXLAN4 = \<lparr>pr_syntax = ''vxlan'', pr_descr = ''IPv4 Virtual eXtensible Local Area Network'',
     mandatory = [PAR_ETH_DMAC] @ PAR_IP4 @ [PAR_UDP_SPORT, PAR_UDP_DPORT, PAR_VXLAN_VNI, PAR_VXLAN_PAYLOAD],
     optional = [PAR_ETH_SMAC] @ PAR_IP4_OPT @ PAR_VLAN\<rparr>"

definition PR_VXLAN6 :: Protocol where
  "PR_VXLAN6 = \<lparr>pr_syntax = ''vxlan6'', pr_descr = ''IPv6 Virtual eXtensible Local Area Network'',
     mandatory = [PAR_ETH_DMAC] @ PAR_IP6 @ [PAR_UDP_SPORT, PAR_UDP_DPORT, PAR_VXLAN_VNI, PAR_VXLAN_PAYLOAD],
     optional = [PAR_ETH_SMAC] @ PAR_IP6_OPT @ PAR_VLAN\<rparr>"

definition PAR_GRE_PROTOCOL :: Parameter where
  "PAR_GRE_PROTOCOL = PAR_IP_PROTOCOL"

definition PAR_GRE_KEY :: Parameter where
  "PAR_GRE_KEY = \<lparr>par_syntax = ''key'', par_descr = ''GRE key'', par_type = Integer\<rparr>"

definition PAR_GRE_SEQ :: Parameter where
  "PAR_GRE_SEQ = \<lparr>par_syntax = ''seq'', par_descr = ''GRE sequence number'', par_type = Integer\<rparr>"

definition PAR_GRE_CHKSUM :: Parameter where
  "PAR_GRE_CHKSUM = \<lparr>par_syntax = ''chksum'', par_descr = ''GRE checksum'', par_type = Integer\<rparr>"

definition PAR_GRE_PAYLOAD :: Parameter where
  "PAR_GRE_PAYLOAD = \<lparr>par_syntax = ''payload'', par_descr = ''GRE payload data'', par_type = Bytestream\<rparr>"

definition PR_GRE4 :: Protocol where
  "PR_GRE4 = \<lparr>pr_syntax = ''gre'', pr_descr = ''IPv4 Generic Routing Encapsulation'',
     mandatory = [PAR_ETH_DMAC] @ PAR_IP4,
     optional = [PAR_ETH_SMAC] @ PAR_IP4_OPT @ [PAR_GRE_KEY, PAR_GRE_SEQ, PAR_GRE_CHKSUM, PAR_GRE_PAYLOAD] @
       PAR_VLAN\<rparr>"

definition PR_GRE6 :: Protocol where
  "PR_GRE6 = \<lparr>pr_syntax = ''gre6'', pr_descr = ''IPv6 Generic Routing Encapsulation'',
     mandatory = [PAR_ETH_DMAC] @ PAR_IP6,
     optional = [PAR_ETH_SMAC] @ PAR_IP6_OPT @ [PAR_GRE_KEY, PAR_GRE_SEQ, PAR_GRE_CHKSUM, PAR_GRE_PAYLOAD] @
       PAR_VLAN\<rparr>"

definition PAR_LLDP_CHASSIS_ID :: Parameter where
  "PAR_LLDP_CHASSIS_ID = \<lparr>par_syntax = ''chassis-id'', par_descr = ''Chassis ID'', par_type = Bytestream\<rparr>"

definition PAR_LLDP_CHASSIS_ID_T :: Parameter where
  "PAR_LLDP_CHASSIS_ID_T = \<lparr>par_syntax = ''chassis-id-type'', par_descr = ''Chassis ID Subtype: 1 = chassis component, 2 = interface alias, 3 = port component, 4 = MAC, 5 = network address, 6 = interface name, 7 = local'', par_type = Integer\<rparr>"

definition PAR_LLDP_PORT_ID :: Parameter where
  "PAR_LLDP_PORT_ID = \<lparr>par_syntax = ''port-id'', par_descr = ''Port ID'', par_type = Bytestream\<rparr>"

definition PAR_LLDP_PORT_ID_T :: Parameter where
  "PAR_LLDP_PORT_ID_T = \<lparr>par_syntax = ''port-id-type'', par_descr = ''Port ID Subtype: 1 = interface alias, 2 = port component, 3 = MAC, 4 = network address, 5 = interface name, 6 = agent circuit ID, 7 = local'', par_type = Integer\<rparr>"

definition PAR_LLDP_TTL :: Parameter where
  "PAR_LLDP_TTL = \<lparr>par_syntax = ''ttl'', par_descr = ''Time To Live'', par_type = Integer\<rparr>"

definition PAR_LLDP_PORT_DESC :: Parameter where
  "PAR_LLDP_PORT_DESC = \<lparr>par_syntax = ''port-desc'', par_descr = ''Port Description'', par_type = Bytestream\<rparr>"

definition PAR_LLDP_SYSNAME :: Parameter where
  "PAR_LLDP_SYSNAME = \<lparr>par_syntax = ''sys-name'', par_descr = ''System Name'', par_type = Bytestream\<rparr>"

definition PAR_LLDP_SYSDESC :: Parameter where
  "PAR_LLDP_SYSDESC = \<lparr>par_syntax = ''sys-desc'', par_descr = ''System Description'', par_type = Bytestream\<rparr>"

definition PAR_LLDP_SYSCAP_OTHER :: Parameter where
  "PAR_LLDP_SYSCAP_OTHER = \<lparr>par_syntax = ''cap-other'', par_descr = (''System Capability '' @ [CHR 0x27] @ ''Other'' @ [CHR 0x27]), par_type = Bit\<rparr>"

definition PAR_LLDP_SYSCAP_REPEATER :: Parameter where
  "PAR_LLDP_SYSCAP_REPEATER = \<lparr>par_syntax = ''cap-repeater'', par_descr = (''System Capability '' @ [CHR 0x27] @ ''Repeater'' @ [CHR 0x27]), par_type = Bit\<rparr>"

definition PAR_LLDP_SYSCAP_BRIDGE :: Parameter where
  "PAR_LLDP_SYSCAP_BRIDGE = \<lparr>par_syntax = ''cap-bridge'', par_descr = (''System Capability '' @ [CHR 0x27] @ ''Bridge'' @ [CHR 0x27]), par_type = Bit\<rparr>"

definition PAR_LLDP_SYSCAP_WLAN :: Parameter where
  "PAR_LLDP_SYSCAP_WLAN = \<lparr>par_syntax = ''cap-wlan-ap'', par_descr = (''System Capability '' @ [CHR 0x27] @ ''WLAN AP'' @ [CHR 0x27]), par_type = Bit\<rparr>"

definition PAR_LLDP_SYSCAP_ROUTER :: Parameter where
  "PAR_LLDP_SYSCAP_ROUTER = \<lparr>par_syntax = ''cap-router'', par_descr = (''System Capability '' @ [CHR 0x27] @ ''Router'' @ [CHR 0x27]), par_type = Bit\<rparr>"

definition PAR_LLDP_SYSCAP_PHONE :: Parameter where
  "PAR_LLDP_SYSCAP_PHONE = \<lparr>par_syntax = ''cap-phone'', par_descr = (''System Capability '' @ [CHR 0x27] @ ''Telephone'' @ [CHR 0x27]), par_type = Bit\<rparr>"

definition PAR_LLDP_SYSCAP_DOCSIS :: Parameter where
  "PAR_LLDP_SYSCAP_DOCSIS = \<lparr>par_syntax = ''cap-docsis'', par_descr = (''System Capability '' @ [CHR 0x27] @ ''DOCSIS cable device'' @ [CHR 0x27]), par_type = Bit\<rparr>"

definition PAR_LLDP_SYSCAP_STATION :: Parameter where
  "PAR_LLDP_SYSCAP_STATION = \<lparr>par_syntax = ''cap-station'', par_descr = (''System Capability '' @ [CHR 0x27] @ ''Station only'' @ [CHR 0x27]), par_type = Bit\<rparr>"

definition PAR_LLDP_SYSCAP_CVLAN :: Parameter where
  "PAR_LLDP_SYSCAP_CVLAN = \<lparr>par_syntax = ''cap-cvlan'', par_descr = (''System Capability '' @ [CHR 0x27] @ ''C-VLAN component'' @ [CHR 0x27]), par_type = Bit\<rparr>"

definition PAR_LLDP_SYSCAP_SVLAN :: Parameter where
  "PAR_LLDP_SYSCAP_SVLAN = \<lparr>par_syntax = ''cap-svlan'', par_descr = (''System Capability '' @ [CHR 0x27] @ ''S-VLAN component'' @ [CHR 0x27]), par_type = Bit\<rparr>"

definition PAR_LLDP_SYSCAP_2P_RELAY :: Parameter where
  "PAR_LLDP_SYSCAP_2P_RELAY = \<lparr>par_syntax = ''cap-tpmr'', par_descr = (''System Capability '' @ [CHR 0x27] @ ''Two-port MAC Relay component'' @ [CHR 0x27]), par_type = Bit\<rparr>"

definition PAR_LLDP_SYSCAP_OTHER_EN :: Parameter where
  "PAR_LLDP_SYSCAP_OTHER_EN = \<lparr>par_syntax = ''encap-other'', par_descr = (''Enabled System Capability '' @ [CHR 0x27] @ ''Other'' @ [CHR 0x27]), par_type = Bit\<rparr>"

definition PAR_LLDP_SYSCAP_REPEATER_EN :: Parameter where
  "PAR_LLDP_SYSCAP_REPEATER_EN = \<lparr>par_syntax = ''encap-repeater'', par_descr = (''Enabled System Capability '' @ [CHR 0x27] @ ''Repeater'' @ [CHR 0x27]), par_type = Bit\<rparr>"

definition PAR_LLDP_SYSCAP_BRIDGE_EN :: Parameter where
  "PAR_LLDP_SYSCAP_BRIDGE_EN = \<lparr>par_syntax = ''encap-bridge'', par_descr = (''Enabled System Capability '' @ [CHR 0x27] @ ''Bridge'' @ [CHR 0x27]), par_type = Bit\<rparr>"

definition PAR_LLDP_SYSCAP_WLAN_EN :: Parameter where
  "PAR_LLDP_SYSCAP_WLAN_EN = \<lparr>par_syntax = ''encap-wlan-ap'', par_descr = (''Enabled System Capability '' @ [CHR 0x27] @ ''WLAN AP'' @ [CHR 0x27]), par_type = Bit\<rparr>"

definition PAR_LLDP_SYSCAP_ROUTER_EN :: Parameter where
  "PAR_LLDP_SYSCAP_ROUTER_EN = \<lparr>par_syntax = ''encap-router'', par_descr = (''Enabled System Capability '' @ [CHR 0x27] @ ''Router'' @ [CHR 0x27]), par_type = Bit\<rparr>"

definition PAR_LLDP_SYSCAP_PHONE_EN :: Parameter where
  "PAR_LLDP_SYSCAP_PHONE_EN = \<lparr>par_syntax = ''encap-phone'', par_descr = (''Enabled System Capability '' @ [CHR 0x27] @ ''Telephone'' @ [CHR 0x27]), par_type = Bit\<rparr>"

definition PAR_LLDP_SYSCAP_DOCSIS_EN :: Parameter where
  "PAR_LLDP_SYSCAP_DOCSIS_EN = \<lparr>par_syntax = ''encap-docsis'', par_descr = (''Enabled System Capability '' @ [CHR 0x27] @ ''DOCSIS cable device'' @ [CHR 0x27]), par_type = Bit\<rparr>"

definition PAR_LLDP_SYSCAP_STATION_EN :: Parameter where
  "PAR_LLDP_SYSCAP_STATION_EN = \<lparr>par_syntax = ''encap-station'', par_descr = (''Enabled System Capability '' @ [CHR 0x27] @ ''Station only'' @ [CHR 0x27]), par_type = Bit\<rparr>"

definition PAR_LLDP_SYSCAP_CVLAN_EN :: Parameter where
  "PAR_LLDP_SYSCAP_CVLAN_EN = \<lparr>par_syntax = ''encap-cvlan'', par_descr = (''Enabled System Capability '' @ [CHR 0x27] @ ''C-VLAN component'' @ [CHR 0x27]), par_type = Bit\<rparr>"

definition PAR_LLDP_SYSCAP_SVLAN_EN :: Parameter where
  "PAR_LLDP_SYSCAP_SVLAN_EN = \<lparr>par_syntax = ''encap-svlan'', par_descr = (''Enabled System Capability '' @ [CHR 0x27] @ ''S-VLAN component'' @ [CHR 0x27]), par_type = Bit\<rparr>"

definition PAR_LLDP_SYSCAP_2P_RELAY_EN :: Parameter where
  "PAR_LLDP_SYSCAP_2P_RELAY_EN = \<lparr>par_syntax = ''encap-tpmr'', par_descr = (''Enabled System Capability '' @ [CHR 0x27] @ ''Two-port MAC Relay component'' @ [CHR 0x27]), par_type = Bit\<rparr>"

definition PAR_LLDP_MGT_ADDR :: Parameter where
  "PAR_LLDP_MGT_ADDR = \<lparr>par_syntax = ''mgt-addr'', par_descr = ''Management Address'', par_type = Bytestream\<rparr>"

definition PAR_LLDP_MGT_ADDR_T :: Parameter where
  "PAR_LLDP_MGT_ADDR_T = \<lparr>par_syntax = ''mgt-addr-type'', par_descr = ''Management Address Subtype (see ianaAddressFamilyNumbers of RFC 3232 )'', par_type = Integer\<rparr>"

definition PAR_LLDP_IF_NUMBER :: Parameter where
  "PAR_LLDP_IF_NUMBER = \<lparr>par_syntax = ''if-number'', par_descr = ''Interface Number'', par_type = Integer\<rparr>"

definition PAR_LLDP_IF_NUMBER_T :: Parameter where
  "PAR_LLDP_IF_NUMBER_T = \<lparr>par_syntax = ''if-number-type'', par_descr = ''Interface Number Subtype: 1 = unknown, 2 = ifIndex, 3 = system port number'', par_type = Integer\<rparr>"

definition PAR_LLDP_MGT_OID :: Parameter where
  "PAR_LLDP_MGT_OID = \<lparr>par_syntax = ''mgt-oid'', par_descr = ''Management Object Identifier'', par_type = Bytestream\<rparr>"

definition PAR_LLDP_PVID :: Parameter where
  "PAR_LLDP_PVID = \<lparr>par_syntax = ''pvid'', par_descr = ''Port VLAN ID'', par_type = Integer\<rparr>"

definition PAR_LLDP_PPVID :: Parameter where
  "PAR_LLDP_PPVID = \<lparr>par_syntax = ''ppvid'', par_descr = ''Port and Protocol VLAN ID'', par_type = Integer\<rparr>"

definition PAR_LLDP_PPVID_SUP :: Parameter where
  "PAR_LLDP_PPVID_SUP = \<lparr>par_syntax = ''PPVID-SUP'', par_descr = ''Port and Protocol VLAN supported'', par_type = Bit\<rparr>"

definition PAR_LLDP_PPVID_EN :: Parameter where
  "PAR_LLDP_PPVID_EN = \<lparr>par_syntax = ''PPVID-EN'', par_descr = ''Port and Protocol VLAN enabled'', par_type = Bit\<rparr>"

definition PAR_LLDP_VLAN_NAME :: Parameter where
  "PAR_LLDP_VLAN_NAME = \<lparr>par_syntax = ''vlan-name'', par_descr = ''VLAN name'', par_type = Bytestream\<rparr>"

definition PAR_LLDP_VLAN_NAME_VID :: Parameter where
  "PAR_LLDP_VLAN_NAME_VID = \<lparr>par_syntax = ''vlan-name-id'', par_descr = ''VLAN ID of given name'', par_type = Integer\<rparr>"

definition PAR_LLDP_PROTO_ID :: Parameter where
  "PAR_LLDP_PROTO_ID = \<lparr>par_syntax = ''proto-id'', par_descr = ''Protocol Identity'', par_type = Bytestream\<rparr>"

definition PAR_LLDP_VID_USAGE_DIGEST :: Parameter where
  "PAR_LLDP_VID_USAGE_DIGEST = \<lparr>par_syntax = ''vid-usage-digest'', par_descr = ''VID usage digest'', par_type = Integer\<rparr>"

definition PAR_LLDP_MGT_VID :: Parameter where
  "PAR_LLDP_MGT_VID = \<lparr>par_syntax = ''mgt-vid'', par_descr = ''Management VID associated with the system'', par_type = Integer\<rparr>"

definition PAR_LLDP_LAG_CAP :: Parameter where
  "PAR_LLDP_LAG_CAP = \<lparr>par_syntax = ''lag-cap'', par_descr = ''Link aggregation capability (0 = not capable, 1 = capable)'', par_type = Bit\<rparr>"

definition PAR_LLDP_LAG_STATUS :: Parameter where
  "PAR_LLDP_LAG_STATUS = \<lparr>par_syntax = ''lag-status'', par_descr = ''Link aggregation status (0 = not currently in aggregation, 1 = currently in aggregation)'', par_type = Bit\<rparr>"

definition PAR_LLDP_LAG_PORT_TYPE :: Parameter where
  "PAR_LLDP_LAG_PORT_TYPE = \<lparr>par_syntax = ''lag-port-type'', par_descr = ''Aggregation Port Type (0 = no port type, 1 = Aggregation Port, 2 = Aggregator, 3 = Aggregator with single port)'', par_type = Integer\<rparr>"

definition PAR_LLDP_LAG_PORT_ID :: Parameter where
  "PAR_LLDP_LAG_PORT_ID = \<lparr>par_syntax = ''lag-port-id'', par_descr = ''Aggregated Port ID'', par_type = Integer\<rparr>"

definition PAR_LLDP_CONG_NOTE_CNPV :: Parameter where
  "PAR_LLDP_CONG_NOTE_CNPV = \<lparr>par_syntax = ''cong-cnpv'', par_descr = ''Per-priority CNPV indicators'', par_type = Integer\<rparr>"

definition PAR_LLDP_CONG_NOTE_READY :: Parameter where
  "PAR_LLDP_CONG_NOTE_READY = \<lparr>par_syntax = ''cong-ready'', par_descr = ''Per-priority Ready indicators'', par_type = Integer\<rparr>"

definition PAR_LLDP_ETS_CFG_W :: Parameter where
  "PAR_LLDP_ETS_CFG_W = \<lparr>par_syntax = ''ets-cfg-willing'', par_descr = ''Willing bit, if set, station accepts configurations'', par_type = Bit\<rparr>"

definition PAR_LLDP_ETS_CFG_CBS :: Parameter where
  "PAR_LLDP_ETS_CFG_CBS = \<lparr>par_syntax = ''ets-cfg-cbs'', par_descr = ''Credit-based Shaper bit, if set, station supports CBS'', par_type = Bit\<rparr>"

definition PAR_LLDP_ETS_CFG_MAX_TC :: Parameter where
  "PAR_LLDP_ETS_CFG_MAX_TC = \<lparr>par_syntax = ''ets-cfg-max-tc'', par_descr = ''Maximum number of traffic classes supported (0 = 8 TCs)'', par_type = Integer\<rparr>"

definition PAR_LLDP_ETS_CFG_PRIO :: Parameter where
  "PAR_LLDP_ETS_CFG_PRIO = \<lparr>par_syntax = ''ets-cfg-prio'', par_descr = ''Priority Assignment Table'', par_type = Integer\<rparr>"

definition PAR_LLDP_ETS_CFG_BW :: Parameter where
  "PAR_LLDP_ETS_CFG_BW = \<lparr>par_syntax = ''ets-cfg-bw'', par_descr = ''TC Bandwidth Table'', par_type = Integer\<rparr>"

definition PAR_LLDP_ETS_CFG_TSA :: Parameter where
  "PAR_LLDP_ETS_CFG_TSA = \<lparr>par_syntax = ''ets-cfg-tsa'', par_descr = ''TSA Assignment Table'', par_type = Integer\<rparr>"

definition PAR_LLDP_ETS_REC_PRIO :: Parameter where
  "PAR_LLDP_ETS_REC_PRIO = \<lparr>par_syntax = ''ets-rec-prio'', par_descr = ''Priority Assignment Table'', par_type = Integer\<rparr>"

definition PAR_LLDP_ETS_REC_BW :: Parameter where
  "PAR_LLDP_ETS_REC_BW = \<lparr>par_syntax = ''ets-rec-bw'', par_descr = ''TC Bandwidth Table'', par_type = Integer\<rparr>"

definition PAR_LLDP_ETS_REC_TSA :: Parameter where
  "PAR_LLDP_ETS_REC_TSA = \<lparr>par_syntax = ''ets-rec-tsa'', par_descr = ''TSA Assignment Table'', par_type = Integer\<rparr>"

definition PAR_LLDP_PFC_W :: Parameter where
  "PAR_LLDP_PFC_W = \<lparr>par_syntax = ''pfc-willing'', par_descr = ''Willing bit, if set, station accepts configurations'', par_type = Bit\<rparr>"

definition PAR_LLDP_PFC_MBC :: Parameter where
  "PAR_LLDP_PFC_MBC = \<lparr>par_syntax = ''pfc-mbc'', par_descr = ''MACsec Bypass Capability'', par_type = Bit\<rparr>"

definition PAR_LLDP_PFC_CAP :: Parameter where
  "PAR_LLDP_PFC_CAP = \<lparr>par_syntax = ''pfc-cap'', par_descr = ''PFC Capability'', par_type = Integer\<rparr>"

definition PAR_LLDP_PFC_ENABLE :: Parameter where
  "PAR_LLDP_PFC_ENABLE = \<lparr>par_syntax = ''pfc-enable'', par_descr = ''PFC Enable bit vector'', par_type = Integer\<rparr>"

definition PAR_LLDP_APPL_PRIO :: Parameter where
  "PAR_LLDP_APPL_PRIO = \<lparr>par_syntax = ''appl-prio'', par_descr = ''Priority'', par_type = Integer\<rparr>"

definition PAR_LLDP_APPL_SEL :: Parameter where
  "PAR_LLDP_APPL_SEL = \<lparr>par_syntax = ''appl-prio-sel'', par_descr = ''Meaning of the protocol ID (1 = Ethertype, 2 = TCP/SCTP port, 3 = UDP port, 4 = UDP/TCP/SCTP/DCCP port, 5 = DSCP)'', par_type = Integer\<rparr>"

definition PAR_LLDP_APPL_PROTO :: Parameter where
  "PAR_LLDP_APPL_PROTO = \<lparr>par_syntax = ''appl-prio-proto'', par_descr = ''Protocol ID'', par_type = Integer\<rparr>"

definition PAR_LLDP_EVB_BRIDGE_STATUS :: Parameter where
  "PAR_LLDP_EVB_BRIDGE_STATUS = \<lparr>par_syntax = ''evb-bridge-status'', par_descr = ''EVB capabilities that are supported by the EVB bridge'', par_type = Integer\<rparr>"

definition PAR_LLDP_EVB_STATION_STATUS :: Parameter where
  "PAR_LLDP_EVB_STATION_STATUS = \<lparr>par_syntax = ''evb-station-status'', par_descr = ''EVB capabilities that are supported by the EVB station'', par_type = Integer\<rparr>"

definition PAR_LLDP_EVB_RETRIES :: Parameter where
  "PAR_LLDP_EVB_RETRIES = \<lparr>par_syntax = ''evb-max-retries'', par_descr = ''maxRetries value for the ECP state machine'', par_type = Integer\<rparr>"

definition PAR_LLDP_EVB_RTE :: Parameter where
  "PAR_LLDP_EVB_RTE = \<lparr>par_syntax = ''evb-rte'', par_descr = ''Retransmission exponent'', par_type = Integer\<rparr>"

definition PAR_LLDP_EVB_MODE :: Parameter where
  "PAR_LLDP_EVB_MODE = \<lparr>par_syntax = ''evb-mode'', par_descr = ''EVB mode'', par_type = Integer\<rparr>"

definition PAR_LLDP_EVB_ROL_RWD :: Parameter where
  "PAR_LLDP_EVB_ROL_RWD = \<lparr>par_syntax = ''evb-rol-rwd'', par_descr = ''Remote or Local flag for RWD value (0 = local, 1 = remote)'', par_type = Bit\<rparr>"

definition PAR_LLDP_EVB_RWD :: Parameter where
  "PAR_LLDP_EVB_RWD = \<lparr>par_syntax = ''evb-rwd'', par_descr = ''RWD value transmitted by the EVB bridge'', par_type = Integer\<rparr>"

definition PAR_LLDP_EVB_ROL_RKA :: Parameter where
  "PAR_LLDP_EVB_ROL_RKA = \<lparr>par_syntax = ''evb-rol-rka'', par_descr = ''Remote or Local flag for RKA value (0 = local, 1 = remote)'', par_type = Bit\<rparr>"

definition PAR_LLDP_EVB_RKA :: Parameter where
  "PAR_LLDP_EVB_RKA = \<lparr>par_syntax = ''evb-rka'', par_descr = ''RKA value transmitted by the EVB station'', par_type = Integer\<rparr>"

definition PAR_LLDP_CDCP_ROLE :: Parameter where
  "PAR_LLDP_CDCP_ROLE = \<lparr>par_syntax = ''cdcp-role'', par_descr = ''Role (0 = Bridge, 1 = Station)'', par_type = Bit\<rparr>"

definition PAR_LLDP_CDCP_SCOMP :: Parameter where
  "PAR_LLDP_CDCP_SCOMP = \<lparr>par_syntax = ''cdcp-scomp'', par_descr = ''Presence of S-VLAN component for S-Channel'', par_type = Bit\<rparr>"

definition PAR_LLDP_CDCP_CHN_CAP :: Parameter where
  "PAR_LLDP_CDCP_CHN_CAP = \<lparr>par_syntax = ''cdcp-ch-cap'', par_descr = ''Channel capacity'', par_type = Integer\<rparr>"

definition PAR_LLDP_CDCP_SCID :: Parameter where
  "PAR_LLDP_CDCP_SCID = \<lparr>par_syntax = ''cdcp-scid'', par_descr = ''Index number of S-channel'', par_type = Integer\<rparr>"

definition PAR_LLDP_CDCP_SVID :: Parameter where
  "PAR_LLDP_CDCP_SVID = \<lparr>par_syntax = ''cdcp-svid'', par_descr = ''VID assigned to the S-channel'', par_type = Integer\<rparr>"

definition PAR_LLDP_APPL_VLAN_VID :: Parameter where
  "PAR_LLDP_APPL_VLAN_VID = \<lparr>par_syntax = ''appl-vlan-vid'', par_descr = ''VLAN ID'', par_type = Integer\<rparr>"

definition PAR_LLDP_APPL_VLAN_SEL :: Parameter where
  "PAR_LLDP_APPL_VLAN_SEL = \<lparr>par_syntax = ''appl-vlan-sel'', par_descr = ''Meaning of the protocol ID (1 = Ethertype, 2 = TCP/SCTP port, 3 = UDP port, 4 = UDP/TCP/SCTP/DCCP port, 5 = DSCP)'', par_type = Integer\<rparr>"

definition PAR_LLDP_APPL_VLAN_PROTO :: Parameter where
  "PAR_LLDP_APPL_VLAN_PROTO = \<lparr>par_syntax = ''appl-vlan-proto'', par_descr = ''Protocol ID'', par_type = Integer\<rparr>"

definition PAR_LLDP_MACPHY_ANEG_SUP :: Parameter where
  "PAR_LLDP_MACPHY_ANEG_SUP = \<lparr>par_syntax = ''autoneg-sup'', par_descr = ''Auto-negotiation support'', par_type = Bit\<rparr>"

definition PAR_LLDP_MACPHY_ANEG_ENA :: Parameter where
  "PAR_LLDP_MACPHY_ANEG_ENA = \<lparr>par_syntax = ''autoneg-en'', par_descr = ''Auto-negotiation enabled'', par_type = Bit\<rparr>"

definition PAR_LLDP_MACPHY_ANEG_CAPS :: Parameter where
  "PAR_LLDP_MACPHY_ANEG_CAPS = \<lparr>par_syntax = ''autoneg-caps'', par_descr = ''PMD auto-negotiation advertised capability'', par_type = Integer\<rparr>"

definition PAR_LLDP_MACPHY_MAU_TYPE :: Parameter where
  "PAR_LLDP_MACPHY_MAU_TYPE = \<lparr>par_syntax = ''mautype'', par_descr = ''operational MAU type'', par_type = Integer\<rparr>"

definition PAR_LLDP_POE_MDI_POWER_SUP_PORT_CLASS :: Parameter where
  "PAR_LLDP_POE_MDI_POWER_SUP_PORT_CLASS = \<lparr>par_syntax = ''poe-port-class'', par_descr = ''Port class (0 = PD, 1 = PSE)'', par_type = Bit\<rparr>"

definition PAR_LLDP_POE_MDI_POWER_SUP_PSE_MDI_SUP :: Parameter where
  "PAR_LLDP_POE_MDI_POWER_SUP_PSE_MDI_SUP = \<lparr>par_syntax = ''poe-power-sup'', par_descr = ''PSE MDI power support (0 = supported, 1 = not supported)'', par_type = Bit\<rparr>"

definition PAR_LLDP_POE_MDI_POWER_SUP_PSE_MDI_ENA :: Parameter where
  "PAR_LLDP_POE_MDI_POWER_SUP_PSE_MDI_ENA = \<lparr>par_syntax = ''poe-power-state'', par_descr = ''PSE MDI power state (0 = disabled, 1 = not enabled)'', par_type = Bit\<rparr>"

definition PAR_LLDP_POE_MDI_POWER_SUP_PSE_PAIR_CTRL :: Parameter where
  "PAR_LLDP_POE_MDI_POWER_SUP_PSE_PAIR_CTRL = \<lparr>par_syntax = ''poe-pair-ctrl'', par_descr = ''PSE pairs control ability (0 = pair selection can not be controlled, 1 = pair selection can be controlled)'', par_type = Bit\<rparr>"

definition PAR_LLDP_POE_PSE_POWER_PAIR :: Parameter where
  "PAR_LLDP_POE_PSE_POWER_PAIR = \<lparr>par_syntax = ''poe-power-pair'', par_descr = ''PSE power pair field (1 = signal, 2 = spare)'', par_type = Integer\<rparr>"

definition PAR_LLDP_POE_POWER_CLASS :: Parameter where
  "PAR_LLDP_POE_POWER_CLASS = \<lparr>par_syntax = ''poe-power-class'', par_descr = ''Power class (1 = Class 0 PD, 2 = Class 1 PD, ... , 5 = Class 4 and above PD)'', par_type = Integer\<rparr>"

definition PAR_LLDP_POE_DLL_POWER_TYPE :: Parameter where
  "PAR_LLDP_POE_DLL_POWER_TYPE = \<lparr>par_syntax = ''poe-power-type'', par_descr = ''DLL power type (0 = Type 2 PSE, 1 = Type 2 PD, 2 = Type 1 PSE, 3 = Type 1 PD)'', par_type = Integer\<rparr>"

definition PAR_LLDP_POE_DLL_POWER_SOURCE :: Parameter where
  "PAR_LLDP_POE_DLL_POWER_SOURCE = \<lparr>par_syntax = ''poe-power-src'', par_descr = ''DLL power source (Power type = PSE: 0 = unknown, 1 = primary, 2 = backup | Power type = PD: 0 = unknown, 1 = PSE, 3 = PSE and local)'', par_type = Integer\<rparr>"

definition PAR_LLDP_POE_DLL_PD_4PID :: Parameter where
  "PAR_LLDP_POE_DLL_PD_4PID = \<lparr>par_syntax = ''poe-pd-4pid'', par_descr = ''PD 4PID (1 = PD supports powering of both Modes simultaneously, 0 = PD does not support...)'', par_type = Bit\<rparr>"

definition PAR_LLDP_POE_DLL_POWER_PRIO :: Parameter where
  "PAR_LLDP_POE_DLL_POWER_PRIO = \<lparr>par_syntax = ''poe-power-prio'', par_descr = ''DLL power priority (0 = unknown, 1 = critical, 2 = high, 3 = low)'', par_type = Integer\<rparr>"

definition PAR_LLDP_POE_DLL_PD_REQ_POWER :: Parameter where
  "PAR_LLDP_POE_DLL_PD_REQ_POWER = \<lparr>par_syntax = ''poe-req-power'', par_descr = ''PD requested power value'', par_type = Float\<rparr>"

definition PAR_LLDP_POE_DLL_PD_ALLOC_POWER :: Parameter where
  "PAR_LLDP_POE_DLL_PD_ALLOC_POWER = \<lparr>par_syntax = ''poe-alloc-power'', par_descr = ''PSE allocated power value'', par_type = Float\<rparr>"

definition PAR_LLDP_MAX_FRAME_SIZE :: Parameter where
  "PAR_LLDP_MAX_FRAME_SIZE = \<lparr>par_syntax = ''max-frame-size'', par_descr = ''Maximum 802.3 frame size'', par_type = Integer\<rparr>"

definition PAR_LLDP_EEE_TX_TW :: Parameter where
  "PAR_LLDP_EEE_TX_TW = \<lparr>par_syntax = ''eee-tx-tw'', par_descr = ''EEE transmit Tw'', par_type = Integer\<rparr>"

definition PAR_LLDP_EEE_RX_TW :: Parameter where
  "PAR_LLDP_EEE_RX_TW = \<lparr>par_syntax = ''eee-rx-tw'', par_descr = ''EEE receive Tw'', par_type = Integer\<rparr>"

definition PAR_LLDP_EEE_FB_RX_TW :: Parameter where
  "PAR_LLDP_EEE_FB_RX_TW = \<lparr>par_syntax = ''eee-fb-rx-tw'', par_descr = ''EEE fallback receive Tw'', par_type = Integer\<rparr>"

definition PAR_LLDP_EEE_ECHO_TX_TW :: Parameter where
  "PAR_LLDP_EEE_ECHO_TX_TW = \<lparr>par_syntax = ''eee-echo-tx-tw'', par_descr = ''EEE echo transmit Tw'', par_type = Integer\<rparr>"

definition PAR_LLDP_EEE_ECHO_RX_TW :: Parameter where
  "PAR_LLDP_EEE_ECHO_RX_TW = \<lparr>par_syntax = ''eee-echo-rx-tw'', par_descr = ''EEE echo receive  Tw'', par_type = Integer\<rparr>"

definition PAR_LLDP_EEE_FW_TX :: Parameter where
  "PAR_LLDP_EEE_FW_TX = \<lparr>par_syntax = ''eee-fw-tx'', par_descr = ''Transmit fast wake'', par_type = Integer\<rparr>"

definition PAR_LLDP_EEE_FW_RX :: Parameter where
  "PAR_LLDP_EEE_FW_RX = \<lparr>par_syntax = ''eee-fw-rx'', par_descr = ''Receive fast wake'', par_type = Integer\<rparr>"

definition PAR_LLDP_EEE_FW_ECHO_TX :: Parameter where
  "PAR_LLDP_EEE_FW_ECHO_TX = \<lparr>par_syntax = ''eee-fw-echo-tx'', par_descr = ''Echo transmit fast wake'', par_type = Integer\<rparr>"

definition PAR_LLDP_EEE_FW_ECHO_RX :: Parameter where
  "PAR_LLDP_EEE_FW_ECHO_RX = \<lparr>par_syntax = ''eee-fw-echo-rx'', par_descr = ''Echo receive fast wake'', par_type = Integer\<rparr>"

definition PAR_LLDP_PN_DELAY_PORT_RX_LOC :: Parameter where
  "PAR_LLDP_PN_DELAY_PORT_RX_LOC = \<lparr>par_syntax = ''pn-port-delay-rx'', par_descr = ''PTCP_PortRxDelayLocal (nanoseconds)'', par_type = Integer\<rparr>"

definition PAR_LLDP_PN_DELAY_PORT_RX_REM :: Parameter where
  "PAR_LLDP_PN_DELAY_PORT_RX_REM = \<lparr>par_syntax = ''pn-port-delay-rx-rem'', par_descr = ''PTCP_PortRxDelayRemote (nanoseconds)'', par_type = Integer\<rparr>"

definition PAR_LLDP_PN_DELAY_PORT_TX_LOC :: Parameter where
  "PAR_LLDP_PN_DELAY_PORT_TX_LOC = \<lparr>par_syntax = ''pn-port-delay-tx'', par_descr = ''PTCP_PortTxDelayLocal (nanoseconds)'', par_type = Integer\<rparr>"

definition PAR_LLDP_PN_DELAY_PORT_TX_REM :: Parameter where
  "PAR_LLDP_PN_DELAY_PORT_TX_REM = \<lparr>par_syntax = ''pn-port-delay-tx-rem'', par_descr = ''PTCP_PortTxDelayRemote (nanoseconds)'', par_type = Integer\<rparr>"

definition PAR_LLDP_PN_DELAY_LINE :: Parameter where
  "PAR_LLDP_PN_DELAY_LINE = \<lparr>par_syntax = ''pn-cable-delay'', par_descr = ''Measured cable delay (nanoseconds)'', par_type = Integer\<rparr>"

definition PAR_LLDP_PN_RTC2_STATE :: Parameter where
  "PAR_LLDP_PN_RTC2_STATE = \<lparr>par_syntax = ''pn-rtc2-state'', par_descr = ''RTClass2_PortStatus.State (0 = OFF, 1 = SYNC-DATA-LOADED, 2 = UP)'', par_type = Integer\<rparr>"

definition PAR_LLDP_PN_RTC3_STATE :: Parameter where
  "PAR_LLDP_PN_RTC3_STATE = \<lparr>par_syntax = ''pn-rtc3-state'', par_descr = ''RTClass3_PortStatus.State (0 = OFF, 2 = UP, 4 = RUN)'', par_type = Integer\<rparr>"

definition PAR_LLDP_PN_RTC3_FRAG :: Parameter where
  "PAR_LLDP_PN_RTC3_FRAG = \<lparr>par_syntax = ''pn-rtc3-frag'', par_descr = ''Fragmentation Mode (0 = disabled, 1 = enabled)'', par_type = Bit\<rparr>"

definition PAR_LLDP_PN_RTC3_PREAMP :: Parameter where
  "PAR_LLDP_PN_RTC3_PREAMP = \<lparr>par_syntax = ''pn-rtc3-short-preamp'', par_descr = ''Short preample (0 = disabled (8 octets), 1 = enabled (1 octet))'', par_type = Bit\<rparr>"

definition PAR_LLDP_PN_RTC3_OPTIMIZED :: Parameter where
  "PAR_LLDP_PN_RTC3_OPTIMIZED = \<lparr>par_syntax = ''pn-rtc3-opt'', par_descr = ''Optimized (0 = OFF, 1 = ON)'', par_type = Bit\<rparr>"

definition PAR_LLDP_PN_ALIAS :: Parameter where
  "PAR_LLDP_PN_ALIAS = \<lparr>par_syntax = ''pn-alias'', par_descr = ''Alias name value'', par_type = Bytestream\<rparr>"

definition PAR_LLDP_PN_MRP_DOMAIN :: Parameter where
  "PAR_LLDP_PN_MRP_DOMAIN = \<lparr>par_syntax = ''pn-mrp-domain'', par_descr = ''MRP domain name'', par_type = Bytestream\<rparr>"

definition PAR_LLDP_PN_MRP_DOMAIN_UUID :: Parameter where
  "PAR_LLDP_PN_MRP_DOMAIN_UUID = \<lparr>par_syntax = ''pn-mrp-domain-uuid'', par_descr = ''MRP domain uuid'', par_type = Bytestream\<rparr>"

definition PAR_LLDP_PN_MRP_MRRT_STATE :: Parameter where
  "PAR_LLDP_PN_MRP_MRRT_STATE = \<lparr>par_syntax = ''pn-mrp-mrrt-state'', par_descr = ''MRRT port status (0 = OFF, 1 = CONFIGURED, 2 = UP)'', par_type = Integer\<rparr>"

definition PAR_LLDP_PN_CHASSIS_MAC :: Parameter where
  "PAR_LLDP_PN_CHASSIS_MAC = \<lparr>par_syntax = ''pn-chassis-mac'', par_descr = ''Chassis MAC address'', par_type = Mac\<rparr>"

definition PAR_LLDP_PN_PTCP_MAST_SRC_MAC :: Parameter where
  "PAR_LLDP_PN_PTCP_MAST_SRC_MAC = \<lparr>par_syntax = ''pn-ptcp-master-mac'', par_descr = ''PTCP master source MAC address'', par_type = Mac\<rparr>"

definition PAR_LLDP_PN_PTCP_DOMAIN_UUID :: Parameter where
  "PAR_LLDP_PN_PTCP_DOMAIN_UUID = \<lparr>par_syntax = ''pn-ptcp-domain-uuid'', par_descr = ''PTCP domain UUID'', par_type = Bytestream\<rparr>"

definition PAR_LLDP_PN_PTCP_IRDATA_UUID :: Parameter where
  "PAR_LLDP_PN_PTCP_IRDATA_UUID = \<lparr>par_syntax = ''pn-ptcp-irdata-uuid'', par_descr = ''IRDATA UUID'', par_type = Bytestream\<rparr>"

definition PAR_LLDP_PN_PTCP_PERIOD_LEN :: Parameter where
  "PAR_LLDP_PN_PTCP_PERIOD_LEN = \<lparr>par_syntax = ''pn-ptcp-period-len'', par_descr = ''Length of period (nanoseconds)'', par_type = Integer\<rparr>"

definition PAR_LLDP_PN_PTCP_RED_ORANGE :: Parameter where
  "PAR_LLDP_PN_PTCP_RED_ORANGE = \<lparr>par_syntax = ''pn-ptcp-red-orange'', par_descr = ''Frame offset of red/orange period (nanoseconds)'', par_type = Integer\<rparr>"

definition PAR_LLDP_PN_PTCP_ORANGE :: Parameter where
  "PAR_LLDP_PN_PTCP_ORANGE = \<lparr>par_syntax = ''pn-ptcp-orange'', par_descr = ''Frame offset of orange period (nanoseconds)'', par_type = Integer\<rparr>"

definition PAR_LLDP_PN_PTCP_GREEN :: Parameter where
  "PAR_LLDP_PN_PTCP_GREEN = \<lparr>par_syntax = ''pn-ptcp-green'', par_descr = ''Frame offset of green period (nanoseconds)'', par_type = Integer\<rparr>"

definition PAR_LLDP_PN_MAU_TYPE_EXT :: Parameter where
  "PAR_LLDP_PN_MAU_TYPE_EXT = \<lparr>par_syntax = ''pn-mautype-ext'', par_descr = ''MAUTYPE extension'', par_type = Integer\<rparr>"

definition PAR_LLDP_PN_MRP_IC_DOMAIN_ID :: Parameter where
  "PAR_LLDP_PN_MRP_IC_DOMAIN_ID = \<lparr>par_syntax = ''pn-mrp-ic-domain-id'', par_descr = ''MRP interconnection domain identifier'', par_type = Integer\<rparr>"

definition PAR_LLDP_PN_MRP_IC_ROLE :: Parameter where
  "PAR_LLDP_PN_MRP_IC_ROLE = \<lparr>par_syntax = ''pn-mrp-ic-role'', par_descr = ''MRP interconnection role (0 = none, 1 = client, 2 = manager)'', par_type = Integer\<rparr>"

definition PAR_LLDP_PN_MRP_IC_MIC_POS :: Parameter where
  "PAR_LLDP_PN_MRP_IC_MIC_POS = \<lparr>par_syntax = ''pn-mrp-ic-mic-pos'', par_descr = ''MRP interconnection mic position (0 = Primary, 1 = Secondary)'', par_type = Integer\<rparr>"

definition PAR_LLDP_TLV_TYPE :: Parameter where
  "PAR_LLDP_TLV_TYPE = \<lparr>par_syntax = ''type'', par_descr = ''Raw TLV Type Number'', par_type = Integer\<rparr>"

definition PAR_LLDP_TLV_VALUE :: Parameter where
  "PAR_LLDP_TLV_VALUE = \<lparr>par_syntax = ''value'', par_descr = ''Raw TLV Value as bytestream'', par_type = Bytestream\<rparr>"

definition PAR_LLDP_OUI_TLV_OUI :: Parameter where
  "PAR_LLDP_OUI_TLV_OUI = \<lparr>par_syntax = ''oui'', par_descr = ''Organizationally Specific TLV OUI'', par_type = Bytestream\<rparr>"

definition PAR_LLDP_OUI_TLV_TYPE :: Parameter where
  "PAR_LLDP_OUI_TLV_TYPE = \<lparr>par_syntax = ''oui-type'', par_descr = ''Organizationally Specific TLV Subtype Number'', par_type = Integer\<rparr>"

definition PAR_LLDP_OUI_TLV_VALUE :: Parameter where
  "PAR_LLDP_OUI_TLV_VALUE = \<lparr>par_syntax = ''oui-value'', par_descr = ''Organizationally Specific TLV Value as bytestream'', par_type = Bytestream\<rparr>"

definition PR_LLDP :: Protocol where
  "PR_LLDP = \<lparr>pr_syntax = ''lldp'', pr_descr = ''Link Layer Discovery Protocol'',
     mandatory = [],
     optional = [PAR_ETH_DMAC, PAR_ETH_SMAC] @ PAR_VLAN @ [PAR_LLDP_CHASSIS_ID, PAR_LLDP_CHASSIS_ID_T,
       PAR_LLDP_PORT_ID, PAR_LLDP_PORT_ID_T, PAR_LLDP_TTL, PAR_LLDP_PORT_DESC, PAR_LLDP_SYSNAME,
       PAR_LLDP_SYSDESC, PAR_LLDP_SYSCAP_OTHER, PAR_LLDP_SYSCAP_REPEATER, PAR_LLDP_SYSCAP_BRIDGE,
       PAR_LLDP_SYSCAP_WLAN, PAR_LLDP_SYSCAP_ROUTER, PAR_LLDP_SYSCAP_PHONE, PAR_LLDP_SYSCAP_DOCSIS,
       PAR_LLDP_SYSCAP_STATION, PAR_LLDP_SYSCAP_OTHER_EN, PAR_LLDP_SYSCAP_REPEATER_EN,
       PAR_LLDP_SYSCAP_BRIDGE_EN, PAR_LLDP_SYSCAP_WLAN_EN, PAR_LLDP_SYSCAP_ROUTER_EN,
       PAR_LLDP_SYSCAP_PHONE_EN, PAR_LLDP_SYSCAP_DOCSIS_EN, PAR_LLDP_SYSCAP_STATION_EN,
       PAR_LLDP_MGT_ADDR, PAR_LLDP_MGT_ADDR_T, PAR_LLDP_IF_NUMBER, PAR_LLDP_IF_NUMBER_T,
       PAR_LLDP_MGT_OID, PAR_LLDP_PVID, PAR_LLDP_PPVID, PAR_LLDP_PPVID_SUP, PAR_LLDP_PPVID_EN,
       PAR_LLDP_VLAN_NAME_VID, PAR_LLDP_VLAN_NAME, PAR_LLDP_PROTO_ID, PAR_LLDP_VID_USAGE_DIGEST,
       PAR_LLDP_MGT_VID, PAR_LLDP_LAG_CAP, PAR_LLDP_LAG_STATUS, PAR_LLDP_LAG_PORT_TYPE,
       PAR_LLDP_LAG_PORT_ID, PAR_LLDP_CONG_NOTE_CNPV, PAR_LLDP_CONG_NOTE_READY, PAR_LLDP_ETS_CFG_W,
       PAR_LLDP_ETS_CFG_CBS, PAR_LLDP_ETS_CFG_MAX_TC, PAR_LLDP_ETS_CFG_PRIO, PAR_LLDP_ETS_CFG_BW,
       PAR_LLDP_ETS_CFG_TSA, PAR_LLDP_ETS_REC_PRIO, PAR_LLDP_ETS_REC_BW, PAR_LLDP_ETS_REC_TSA,
       PAR_LLDP_PFC_W, PAR_LLDP_PFC_MBC, PAR_LLDP_PFC_CAP, PAR_LLDP_PFC_ENABLE, PAR_LLDP_APPL_PRIO,
       PAR_LLDP_APPL_SEL, PAR_LLDP_APPL_PROTO, PAR_LLDP_EVB_BRIDGE_STATUS,
       PAR_LLDP_EVB_STATION_STATUS, PAR_LLDP_EVB_RETRIES, PAR_LLDP_EVB_RTE, PAR_LLDP_EVB_MODE,
       PAR_LLDP_EVB_ROL_RWD, PAR_LLDP_EVB_RWD, PAR_LLDP_EVB_ROL_RKA, PAR_LLDP_EVB_RKA,
       PAR_LLDP_CDCP_ROLE, PAR_LLDP_CDCP_SCOMP, PAR_LLDP_CDCP_CHN_CAP, PAR_LLDP_CDCP_SCID,
       PAR_LLDP_CDCP_SVID, PAR_LLDP_APPL_VLAN_VID, PAR_LLDP_APPL_VLAN_SEL,
       PAR_LLDP_APPL_VLAN_PROTO, PAR_LLDP_MACPHY_ANEG_SUP, PAR_LLDP_MACPHY_ANEG_ENA,
       PAR_LLDP_MACPHY_ANEG_CAPS, PAR_LLDP_MACPHY_MAU_TYPE, PAR_LLDP_POE_MDI_POWER_SUP_PORT_CLASS,
       PAR_LLDP_POE_MDI_POWER_SUP_PSE_MDI_SUP, PAR_LLDP_POE_MDI_POWER_SUP_PSE_MDI_ENA,
       PAR_LLDP_POE_MDI_POWER_SUP_PSE_PAIR_CTRL, PAR_LLDP_POE_PSE_POWER_PAIR,
       PAR_LLDP_POE_POWER_CLASS, PAR_LLDP_POE_DLL_POWER_TYPE, PAR_LLDP_POE_DLL_POWER_SOURCE,
       PAR_LLDP_POE_DLL_PD_4PID, PAR_LLDP_POE_DLL_POWER_PRIO, PAR_LLDP_POE_DLL_PD_REQ_POWER,
       PAR_LLDP_POE_DLL_PD_ALLOC_POWER, PAR_LLDP_MAX_FRAME_SIZE, PAR_LLDP_EEE_TX_TW,
       PAR_LLDP_EEE_RX_TW, PAR_LLDP_EEE_FB_RX_TW, PAR_LLDP_EEE_ECHO_TX_TW, PAR_LLDP_EEE_ECHO_RX_TW,
       PAR_LLDP_EEE_FW_TX, PAR_LLDP_EEE_FW_RX, PAR_LLDP_EEE_FW_ECHO_TX, PAR_LLDP_EEE_FW_ECHO_RX,
       PAR_LLDP_PN_DELAY_PORT_RX_LOC, PAR_LLDP_PN_DELAY_PORT_RX_REM, PAR_LLDP_PN_DELAY_PORT_TX_LOC,
       PAR_LLDP_PN_DELAY_PORT_TX_REM, PAR_LLDP_PN_DELAY_LINE, PAR_LLDP_PN_RTC2_STATE,
       PAR_LLDP_PN_RTC3_STATE, PAR_LLDP_PN_RTC3_FRAG, PAR_LLDP_PN_RTC3_PREAMP,
       PAR_LLDP_PN_RTC3_OPTIMIZED, PAR_LLDP_PN_ALIAS, PAR_LLDP_PN_MRP_DOMAIN,
       PAR_LLDP_PN_MRP_DOMAIN_UUID, PAR_LLDP_PN_MRP_MRRT_STATE, PAR_LLDP_PN_CHASSIS_MAC,
       PAR_LLDP_PN_PTCP_MAST_SRC_MAC, PAR_LLDP_PN_PTCP_DOMAIN_UUID, PAR_LLDP_PN_PTCP_IRDATA_UUID,
       PAR_LLDP_PN_PTCP_PERIOD_LEN, PAR_LLDP_PN_PTCP_RED_ORANGE, PAR_LLDP_PN_PTCP_ORANGE,
       PAR_LLDP_PN_PTCP_GREEN, PAR_LLDP_PN_MAU_TYPE_EXT, PAR_LLDP_PN_MRP_IC_DOMAIN_ID,
       PAR_LLDP_PN_MRP_IC_ROLE, PAR_LLDP_PN_MRP_IC_MIC_POS, PAR_LLDP_TLV_TYPE, PAR_LLDP_TLV_VALUE,
       PAR_LLDP_OUI_TLV_OUI, PAR_LLDP_OUI_TLV_TYPE, PAR_LLDP_OUI_TLV_VALUE]\<rparr>"

definition all_protos :: "Protocol list" where
  "all_protos = [PR_RAW, PR_ETH, PR_ARP, PR_ARP_PROBE, PR_ARP_ANNOUNCE, PR_IPV4, PR_IPV6, PR_UDP4, PR_UDP6,
       PR_VRRP, PR_VRRP3, PR_STP, PR_RSTP, PR_STP_TCN, PR_IGMP, PR_IGMP_QUERY, PR_IGMP3_QUERY,
       PR_IGMP_REPORT, PR_IGMP_LEAVE, PR_ICMP4, PR_ICMP4_UNREACH, PR_ICMP4_SRCQ, PR_ICMP4_TIMEX,
       PR_ICMP4_REDIR, PR_ICMP4_ECHO, PR_ICMP4_ECHOR, PR_TCP4, PR_TCP6, PR_VXLAN4, PR_VXLAN6,
       PR_GRE4, PR_GRE6, PR_LLDP]"

end
