(* ===== verification/ByteArray.thy ===== *)
theory ByteArray
  imports Endian
begin

section \<open>cByteArray\<close>

text \<open>
  src/common/bytearray.hpp: a growing byte array (chunks of \<open>m_chunkSize\<close>) or one of fixed size.
  \<open>m_data\<close> is the allocated block, \<open>m_currPos\<close> the write position.
\<close>

record cByteArray =
  m_chunkSize :: nat
  m_data :: "byte list"
  m_capacity :: nat
  m_currPos :: nat
  m_dynSize :: bool
  m_extData :: bool

definition DEFAULT_CHUNK :: nat where
  "DEFAULT_CHUNK = 2048"

definition alignLength :: "cByteArray \<Rightarrow> nat \<Rightarrow> nat" where
  "alignLength a len =
     (let chunks = (len + m_chunkSize a - 1) div m_chunkSize a;
          chunks = (if len = 0 then chunks + 1 else chunks)
      in chunks * m_chunkSize a)"

definition resize :: "(nat \<Rightarrow> byte) \<Rightarrow> cByteArray \<Rightarrow> nat \<Rightarrow> cByteArray res" where
  "resize junk a newLength =
     (if \<not> m_dynSize a \<or> m_extData a
      then Inl (OutOfRange ''resizing of fixed size array is not possible'')
      else let newLength = alignLength a newLength in
        if newLength = m_capacity a then Inr a
        else if newLength < m_capacity a
        then Inr (a\<lparr>m_capacity := newLength,
                    m_currPos := (if m_currPos a \<ge> newLength then newLength else m_currPos a)\<rparr>)
        else bindE (memcpy_at 0 (take (m_capacity a) (m_data a)) (fresh junk newLength)) (\<lambda>newData.
             Inr (a\<lparr>m_data := newData, m_capacity := newLength\<rparr>)))"

definition new_cByteArray :: "(nat \<Rightarrow> byte) \<Rightarrow> nat \<Rightarrow> nat \<Rightarrow> cByteArray res" where
  "new_cByteArray junk initialLength chunksize =
     (let a = \<lparr>m_chunkSize = chunksize, m_data = [], m_capacity = 0, m_currPos = 0,
               m_dynSize = True, m_extData = False\<rparr>
      in if initialLength \<noteq> 0 then resize junk a initialLength else Inr a)"

definition new_cFixedByteArray :: "(nat \<Rightarrow> byte) \<Rightarrow> nat \<Rightarrow> cByteArray" where
  "new_cFixedByteArray junk len =
     \<lparr>m_chunkSize = len, m_data = fresh junk len, m_capacity = len, m_currPos = 0,
      m_dynSize = False, m_extData = False\<rparr>"

definition append_bytes :: "(nat \<Rightarrow> byte) \<Rightarrow> cByteArray \<Rightarrow> byte list \<Rightarrow> cByteArray res" where
  "append_bytes junk a p =
     bindE (if m_currPos a + length p > m_capacity a
            then resize junk a (m_capacity a + length p) else Inr a) (\<lambda>a.
     bindE (memcpy_at (m_currPos a) p (m_data a)) (\<lambda>d.
     Inr (a\<lparr>m_data := d, m_currPos := m_currPos a + length p\<rparr>)))"

definition shl_u8 :: "(nat \<Rightarrow> byte) \<Rightarrow> cByteArray \<Rightarrow> byte \<Rightarrow> cByteArray res" where
  "shl_u8 junk a v = append_bytes junk a [v]"

definition shl_u16 :: "(nat \<Rightarrow> byte) \<Rightarrow> cByteArray \<Rightarrow> u16 \<Rightarrow> cByteArray res" where
  "shl_u16 junk a v = append_bytes junk a (mem16 v)"

definition shl_u32 :: "(nat \<Rightarrow> byte) \<Rightarrow> cByteArray \<Rightarrow> u32 \<Rightarrow> cByteArray res" where
  "shl_u32 junk a v = append_bytes junk a (mem32 v)"

definition shl_u64 :: "(nat \<Rightarrow> byte) \<Rightarrow> cByteArray \<Rightarrow> u64 \<Rightarrow> cByteArray res" where
  "shl_u64 junk a v = append_bytes junk a (mem64 v)"

definition at_index :: "cByteArray \<Rightarrow> nat \<Rightarrow> byte res" where
  "at_index a idx =
     bindE (bugOn (idx \<ge> m_capacity a) ''idx >= m_capacity'') (\<lambda>_. Inr (m_data a ! idx))"

text \<open>The observable content: \<open>data()\<close> with \<open>size()\<close> bytes.\<close>

definition bytes_of :: "cByteArray \<Rightarrow> byte list" where
  "bytes_of a = take (m_currPos a) (m_data a)"

definition ba_inv :: "cByteArray \<Rightarrow> bool" where
  "ba_inv a \<longleftrightarrow> m_currPos a \<le> m_capacity a \<and> m_capacity a \<le> length (m_data a)
     \<and> (m_dynSize a \<longrightarrow> 0 < m_chunkSize a)"

definition growable :: "cByteArray \<Rightarrow> bool" where
  "growable a \<longleftrightarrow> m_dynSize a \<and> \<not> m_extData a"

lemma alignLength_ge: "0 < m_chunkSize a \<Longrightarrow> len \<le> alignLength a len"
proof -
  assume c: "0 < m_chunkSize a"
  let ?c = "m_chunkSize a"
  have "len + ?c - 1 < (len + ?c - 1) div ?c * ?c + ?c"
    using c by (metis add.commute mod_less_divisor mult.commute div_mult_mod_eq nat_add_left_cancel_less)
  then have "len \<le> (len + ?c - 1) div ?c * ?c" using c by linarith
  then show ?thesis by (auto simp: alignLength_def Let_def)
qed

lemma resize_grows:
  assumes "ba_inv a" and "growable a" and "m_capacity a \<le> n"
  obtains a' where "resize junk a n = Inr a'" and "ba_inv a'" and "growable a'"
    and "n \<le> m_capacity a'" and "bytes_of a' = bytes_of a" and "m_currPos a' = m_currPos a"
proof -
  let ?n = "alignLength a n"
  have ge: "n \<le> ?n"
    using assms(1,2) alignLength_ge by (simp add: ba_inv_def growable_def)
  show thesis
  proof (cases "?n = m_capacity a")
    case True
    with assms ge that [of a] show ?thesis by (simp add: resize_def growable_def)
  next
    case False
    with assms(3) ge have gt: "m_capacity a < ?n" by simp
    let ?d = "take (m_capacity a) (m_data a) @ drop (m_capacity a) (fresh junk ?n)"
    let ?a = "a\<lparr>m_data := ?d, m_capacity := ?n\<rparr>"
    have len: "length (take (m_capacity a) (m_data a)) = m_capacity a"
      using assms(1) by (simp add: ba_inv_def)
    have "resize junk a n = Inr ?a"
      using assms gt len by (simp add: resize_def growable_def Let_def memcpy_at_def)
    moreover have "ba_inv ?a" using assms(1) gt by (auto simp: ba_inv_def)
    moreover have "bytes_of ?a = bytes_of a"
      using assms(1) by (simp add: bytes_of_def ba_inv_def min_def)
    ultimately show ?thesis using that [of ?a] assms ge by (simp add: growable_def)
  qed
qed

lemma append_in_place:
  assumes "ba_inv a" and "m_currPos a + length p \<le> m_capacity a"
  shows "append_bytes junk a p = Inr (a\<lparr>m_data := take (m_currPos a) (m_data a) @ p
            @ drop (m_currPos a + length p) (m_data a), m_currPos := m_currPos a + length p\<rparr>)"
  using assms by (simp add: append_bytes_def memcpy_at_def ba_inv_def)

lemma append_in_place_bytes:
  assumes "ba_inv a" and "m_currPos a + length p \<le> m_capacity a"
    and "append_bytes junk a p = Inr a'"
  shows "ba_inv a' \<and> bytes_of a' = bytes_of a @ p"
  using assms append_in_place [OF assms(1,2), of junk]
  by (auto simp: ba_inv_def bytes_of_def)

lemma append_growable:
  assumes "ba_inv a" and "growable a"
  obtains a' where "append_bytes junk a p = Inr a'" and "ba_inv a'" and "growable a'"
    and "bytes_of a' = bytes_of a @ p"
proof (cases "m_currPos a + length p \<le> m_capacity a")
  case True
  then obtain a' where a': "append_bytes junk a p = Inr a'"
    using append_in_place [OF assms(1), of p junk] by blast
  moreover have "growable a'"
    using a' append_in_place [OF assms(1) True, of junk] assms(2) by (auto simp: growable_def)
  ultimately show ?thesis
    using that append_in_place_bytes [OF assms(1) True] by blast
next
  case False
  obtain b where b: "resize junk a (m_capacity a + length p) = Inr b" "ba_inv b" "growable b"
    "m_capacity a + length p \<le> m_capacity b" "bytes_of b = bytes_of a" "m_currPos b = m_currPos a"
    using resize_grows [OF assms, of "m_capacity a + length p"] by auto
  have fits: "m_currPos b + length p \<le> m_capacity b"
    using assms(1) b by (simp add: ba_inv_def)
  have eq: "append_bytes junk a p = append_bytes junk b p"
    using False b fits by (simp add: append_bytes_def)
  obtain a' where a': "append_bytes junk b p = Inr a'"
    using append_in_place [OF b(2) fits, of junk] by blast
  moreover have "growable a'"
    using a' append_in_place [OF b(2) fits, of junk] b(3) by (auto simp: growable_def)
  ultimately show ?thesis
    using that append_in_place_bytes [OF b(2) fits] eq b(5) by simp
qed

text \<open>A fixed array takes exactly what fits and reports the rest as \<open>out_of_range\<close>.\<close>

lemma append_fixed:
  assumes "ba_inv a" and "\<not> growable a"
  shows "append_bytes junk a p =
    (if m_currPos a + length p \<le> m_capacity a
     then Inr (a\<lparr>m_data := take (m_currPos a) (m_data a) @ p
            @ drop (m_currPos a + length p) (m_data a), m_currPos := m_currPos a + length p\<rparr>)
     else Inl (OutOfRange ''resizing of fixed size array is not possible''))"
  using assms append_in_place [OF assms(1), of p junk]
  by (auto simp: append_bytes_def resize_def growable_def)

subsection \<open>The interface its clients rely on\<close>

text \<open>
  A byte sink: \<open>put\<close> appends to the content or refuses; once it has accepted a write it behaves
  like list append, and it accepts whatever stays inside its \<open>room\<close>.
\<close>

locale byte_sink =
  fixes put :: "'s \<Rightarrow> byte list \<Rightarrow> 's res"
    and content :: "'s \<Rightarrow> byte list"
    and room :: "'s \<Rightarrow> nat \<Rightarrow> bool"
    and inv :: "'s \<Rightarrow> bool"
  assumes put_accepts: "inv s \<Longrightarrow> room s (length p) \<Longrightarrow> \<exists>s'. put s p = Inr s'"
    and put_content: "inv s \<Longrightarrow> put s p = Inr s' \<Longrightarrow> content s' = content s @ p"
    and put_inv: "inv s \<Longrightarrow> put s p = Inr s' \<Longrightarrow> inv s'"
    and put_room: "inv s \<Longrightarrow> put s p = Inr s' \<Longrightarrow> room s (length p + n) \<Longrightarrow> room s' n"
    and room_mono: "room s n \<Longrightarrow> m \<le> n \<Longrightarrow> room s m"
begin

fun put_all :: "'s \<Rightarrow> byte list list \<Rightarrow> 's res" where
  "put_all s [] = Inr s"
| "put_all s (c # cs) = bindE (put s c) (\<lambda>s'. put_all s' cs)"

lemma put_all_content:
  "inv s \<Longrightarrow> put_all s cs = Inr s' \<Longrightarrow> content s' = content s @ concat cs \<and> inv s'"
proof (induction cs arbitrary: s)
  case Nil
  then show ?case by simp
next
  case (Cons c cs)
  then obtain t where t: "put s c = Inr t" "put_all t cs = Inr s'" by auto
  have "content t = content s @ c" "inv t"
    using Cons.prems(1) t(1) by (rule put_content, rule put_inv)
  then show ?case using Cons.IH [OF _ t(2)] by simp
qed

lemma put_all_accepts:
  "inv s \<Longrightarrow> room s (length (concat cs)) \<Longrightarrow> \<exists>s'. put_all s cs = Inr s'"
proof (induction cs arbitrary: s)
  case Nil
  then show ?case by simp
next
  case (Cons c cs)
  have "room s (length c)" by (rule room_mono [OF Cons.prems(2)]) simp
  then obtain t where t: "put s c = Inr t" using put_accepts Cons.prems(1) by blast
  have "room t (length (concat cs))"
    using put_room [OF Cons.prems(1) t, of "length (concat cs)"] Cons.prems(2) by simp
  then show ?case using Cons.IH [OF put_inv [OF Cons.prems(1) t]] t by simp
qed

end

interpretation dyn: byte_sink "append_bytes junk" bytes_of "\<lambda>_ _. True" "\<lambda>a. ba_inv a \<and> growable a"
  for junk
proof (unfold_locales, goal_cases)
  case (1 s p)
  then show ?case by (metis append_growable)
next
  case (2 s p s')
  then show ?case by (metis append_growable sum.inject(2))
next
  case (3 s p s')
  then show ?case by (metis append_growable sum.inject(2))
qed simp_all

definition fixed_room :: "cByteArray \<Rightarrow> nat \<Rightarrow> bool" where
  "fixed_room a n \<longleftrightarrow> m_currPos a + n \<le> m_capacity a"

interpretation fixed: byte_sink "append_bytes junk" bytes_of fixed_room
    "\<lambda>a. ba_inv a \<and> \<not> growable a" for junk
proof (unfold_locales, goal_cases)
  case (1 s p)
  then show ?case by (simp add: append_fixed fixed_room_def)
next
  case (2 s p s')
  then show ?case
    by (auto simp: append_fixed split: if_splits) (auto simp: bytes_of_def ba_inv_def)
next
  case (3 s p s')
  then show ?case
    by (auto simp: append_fixed growable_def ba_inv_def split: if_splits)
next
  case (4 s p s' n)
  then show ?case by (auto simp: append_fixed fixed_room_def split: if_splits)
qed (simp_all add: fixed_room_def)

text \<open>
  A sequence of \<open><<\<close> on one array. The TLV builders and the raw-packet compiler are chains of
  such writes.
\<close>

fun append_all :: "(nat \<Rightarrow> byte) \<Rightarrow> cByteArray \<Rightarrow> byte list list \<Rightarrow> cByteArray res" where
  "append_all junk a [] = Inr a"
| "append_all junk a (c # cs) = bindE (append_bytes junk a c) (\<lambda>a'. append_all junk a' cs)"

lemma append_all_fixed: "append_all junk a cs = fixed.put_all junk a cs"
  by (induction cs arbitrary: a) simp_all

lemma new_fixed_inv [simp]:
  "ba_inv (new_cFixedByteArray junk n)" "\<not> growable (new_cFixedByteArray junk n)"
  "bytes_of (new_cFixedByteArray junk n) = []"
  by (simp_all add: new_cFixedByteArray_def ba_inv_def growable_def bytes_of_def)

lemma fixed_array_exact:
  assumes "length (concat cs) \<le> n"
  shows "\<exists>a. append_all junk (new_cFixedByteArray junk n) cs = Inr a \<and> bytes_of a = concat cs"
proof -
  let ?a = "new_cFixedByteArray junk n"
  have "fixed_room ?a (length (concat cs))"
    using assms by (simp add: fixed_room_def new_cFixedByteArray_def)
  then obtain a where "append_all junk ?a cs = Inr a"
    using fixed.put_all_accepts [of ?a cs junk] by (auto simp: append_all_fixed)
  moreover from this have "bytes_of a = concat cs"
    using fixed.put_all_content [of ?a junk cs a] by (simp add: append_all_fixed)
  ultimately show ?thesis by blast
qed

end
