(* ===== verification/Ethernet.thy ===== *)
theory Ethernet
  imports Address ByteArray
begin

section \<open>cEthernetPacket\<close>

text \<open>
  src/packets/ethernetpacket.hpp and ethernetpacket.cpp. \<open>packet\<close> is the allocated block,
  \<open>pPayload\<close> and \<open>pEthertypeLength\<close> are offsets into it. The methods return the object they leave,
  or what they throw; a packet under construction does not outlive an exception.
\<close>

record cEthernetPacket =
  packet :: "byte list"
  packetMaxLength :: nat
  pPayload :: nat
  pEthertypeLength :: nat
  payloadLength :: nat
  llcHeaderLength :: nat
  hasDMAC :: bool

definition MAX_ETHERNET_PAYLOAD :: nat where
  "MAX_ETHERNET_PAYLOAD = 1500"

definition ETHERTYPE_IPV4 :: u16 where "ETHERTYPE_IPV4 = 0x0800"
definition ETHERTYPE_ARP :: u16 where "ETHERTYPE_ARP = 0x0806"
definition ETHERTYPE_CVLAN :: u16 where "ETHERTYPE_CVLAN = 0x8100"
definition ETHERTYPE_IPV6 :: u16 where "ETHERTYPE_IPV6 = 0x86DD"
definition ETHERTYPE_SVLAN :: u16 where "ETHERTYPE_SVLAN = 0x88a8"
definition ETHERTYPE_PN :: u16 where "ETHERTYPE_PN = 0x8892"
definition ETHERTYPE_LLDP :: u16 where "ETHERTYPE_LLDP = 0x88CC"

definition rangeError :: error where
  "rangeError = FormatException exParRange None 0"

subsection \<open>VLAN tags\<close>

record vlan_t =
  tpid :: u16
  tci :: u16

definition setTci :: "u16 \<Rightarrow> u16 \<Rightarrow> u16 \<Rightarrow> u16" where
  "setTci vid prio dei =
     htons ((vid AND 0x0FFF) OR push_bit 12 (dei AND 1) OR push_bit 13 (prio AND 7))"

definition setCTag :: "u16 \<Rightarrow> u16 \<Rightarrow> u16 \<Rightarrow> vlan_t" where
  "setCTag vid prio dei = \<lparr>tpid = htons ETHERTYPE_CVLAN, tci = setTci vid prio dei\<rparr>"

definition setSTag :: "u16 \<Rightarrow> u16 \<Rightarrow> u16 \<Rightarrow> vlan_t" where
  "setSTag vid prio dei = \<lparr>tpid = htons ETHERTYPE_SVLAN, tci = setTci vid prio dei\<rparr>"

definition getId :: "vlan_t \<Rightarrow> u16" where
  "getId v = htons (tci v) AND 0x03ff"

definition getPrio :: "vlan_t \<Rightarrow> u16" where
  "getPrio v = drop_bit 13 (htons (tci v)) AND 0x0007"

definition getDEI :: "vlan_t \<Rightarrow> u16" where
  "getDEI v = drop_bit 12 (htons (tci v)) AND 0x0001"

definition isVlan :: "vlan_t \<Rightarrow> bool" where
  "isVlan v = (let type = htons (tpid v) in type = ETHERTYPE_CVLAN \<or> type = ETHERTYPE_SVLAN)"

definition vlan_bytes :: "vlan_t \<Rightarrow> byte list" where
  "vlan_bytes v = mem16 (tpid v) @ mem16 (tci v)"

definition tag_bytes :: "bool \<Rightarrow> u16 \<Rightarrow> u16 \<Rightarrow> u16 \<Rightarrow> byte list" where
  "tag_bytes isCTag vid prio dei =
     vlan_bytes (if isCTag then setCTag vid prio dei else setSTag vid prio dei)"

subsection \<open>Operations\<close>

definition getLength :: "cEthernetPacket \<Rightarrow> nat" where
  "getLength e = sz (pPayload e + payloadLength e)"

definition getMtu :: "cEthernetPacket \<Rightarrow> nat" where
  "getMtu e = sz (pPayload e + packetMaxLength e)"

definition hasLlcHeader :: "cEthernetPacket \<Rightarrow> bool" where
  "hasLlcHeader e = (llcHeaderLength e \<noteq> 0)"

definition hasPayload :: "cEthernetPacket \<Rightarrow> bool" where
  "hasPayload e = (payloadLength e \<noteq> 0)"

text \<open>The \<open>getLength ()\<close> bytes at \<open>get ()\<close>: what is sent.\<close>

definition visible :: "cEthernetPacket \<Rightarrow> byte list" where
  "visible e = take (getLength e) (packet e)"

definition checkPacketLength :: "cEthernetPacket \<Rightarrow> nat \<Rightarrow> unit res" where
  "checkPacketLength e addedBytes =
     (if sz (getLength e + addedBytes) > packetMaxLength e then Inl rangeError else Inr ())"

definition store :: "nat \<Rightarrow> byte list \<Rightarrow> cEthernetPacket \<Rightarrow> cEthernetPacket res" where
  "store off bs e = bindE (memcpy_at off bs (packet e)) (\<lambda>p. Inr (e\<lparr>packet := p\<rparr>))"

definition move :: "nat \<Rightarrow> nat \<Rightarrow> nat \<Rightarrow> cEthernetPacket \<Rightarrow> cEthernetPacket res" where
  "move dst src n e = bindE (memmove_at dst src n (packet e)) (\<lambda>p. Inr (e\<lparr>packet := p\<rparr>))"

definition eth_reset :: "cEthernetPacket \<Rightarrow> cEthernetPacket res" where
  "eth_reset e = store 12 [0, 0] (e\<lparr>pPayload := 14, pEthertypeLength := 12, payloadLength := 0,
     llcHeaderLength := 0, hasDMAC := False\<rparr>)"

definition eth_new :: "(nat \<Rightarrow> byte) \<Rightarrow> nat \<Rightarrow> cEthernetPacket res" where
  "eth_new junk maxLength =
     bindE (bugOn (maxLength < 14) ''maxLength < sizeof (mac_header_t)'') (\<lambda>_.
     let data = fresh junk ((maxLength + 3) div 4 * 4)
     in bindE (memcpy_at 0 (replicate 14 0) data) (\<lambda>p.
        eth_reset \<lparr>packet = p, packetMaxLength = maxLength, pPayload = 0, pEthertypeLength = 0,
          payloadLength = 0, llcHeaderLength = 0, hasDMAC = False\<rparr>))"

definition eth_default :: "('z env_scheme, cEthernetPacket) M" where
  "eth_default = bindM (getM junk_of) (\<lambda>junk. bindM getMyMTU (\<lambda>mtu.
     liftE (eth_new junk (unat mtu + 14 + 4))))"

definition eth_copy :: "(nat \<Rightarrow> byte) \<Rightarrow> cEthernetPacket \<Rightarrow> cEthernetPacket res" where
  "eth_copy junk obj =
     bindE (eth_new junk (packetMaxLength obj)) (\<lambda>e.
     bindE (bugOn (packetMaxLength e \<noteq> packetMaxLength obj) ''packetMaxLength != obj.packetMaxLength'') (\<lambda>_.
     let e = e\<lparr>payloadLength := payloadLength obj, llcHeaderLength := llcHeaderLength obj,
               hasDMAC := hasDMAC obj\<rparr>
     in bindE (store 0 (visible obj) e) (\<lambda>e.
        Inr (e\<lparr>pPayload := pPayload obj, pEthertypeLength := pEthertypeLength obj\<rparr>))))"

text \<open>The object that was moved from has lost its block.\<close>

definition eth_move :: "cEthernetPacket \<Rightarrow> cEthernetPacket \<times> cEthernetPacket" where
  "eth_move other =
     (\<lparr>packet = packet other, packetMaxLength = packetMaxLength other, pPayload = pPayload other,
       pEthertypeLength = pEthertypeLength other, payloadLength = payloadLength other,
       llcHeaderLength = llcHeaderLength other, hasDMAC = hasDMAC other\<rparr>,
      other\<lparr>packet := [], packetMaxLength := 0, pPayload := 0, pEthertypeLength := 0,
        payloadLength := 0, llcHeaderLength := 0\<rparr>)"

definition updatePosition :: "nat \<Rightarrow> cEthernetPacket \<Rightarrow> cEthernetPacket" where
  "updatePosition len e = e\<lparr>pPayload := pPayload e + len, pEthertypeLength := pEthertypeLength e + len\<rparr>"

definition setTypeLength :: "u16 \<Rightarrow> cEthernetPacket \<Rightarrow> cEthernetPacket res" where
  "setTypeLength ethertypeLen e = store (pEthertypeLength e) (mem16 (htons ethertypeLen)) e"

definition getTypeLength :: "cEthernetPacket \<Rightarrow> u16" where
  "getTypeLength e = rd16 (packet e ! pEthertypeLength e) (packet e ! (pEthertypeLength e + 1))"

definition setLength :: "cEthernetPacket \<Rightarrow> cEthernetPacket res" where
  "setLength e = setTypeLength (of_nat (payloadLength e + llcHeaderLength e)) e"

definition setDestMac :: "byte list \<Rightarrow> cEthernetPacket \<Rightarrow> cEthernetPacket res" where
  "setDestMac dest e = bindE (store 0 dest e) (\<lambda>e. Inr (e\<lparr>hasDMAC := True\<rparr>))"

definition setSrcMac :: "byte list \<Rightarrow> cEthernetPacket \<Rightarrow> cEthernetPacket res" where
  "setSrcMac src e = store 6 src e"

definition getDestMac :: "cEthernetPacket \<Rightarrow> byte list" where
  "getDestMac e = take 6 (packet e)"

definition getSrcMac :: "cEthernetPacket \<Rightarrow> byte list" where
  "getSrcMac e = take 6 (drop 6 (packet e))"

definition setMacHeader :: "byte list \<Rightarrow> byte list \<Rightarrow> cEthernetPacket \<Rightarrow> cEthernetPacket res" where
  "setMacHeader src dest e = bindE (setSrcMac src e) (setDestMac dest)"

definition llc_size :: "u16 \<Rightarrow> nat" where
  "llc_size control = (if control AND 0x0003 = 3 then 3 else 4)"

definition llc_bytes :: "byte \<Rightarrow> byte \<Rightarrow> u16 \<Rightarrow> byte list" where
  "llc_bytes dsap ssap control = dsap # ssap #
     (if control AND 0x0003 = 3 then [ucast control] else mem16 (htons control))"

definition addLlcHeader :: "byte \<Rightarrow> byte \<Rightarrow> u16 \<Rightarrow> cEthernetPacket \<Rightarrow> cEthernetPacket res" where
  "addLlcHeader dsap ssap control e =
     (let n = llc_size control; e = e\<lparr>llcHeaderLength := n\<rparr>
      in bindE (checkPacketLength e n) (\<lambda>_.
         bindE (if payloadLength e \<noteq> 0 then move (pPayload e + n) (pPayload e) (payloadLength e) e
                else Inr e) (\<lambda>e.
         bindE (store (pPayload e) (llc_bytes dsap ssap control) e) (\<lambda>e.
         setLength (e\<lparr>pPayload := pPayload e + n\<rparr>)))))"

definition snap_bytes :: "u32 \<Rightarrow> u16 \<Rightarrow> byte list" where
  "snap_bytes oui protocol =
     (let oui = htonl oui
      in [ucast (drop_bit 8 oui AND 0xff), ucast (drop_bit 16 oui AND 0xff),
          ucast (drop_bit 24 oui AND 0xff)] @ mem16 (htons protocol))"

definition addSnapHeader :: "u32 \<Rightarrow> u16 \<Rightarrow> cEthernetPacket \<Rightarrow> cEthernetPacket res" where
  "addSnapHeader oui protocol e =
     bindE (addLlcHeader 0xaa 0xaa 3 e) (\<lambda>e.
     bindE (checkPacketLength e 5) (\<lambda>_.
     bindE (if payloadLength e \<noteq> 0 then move (pPayload e + 5) (pPayload e) (payloadLength e) e
            else Inr e) (\<lambda>e.
     let e = e\<lparr>llcHeaderLength := llcHeaderLength e + 5\<rparr>
     in bindE (store (pPayload e) (snap_bytes oui protocol) e) (\<lambda>e.
        setLength (e\<lparr>pPayload := pPayload e + 5\<rparr>)))))"

definition addVlanTag :: "bool \<Rightarrow> u16 \<Rightarrow> u16 \<Rightarrow> u16 \<Rightarrow> cEthernetPacket \<Rightarrow> cEthernetPacket res" where
  "addVlanTag isCTag vid prio dei e =
     bindE (checkPacketLength e 4) (\<lambda>_.
     bindE (move (pEthertypeLength e + 4) (pEthertypeLength e) (2 + payloadLength e) e) (\<lambda>e.
     bindE (store (pEthertypeLength e) (tag_bytes isCTag vid prio dei) e) (\<lambda>e.
     Inr (updatePosition 4 e))))"

definition setPayload :: "byte list \<Rightarrow> cEthernetPacket \<Rightarrow> cEthernetPacket res" where
  "setPayload payload e =
     (let e = e\<lparr>payloadLength := 0\<rparr>
      in bindE (checkPacketLength e (length payload)) (\<lambda>_.
         bindE (store (pPayload e) payload e) (\<lambda>e.
         Inr (e\<lparr>payloadLength := length payload\<rparr>))))"

definition appendPayload :: "cEthernetPacket \<Rightarrow> byte list \<Rightarrow> cEthernetPacket res" where
  "appendPayload e payload =
     bindE (checkPacketLength e (length payload)) (\<lambda>_.
     bindE (store (pPayload e + payloadLength e) payload e) (\<lambda>e.
     Inr (e\<lparr>payloadLength := payloadLength e + length payload\<rparr>)))"

definition setRaw :: "byte list \<Rightarrow> cEthernetPacket \<Rightarrow> cEthernetPacket res" where
  "setRaw payload e =
     bindE (eth_reset e) (\<lambda>e.
     if length payload > packetMaxLength e then Inl rangeError
     else bindE (store 0 payload e) (\<lambda>e.
          Inr (e\<lparr>payloadLength := szsub (length payload) 14, hasDMAC := True\<rparr>)))"

definition updatePayloadAt :: "nat \<Rightarrow> byte list \<Rightarrow> cEthernetPacket \<Rightarrow> cEthernetPacket res" where
  "updatePayloadAt offset payload e =
     (if sz (offset + length payload) > payloadLength e then Inl rangeError
      else store (pPayload e + offset) payload e)"

definition getPayload :: "cEthernetPacket \<Rightarrow> byte list" where
  "getPayload e = take (payloadLength e) (drop (pPayload e) (packet e))"

definition getPayloadAt8 :: "cEthernetPacket \<Rightarrow> nat \<Rightarrow> byte res" where
  "getPayloadAt8 e offset =
     (if offset > payloadLength e then Inl rangeError
      else if pPayload e + offset < length (packet e) then Inr (packet e ! (pPayload e + offset))
      else Inl (Undefined ''read outside of buffer''))"

definition getPayloadAt16 :: "cEthernetPacket \<Rightarrow> nat \<Rightarrow> u16 res" where
  "getPayloadAt16 e offset =
     (if offset > payloadLength e then Inl rangeError
      else let i = pPayload e + 2 * (offset div 2)
           in if i + 1 < length (packet e) then Inr (rd16 (packet e ! (i + 1)) (packet e ! i))
              else Inl (Undefined ''read outside of buffer''))"

subsection \<open>The frame a packet object holds\<close>

text \<open>
  The abstract frame: addresses, tags, type, LLC/SNAP header, payload. \<open>holds e f\<close> says where its
  parts lie in the block and that they lie inside of it.
\<close>

record frame =
  f_dest :: "byte list"
  f_src :: "byte list"
  f_tags :: "byte list"
  f_type :: "byte list"
  f_llc :: "byte list"
  f_payload :: "byte list"

definition frame_bytes :: "frame \<Rightarrow> byte list" where
  "frame_bytes f = f_dest f @ f_src f @ f_tags f @ f_type f @ f_llc f @ f_payload f"

definition frame_shape :: "frame \<Rightarrow> bool" where
  "frame_shape f \<longleftrightarrow> length (f_dest f) = 6 \<and> length (f_src f) = 6 \<and> length (f_type f) = 2"

definition holds :: "cEthernetPacket \<Rightarrow> frame \<Rightarrow> bool" where
  "holds e f \<longleftrightarrow> frame_shape f \<and> (\<exists>rest. packet e = frame_bytes f @ rest)
     \<and> length (frame_bytes f) \<le> packetMaxLength e \<and> packetMaxLength e \<le> length (packet e)
     \<and> length (packet e) < 2 ^ 63
     \<and> pEthertypeLength e = 12 + length (f_tags f) \<and> llcHeaderLength e = length (f_llc f)
     \<and> pPayload e = 14 + length (f_tags f) + length (f_llc f)
     \<and> payloadLength e = length (f_payload f)"

lemma holdsE:
  assumes "holds e f"
  obtains D S T Y L P R where
    "f = \<lparr>f_dest = D, f_src = S, f_tags = T, f_type = Y, f_llc = L, f_payload = P\<rparr>"
    and "length D = 6" and "length S = 6" and "length Y = 2"
    and "packet e = D @ S @ T @ Y @ L @ P @ R"
    and "14 + length T + length L + length P \<le> packetMaxLength e"
    and "packetMaxLength e \<le> 14 + length T + length L + length P + length R"
    and "packetMaxLength e < 2 ^ 63"
    and "14 + length T + length L + length P + length R < 2 ^ 63"
    and "pEthertypeLength e = 12 + length T" and "llcHeaderLength e = length L"
    and "pPayload e = 14 + length T + length L" and "payloadLength e = length P"
proof (cases f)
  case (fields D S T Y L P)
  with assms obtain R where "packet e = D @ S @ T @ Y @ L @ P @ R"
    by (auto simp: holds_def frame_bytes_def)
  with assms fields show thesis
    by (intro that [of D S T Y L P R]) (auto simp: holds_def frame_bytes_def frame_shape_def)
qed

lemma holdsI:
  assumes "length D = 6" "length S = 6" "length Y = 2"
    and "packet e = D @ S @ T @ Y @ L @ P @ R"
    and "14 + length T + length L + length P \<le> packetMaxLength e"
    and "packetMaxLength e \<le> 14 + length T + length L + length P + length R"
    and "14 + length T + length L + length P + length R < 2 ^ 63"
    and "pEthertypeLength e = 12 + length T" "llcHeaderLength e = length L"
    and "pPayload e = 14 + length T + length L" "payloadLength e = length P"
  shows "holds e \<lparr>f_dest = D, f_src = S, f_tags = T, f_type = Y, f_llc = L, f_payload = P\<rparr>"
  using assms by (auto simp: holds_def frame_bytes_def frame_shape_def)

lemma holds_length: "holds e f \<Longrightarrow> getLength e = length (frame_bytes f)"
  by (auto simp: holds_def getLength_def frame_bytes_def frame_shape_def)

lemma holds_visible: "holds e f \<Longrightarrow> visible e = frame_bytes f"
  by (auto simp: visible_def holds_length) (auto simp: holds_def)

lemma llc_size_bytes: "length (llc_bytes d s c) = llc_size c"
  by (simp add: llc_bytes_def llc_size_def)

lemma llc_size_le: "llc_size c \<le> 4"
  by (simp add: llc_size_def)

lemma length_snap_bytes [simp]: "length (snap_bytes oui p) = 5"
  by (simp add: snap_bytes_def Let_def)

lemma length_vlan_bytes [simp]: "length (vlan_bytes v) = 4"
  by (simp add: vlan_bytes_def)

lemma checkPacketLength_holds:
  assumes "holds e f" and "n < 2 ^ 63"
  shows "checkPacketLength e n =
    (if length (frame_bytes f) + n \<le> packetMaxLength e then Inr () else Inl rangeError)"
  using assms holds_length [OF assms(1)]
  by (auto simp: checkPacketLength_def) (auto simp: holds_def)

subsection \<open>Each operation refines the operation on frames\<close>

lemmas store_defs = store_def move_def memcpy_at_def memmove_at_def

lemma eth_new_holds:
  assumes "14 \<le> n" and "n < 2 ^ 62"
  shows "\<exists>e. eth_new junk n = Inr e \<and> packetMaxLength e = n \<and> \<not> hasDMAC e
    \<and> holds e \<lparr>f_dest = replicate 6 0, f_src = replicate 6 0, f_tags = [], f_type = [0, 0],
               f_llc = [], f_payload = []\<rparr>"
proof -
  let ?d = "fresh junk ((n + 3) div 4 * 4)"
  have len: "n \<le> length ?d" "length ?d \<le> n + 3" by simp_all
  have z: "replicate 14 0 = replicate 6 (0 :: byte) @ replicate 6 0 @ [0, 0]"
    by (simp add: numeral_eq_Suc)
  let ?e = "\<lparr>packet = replicate 6 0 @ replicate 6 0 @ [0, 0] @ drop 14 ?d, packetMaxLength = n,
     pPayload = 14, pEthertypeLength = 12, payloadLength = 0, llcHeaderLength = 0, hasDMAC = False\<rparr>"
  have "14 \<le> length ?d" using assms(1) len by linarith
  then have "eth_new junk n = Inr ?e"
    using assms by (simp add: eth_new_def eth_reset_def store_defs Let_def z)
  moreover have "holds ?e \<lparr>f_dest = replicate 6 0, f_src = replicate 6 0, f_tags = [],
      f_type = [0, 0], f_llc = [], f_payload = []\<rparr>"
    by (rule holdsI [where R = "drop 14 ?d"]) (use assms len in simp_all)
  ultimately show ?thesis by (intro exI [of _ ?e]) simp
qed

lemma setDestMac_holds:
  assumes "holds e f" and "length m = 6"
  shows "\<exists>e'. setDestMac m e = Inr e' \<and> holds e' (f\<lparr>f_dest := m\<rparr>) \<and> hasDMAC e'
    \<and> packetMaxLength e' = packetMaxLength e"
  using assms(1)
proof (cases rule: holdsE)
  case (1 D S T Y L P R)
  let ?e = "e\<lparr>packet := m @ S @ T @ Y @ L @ P @ R, hasDMAC := True\<rparr>"
  have "setDestMac m e = Inr ?e" using 1 assms(2) by (simp add: setDestMac_def store_defs)
  moreover have "holds ?e (f\<lparr>f_dest := m\<rparr>)"
    unfolding 1(1) frame.update_convs by (rule holdsI [where R = R]) (use 1 assms(2) in simp_all)
  ultimately show ?thesis by (intro exI [of _ ?e]) simp
qed

lemma setSrcMac_holds:
  assumes "holds e f" and "length m = 6"
  shows "\<exists>e'. setSrcMac m e = Inr e' \<and> holds e' (f\<lparr>f_src := m\<rparr>) \<and> hasDMAC e' = hasDMAC e
    \<and> packetMaxLength e' = packetMaxLength e"
  using assms(1)
proof (cases rule: holdsE)
  case (1 D S T Y L P R)
  let ?e = "e\<lparr>packet := D @ m @ T @ Y @ L @ P @ R\<rparr>"
  have "setSrcMac m e = Inr ?e" using 1 assms(2) by (simp add: setSrcMac_def store_defs)
  moreover have "holds ?e (f\<lparr>f_src := m\<rparr>)"
    unfolding 1(1) frame.update_convs by (rule holdsI [where R = R]) (use 1 assms(2) in simp_all)
  ultimately show ?thesis by (intro exI [of _ ?e]) simp
qed

lemma setTypeLength_holds:
  assumes "holds e f"
  shows "\<exists>e'. setTypeLength t e = Inr e' \<and> holds e' (f\<lparr>f_type := be16 t\<rparr>) \<and> hasDMAC e' = hasDMAC e
    \<and> packetMaxLength e' = packetMaxLength e"
  using assms
proof (cases rule: holdsE)
  case (1 D S T Y L P R)
  let ?e = "e\<lparr>packet := D @ S @ T @ be16 t @ L @ P @ R\<rparr>"
  have "setTypeLength t e = Inr ?e" using 1 by (simp add: setTypeLength_def store_defs mem16_htons)
  moreover have "holds ?e (f\<lparr>f_type := be16 t\<rparr>)"
    unfolding 1(1) frame.update_convs by (rule holdsI [where R = R]) (use 1 in simp_all)
  ultimately show ?thesis by (intro exI [of _ ?e]) simp
qed

definition frame_setLength :: "frame \<Rightarrow> frame" where
  "frame_setLength f = f\<lparr>f_type := be16 (of_nat (length (f_payload f) + length (f_llc f)))\<rparr>"

lemma setLength_holds:
  assumes "holds e f"
  shows "\<exists>e'. setLength e = Inr e' \<and> holds e' (frame_setLength f) \<and> hasDMAC e' = hasDMAC e
    \<and> packetMaxLength e' = packetMaxLength e"
proof -
  have "payloadLength e + llcHeaderLength e = length (f_payload f) + length (f_llc f)"
    using assms by (simp add: holds_def)
  then show ?thesis
    unfolding setLength_def frame_setLength_def by (simp only: setTypeLength_holds [OF assms])
qed

lemma setPayload_holds:
  assumes "holds e f" and "length p < 2 ^ 63"
  shows "if length (frame_bytes (f\<lparr>f_payload := p\<rparr>)) \<le> packetMaxLength e
    then \<exists>e'. setPayload p e = Inr e' \<and> holds e' (f\<lparr>f_payload := p\<rparr>) \<and> hasDMAC e' = hasDMAC e
      \<and> packetMaxLength e' = packetMaxLength e
    else setPayload p e = Inl rangeError"
  using assms(1)
proof (cases rule: holdsE)
  case (1 D S T Y L P R)
  let ?e0 = "e\<lparr>payloadLength := 0\<rparr>"
  have "holds ?e0 \<lparr>f_dest = D, f_src = S, f_tags = T, f_type = Y, f_llc = L, f_payload = []\<rparr>"
    by (rule holdsI [where R = "P @ R"]) (use 1 in simp_all)
  from checkPacketLength_holds [OF this assms(2)]
  have chk: "checkPacketLength ?e0 (length p) =
      (if 14 + length T + length L + length p \<le> packetMaxLength e then Inr () else Inl rangeError)"
    using 1 by (simp add: frame_bytes_def)
  have flen: "length (frame_bytes (f\<lparr>f_payload := p\<rparr>)) = 14 + length T + length L + length p"
    using 1 by (simp add: frame_bytes_def)
  show ?thesis
  proof (cases "14 + length T + length L + length p \<le> packetMaxLength e")
    case True
    let ?R = "drop (length p) (P @ R)"
    let ?e = "e\<lparr>packet := D @ S @ T @ Y @ L @ p @ ?R, payloadLength := length p\<rparr>"
    have "setPayload p e = Inr ?e"
      using True 1 chk by (simp add: setPayload_def store_defs Let_def)
    moreover have "holds ?e (f\<lparr>f_payload := p\<rparr>)"
      unfolding 1(1) frame.update_convs by (rule holdsI [where R = ?R]) (use 1 True in simp_all)
    ultimately have "\<exists>e'. setPayload p e = Inr e' \<and> holds e' (f\<lparr>f_payload := p\<rparr>)
        \<and> hasDMAC e' = hasDMAC e \<and> packetMaxLength e' = packetMaxLength e"
      by (intro exI [of _ ?e]) simp
    with True flen show ?thesis by simp
  next
    case False
    with chk flen show ?thesis by (simp add: setPayload_def)
  qed
qed

lemma appendPayload_holds:
  assumes "holds e f" and "length p < 2 ^ 63"
  shows "if length (frame_bytes f) + length p \<le> packetMaxLength e
    then \<exists>e'. appendPayload e p = Inr e' \<and> holds e' (f\<lparr>f_payload := f_payload f @ p\<rparr>)
      \<and> hasDMAC e' = hasDMAC e \<and> packetMaxLength e' = packetMaxLength e
    else appendPayload e p = Inl rangeError"
  using assms(1)
proof (cases rule: holdsE)
  case (1 D S T Y L P R)
  have flen: "length (frame_bytes f) = 14 + length T + length L + length P"
    using 1 by (simp add: frame_bytes_def)
  note chk = checkPacketLength_holds [OF assms]
  show ?thesis
  proof (cases "length (frame_bytes f) + length p \<le> packetMaxLength e")
    case True
    let ?R = "drop (length p) R"
    let ?e = "e\<lparr>packet := D @ S @ T @ Y @ L @ (P @ p) @ ?R, payloadLength := length (P @ p)\<rparr>"
    have "appendPayload e p = Inr ?e"
      using True 1 chk flen by (simp add: appendPayload_def store_defs)
    moreover have "holds ?e (f\<lparr>f_payload := f_payload f @ p\<rparr>)"
      unfolding 1(1) frame.update_convs frame.simps
      by (rule holdsI [where R = ?R]) (use 1 True flen in simp_all)
    ultimately have "\<exists>e'. appendPayload e p = Inr e' \<and> holds e' (f\<lparr>f_payload := f_payload f @ p\<rparr>)
        \<and> hasDMAC e' = hasDMAC e \<and> packetMaxLength e' = packetMaxLength e"
      by (intro exI [of _ ?e]) simp
    with True show ?thesis by simp
  next
    case False
    with chk show ?thesis by (simp add: appendPayload_def)
  qed
qed

text \<open>
  Tagging moves type and payload by four bytes. It is stated for frames without an LLC header, the
  order in which the instruction parser calls the two.
\<close>

lemma addVlanTag_holds:
  assumes "holds e f" and "f_llc f = []" and tag_def: "tag = tag_bytes isCTag vid prio dei"
  shows "if length (frame_bytes f) + 4 \<le> packetMaxLength e
    then \<exists>e'. addVlanTag isCTag vid prio dei e = Inr e' \<and> holds e' (f\<lparr>f_tags := f_tags f @ tag\<rparr>)
      \<and> hasDMAC e' = hasDMAC e \<and> packetMaxLength e' = packetMaxLength e
    else addVlanTag isCTag vid prio dei e = Inl rangeError"
  using assms(1)
proof (cases rule: holdsE)
  case (1 D S T Y L P R)
  have L: "L = []" using 1 assms(2) by simp
  have tag: "length tag = 4" by (simp add: tag_def tag_bytes_def)
  have flen: "length (frame_bytes f) = 14 + length T + length P"
    using 1 L by (simp add: frame_bytes_def)
  have chk: "checkPacketLength e 4 =
    (if length (frame_bytes f) + 4 \<le> packetMaxLength e then Inr () else Inl rangeError)"
    by (rule checkPacketLength_holds [OF assms(1)]) simp
  show ?thesis
  proof (cases "length (frame_bytes f) + 4 \<le> packetMaxLength e")
    case True
    let ?R = "drop 4 R"
    let ?e = "updatePosition 4 (e\<lparr>packet := D @ S @ (T @ tag) @ Y @ [] @ P @ ?R\<rparr>)"
    have R: "4 \<le> length R" using True flen 1 L by simp
    have mv: "move (pEthertypeLength e + 4) (pEthertypeLength e) (2 + payloadLength e) e
      = Inr (e\<lparr>packet := D @ S @ T @ take 4 (Y @ P @ R) @ Y @ P @ ?R\<rparr>)"
      using 1 L R by (simp add: store_defs)
    have "addVlanTag isCTag vid prio dei e = Inr ?e"
      unfolding addVlanTag_def chk mv tag_def [symmetric]
      using True 1 L R tag by (simp add: store_defs updatePosition_def)
    moreover have "holds ?e (f\<lparr>f_tags := f_tags f @ tag\<rparr>)"
      unfolding 1(1) frame.update_convs frame.simps L
      by (rule holdsI [where R = ?R]) (use 1 True flen L tag in \<open>simp_all add: updatePosition_def\<close>)
    ultimately have "\<exists>e'. addVlanTag isCTag vid prio dei e = Inr e'
        \<and> holds e' (f\<lparr>f_tags := f_tags f @ tag\<rparr>)
        \<and> hasDMAC e' = hasDMAC e \<and> packetMaxLength e' = packetMaxLength e"
      by (intro exI [of _ ?e]) (simp add: updatePosition_def)
    with True show ?thesis by simp
  next
    case False
    with chk show ?thesis by (simp add: addVlanTag_def)
  qed
qed

lemma addLlcHeader_holds:
  fixes dsap ssap control
  assumes "holds e f" and "f_llc f = []"
  defines "f' \<equiv> frame_setLength (f\<lparr>f_llc := llc_bytes dsap ssap control\<rparr>)"
  shows "if length (frame_bytes f) + llc_size control \<le> packetMaxLength e
    then \<exists>e'. addLlcHeader dsap ssap control e = Inr e' \<and> holds e' f'
      \<and> hasDMAC e' = hasDMAC e \<and> packetMaxLength e' = packetMaxLength e
    else addLlcHeader dsap ssap control e = Inl rangeError"
  using assms(1)
proof (cases rule: holdsE)
  case (1 D S T Y L P R)
  let ?h = "llc_bytes dsap ssap control" and ?n = "llc_size control"
  have L: "L = []" using 1 assms(2) by simp
  have flen: "length (frame_bytes f) = 14 + length T + length P"
    using 1 L by (simp add: frame_bytes_def)
  have chk: "checkPacketLength (e\<lparr>llcHeaderLength := ?n\<rparr>) ?n =
    (if length (frame_bytes f) + ?n \<le> packetMaxLength e then Inr () else Inl rangeError)"
    using checkPacketLength_holds [OF assms(1), of ?n] llc_size_le [of control]
    by (simp add: checkPacketLength_def getLength_def)
  show ?thesis
  proof (cases "length (frame_bytes f) + ?n \<le> packetMaxLength e")
    case True
    have R: "?n \<le> length R" using True flen 1 L by simp
    let ?R = "drop ?n R"
    let ?e = "e\<lparr>llcHeaderLength := ?n, packet := D @ S @ T @ Y @ ?h @ P @ ?R,
      pPayload := pPayload e + ?n\<rparr>"
    let ?e1 = "e\<lparr>llcHeaderLength := ?n\<rparr>"
    define G where "G = take ?n (P @ R)"
    have G: "length G = ?n" using R by (simp add: G_def)
    have mv: "(if payloadLength ?e1 \<noteq> 0 then move (pPayload ?e1 + ?n) (pPayload ?e1) (payloadLength ?e1) ?e1
        else Inr ?e1) = Inr (?e1\<lparr>packet := D @ S @ T @ Y @ G @ P @ ?R\<rparr>)"
      using 1 L R by (cases "P = []") (simp_all add: store_defs G_def)
    have "addLlcHeader dsap ssap control e = setLength ?e"
      unfolding addLlcHeader_def Let_def chk mv using True 1 L R G
      by (simp add: store_defs llc_size_bytes)
    moreover have "holds ?e (f\<lparr>f_llc := ?h\<rparr>)"
      unfolding 1(1) frame.update_convs
      by (rule holdsI [where R = ?R]) (use 1 True flen L in \<open>simp_all add: llc_size_bytes\<close>)
    ultimately show ?thesis using True setLength_holds unfolding f'_def by fastforce
  next
    case False
    with chk show ?thesis by (simp add: addLlcHeader_def Let_def)
  qed
qed

lemma addSnapHeader_holds:
  fixes oui protocol
  assumes "holds e f" and "f_llc f = []"
  defines "f' \<equiv> frame_setLength (f\<lparr>f_llc := llc_bytes 0xaa 0xaa 3 @ snap_bytes oui protocol\<rparr>)"
  shows "if length (frame_bytes f) + 8 \<le> packetMaxLength e
    then \<exists>e'. addSnapHeader oui protocol e = Inr e' \<and> holds e' f'
      \<and> hasDMAC e' = hasDMAC e \<and> packetMaxLength e' = packetMaxLength e
    else addSnapHeader oui protocol e = Inl rangeError"
proof -
  let ?f1 = "frame_setLength (f\<lparr>f_llc := llc_bytes 0xaa 0xaa 3\<rparr>)"
  note llc = addLlcHeader_holds [OF assms(1,2), of 3 "0xaa" "0xaa"]
  have size: "llc_size 3 = 3" by (simp add: llc_size_def)
  show ?thesis
  proof (cases "length (frame_bytes f) + 3 \<le> packetMaxLength e")
    case False
    with llc have "addLlcHeader 0xaa 0xaa 3 e = Inl rangeError" by (simp add: size)
    with False show ?thesis by (simp add: addSnapHeader_def)
  next
    case True
    with llc obtain g where g: "addLlcHeader 0xaa 0xaa 3 e = Inr g" "holds g ?f1"
      "hasDMAC g = hasDMAC e" "packetMaxLength g = packetMaxLength e"
      by (auto simp: size)
    from g(2) show ?thesis
    proof (cases rule: holdsE)
      case (1 D S T Y L P R)
      have L: "L = llc_bytes 0xaa 0xaa 3" "length L = 3"
        using arg_cong [OF 1(1), of f_llc] llc_size_bytes [of "0xaa" "0xaa" 3]
        by (simp_all add: frame_setLength_def size)
      have flen: "length (frame_bytes ?f1) = 17 + length T + length P"
        using 1 L by (simp add: frame_bytes_def)
      have flen0: "length (frame_bytes ?f1) = length (frame_bytes f) + 3"
        using assms(1,2) by (simp add: frame_bytes_def frame_setLength_def llc_size_bytes size
            holds_def frame_shape_def)
      have chk: "checkPacketLength g 5 =
        (if length (frame_bytes ?f1) + 5 \<le> packetMaxLength e then Inr () else Inl rangeError)"
        using checkPacketLength_holds [OF g(2), of 5] g(4) by simp
      show ?thesis
      proof (cases "length (frame_bytes f) + 8 \<le> packetMaxLength e")
        case True
        have R: "5 \<le> length R" using True flen flen0 1 L g(4) by simp
        let ?R = "drop 5 R" and ?h = "snap_bytes oui protocol"
        let ?g = "g\<lparr>llcHeaderLength := 8, packet := D @ S @ T @ Y @ (L @ ?h) @ P @ ?R,
          pPayload := pPayload g + 5\<rparr>"
        define G where "G = take 5 (P @ R)"
        have G: "length G = 5" using R by (simp add: G_def)
        have mv: "(if payloadLength g \<noteq> 0 then move (pPayload g + 5) (pPayload g) (payloadLength g) g
            else Inr g) = Inr (g\<lparr>packet := D @ S @ T @ Y @ L @ G @ P @ ?R\<rparr>)"
          using 1 R by (cases "P = []") (simp_all add: store_defs G_def)
        have "addSnapHeader oui protocol e = setLength ?g"
          unfolding addSnapHeader_def Let_def g(1) bindE_simps chk mv using True 1 L R G flen0
          by (simp add: store_defs)
        moreover have "holds ?g (?f1\<lparr>f_llc := L @ ?h\<rparr>)"
          unfolding 1(1) frame.update_convs
          by (rule holdsI [where R = ?R]) (use 1 True flen flen0 L g(4) in simp_all)
        moreover have "frame_setLength (?f1\<lparr>f_llc := L @ ?h\<rparr>) = f'"
          by (simp add: f'_def frame_setLength_def L)
        ultimately show ?thesis using True setLength_holds [of ?g "?f1\<lparr>f_llc := L @ ?h\<rparr>"] g
          by fastforce
      next
        case False
        with chk flen0 g(1) show ?thesis by (simp add: addSnapHeader_def)
      qed
    qed
  qed
qed

lemma updatePayloadAt_holds:
  assumes "holds e f" and "length p < 2 ^ 62" and "off < 2 ^ 32"
  shows "if off + length p \<le> length (f_payload f)
    then \<exists>e'. updatePayloadAt off p e = Inr e' \<and> hasDMAC e' = hasDMAC e
      \<and> packetMaxLength e' = packetMaxLength e
      \<and> holds e' (f\<lparr>f_payload := take off (f_payload f) @ p @ drop (off + length p) (f_payload f)\<rparr>)
    else updatePayloadAt off p e = Inl rangeError"
  using assms(1)
proof (cases rule: holdsE)
  case (1 D S T Y L P R)
  have small: "sz (off + length p) = off + length p" using assms(2,3) by simp
  show ?thesis
  proof (cases "off + length p \<le> length P")
    case True
    let ?P = "take off P @ p @ drop (off + length p) P"
    let ?e = "e\<lparr>packet := D @ S @ T @ Y @ L @ ?P @ R\<rparr>"
    have "updatePayloadAt off p e = Inr ?e"
      using True 1 small by (simp add: updatePayloadAt_def store_defs)
    moreover have "holds ?e (f\<lparr>f_payload := ?P\<rparr>)"
      unfolding 1(1) frame.update_convs by (rule holdsI [where R = R]) (use 1 True in simp_all)
    ultimately have "\<exists>e'. updatePayloadAt off p e = Inr e' \<and> hasDMAC e' = hasDMAC e
        \<and> packetMaxLength e' = packetMaxLength e \<and> holds e' (f\<lparr>f_payload := ?P\<rparr>)"
      by (intro exI [of _ ?e]) simp
    with True 1(1) show ?thesis by simp
  next
    case False
    with 1 small show ?thesis by (simp add: updatePayloadAt_def)
  qed
qed

text \<open>
  A raw packet is what it was given, even when it is shorter than an Ethernet header and
  \<open>payloadLength\<close> wraps around.
\<close>

lemma setRaw_visible:
  assumes "holds e f" and "length p \<le> packetMaxLength e"
  shows "\<exists>e'. setRaw p e = Inr e' \<and> visible e' = p \<and> hasDMAC e'
    \<and> packetMaxLength e' = packetMaxLength e \<and> pPayload e' = 14 \<and> length (packet e') = length (packet e)"
proof -
  have len: "14 \<le> length (packet e)" "packetMaxLength e \<le> length (packet e)" "packetMaxLength e < 2 ^ 63"
    using assms(1) by (auto simp: holds_def frame_bytes_def frame_shape_def)
  obtain e1 where e1: "eth_reset e = Inr e1" "packetMaxLength e1 = packetMaxLength e"
    "length (packet e1) = length (packet e)" "pPayload e1 = 14"
    using len by (auto simp: eth_reset_def store_defs)
  let ?e = "e1\<lparr>packet := p @ drop (length p) (packet e1), payloadLength := szsub (length p) 14,
    hasDMAC := True\<rparr>"
  have r: "setRaw p e = Inr ?e"
    using e1 assms(2) len by (simp add: setRaw_def store_defs)
  have "14 + szsub (length p) 14 = (if 14 \<le> length p then length p else length p + 2 ^ 64)"
    using assms(2) len by (auto simp: szsub_def mod_if)
  then have "getLength ?e = length p"
    using assms(2) len e1 by (auto simp: getLength_def sz_def split: if_splits)
  with r e1 assms(2) len show ?thesis by (intro exI [of _ ?e]) (simp add: visible_def)
qed

lemma eth_copy_holds:
  assumes "holds e f" and "packetMaxLength e < 2 ^ 62"
  shows "\<exists>e'. eth_copy junk e = Inr e' \<and> holds e' f \<and> hasDMAC e' = hasDMAC e
    \<and> packetMaxLength e' = packetMaxLength e"
  using assms(1)
proof (cases rule: holdsE)
  case (1 D S T Y L P R)
  have "14 \<le> packetMaxLength e" using 1 by simp
  then obtain n where n: "eth_new junk (packetMaxLength e) = Inr n"
    "packetMaxLength n = packetMaxLength e" "packetMaxLength e \<le> length (packet n)"
    "length (packet n) < 2 ^ 63"
    using eth_new_holds [of "packetMaxLength e" junk] assms(2) by (auto simp: holds_def)
  have vis: "visible e = D @ S @ T @ Y @ L @ P"
    using holds_visible [OF assms(1)] 1(1) by (simp add: frame_bytes_def)
  let ?R = "drop (length (visible e)) (packet n)"
  let ?e = "n\<lparr>packet := D @ S @ T @ Y @ L @ P @ ?R, payloadLength := payloadLength e,
    llcHeaderLength := llcHeaderLength e, hasDMAC := hasDMAC e, pPayload := pPayload e,
    pEthertypeLength := pEthertypeLength e\<rparr>"
  have "length (visible e) \<le> length (packet n)" using vis 1 n by simp
  then have "eth_copy junk e = Inr ?e"
    using n by (simp add: eth_copy_def store_defs Let_def) (simp add: vis)
  moreover have "holds ?e f"
    unfolding 1(1) by (rule holdsI [where R = ?R]) (use 1 n vis in simp_all)
  ultimately show ?thesis using n by (intro exI [of _ ?e]) simp
qed

text \<open>Appending to the payload is a byte sink with the rest of the MTU as its room.\<close>

definition eth_ok :: "cEthernetPacket \<Rightarrow> bool" where
  "eth_ok e \<longleftrightarrow> (\<exists>f. holds e f)"

definition eth_room :: "cEthernetPacket \<Rightarrow> nat \<Rightarrow> bool" where
  "eth_room e n \<longleftrightarrow> length (visible e) + n \<le> packetMaxLength e"

lemma appendPayload_sink:
  assumes "holds e f" and "appendPayload e p = Inr e'"
  shows "holds e' (f\<lparr>f_payload := f_payload f @ p\<rparr>) \<and> packetMaxLength e' = packetMaxLength e
    \<and> length (frame_bytes f) + length p \<le> packetMaxLength e"
proof -
  have "length p < 2 ^ 63"
    using assms by (auto simp: appendPayload_def store_defs holds_def split: if_splits)
  from appendPayload_holds [OF assms(1) this] assms(2) show ?thesis by (auto split: if_splits)
qed

lemma visible_append:
  "holds e f \<Longrightarrow> holds e' (f\<lparr>f_payload := f_payload f @ p\<rparr>) \<Longrightarrow> visible e' = visible e @ p"
  by (simp add: holds_visible frame_bytes_def)

interpretation eth: byte_sink appendPayload visible eth_room eth_ok
proof (unfold_locales, goal_cases)
  case (1 e p)
  then obtain f where f: "holds e f" by (auto simp: eth_ok_def)
  with 1(2) have fits: "length (frame_bytes f) + length p \<le> packetMaxLength e"
    by (simp add: eth_room_def holds_visible)
  then have "length p < 2 ^ 63" using f by (auto simp: holds_def)
  from appendPayload_holds [OF f this] fits show ?case by auto
next
  case (2 e p e')
  then show ?case using appendPayload_sink visible_append unfolding eth_ok_def by blast
next
  case (3 e p e')
  then show ?case using appendPayload_sink unfolding eth_ok_def by blast
next
  case (4 e p e' n)
  then obtain f where f: "holds e f" by (auto simp: eth_ok_def)
  from appendPayload_sink [OF f 4(2)] 4(3) show ?case
    using visible_append [OF f, of e' p] by (simp add: eth_room_def)
qed (simp add: eth_room_def)

subsection \<open>VLAN tag fields\<close>

lemma setTci_fields:
  "htons (setTci vid prio dei) AND 0x0FFF = vid AND 0x0FFF"
  "getPrio (setCTag vid prio dei) = prio AND 7"
  "getDEI (setCTag vid prio dei) = dei AND 1"
proof -
  have m: "(0x0FFF :: u16) = mask 12" "(7 :: u16) = mask 3" "(1 :: u16) = mask 1"
    by (simp_all add: mask_eq_exp_minus_1)
  show "htons (setTci vid prio dei) AND 0x0FFF = vid AND 0x0FFF"
    unfolding setTci_def htons_involution m
    by (rule bit_word_eqI) (auto simp: bit_simps)
  show "getPrio (setCTag vid prio dei) = prio AND 7"
    unfolding setTci_def setCTag_def getPrio_def vlan_t.simps htons_involution m
    by (rule bit_word_eqI) (auto simp: bit_simps)
  show "getDEI (setCTag vid prio dei) = dei AND 1"
    unfolding setTci_def setCTag_def getDEI_def vlan_t.simps htons_involution m
    by (rule bit_word_eqI) (auto simp: bit_simps)
qed

end
