(* ===== verification/LldpPacket.thy ===== *)
theory LldpPacket
  imports Ethernet Double
begin

section \<open>cLldpPacket\<close>

text \<open>
  src/packets/lldppacket.hpp and lldppacket.cpp: the TLVs of an LLDP frame, each a type and the
  bytes of its \<open>cFixedByteArray\<close>. An \<open>add\<close> method allocates an array of \<open>tlvLen\<close> bytes, writes its
  parts one after the other and appends the TLV; a write behind the allocated length throws. A
  pointer with a length is the list of the bytes it delimits.
\<close>

record cLldpPacket =
  lldp_eth :: cEthernetPacket
  m_tlvs :: "(byte \<times> byte list) list"

definition OID_802_1 :: "byte list" where "OID_802_1 = [0x00, 0x80, 0xC2]"
definition OID_802_3 :: "byte list" where "OID_802_3 = [0x00, 0x12, 0x0F]"
definition OID_PNO :: "byte list" where "OID_PNO = [0x00, 0x0E, 0xCF]"

text \<open>\<open>TLV_TYPE\<close> and the subtypes of the three organisations.\<close>

definition TLV_CHASSIS_ID :: byte where "TLV_CHASSIS_ID = 1"
definition TLV_PORT_ID :: byte where "TLV_PORT_ID = 2"
definition TLV_TTL :: byte where "TLV_TTL = 3"
definition TLV_PORT_DESCR :: byte where "TLV_PORT_DESCR = 4"
definition TLV_SYSNAME :: byte where "TLV_SYSNAME = 5"
definition TLV_SYSDESC :: byte where "TLV_SYSDESC = 6"
definition TLV_SYSCAP :: byte where "TLV_SYSCAP = 7"
definition TLV_MGT_ADDR :: byte where "TLV_MGT_ADDR = 8"
definition TLV_OUI :: byte where "TLV_OUI = 127"

datatype tlv_802_1 = PVID | PROTO_VID | VLAN_NAME | PROTO_IDENTITY | VID_USAGE_DIGEST | MGT_VID
  | LINK_AGGR | CONGESTION_NOTIFICATION | ETS_CONFIG | ETS_RECOMM | PFC_CONFIG | APP_PRIO | EVB
  | CDCP | APP_VLAN

fun subtype_802_1 :: "tlv_802_1 \<Rightarrow> byte" where
  "subtype_802_1 PVID = 1" | "subtype_802_1 PROTO_VID = 2" | "subtype_802_1 VLAN_NAME = 3"
| "subtype_802_1 PROTO_IDENTITY = 4" | "subtype_802_1 VID_USAGE_DIGEST = 5" | "subtype_802_1 MGT_VID = 6"
| "subtype_802_1 LINK_AGGR = 7" | "subtype_802_1 CONGESTION_NOTIFICATION = 8"
| "subtype_802_1 ETS_CONFIG = 9" | "subtype_802_1 ETS_RECOMM = 10" | "subtype_802_1 PFC_CONFIG = 11"
| "subtype_802_1 APP_PRIO = 12" | "subtype_802_1 EVB = 13" | "subtype_802_1 CDCP = 14"
| "subtype_802_1 APP_VLAN = 16"

datatype tlv_802_3 = MAC_PHY | POWER_VIA_MDI | LINK_AGGR_DEPR | MAX_FRAME_SIZE | ENERGY_EFFICIENT_ETH
  | EEE_FAST_WAKE | ADD_ETH_CAPS | POWER_VIA_MDI_MEAS

fun subtype_802_3 :: "tlv_802_3 \<Rightarrow> byte" where
  "subtype_802_3 MAC_PHY = 1" | "subtype_802_3 POWER_VIA_MDI = 2" | "subtype_802_3 LINK_AGGR_DEPR = 3"
| "subtype_802_3 MAX_FRAME_SIZE = 4" | "subtype_802_3 ENERGY_EFFICIENT_ETH = 5"
| "subtype_802_3 EEE_FAST_WAKE = 6" | "subtype_802_3 ADD_ETH_CAPS = 7"
| "subtype_802_3 POWER_VIA_MDI_MEAS = 8"

datatype tlv_pn = PN_DELAY | PN_PORT_STATUS | PN_ALIAS | PN_MRP_PORT_STATUS | PN_CHASSIS_MAC
  | PN_PTCP_STATUS | PN_MAUTYPE_EXT | PN_MRPIC_PORT_STATUS | PN_NME_DOMAIN_UUID | PN_NME_MGT_ADDR
  | PN_NME_NAME_UUID | PN_NME_PAR_UUID | PN_AS_WORKING_CLOCK | PN_AS_GLOBAL_TIME

fun subtype_pn :: "tlv_pn \<Rightarrow> byte" where
  "subtype_pn PN_DELAY = 1" | "subtype_pn PN_PORT_STATUS = 2" | "subtype_pn PN_ALIAS = 3"
| "subtype_pn PN_MRP_PORT_STATUS = 4" | "subtype_pn PN_CHASSIS_MAC = 5" | "subtype_pn PN_PTCP_STATUS = 6"
| "subtype_pn PN_MAUTYPE_EXT = 7" | "subtype_pn PN_MRPIC_PORT_STATUS = 8"
| "subtype_pn PN_NME_DOMAIN_UUID = 9" | "subtype_pn PN_NME_MGT_ADDR = 10"
| "subtype_pn PN_NME_NAME_UUID = 11" | "subtype_pn PN_NME_PAR_UUID = 12"
| "subtype_pn PN_AS_WORKING_CLOCK = 13" | "subtype_pn PN_AS_GLOBAL_TIME = 14"

subsection \<open>Building a TLV\<close>

text \<open>What every \<open>add\<close> method does: \<open>cs\<close> are the parts in the order they are written.\<close>

definition push_tlv :: "byte \<Rightarrow> nat \<Rightarrow> byte list list \<Rightarrow> cLldpPacket \<Rightarrow> ('z env_scheme, cLldpPacket) M" where
  "push_tlv type tlvLen cs l =
     bindM (getM junk_of) (\<lambda>junk.
     bindM (liftE (append_all junk (new_cFixedByteArray junk tlvLen) cs)) (\<lambda>value.
     returnM (l\<lparr>m_tlvs := m_tlvs l @ [(type, bytes_of value)]\<rparr>)))"

definition flag :: "nat \<Rightarrow> bool \<Rightarrow> byte" where
  "flag v b = (if b then of_nat v else 0)"

definition lldp_new :: "('z env_scheme, cLldpPacket) M" where
  "lldp_new = bindM eth_default (\<lambda>e. returnM \<lparr>lldp_eth = e, m_tlvs = []\<rparr>)"

subsection \<open>The mandatory and the basic TLVs\<close>

definition addChassisID :: "byte \<Rightarrow> byte list \<Rightarrow> cLldpPacket \<Rightarrow> ('z env_scheme, cLldpPacket) M" where
  "addChassisID subtype i = push_tlv TLV_CHASSIS_ID (length i + 1) [[subtype], i]"

definition addChassisID_mac :: "byte list \<Rightarrow> cLldpPacket \<Rightarrow> ('z env_scheme, cLldpPacket) M" where
  "addChassisID_mac m = addChassisID 4 m"

definition addChassisID_ipv4 :: "byte list \<Rightarrow> cLldpPacket \<Rightarrow> ('z env_scheme, cLldpPacket) M" where
  "addChassisID_ipv4 a = addChassisID 5 (1 # a)"

definition addChassisID_ipv6 :: "byte list \<Rightarrow> cLldpPacket \<Rightarrow> ('z env_scheme, cLldpPacket) M" where
  "addChassisID_ipv6 a = addChassisID 5 (2 # a)"

definition addPortID :: "byte \<Rightarrow> byte list \<Rightarrow> cLldpPacket \<Rightarrow> ('z env_scheme, cLldpPacket) M" where
  "addPortID subtype i = push_tlv TLV_PORT_ID (length i + 1) [[subtype], i]"

definition addPortID_mac :: "byte list \<Rightarrow> cLldpPacket \<Rightarrow> ('z env_scheme, cLldpPacket) M" where
  "addPortID_mac m = addPortID 3 m"

definition addPortID_ipv4 :: "byte list \<Rightarrow> cLldpPacket \<Rightarrow> ('z env_scheme, cLldpPacket) M" where
  "addPortID_ipv4 a = addPortID 4 (1 # a)"

definition addPortID_ipv6 :: "byte list \<Rightarrow> cLldpPacket \<Rightarrow> ('z env_scheme, cLldpPacket) M" where
  "addPortID_ipv6 a = addPortID 4 (2 # a)"

definition addTTL :: "u16 \<Rightarrow> cLldpPacket \<Rightarrow> ('z env_scheme, cLldpPacket) M" where
  "addTTL t = push_tlv TLV_TTL 2 [mem16 (toBE16 t)]"

definition addPortDescription :: "byte list \<Rightarrow> cLldpPacket \<Rightarrow> ('z env_scheme, cLldpPacket) M" where
  "addPortDescription d = push_tlv TLV_PORT_DESCR (length d) [d]"

definition addSystemName :: "byte list \<Rightarrow> cLldpPacket \<Rightarrow> ('z env_scheme, cLldpPacket) M" where
  "addSystemName d = push_tlv TLV_SYSNAME (length d) [d]"

definition addSystemDescription :: "byte list \<Rightarrow> cLldpPacket \<Rightarrow> ('z env_scheme, cLldpPacket) M" where
  "addSystemDescription d = push_tlv TLV_SYSDESC (length d) [d]"

definition addSystemCapabilities :: "u16 \<Rightarrow> u16 \<Rightarrow> cLldpPacket \<Rightarrow> ('z env_scheme, cLldpPacket) M" where
  "addSystemCapabilities system enabled = push_tlv TLV_SYSCAP 4 [mem16 (toBE16 system), mem16 (toBE16 enabled)]"

definition addManagementAddress :: "byte \<Rightarrow> byte list \<Rightarrow> byte \<Rightarrow> u32 \<Rightarrow> byte list \<Rightarrow> cLldpPacket
    \<Rightarrow> ('z env_scheme, cLldpPacket) M" where
  "addManagementAddress mgtAddrSubtype mgtAddr ifNbSubtype ifNumber oid =
     push_tlv TLV_MGT_ADDR (1 + 1 + length mgtAddr + 1 + 4 + 1 + length oid)
       [[of_nat (length mgtAddr + 1)], [mgtAddrSubtype], mgtAddr, [ifNbSubtype], mem32 (toBE32 ifNumber),
        [of_nat (length oid)], oid]"

definition addManagementAddress_mac :: "byte list \<Rightarrow> byte \<Rightarrow> u32 \<Rightarrow> byte list \<Rightarrow> cLldpPacket
    \<Rightarrow> ('z env_scheme, cLldpPacket) M" where
  "addManagementAddress_mac m = addManagementAddress 6 m"

definition addManagementAddress_ipv4 :: "byte list \<Rightarrow> byte \<Rightarrow> u32 \<Rightarrow> byte list \<Rightarrow> cLldpPacket
    \<Rightarrow> ('z env_scheme, cLldpPacket) M" where
  "addManagementAddress_ipv4 a = addManagementAddress 1 a"

definition addManagementAddress_ipv6 :: "byte list \<Rightarrow> byte \<Rightarrow> u32 \<Rightarrow> byte list \<Rightarrow> cLldpPacket
    \<Rightarrow> ('z env_scheme, cLldpPacket) M" where
  "addManagementAddress_ipv6 a = addManagementAddress 2 a"

subsection \<open>IEEE 802.1\<close>

definition push_802_1 :: "nat \<Rightarrow> tlv_802_1 \<Rightarrow> byte list list \<Rightarrow> cLldpPacket \<Rightarrow> ('z env_scheme, cLldpPacket) M" where
  "push_802_1 tlvLen st cs = push_tlv TLV_OUI tlvLen (OID_802_1 # [subtype_802_1 st] # cs)"

definition addPortVID :: "u16 \<Rightarrow> cLldpPacket \<Rightarrow> ('z env_scheme, cLldpPacket) M" where
  "addPortVID pvid = push_802_1 (2 + 3 + 1) PVID [mem16 (toBE16 pvid)]"

definition addProtocolVID :: "u16 \<Rightarrow> bool \<Rightarrow> bool \<Rightarrow> cLldpPacket \<Rightarrow> ('z env_scheme, cLldpPacket) M" where
  "addProtocolVID ppvid supported enabled = push_802_1 (3 + 1 + 1 + 2) PROTO_VID
     [[flag 2 supported OR flag 4 enabled], mem16 (toBE16 ppvid)]"

definition addVlanName :: "u16 \<Rightarrow> byte list \<Rightarrow> cLldpPacket \<Rightarrow> ('z env_scheme, cLldpPacket) M" where
  "addVlanName vid name = push_802_1 (3 + 1 + 2 + 1 + length name) VLAN_NAME
     [mem16 (toBE16 vid), [of_nat (length name)], name]"

definition addProtocolIdentity :: "byte list \<Rightarrow> cLldpPacket \<Rightarrow> ('z env_scheme, cLldpPacket) M" where
  "addProtocolIdentity proto = push_802_1 (3 + 1 + 1 + length proto) PROTO_IDENTITY
     [[of_nat (length proto)], proto]"

definition addVIDUsageDigest :: "u32 \<Rightarrow> cLldpPacket \<Rightarrow> ('z env_scheme, cLldpPacket) M" where
  "addVIDUsageDigest digest = push_802_1 (3 + 1 + 4) VID_USAGE_DIGEST [mem32 (toBE32 digest)]"

definition addManagementVID :: "u16 \<Rightarrow> cLldpPacket \<Rightarrow> ('z env_scheme, cLldpPacket) M" where
  "addManagementVID vid = push_802_1 (2 + 3 + 1) MGT_VID [mem16 (toBE16 vid)]"

definition addLinkAggregation :: "bool \<Rightarrow> bool \<Rightarrow> byte \<Rightarrow> u32 \<Rightarrow> cLldpPacket \<Rightarrow> ('z env_scheme, cLldpPacket) M" where
  "addLinkAggregation capability status portType portID = push_802_1 (1 + 4 + 3 + 1) LINK_AGGR
     [[flag 1 capability OR flag 2 status OR push_bit 2 (portType AND 3)], mem32 (toBE32 portID)]"

definition addCongestionNotification :: "byte \<Rightarrow> byte \<Rightarrow> cLldpPacket \<Rightarrow> ('z env_scheme, cLldpPacket) M" where
  "addCongestionNotification cnpv ready = push_802_1 (1 + 1 + 3 + 1) CONGESTION_NOTIFICATION [[cnpv], [ready]]"

definition addETSConfig :: "bool \<Rightarrow> bool \<Rightarrow> byte \<Rightarrow> u32 \<Rightarrow> u64 \<Rightarrow> u64 \<Rightarrow> cLldpPacket
    \<Rightarrow> ('z env_scheme, cLldpPacket) M" where
  "addETSConfig willing cbs maxTCs prioTable tcBandwidthTabel tsaAssignmentTable =
     push_802_1 (3 + 1 + 1 + 4 + 8 + 8) ETS_CONFIG
       [[flag 0x80 willing OR flag 0x40 cbs OR (maxTCs AND 7)], mem32 (toBE32 prioTable),
        mem64 (toBE64 tcBandwidthTabel), mem64 (toBE64 tsaAssignmentTable)]"

definition addETSRecommendation :: "u32 \<Rightarrow> u64 \<Rightarrow> u64 \<Rightarrow> cLldpPacket \<Rightarrow> ('z env_scheme, cLldpPacket) M" where
  "addETSRecommendation prioTable tcBandwidthTabel tsaAssignmentTable =
     push_802_1 (3 + 1 + 1 + 4 + 8 + 8) ETS_RECOMM
       [[0], mem32 (toBE32 prioTable), mem64 (toBE64 tcBandwidthTabel), mem64 (toBE64 tsaAssignmentTable)]"

definition addPFCCtrlConfig :: "bool \<Rightarrow> bool \<Rightarrow> byte \<Rightarrow> byte \<Rightarrow> cLldpPacket \<Rightarrow> ('z env_scheme, cLldpPacket) M" where
  "addPFCCtrlConfig willing mbc pfcCap pfcEnable = push_802_1 (3 + 1 + 1 + 1) PFC_CONFIG
     [[flag 0x80 willing OR flag 0x40 mbc OR (pfcCap AND 0x0f)], [pfcEnable]]"

definition addApplicationPriority :: "byte list \<Rightarrow> byte list \<Rightarrow> u16 list \<Rightarrow> cLldpPacket
    \<Rightarrow> ('z env_scheme, cLldpPacket) M" where
  "addApplicationPriority prio sel proto l =
     bindM (liftE (bugOn (length prio \<noteq> length sel \<or> length prio \<noteq> length proto)
        ''prio.size() != sel.size() || prio.size() != proto.size()'')) (\<lambda>_.
     push_802_1 (3 + 1 + 1 + length prio * 3) APP_PRIO
       ([0] # concat (map (\<lambda>(p, s, t). [[push_bit 5 (p AND 7) OR (s AND 7)], mem16 (toBE16 t)])
          (zip prio (zip sel proto)))) l)"

definition addEVB :: "byte \<Rightarrow> byte \<Rightarrow> byte \<Rightarrow> byte \<Rightarrow> byte \<Rightarrow> bool \<Rightarrow> byte \<Rightarrow> bool \<Rightarrow> byte \<Rightarrow> cLldpPacket
    \<Rightarrow> ('z env_scheme, cLldpPacket) M" where
  "addEVB evbBridgeStatus evbStationStatus r rte evb rolRwd rwd rolRka rka = push_802_1 (3 + 1 + 5) EVB
     [[evbBridgeStatus], [evbStationStatus], [push_bit 5 (r AND 7) OR (rte AND 0x1f)],
      [push_bit 6 (evb AND 3) OR flag 0x20 rolRwd OR (rwd AND 0x1f)],
      [flag 0x20 rolRka OR (rka AND 0x1f)]]"

definition addCDCP :: "bool \<Rightarrow> bool \<Rightarrow> u16 \<Rightarrow> (u16 \<times> u16) list \<Rightarrow> cLldpPacket \<Rightarrow> ('z env_scheme, cLldpPacket) M" where
  "addCDCP role SComp chnCap scid_svid = push_802_1 (3 + 1 + 4 + length scid_svid * 3) CDCP
     ([[flag 0x80 role OR flag 8 SComp], [0], [ucast (drop_bit 8 chnCap AND 0xf)], [ucast (chnCap AND 0x00ff)]]
      @ concat (map (\<lambda>(a, b). [[ucast (drop_bit 4 a)],
          [ucast (push_bit 4 (a AND 0xf) OR (drop_bit 8 b AND 0x0f))], [ucast b]]) scid_svid))"

definition addApplicationVLAN :: "u16 list \<Rightarrow> byte list \<Rightarrow> u16 list \<Rightarrow> cLldpPacket
    \<Rightarrow> ('z env_scheme, cLldpPacket) M" where
  "addApplicationVLAN vid sel proto l =
     bindM (liftE (bugOn (length vid \<noteq> length sel \<or> length sel \<noteq> length proto)
        ''vid.size() != sel.size() || sel.size() != proto.size()'')) (\<lambda>_.
     push_802_1 (3 + 1 + length vid * 4) APP_VLAN
       (map (\<lambda>(v, s, p). mem32 (toBE32 (push_bit 20 (ucast (v AND 0x0fff)) OR push_bit 16 (ucast (s AND 7))
          OR ucast p))) (zip vid (zip sel proto))) l)"

subsection \<open>IEEE 802.3\<close>

definition push_802_3 :: "nat \<Rightarrow> tlv_802_3 \<Rightarrow> byte list list \<Rightarrow> cLldpPacket \<Rightarrow> ('z env_scheme, cLldpPacket) M" where
  "push_802_3 tlvLen st cs = push_tlv TLV_OUI tlvLen (OID_802_3 # [subtype_802_3 st] # cs)"

definition addMacPhyStatus :: "bool \<Rightarrow> bool \<Rightarrow> u16 \<Rightarrow> u16 \<Rightarrow> cLldpPacket \<Rightarrow> ('z env_scheme, cLldpPacket) M" where
  "addMacPhyStatus autonegSup autonegStatus autnegAdvCap mautype = push_802_3 (3 + 1 + 1 + 2 + 2) MAC_PHY
     [[flag 1 autonegSup OR flag 2 autonegStatus], mem16 (toBE16 autnegAdvCap), mem16 (toBE16 mautype)]"

text \<open>The parts \<open>preparePowerViaMDI\<close> writes after the organisation's code.\<close>

definition preparePowerViaMDI :: "bool \<Rightarrow> bool \<Rightarrow> bool \<Rightarrow> bool \<Rightarrow> byte \<Rightarrow> byte \<Rightarrow> byte list list" where
  "preparePowerViaMDI portClassPSE pwrSupSupported pwrSupState pwrSupPairsCtrl psePowerPair powerClass =
     [[flag 1 portClassPSE OR flag 2 pwrSupSupported OR flag 4 pwrSupState OR flag 8 pwrSupPairsCtrl],
      [psePowerPair], [powerClass]]"

definition addBasicPowerViaMDI :: "bool \<Rightarrow> bool \<Rightarrow> bool \<Rightarrow> bool \<Rightarrow> byte \<Rightarrow> byte \<Rightarrow> cLldpPacket
    \<Rightarrow> ('z env_scheme, cLldpPacket) M" where
  "addBasicPowerViaMDI portClassPSE pwrSupSupported pwrSupState pwrSupPairsCtrl psePowerPair powerClass =
     push_802_3 (3 + 1 + 3) POWER_VIA_MDI
       (preparePowerViaMDI portClassPSE pwrSupSupported pwrSupState pwrSupPairsCtrl psePowerPair powerClass)"

definition doubleToPowerValue :: "double \<Rightarrow> u16 res" where
  "doubleToPowerValue watt =
     (let units = ddiv watt (dbl 1 10)
      in if dless (dbl 65535 1) units then Inr 65535
         else bindE (dto_unsigned 16 units) (\<lambda>v. Inr (of_nat v)))"

definition addDllExtPowerViaMDI :: "bool \<Rightarrow> bool \<Rightarrow> bool \<Rightarrow> bool \<Rightarrow> byte \<Rightarrow> byte \<Rightarrow> byte \<Rightarrow> byte \<Rightarrow> byte \<Rightarrow> byte
    \<Rightarrow> double \<Rightarrow> double \<Rightarrow> cLldpPacket \<Rightarrow> ('z env_scheme, cLldpPacket) M" where
  "addDllExtPowerViaMDI portClassPSE pwrSupSupported pwrSupState pwrSupPairsCtrl psePowerPair powerClass
       powerType powerSource pd4pid powerPrio pdRequestedPower pseRequestedPower l =
     bindM (liftE (doubleToPowerValue pdRequestedPower)) (\<lambda>pd.
     bindM (liftE (doubleToPowerValue pseRequestedPower)) (\<lambda>pse.
     push_802_3 (3 + 1 + 3 + 5) POWER_VIA_MDI
       (preparePowerViaMDI portClassPSE pwrSupSupported pwrSupState pwrSupPairsCtrl psePowerPair powerClass
        @ [[push_bit 6 (powerType AND 3) OR push_bit 4 (powerSource AND 3) OR push_bit 2 (pd4pid AND 1)
            OR (powerPrio AND 3)], mem16 (htons pd), mem16 (htons pse)]) l))"

definition addMaxFrameSize :: "u16 \<Rightarrow> cLldpPacket \<Rightarrow> ('z env_scheme, cLldpPacket) M" where
  "addMaxFrameSize n = push_802_3 (3 + 1 + 2) MAX_FRAME_SIZE [mem16 (toBE16 n)]"

definition addEEE :: "u16 \<Rightarrow> u16 \<Rightarrow> u16 \<Rightarrow> u16 \<Rightarrow> u16 \<Rightarrow> cLldpPacket \<Rightarrow> ('z env_scheme, cLldpPacket) M" where
  "addEEE txTw rxTw fbTw echoTxTw echoRxTw = push_802_3 (3 + 1 + 2 + 2 + 2 + 2 + 2) ENERGY_EFFICIENT_ETH
     [mem16 (toBE16 txTw), mem16 (toBE16 rxTw), mem16 (toBE16 fbTw), mem16 (toBE16 echoTxTw),
      mem16 (toBE16 echoRxTw)]"

definition addEEEFastWake :: "byte \<Rightarrow> byte \<Rightarrow> byte \<Rightarrow> byte \<Rightarrow> cLldpPacket \<Rightarrow> ('z env_scheme, cLldpPacket) M" where
  "addEEEFastWake tx rx echoTx echoRx = push_802_3 (3 + 1 + 4) EEE_FAST_WAKE [[tx], [rx], [echoTx], [echoRx]]"

subsection \<open>Profinet\<close>

definition push_pn :: "nat \<Rightarrow> tlv_pn \<Rightarrow> byte list list \<Rightarrow> cLldpPacket \<Rightarrow> ('z env_scheme, cLldpPacket) M" where
  "push_pn tlvLen st cs = push_tlv TLV_OUI tlvLen (OID_PNO # [subtype_pn st] # cs)"

definition addPnDelay :: "u32 \<Rightarrow> u32 \<Rightarrow> u32 \<Rightarrow> u32 \<Rightarrow> u32 \<Rightarrow> cLldpPacket \<Rightarrow> ('z env_scheme, cLldpPacket) M" where
  "addPnDelay rxLocal rxRemote txLocal txRemote cable = push_pn (3 + 1 + 4 + 4 + 4 + 4 + 4) PN_DELAY
     [mem32 (toBE32 rxLocal), mem32 (toBE32 rxRemote), mem32 (toBE32 txLocal), mem32 (toBE32 txRemote),
      mem32 (toBE32 cable)]"

definition addPnPortStatus :: "u16 \<Rightarrow> byte \<Rightarrow> bool \<Rightarrow> bool \<Rightarrow> bool \<Rightarrow> cLldpPacket \<Rightarrow> ('z env_scheme, cLldpPacket) M" where
  "addPnPortStatus rtc2PortStatus rtc3State rtc3Frag rtc3shortPreamp rtc3optimized =
     push_pn (3 + 1 + 2 + 2) PN_PORT_STATUS
       [mem16 (toBE16 rtc2PortStatus),
        mem16 (toBE16 (ucast (rtc3State AND 7) OR (if rtc3Frag then 0x1000 else 0)
          OR (if rtc3shortPreamp then 0x2000 else 0) OR (if rtc3optimized then 0x8000 else 0)))]"

definition addPnAlias :: "byte list \<Rightarrow> cLldpPacket \<Rightarrow> ('z env_scheme, cLldpPacket) M" where
  "addPnAlias aliasName = push_pn (3 + 1 + length aliasName) PN_ALIAS [aliasName]"

definition addPnMrpPortStatus :: "byte list \<Rightarrow> u16 \<Rightarrow> cLldpPacket \<Rightarrow> ('z env_scheme, cLldpPacket) M" where
  "addPnMrpPortStatus domainUUID mrrtPortState = push_pn (3 + 1 + 16 + 2) PN_MRP_PORT_STATUS
     [take 16 domainUUID, mem16 (toBE16 (mrrtPortState AND 3))]"

definition addPnChassisMac :: "byte list \<Rightarrow> cLldpPacket \<Rightarrow> ('z env_scheme, cLldpPacket) M" where
  "addPnChassisMac chassisMac = push_pn (3 + 1 + length chassisMac) PN_CHASSIS_MAC [chassisMac]"

definition period :: "u32 \<Rightarrow> bool \<Rightarrow> byte list" where
  "period v valid = mem32 (toBE32 (v OR (if valid then 0x80000000 else 0)))"

definition addPnPtcpStatus :: "byte list \<Rightarrow> byte list \<Rightarrow> byte list \<Rightarrow> u32 \<Rightarrow> bool \<Rightarrow> u32 \<Rightarrow> bool \<Rightarrow> u32 \<Rightarrow> bool
    \<Rightarrow> u32 \<Rightarrow> bool \<Rightarrow> cLldpPacket \<Rightarrow> ('z env_scheme, cLldpPacket) M" where
  "addPnPtcpStatus masterSourceMac subdomainUUID irdataUUID len lenValid redOrange redOrangeValid
       orange orangeValid green greenValid =
     push_pn (3 + 1 + 6 + 2 * 16 + 4 * 4) PN_PTCP_STATUS
       [masterSourceMac, take 16 subdomainUUID, take 16 irdataUUID, period len lenValid,
        period redOrange redOrangeValid, period orange orangeValid, period green greenValid]"

definition addPnMauTypeExtension :: "u16 \<Rightarrow> cLldpPacket \<Rightarrow> ('z env_scheme, cLldpPacket) M" where
  "addPnMauTypeExtension mauTypeExtension = push_pn (3 + 1 + 2) PN_MAUTYPE_EXT [mem16 (toBE16 mauTypeExtension)]"

definition addPnMrpInterconnectPortStatus :: "u16 \<Rightarrow> u16 \<Rightarrow> u16 \<Rightarrow> cLldpPacket \<Rightarrow> ('z env_scheme, cLldpPacket) M" where
  "addPnMrpInterconnectPortStatus domainID role position = push_pn (3 + 1 + 2 + 2 + 2) PN_MRPIC_PORT_STATUS
     [mem16 (toBE16 domainID), mem16 (toBE16 role), mem16 (toBE16 position)]"

definition addPnNmeDomainUUID :: "byte list \<Rightarrow> cLldpPacket \<Rightarrow> ('z env_scheme, cLldpPacket) M" where
  "addPnNmeDomainUUID u = push_pn (3 + 1 + 16) PN_NME_DOMAIN_UUID [take 16 u]"

text \<open>This one writes neither the organisation's code nor its subtype.\<close>

definition addPnNmeManagementAddr :: "byte \<Rightarrow> byte list \<Rightarrow> cLldpPacket \<Rightarrow> ('z env_scheme, cLldpPacket) M" where
  "addPnNmeManagementAddr mgtAddrSubtype mgtAddr = push_tlv TLV_OUI (3 + 1 + length mgtAddr)
     [[of_nat (length mgtAddr)], [mgtAddrSubtype], mgtAddr]"

definition addPnNmeNameUUID :: "byte list \<Rightarrow> cLldpPacket \<Rightarrow> ('z env_scheme, cLldpPacket) M" where
  "addPnNmeNameUUID u = push_pn (3 + 1 + 16) PN_NME_NAME_UUID [take 16 u]"

definition addPnNmeParameterUUID :: "byte list \<Rightarrow> cLldpPacket \<Rightarrow> ('z env_scheme, cLldpPacket) M" where
  "addPnNmeParameterUUID u = push_pn (3 + 1 + 16) PN_NME_PAR_UUID [take 16 u]"

subsection \<open>Raw TLVs and the frame\<close>

definition addRawTLV :: "byte \<Rightarrow> byte list \<Rightarrow> cLldpPacket \<Rightarrow> ('z env_scheme, cLldpPacket) M" where
  "addRawTLV type val l = bindM (liftE (bugOn (length val > 511) ''valLen > 511'')) (\<lambda>_.
     push_tlv type (length val) [val] l)"

definition addOuiTLV :: "byte list \<Rightarrow> byte \<Rightarrow> byte list \<Rightarrow> cLldpPacket \<Rightarrow> ('z env_scheme, cLldpPacket) M" where
  "addOuiTLV oui subtype val l = bindM (liftE (bugOn (length val > 507) ''valLen > 507'')) (\<lambda>_.
     push_tlv TLV_OUI (length val + 3 + 1) [take 3 oui, [subtype], val] l)"

definition addEndTLV :: "cLldpPacket \<Rightarrow> ('z env_scheme, cLldpPacket) M" where
  "addEndTLV = push_tlv 0 1 [[0]]"

definition tlv_header :: "byte \<Rightarrow> nat \<Rightarrow> u16" where
  "tlv_header type len = push_bit 9 (ucast (type AND 0x7f)) OR (of_nat len AND 0x1ff)"

fun append_tlvs :: "(byte \<times> byte list) list \<Rightarrow> cEthernetPacket \<Rightarrow> cEthernetPacket res" where
  "append_tlvs [] e = Inr e"
| "append_tlvs ((type, val) # tlvs) e =
     bindE (appendPayload e (mem16 (toBE16 (tlv_header type (length val))))) (\<lambda>e.
     bindE (appendPayload e val) (append_tlvs tlvs))"

definition lldp_compile :: "bool \<Rightarrow> cLldpPacket \<Rightarrow> cLldpPacket res" where
  "lldp_compile withEndTLV l =
     bindE (if \<not> hasDMAC (lldp_eth l) then setDestMac [1, 0x80, 0xc2, 0, 0, 0x0E] (lldp_eth l)
            else Inr (lldp_eth l)) (\<lambda>e.
     bindE (setTypeLength ETHERTYPE_LLDP e) (\<lambda>e.
     bindE (append_tlvs (m_tlvs l) e) (\<lambda>e.
     bindE (if withEndTLV then appendPayload e (mem16 0) else Inr e) (\<lambda>e.
     Inr (l\<lparr>lldp_eth := e\<rparr>)))))"

end
