(* ===== verification/Md5.thy ===== *)
theory Md5
  imports Endian
begin

section \<open>cMD5\<close>

text \<open>
  src/common/md5.hpp and md5.cpp. A \<open>STEP (f, a, b, c, d, x, t, s)\<close> updates its first register; the
  next one is called with the registers rotated by one place, so a step on the tuple
  \<open>(a, b, c, d)\<close> returns \<open>(d, a', b, c)\<close> and a round is a fold over its table of
  \<open>(f, index of x, t, s)\<close>.
\<close>

definition md5_F :: "u32 \<Rightarrow> u32 \<Rightarrow> u32 \<Rightarrow> u32" where
  "md5_F x y z = z XOR (x AND (y XOR z))"

definition md5_G :: "u32 \<Rightarrow> u32 \<Rightarrow> u32 \<Rightarrow> u32" where
  "md5_G x y z = y XOR (z AND (x XOR y))"

definition md5_H :: "u32 \<Rightarrow> u32 \<Rightarrow> u32 \<Rightarrow> u32" where
  "md5_H x y z = (x XOR y) XOR z"

definition md5_H2 :: "u32 \<Rightarrow> u32 \<Rightarrow> u32 \<Rightarrow> u32" where
  "md5_H2 x y z = x XOR (y XOR z)"

definition md5_I :: "u32 \<Rightarrow> u32 \<Rightarrow> u32 \<Rightarrow> u32" where
  "md5_I x y z = y XOR (x OR NOT z)"

type_synonym md5_regs = "u32 \<times> u32 \<times> u32 \<times> u32"
type_synonym md5_table = "((u32 \<Rightarrow> u32 \<Rightarrow> u32 \<Rightarrow> u32) \<times> nat \<times> u32 \<times> nat) list"

definition md5_STEP :: "(u32 \<Rightarrow> u32 \<Rightarrow> u32 \<Rightarrow> u32) \<Rightarrow> u32 \<Rightarrow> u32 \<Rightarrow> nat \<Rightarrow> md5_regs \<Rightarrow> md5_regs" where
  "md5_STEP f x t s = (\<lambda>(a, b, c, d).
     let a = a + (f b c d + x + t);
         a = push_bit s a OR drop_bit (32 - s) (a AND 0xffffffff);
         a = a + b
     in (d, a, b, c))"

definition md5_GET :: "byte list \<Rightarrow> nat \<Rightarrow> u32" where
  "md5_GET ptr n = ucast (ptr ! (n * 4)) OR push_bit 8 (ucast (ptr ! (n * 4 + 1)))
     OR push_bit 16 (ucast (ptr ! (n * 4 + 2))) OR push_bit 24 (ucast (ptr ! (n * 4 + 3)))"

definition md5_round1 :: md5_table where
  "md5_round1 = [(md5_F, 0, 0xd76aa478, 7), (md5_F, 1, 0xe8c7b756, 12), (md5_F, 2, 0x242070db, 17),
     (md5_F, 3, 0xc1bdceee, 22), (md5_F, 4, 0xf57c0faf, 7), (md5_F, 5, 0x4787c62a, 12),
     (md5_F, 6, 0xa8304613, 17), (md5_F, 7, 0xfd469501, 22), (md5_F, 8, 0x698098d8, 7),
     (md5_F, 9, 0x8b44f7af, 12), (md5_F, 10, 0xffff5bb1, 17), (md5_F, 11, 0x895cd7be, 22),
     (md5_F, 12, 0x6b901122, 7), (md5_F, 13, 0xfd987193, 12), (md5_F, 14, 0xa679438e, 17),
     (md5_F, 15, 0x49b40821, 22)]"

definition md5_round2 :: md5_table where
  "md5_round2 = [(md5_G, 1, 0xf61e2562, 5), (md5_G, 6, 0xc040b340, 9), (md5_G, 11, 0x265e5a51, 14),
     (md5_G, 0, 0xe9b6c7aa, 20), (md5_G, 5, 0xd62f105d, 5), (md5_G, 10, 0x02441453, 9),
     (md5_G, 15, 0xd8a1e681, 14), (md5_G, 4, 0xe7d3fbc8, 20), (md5_G, 9, 0x21e1cde6, 5),
     (md5_G, 14, 0xc33707d6, 9), (md5_G, 3, 0xf4d50d87, 14), (md5_G, 8, 0x455a14ed, 20),
     (md5_G, 13, 0xa9e3e905, 5), (md5_G, 2, 0xfcefa3f8, 9), (md5_G, 7, 0x676f02d9, 14),
     (md5_G, 12, 0x8d2a4c8a, 20)]"

definition md5_round3 :: md5_table where
  "md5_round3 = [(md5_H, 5, 0xfffa3942, 4), (md5_H2, 8, 0x8771f681, 11), (md5_H, 11, 0x6d9d6122, 16),
     (md5_H2, 14, 0xfde5380c, 23), (md5_H, 1, 0xa4beea44, 4), (md5_H2, 4, 0x4bdecfa9, 11),
     (md5_H, 7, 0xf6bb4b60, 16), (md5_H2, 10, 0xbebfbc70, 23), (md5_H, 13, 0x289b7ec6, 4),
     (md5_H2, 0, 0xeaa127fa, 11), (md5_H, 3, 0xd4ef3085, 16), (md5_H2, 6, 0x04881d05, 23),
     (md5_H, 9, 0xd9d4d039, 4), (md5_H2, 12, 0xe6db99e5, 11), (md5_H, 15, 0x1fa27cf8, 16),
     (md5_H2, 2, 0xc4ac5665, 23)]"

definition md5_round4 :: md5_table where
  "md5_round4 = [(md5_I, 0, 0xf4292244, 6), (md5_I, 7, 0x432aff97, 10), (md5_I, 14, 0xab9423a7, 15),
     (md5_I, 5, 0xfc93a039, 21), (md5_I, 12, 0x655b59c3, 6), (md5_I, 3, 0x8f0ccc92, 10),
     (md5_I, 10, 0xffeff47d, 15), (md5_I, 1, 0x85845dd1, 21), (md5_I, 8, 0x6fa87e4f, 6),
     (md5_I, 15, 0xfe2ce6e0, 10), (md5_I, 6, 0xa3014314, 15), (md5_I, 13, 0x4e0811a1, 21),
     (md5_I, 4, 0xf7537e82, 6), (md5_I, 11, 0xbd3af235, 10), (md5_I, 2, 0x2ad7d2bb, 15),
     (md5_I, 9, 0xeb86d391, 21)]"

definition md5_round :: "byte list \<Rightarrow> md5_table \<Rightarrow> md5_regs \<Rightarrow> md5_regs" where
  "md5_round ptr tab regs = fold (\<lambda>(f, n, t, s). md5_STEP f (md5_GET ptr n) t s) tab regs"

definition md5_block :: "md5_regs \<Rightarrow> byte list \<Rightarrow> md5_regs" where
  "md5_block saved ptr =
     (case (saved, md5_round ptr md5_round4 (md5_round ptr md5_round3
              (md5_round ptr md5_round2 (md5_round ptr md5_round1 saved)))) of
        ((sa, sb, sc, sd), (a, b, c, d)) \<Rightarrow> (a + sa, b + sb, c + sc, d + sd))"

text \<open>
  The loop of \<open>body\<close> ends when \<open>size -= 64\<close> reaches 0; from another size it would run past the
  data. \<open>md5_blocks n\<close> is \<open>n\<close> rounds of it.
\<close>

fun md5_blocks :: "nat \<Rightarrow> md5_regs \<Rightarrow> byte list \<Rightarrow> md5_regs" where
  "md5_blocks 0 regs ptr = regs"
| "md5_blocks (Suc n) regs ptr = md5_blocks n (md5_block regs (take 64 ptr)) (drop 64 ptr)"

definition md5_body :: "md5_regs \<Rightarrow> byte list \<Rightarrow> md5_regs res" where
  "md5_body regs data =
     (if data = [] \<or> length data mod 64 \<noteq> 0 then Inl (Undefined ''read outside of buffer'')
      else Inr (md5_blocks (length data div 64) regs data))"

record MD5_CTX =
  ctx_lo :: u32
  ctx_hi :: u32
  abcd :: md5_regs
  md5_buffer :: "byte list"

definition md5_init :: "MD5_CTX \<Rightarrow> MD5_CTX" where
  "md5_init ctx = ctx\<lparr>abcd := (0x67452301, 0xefcdab89, 0x98badcfe, 0x10325476), ctx_lo := 0, ctx_hi := 0\<rparr>"

definition new_cMD5 :: "(nat \<Rightarrow> byte) \<Rightarrow> MD5_CTX" where
  "new_cMD5 junk = md5_init \<lparr>ctx_lo = 0, ctx_hi = 0, abcd = (0, 0, 0, 0), md5_buffer = fresh junk 64\<rparr>"

definition buffer_write :: "nat \<Rightarrow> byte list \<Rightarrow> MD5_CTX \<Rightarrow> MD5_CTX res" where
  "buffer_write off bs ctx = bindE (memcpy_at off bs (md5_buffer ctx)) (\<lambda>b. Inr (ctx\<lparr>md5_buffer := b\<rparr>))"

definition md5_process :: "byte list \<Rightarrow> MD5_CTX \<Rightarrow> MD5_CTX res" where
  "md5_process data ctx = bindE (md5_body (abcd ctx) data) (\<lambda>r. Inr (ctx\<lparr>abcd := r\<rparr>))"

text \<open>The whole blocks of what is left are hashed in place, the rest is buffered.\<close>

definition md5_rest :: "byte list \<Rightarrow> MD5_CTX \<Rightarrow> MD5_CTX res" where
  "md5_rest data ctx =
     (let n = length data div 64 * 64
      in bindE (if length data \<ge> 64 then md5_process (take n data) ctx else Inr ctx) (\<lambda>ctx.
         buffer_write 0 (drop n data) ctx))"

definition md5_count :: "nat \<Rightarrow> MD5_CTX \<Rightarrow> MD5_CTX" where
  "md5_count len ctx =
     (let saved_lo = ctx_lo ctx;
          lo' = ucast ((ucast saved_lo + of_nat len :: u64) AND 0x1fffffff);
          hi1 = (if lo' < saved_lo then ctx_hi ctx + 1 else ctx_hi ctx)
      in ctx\<lparr>ctx_lo := lo', ctx_hi := hi1 + of_nat (len div 2 ^ 29)\<rparr>)"

definition md5_update :: "byte list \<Rightarrow> MD5_CTX \<Rightarrow> MD5_CTX res" where
  "md5_update data ctx =
     (let used = unat (ctx_lo ctx AND 0x3f);
          ctx = md5_count (length data) ctx
      in if used \<noteq> 0 then
           (let available = 64 - used
            in if length data < available then buffer_write used data ctx
               else bindE (buffer_write used (take available data) ctx) (\<lambda>ctx.
                    bindE (md5_process (md5_buffer ctx) ctx) (\<lambda>ctx.
                    md5_rest (drop available data) ctx)))
         else md5_rest data ctx)"

definition regs_bytes :: "md5_regs \<Rightarrow> byte list" where
  "regs_bytes = (\<lambda>(a, b, c, d). mem32 a @ mem32 b @ mem32 c @ mem32 d)"

definition md5_final :: "MD5_CTX \<Rightarrow> (byte list \<times> MD5_CTX) res" where
  "md5_final ctx =
     (let used = unat (ctx_lo ctx AND 0x3f)
      in bindE (buffer_write used [0x80] ctx) (\<lambda>ctx.
         let used = used + 1; available = 64 - used
         in bindE (if available < 8
              then bindE (buffer_write used (replicate available 0) ctx) (\<lambda>ctx.
                   bindE (md5_process (md5_buffer ctx) ctx) (\<lambda>ctx. Inr (ctx, 0, 64)))
              else Inr (ctx, used, available)) (\<lambda>(ctx, used, available).
            bindE (buffer_write used (replicate (available - 8) 0) ctx) (\<lambda>ctx.
            let ctx = ctx\<lparr>ctx_lo := push_bit 3 (ctx_lo ctx)\<rparr>
            in bindE (buffer_write 56 (mem32 (ctx_lo ctx)) ctx) (\<lambda>ctx.
               bindE (buffer_write 60 (mem32 (ctx_hi ctx)) ctx) (\<lambda>ctx.
               bindE (md5_process (md5_buffer ctx) ctx) (\<lambda>ctx.
               Inr (regs_bytes (abcd ctx), ctx))))))))"

definition md5_calc :: "byte list \<Rightarrow> MD5_CTX \<Rightarrow> (byte list \<times> MD5_CTX) res" where
  "md5_calc data ctx = bindE (md5_update data (md5_init ctx)) md5_final"

end
