(* ===== verification/LldpParser.thy ===== *)
theory LldpParser
  imports Parameters Syntax_Tables LldpPacket Md5
begin

section \<open>cLldpParser\<close>

text \<open>
  src/compiler/lldpparser.hpp and lldpparser.cpp: each method looks up the parameters of one TLV
  and adds it to the packet \<open>m_packet\<close>, which is the last argument and the result.
  Where C++ leaves the order of evaluation open, operands are evaluated from left to right.
\<close>

subsection \<open>Expressions of the parsers\<close>

text \<open>\<open>findParameter (PAR.syntax)->asInt8 (lo, hi)\<close>, and with a default value.\<close>

definition int8Of :: "Parameter \<Rightarrow> byte \<Rightarrow> byte \<Rightarrow> (pstate, byte) M" where
  "int8Of par lo hi = bindM (findParameter (par_syntax par)) (asInt8 lo hi)"

definition int16Of :: "Parameter \<Rightarrow> u16 \<Rightarrow> u16 \<Rightarrow> (pstate, u16) M" where
  "int16Of par lo hi = bindM (findParameter (par_syntax par)) (asInt16 lo hi)"

definition int32Of :: "Parameter \<Rightarrow> u32 \<Rightarrow> u32 \<Rightarrow> (pstate, u32) M" where
  "int32Of par lo hi = bindM (findParameter (par_syntax par)) (asInt32 lo hi)"

definition int64Of :: "Parameter \<Rightarrow> (pstate, u64) M" where
  "int64Of par = bindM (findParameter (par_syntax par)) (asInt64 0 (- 1))"

definition boolOf :: "Parameter \<Rightarrow> (pstate, bool) M" where
  "boolOf par = bindM (int8Of par 0 1) (\<lambda>v. returnM (v \<noteq> 0))"

definition int8Or :: "Parameter \<Rightarrow> u32 \<Rightarrow> byte \<Rightarrow> byte \<Rightarrow> (pstate, byte) M" where
  "int8Or par d lo hi = bindM (findInt (par_syntax par) d) (asInt8 lo hi)"

definition int16Or :: "Parameter \<Rightarrow> u32 \<Rightarrow> u16 \<Rightarrow> u16 \<Rightarrow> (pstate, u16) M" where
  "int16Or par d lo hi = bindM (findInt (par_syntax par) d) (asInt16 lo hi)"

definition int32Or :: "Parameter \<Rightarrow> u32 \<Rightarrow> u32 \<Rightarrow> u32 \<Rightarrow> (pstate, u32) M" where
  "int32Or par d lo hi = bindM (findInt (par_syntax par) d) (asInt32 lo hi)"

definition boolOr :: "Parameter \<Rightarrow> u32 \<Rightarrow> (pstate, bool) M" where
  "boolOr par d = bindM (int8Or par d 0 1) (\<lambda>v. returnM (v \<noteq> 0))"

definition doubleOr :: "Parameter \<Rightarrow> double \<Rightarrow> double \<Rightarrow> double \<Rightarrow> (pstate, double) M" where
  "doubleOr par d lo hi = bindM (findDouble (par_syntax par) d) (asDouble lo hi)"

definition doubleOf :: "Parameter \<Rightarrow> double \<Rightarrow> double \<Rightarrow> (pstate, double) M" where
  "doubleOf par lo hi = bindM (findParameter (par_syntax par)) (asDouble lo hi)"

text \<open>\<open>if ((optionalPar = findParameter (PAR.syntax, true)))\<close> with its two branches.\<close>

definition ifGiven :: "Parameter \<Rightarrow> (pref \<Rightarrow> (pstate, 'a) M) \<Rightarrow> (pstate, 'a) M \<Rightarrow> (pstate, 'a) M" where
  "ifGiven par f g = bindM (findOptional (par_syntax par)) (\<lambda>r. case r of Some r \<Rightarrow> f r | None \<Rightarrow> g)"

text \<open>
  \<open>while ((p = findParameter (p, nullptr, PAR.syntax, true)) != nullptr)\<close>: every round finds a
  later parameter, so the number of parameters bounds the rounds.
\<close>

fun for_each_fuel :: "nat \<Rightarrow> pref option \<Rightarrow> string \<Rightarrow> (pref \<Rightarrow> 'a \<Rightarrow> (pstate, 'a) M) \<Rightarrow> 'a \<Rightarrow> (pstate, 'a) M" where
  "for_each_fuel 0 start name f x = throwM (Undefined ''out of fuel'')"
| "for_each_fuel (Suc n) start name f x =
     bindM (findParameterFrom start None name True) (\<lambda>r. case r of
       None \<Rightarrow> returnM x
     | Some r \<Rightarrow> bindM (f r x) (for_each_fuel n (Some r) name f))"

definition for_each :: "pref option \<Rightarrow> Parameter \<Rightarrow> (pref \<Rightarrow> 'a \<Rightarrow> (pstate, 'a) M) \<Rightarrow> 'a \<Rightarrow> (pstate, 'a) M" where
  "for_each start par f x = bindM (getM (length \<circ> plist \<circ> params)) (\<lambda>n.
     for_each_fuel (n + 1) start (par_syntax par) f x)"

text \<open>The parameter after \<open>p\<close> and before the next \<open>stop\<close>, mandatory or with a default.\<close>

definition findAfter :: "pref \<Rightarrow> Parameter \<Rightarrow> Parameter \<Rightarrow> (pstate, pref) M" where
  "findAfter p stop par = bindM (findParameterFrom (Some p) (Some (par_syntax stop)) (par_syntax par) False) deref"

definition findIntAfter :: "pref \<Rightarrow> Parameter \<Rightarrow> Parameter \<Rightarrow> u32 \<Rightarrow> (pstate, pref) M" where
  "findIntAfter p stop par d = findIntFrom (Some p) (Some (par_syntax stop)) (par_syntax par) d"

definition tryFormat :: "(pstate, 'a) M \<Rightarrow> (pstate, 'a) M \<Rightarrow> (pstate, 'a) M" where
  "tryFormat m h = catchM m (\<lambda>e. if isFormatException e then h else throwM e)"

subsection \<open>Mandatory and basic TLVs\<close>

text \<open>\<open>chassisID\<close> and \<open>portID\<close> differ in the parameters and in the methods of the packet.\<close>

definition idTLV :: "Parameter \<Rightarrow> Parameter \<Rightarrow> (byte \<Rightarrow> byte list \<Rightarrow> cLldpPacket \<Rightarrow> (pstate, cLldpPacket) M)
    \<Rightarrow> (byte list \<Rightarrow> cLldpPacket \<Rightarrow> (pstate, cLldpPacket) M)
    \<Rightarrow> (byte list \<Rightarrow> cLldpPacket \<Rightarrow> (pstate, cLldpPacket) M)
    \<Rightarrow> (byte list \<Rightarrow> cLldpPacket \<Rightarrow> (pstate, cLldpPacket) M) \<Rightarrow> cLldpPacket \<Rightarrow> (pstate, cLldpPacket) M" where
  "idTLV parType parId add add4 add6 addMac l =
     ifGiven parType
       (\<lambda>r. bindM (bindM (findParameter (par_syntax parId)) (asStream 255)) (\<lambda>i.
            bindM (asInt8 0 0xff r) (\<lambda>subtype. add subtype i l)))
       (ifGiven parId
         (\<lambda>r. tryFormat (bindM (asIPv4 r) (\<lambda>a. add4 a l))
             (tryFormat (bindM (asIPv6 r) (\<lambda>a. add6 a l))
               (tryFormat (bindM (asMac r) (\<lambda>a. addMac a l))
                 (bindM (asStream 255 r) (\<lambda>i. add 7 i l)))))
         (bindM getMyMAC (\<lambda>m. addMac m l)))"

definition lldp_chassisID :: "cLldpPacket \<Rightarrow> (pstate, cLldpPacket) M" where
  "lldp_chassisID = idTLV PAR_LLDP_CHASSIS_ID_T PAR_LLDP_CHASSIS_ID addChassisID addChassisID_ipv4
     addChassisID_ipv6 addChassisID_mac"

definition lldp_portID :: "cLldpPacket \<Rightarrow> (pstate, cLldpPacket) M" where
  "lldp_portID = idTLV PAR_LLDP_PORT_ID_T PAR_LLDP_PORT_ID addPortID addPortID_ipv4 addPortID_ipv6
     addPortID_mac"

fun cap_bits :: "Parameter list \<Rightarrow> nat \<Rightarrow> (pstate, u32) M" where
  "cap_bits [] n = returnM 0"
| "cap_bits (par # pars) n =
     bindM (int32Or par 0x10000 0 1) (\<lambda>v. bindM (cap_bits pars (n + 1)) (\<lambda>w. returnM (push_bit n v OR w)))"

definition lldp_systemCapabilities :: "cLldpPacket \<Rightarrow> (pstate, cLldpPacket) M" where
  "lldp_systemCapabilities l =
     bindM (cap_bits [PAR_LLDP_SYSCAP_OTHER, PAR_LLDP_SYSCAP_REPEATER, PAR_LLDP_SYSCAP_BRIDGE,
       PAR_LLDP_SYSCAP_WLAN, PAR_LLDP_SYSCAP_ROUTER, PAR_LLDP_SYSCAP_PHONE, PAR_LLDP_SYSCAP_DOCSIS,
       PAR_LLDP_SYSCAP_STATION, PAR_LLDP_SYSCAP_CVLAN, PAR_LLDP_SYSCAP_SVLAN, PAR_LLDP_SYSCAP_2P_RELAY] 0) (\<lambda>c.
     bindM (cap_bits [PAR_LLDP_SYSCAP_OTHER_EN, PAR_LLDP_SYSCAP_REPEATER_EN, PAR_LLDP_SYSCAP_BRIDGE_EN,
       PAR_LLDP_SYSCAP_WLAN_EN, PAR_LLDP_SYSCAP_ROUTER_EN, PAR_LLDP_SYSCAP_PHONE_EN, PAR_LLDP_SYSCAP_DOCSIS_EN,
       PAR_LLDP_SYSCAP_STATION_EN, PAR_LLDP_SYSCAP_CVLAN_EN, PAR_LLDP_SYSCAP_SVLAN_EN,
       PAR_LLDP_SYSCAP_2P_RELAY_EN] 0) (\<lambda>e.
     if c = 0x7FF0000 \<and> e = 0x7FF0000 then returnM l
     else addSystemCapabilities (ucast (c AND 0xffff)) (ucast (e AND 0xffff)) l))"

definition lldp_managementAddress :: "cLldpPacket \<Rightarrow> (pstate, cLldpPacket) M" where
  "lldp_managementAddress l =
     bindM (int8Or PAR_LLDP_IF_NUMBER_T 1 0 0xff) (\<lambda>ifNumberSubtype.
     bindM (int32Or PAR_LLDP_IF_NUMBER 0 0 0xffffffff) (\<lambda>ifNumber.
     bindM (ifGiven PAR_LLDP_MGT_OID (asStream 128) (returnM [])) (\<lambda>oid.
     ifGiven PAR_LLDP_MGT_ADDR_T
       (\<lambda>r. bindM (bindM (findParameter (par_syntax PAR_LLDP_MGT_ADDR)) (asStream 31)) (\<lambda>mgtAddr.
            bindM (asInt8 0 0xff r) (\<lambda>subtype.
            addManagementAddress subtype mgtAddr ifNumberSubtype ifNumber oid l)))
       (ifGiven PAR_LLDP_MGT_ADDR
         (\<lambda>r. tryFormat (bindM (asIPv4 r) (\<lambda>a. addManagementAddress_ipv4 a ifNumberSubtype ifNumber oid l))
             (tryFormat (bindM (asIPv6 r) (\<lambda>a. addManagementAddress_ipv6 a ifNumberSubtype ifNumber oid l))
               (bindM (asMac r) (\<lambda>a. addManagementAddress_mac a ifNumberSubtype ifNumber oid l))))
         (returnM l)))))"

text \<open>The three TLVs that are a byte stream of at most 255 bytes.\<close>

definition streamTLV :: "Parameter \<Rightarrow> (byte list \<Rightarrow> cLldpPacket \<Rightarrow> (pstate, cLldpPacket) M) \<Rightarrow> cLldpPacket
    \<Rightarrow> (pstate, cLldpPacket) M" where
  "streamTLV par add l = ifGiven par (\<lambda>r. bindM (asStream 255 r) (\<lambda>v. add v l)) (returnM l)"

definition lldp_portDescription :: "cLldpPacket \<Rightarrow> (pstate, cLldpPacket) M" where
  "lldp_portDescription = streamTLV PAR_LLDP_PORT_DESC addPortDescription"

definition lldp_systemName :: "cLldpPacket \<Rightarrow> (pstate, cLldpPacket) M" where
  "lldp_systemName = streamTLV PAR_LLDP_SYSNAME addSystemName"

definition lldp_systemDescription :: "cLldpPacket \<Rightarrow> (pstate, cLldpPacket) M" where
  "lldp_systemDescription = streamTLV PAR_LLDP_SYSDESC addSystemDescription"

subsection \<open>IEEE 802.1 TLVs\<close>

definition lldp_portVID :: "cLldpPacket \<Rightarrow> (pstate, cLldpPacket) M" where
  "lldp_portVID l = ifGiven PAR_LLDP_PVID
     (\<lambda>r. bindM (asInt16 0 0xffff r) (\<lambda>v. addPortVID v l)) (returnM l)"

definition lldp_portProtocolVID :: "cLldpPacket \<Rightarrow> (pstate, cLldpPacket) M" where
  "lldp_portProtocolVID = for_each None PAR_LLDP_PPVID (\<lambda>r l.
     bindM (asInt16 0 0xffff r) (\<lambda>vid.
     bindM (bindM (findIntAfter r PAR_LLDP_PPVID PAR_LLDP_PPVID_SUP 0) (asInt8 0 1)) (\<lambda>supported.
     bindM (bindM (findIntAfter r PAR_LLDP_PPVID PAR_LLDP_PPVID_EN 0) (asInt8 0 1)) (\<lambda>enabled.
     addProtocolVID vid (supported \<noteq> 0) (enabled \<noteq> 0) l))))"

definition lldp_vlanName :: "cLldpPacket \<Rightarrow> (pstate, cLldpPacket) M" where
  "lldp_vlanName = for_each None PAR_LLDP_VLAN_NAME_VID (\<lambda>r l.
     bindM (asInt16 0 0xffff r) (\<lambda>vid.
     bindM (bindM (findAfter r PAR_LLDP_VLAN_NAME_VID PAR_LLDP_VLAN_NAME) (asStream 32)) (\<lambda>name.
     addVlanName vid name l)))"

definition lldp_protocolIdentity :: "cLldpPacket \<Rightarrow> (pstate, cLldpPacket) M" where
  "lldp_protocolIdentity = for_each None PAR_LLDP_PROTO_ID (\<lambda>r l.
     bindM (asStream 255 r) (\<lambda>p. addProtocolIdentity p l))"

definition lldp_vidUsageDigest :: "cLldpPacket \<Rightarrow> (pstate, cLldpPacket) M" where
  "lldp_vidUsageDigest l = ifGiven PAR_LLDP_VID_USAGE_DIGEST
     (\<lambda>r. bindM (asInt32 0 0xffffffff r) (\<lambda>d. addVIDUsageDigest d l)) (returnM l)"

definition lldp_managementVID :: "cLldpPacket \<Rightarrow> (pstate, cLldpPacket) M" where
  "lldp_managementVID l = ifGiven PAR_LLDP_MGT_VID
     (\<lambda>r. bindM (asInt16 0 0xffff r) (\<lambda>v. addManagementVID v l)) (returnM l)"

definition lldp_linkAggregation :: "cLldpPacket \<Rightarrow> (pstate, cLldpPacket) M" where
  "lldp_linkAggregation l = ifGiven PAR_LLDP_LAG_CAP
     (\<lambda>r. bindM (asInt8 0 1 r) (\<lambda>cap.
          bindM (boolOr PAR_LLDP_LAG_STATUS 0) (\<lambda>stat.
          bindM (int8Or PAR_LLDP_LAG_PORT_TYPE 0 0 3) (\<lambda>type.
          bindM (int32Or PAR_LLDP_LAG_PORT_ID 0 0 0xffffffff) (\<lambda>i.
          addLinkAggregation (cap \<noteq> 0) stat type i l))))) (returnM l)"

definition lldp_congestionNotification :: "cLldpPacket \<Rightarrow> (pstate, cLldpPacket) M" where
  "lldp_congestionNotification l = ifGiven PAR_LLDP_CONG_NOTE_CNPV
     (\<lambda>r. bindM (asInt8 0 0xff r) (\<lambda>cnpv.
          bindM (int8Of PAR_LLDP_CONG_NOTE_READY 0 0xff) (\<lambda>ready.
          addCongestionNotification cnpv ready l))) (returnM l)"

definition lldp_etsConfiguration :: "cLldpPacket \<Rightarrow> (pstate, cLldpPacket) M" where
  "lldp_etsConfiguration l = ifGiven PAR_LLDP_ETS_CFG_W
     (\<lambda>r. bindM (asInt8 0 1 r) (\<lambda>willing.
          bindM (boolOf PAR_LLDP_ETS_CFG_CBS) (\<lambda>cbs.
          bindM (int8Of PAR_LLDP_ETS_CFG_MAX_TC 0 7) (\<lambda>maxTC.
          bindM (int32Of PAR_LLDP_ETS_CFG_PRIO 0 0xffffffff) (\<lambda>prio.
          bindM (int64Of PAR_LLDP_ETS_CFG_BW) (\<lambda>bw.
          bindM (int64Of PAR_LLDP_ETS_CFG_TSA) (\<lambda>tsa.
          addETSConfig (willing \<noteq> 0) cbs maxTC prio bw tsa l))))))) (returnM l)"

definition lldp_etsRecommendation :: "cLldpPacket \<Rightarrow> (pstate, cLldpPacket) M" where
  "lldp_etsRecommendation l = ifGiven PAR_LLDP_ETS_REC_PRIO
     (\<lambda>r. bindM (asInt32 0 0xffffffff r) (\<lambda>prio.
          bindM (int64Of PAR_LLDP_ETS_REC_BW) (\<lambda>bw.
          bindM (int64Of PAR_LLDP_ETS_REC_TSA) (\<lambda>tsa.
          addETSRecommendation prio bw tsa l)))) (returnM l)"

definition lldp_pfcControlConfig :: "cLldpPacket \<Rightarrow> (pstate, cLldpPacket) M" where
  "lldp_pfcControlConfig l = ifGiven PAR_LLDP_PFC_W
     (\<lambda>r. bindM (asInt8 0 1 r) (\<lambda>willing.
          bindM (boolOf PAR_LLDP_PFC_MBC) (\<lambda>mbc.
          bindM (int8Of PAR_LLDP_PFC_CAP 0 0x0f) (\<lambda>cap.
          bindM (int8Of PAR_LLDP_PFC_ENABLE 0 0xff) (\<lambda>ena.
          addPFCCtrlConfig (willing \<noteq> 0) mbc cap ena l))))) (returnM l)"

definition lldp_applicationPriority :: "cLldpPacket \<Rightarrow> (pstate, cLldpPacket) M" where
  "lldp_applicationPriority l =
     bindM (for_each None PAR_LLDP_APPL_PRIO (\<lambda>r (prio, sel, proto).
       bindM (asInt8 0 7 r) (\<lambda>p.
       bindM (bindM (findAfter r PAR_LLDP_APPL_PRIO PAR_LLDP_APPL_SEL) (asInt8 0 7)) (\<lambda>s.
       bindM (bindM (findAfter r PAR_LLDP_APPL_PRIO PAR_LLDP_APPL_PROTO) (asInt16 0 0xffff)) (\<lambda>t.
       returnM (prio @ [p], sel @ [s], proto @ [t]))))) ([], [], [])) (\<lambda>(prio, sel, proto).
     if prio \<noteq> [] then addApplicationPriority prio sel proto l else returnM l)"

definition lldp_evb :: "cLldpPacket \<Rightarrow> (pstate, cLldpPacket) M" where
  "lldp_evb l = ifGiven PAR_LLDP_EVB_BRIDGE_STATUS
     (\<lambda>r. bindM (asInt8 0 0xff r) (\<lambda>bridgeStatus.
          bindM (int8Of PAR_LLDP_EVB_STATION_STATUS 0 0xff) (\<lambda>stationStatus.
          bindM (int8Of PAR_LLDP_EVB_RETRIES 0 7) (\<lambda>retries.
          bindM (int8Of PAR_LLDP_EVB_RTE 0 31) (\<lambda>rte.
          bindM (int8Of PAR_LLDP_EVB_MODE 0 3) (\<lambda>mode.
          bindM (boolOf PAR_LLDP_EVB_ROL_RWD) (\<lambda>rolRWD.
          bindM (int8Of PAR_LLDP_EVB_RWD 0 31) (\<lambda>rwd.
          bindM (boolOf PAR_LLDP_EVB_ROL_RKA) (\<lambda>rolRKA.
          bindM (int8Of PAR_LLDP_EVB_RKA 0 31) (\<lambda>rka.
          addEVB bridgeStatus stationStatus retries rte mode rolRWD rwd rolRKA rka l)))))))))) (returnM l)"

definition lldp_cdcb :: "cLldpPacket \<Rightarrow> (pstate, cLldpPacket) M" where
  "lldp_cdcb l = ifGiven PAR_LLDP_CDCP_ROLE
     (\<lambda>r. bindM (asInt8 0 1 r) (\<lambda>role.
          bindM (boolOf PAR_LLDP_CDCP_SCOMP) (\<lambda>scomp.
          bindM (int16Of PAR_LLDP_CDCP_CHN_CAP 0 4095) (\<lambda>chcap.
          bindM (for_each (Some r) PAR_LLDP_CDCP_SCID (\<lambda>r scid_svid.
            bindM (asInt16 0 4095 r) (\<lambda>scid.
            bindM (bindM (findAfter r PAR_LLDP_CDCP_SCID PAR_LLDP_CDCP_SVID) (asInt16 0 4095)) (\<lambda>svid.
            returnM (scid_svid @ [(scid, svid)])))) []) (\<lambda>scid_svid.
          addCDCP (role \<noteq> 0) scomp chcap scid_svid l))))) (returnM l)"

definition lldp_applicationVLAN :: "cLldpPacket \<Rightarrow> (pstate, cLldpPacket) M" where
  "lldp_applicationVLAN l =
     bindM (for_each None PAR_LLDP_APPL_VLAN_VID (\<lambda>r (vid, sel, proto).
       bindM (asInt16 0 4095 r) (\<lambda>v.
       bindM (bindM (findAfter r PAR_LLDP_APPL_VLAN_VID PAR_LLDP_APPL_VLAN_SEL) (asInt8 0 7)) (\<lambda>s.
       bindM (bindM (findAfter r PAR_LLDP_APPL_VLAN_VID PAR_LLDP_APPL_VLAN_PROTO) (asInt16 0 0xffff)) (\<lambda>t.
       returnM (vid @ [v], sel @ [s], proto @ [t]))))) ([], [], [])) (\<lambda>(vid, sel, proto).
     if vid \<noteq> [] then addApplicationVLAN vid sel proto l else returnM l)"

subsection \<open>IEEE 802.3 TLVs\<close>

definition lldp_macPhyConfigStatus :: "cLldpPacket \<Rightarrow> (pstate, cLldpPacket) M" where
  "lldp_macPhyConfigStatus l = ifGiven PAR_LLDP_MACPHY_MAU_TYPE
     (\<lambda>r. bindM (boolOr PAR_LLDP_MACPHY_ANEG_SUP 0) (\<lambda>supported.
          bindM (boolOr PAR_LLDP_MACPHY_ANEG_ENA 0) (\<lambda>enabled.
          bindM (int16Of PAR_LLDP_MACPHY_ANEG_CAPS 0 0xffff) (\<lambda>caps.
          bindM (asInt16 0 0xffff r) (\<lambda>mautype.
          addMacPhyStatus supported enabled caps mautype l))))) (returnM l)"

definition lldp_powerViaMDI :: "cLldpPacket \<Rightarrow> (pstate, cLldpPacket) M" where
  "lldp_powerViaMDI l = ifGiven PAR_LLDP_POE_MDI_POWER_SUP_PORT_CLASS
     (\<lambda>r. bindM (asInt8 0 1 r) (\<lambda>pse.
          bindM (boolOf PAR_LLDP_POE_MDI_POWER_SUP_PSE_MDI_SUP) (\<lambda>sup.
          bindM (boolOf PAR_LLDP_POE_MDI_POWER_SUP_PSE_MDI_ENA) (\<lambda>ena.
          bindM (boolOf PAR_LLDP_POE_MDI_POWER_SUP_PSE_PAIR_CTRL) (\<lambda>pairCtrl.
          bindM (int8Of PAR_LLDP_POE_PSE_POWER_PAIR 0 0xff) (\<lambda>powerPair.
          bindM (int8Of PAR_LLDP_POE_POWER_CLASS 0 0xff) (\<lambda>powerClass.
          ifGiven PAR_LLDP_POE_DLL_POWER_TYPE
            (\<lambda>r. bindM (asInt8 0 3 r) (\<lambda>powerType.
                 bindM (int8Of PAR_LLDP_POE_DLL_POWER_SOURCE 0 3) (\<lambda>powerSource.
                 bindM (int8Of PAR_LLDP_POE_DLL_PD_4PID 0 1) (\<lambda>pd4pid.
                 bindM (int8Of PAR_LLDP_POE_DLL_POWER_PRIO 0 3) (\<lambda>powerPrio.
                 bindM (doubleOf PAR_LLDP_POE_DLL_PD_REQ_POWER (dbl 0 1) (dbl 65535 10)) (\<lambda>pd.
                 bindM (doubleOf PAR_LLDP_POE_DLL_PD_ALLOC_POWER (dbl 0 1) (dbl 65535 10)) (\<lambda>alloc.
                 addDllExtPowerViaMDI (pse \<noteq> 0) sup ena pairCtrl powerPair powerClass powerType
                   powerSource pd4pid powerPrio pd alloc l)))))))
            (addBasicPowerViaMDI (pse \<noteq> 0) sup ena pairCtrl powerPair powerClass l)))))))) (returnM l)"

definition lldp_maxFrameSize :: "cLldpPacket \<Rightarrow> (pstate, cLldpPacket) M" where
  "lldp_maxFrameSize l = bindM (int16Or PAR_LLDP_MAX_FRAME_SIZE 0 0 0xffff) (\<lambda>n.
     if n \<noteq> 0 then addMaxFrameSize n l else returnM l)"

definition lldp_eee :: "cLldpPacket \<Rightarrow> (pstate, cLldpPacket) M" where
  "lldp_eee l = ifGiven PAR_LLDP_EEE_TX_TW
     (\<lambda>r. bindM (asInt16 0 0xffff r) (\<lambda>tx.
          bindM (int16Of PAR_LLDP_EEE_RX_TW 0 0xffff) (\<lambda>rx.
          bindM (int16Of PAR_LLDP_EEE_FB_RX_TW 0 0xffff) (\<lambda>fb.
          bindM (int16Of PAR_LLDP_EEE_ECHO_TX_TW 0 0xffff) (\<lambda>echoTx.
          bindM (int16Of PAR_LLDP_EEE_ECHO_RX_TW 0 0xffff) (\<lambda>echoRx.
          addEEE tx rx fb echoTx echoRx l)))))) (returnM l)"

definition lldp_eeeFastWake :: "cLldpPacket \<Rightarrow> (pstate, cLldpPacket) M" where
  "lldp_eeeFastWake l = ifGiven PAR_LLDP_EEE_FW_TX
     (\<lambda>r. bindM (asInt8 0 0xff r) (\<lambda>tx.
          bindM (int8Of PAR_LLDP_EEE_FW_RX 0 0xff) (\<lambda>rx.
          bindM (int8Of PAR_LLDP_EEE_FW_ECHO_TX 0 0xff) (\<lambda>echoTx.
          bindM (int8Of PAR_LLDP_EEE_FW_ECHO_RX 0 0xff) (\<lambda>echoRx.
          addEEEFastWake tx rx echoTx echoRx l))))) (returnM l)"

subsection \<open>Profinet TLVs\<close>

definition lldp_pnDelay :: "cLldpPacket \<Rightarrow> (pstate, cLldpPacket) M" where
  "lldp_pnDelay l = ifGiven PAR_LLDP_PN_DELAY_PORT_RX_LOC
     (\<lambda>r. bindM (asInt32 0 0xffffffff r) (\<lambda>rxLocal.
          bindM (int32Of PAR_LLDP_PN_DELAY_PORT_RX_REM 0 0xffffffff) (\<lambda>rxRemote.
          bindM (int32Of PAR_LLDP_PN_DELAY_PORT_TX_LOC 0 0xffffffff) (\<lambda>txLocal.
          bindM (int32Of PAR_LLDP_PN_DELAY_PORT_TX_REM 0 0xffffffff) (\<lambda>txRemote.
          bindM (int32Of PAR_LLDP_PN_DELAY_LINE 0 0xffffffff) (\<lambda>cable.
          addPnDelay rxLocal rxRemote txLocal txRemote cable l)))))) (returnM l)"

definition lldp_pnPortStatus :: "cLldpPacket \<Rightarrow> (pstate, cLldpPacket) M" where
  "lldp_pnPortStatus l = ifGiven PAR_LLDP_PN_RTC3_STATE
     (\<lambda>r. bindM (asInt8 0 7 r) (\<lambda>rtc3State.
          bindM (boolOr PAR_LLDP_PN_RTC3_FRAG 0) (\<lambda>frag.
          bindM (boolOr PAR_LLDP_PN_RTC3_PREAMP 0) (\<lambda>shortPreamp.
          bindM (boolOr PAR_LLDP_PN_RTC3_OPTIMIZED 0) (\<lambda>optimized.
          bindM (int16Or PAR_LLDP_PN_RTC2_STATE 0 0 3) (\<lambda>rtc2State.
          addPnPortStatus rtc2State rtc3State frag shortPreamp optimized l)))))) (returnM l)"

definition lldp_pnAlias :: "cLldpPacket \<Rightarrow> (pstate, cLldpPacket) M" where
  "lldp_pnAlias l = ifGiven PAR_LLDP_PN_ALIAS
     (\<lambda>r. bindM (asStream (14 + 1 + 240) r) (\<lambda>v. addPnAlias v l)) (returnM l)"

definition lldp_pnMrpPortState :: "cLldpPacket \<Rightarrow> (pstate, cLldpPacket) M" where
  "lldp_pnMrpPortState l =
     bindM (int16Or PAR_LLDP_PN_MRP_MRRT_STATE 0 0 3) (\<lambda>portState.
     ifGiven PAR_LLDP_PN_MRP_DOMAIN
       (\<lambda>r. bindM (asStream SIZE_MAX r) (\<lambda>domain.
            if length domain > 0
            then bindM (getM junk_of) (\<lambda>junk.
                 bindM (liftE (md5_calc domain (new_cMD5 junk))) (\<lambda>(md5, _).
                 addPnMrpPortStatus (uuid_fromMD5 md5) portState l))
            else addPnMrpPortStatus (replicate 16 0xff) portState l))
       (ifGiven PAR_LLDP_PN_MRP_DOMAIN_UUID
         (\<lambda>r. bindM (asUUID r) (\<lambda>u. addPnMrpPortStatus u portState l))
         (returnM l)))"

definition lldp_pnChassisMac :: "cLldpPacket \<Rightarrow> (pstate, cLldpPacket) M" where
  "lldp_pnChassisMac l = ifGiven PAR_LLDP_PN_CHASSIS_MAC
     (\<lambda>r. bindM (asMac r) (\<lambda>m. addPnChassisMac m l)) (returnM l)"

definition uuidOrZero :: "Parameter \<Rightarrow> (pstate, byte list) M" where
  "uuidOrZero par = ifGiven par asUUID (returnM uuid_fromZero)"

definition lldp_pnPTCPStatus :: "cLldpPacket \<Rightarrow> (pstate, cLldpPacket) M" where
  "lldp_pnPTCPStatus l = ifGiven PAR_LLDP_PN_PTCP_MAST_SRC_MAC
     (\<lambda>r. bindM (asMac r) (\<lambda>m.
          bindM (uuidOrZero PAR_LLDP_PN_PTCP_DOMAIN_UUID) (\<lambda>uuidDomain.
          bindM (uuidOrZero PAR_LLDP_PN_PTCP_IRDATA_UUID) (\<lambda>uuidIRDATA.
          bindM (int32Or PAR_LLDP_PN_PTCP_PERIOD_LEN 0 0 0x7fffffff) (\<lambda>len.
          bindM (int32Or PAR_LLDP_PN_PTCP_RED_ORANGE 0 0 0x7fffffff) (\<lambda>redOrange.
          bindM (int32Or PAR_LLDP_PN_PTCP_ORANGE 0 0 0x7fffffff) (\<lambda>orange.
          bindM (int32Or PAR_LLDP_PN_PTCP_GREEN 0 0 0x7fffffff) (\<lambda>green.
          addPnPtcpStatus m uuidDomain uuidIRDATA len (len \<noteq> 0) redOrange (redOrange \<noteq> 0)
            orange (orange \<noteq> 0) green (green \<noteq> 0) l)))))))) (returnM l)"

definition lldp_pnMAUTypeExtension :: "cLldpPacket \<Rightarrow> (pstate, cLldpPacket) M" where
  "lldp_pnMAUTypeExtension l = ifGiven PAR_LLDP_PN_MAU_TYPE_EXT
     (\<lambda>r. bindM (asInt16 0 0xffff r) (\<lambda>v. addPnMauTypeExtension v l)) (returnM l)"

definition lldp_pnMrpIcPortStatus :: "cLldpPacket \<Rightarrow> (pstate, cLldpPacket) M" where
  "lldp_pnMrpIcPortStatus l = ifGiven PAR_LLDP_PN_MRP_IC_DOMAIN_ID
     (\<lambda>r. bindM (asInt16 0 0xffff r) (\<lambda>i.
          bindM (int16Or PAR_LLDP_PN_MRP_IC_ROLE 0 0 0xffff) (\<lambda>role.
          bindM (int16Or PAR_LLDP_PN_MRP_IC_MIC_POS 0 0 0xffff) (\<lambda>pos.
          addPnMrpInterconnectPortStatus i role pos l)))) (returnM l)"

subsection \<open>Raw TLVs\<close>

definition lldp_allRawTLVs :: "cLldpPacket \<Rightarrow> (pstate, cLldpPacket) M" where
  "lldp_allRawTLVs = for_each None PAR_LLDP_TLV_TYPE (\<lambda>r l.
     bindM (asInt8 0 127 r) (\<lambda>type.
     bindM (bindM (findAfter r PAR_LLDP_TLV_TYPE PAR_LLDP_TLV_VALUE) (asStream 511)) (\<lambda>v.
     addRawTLV type v l)))"

definition throwValueException :: "pref \<Rightarrow> (pstate, 'a) M" where
  "throwValueException r = onParam (\<lambda>p. throwM (formatError exParFormat p)) (\<lambda>d. Inl nullPointer) r"

definition lldp_allOidTLVs :: "cLldpPacket \<Rightarrow> (pstate, cLldpPacket) M" where
  "lldp_allOidTLVs = for_each None PAR_LLDP_OUI_TLV_OUI (\<lambda>r l.
     bindM (asStream 3 r) (\<lambda>oui.
     bindM (if length oui \<noteq> 3 then throwValueException r else returnM ()) (\<lambda>_.
     bindM (bindM (findAfter r PAR_LLDP_OUI_TLV_OUI PAR_LLDP_OUI_TLV_TYPE) (asInt8 0 0xff)) (\<lambda>subtype.
     bindM (bindM (findAfter r PAR_LLDP_OUI_TLV_OUI PAR_LLDP_OUI_TLV_VALUE) (asStream 507)) (\<lambda>v.
     addOuiTLV oui subtype v l)))))"

end
