(* ===== verification/Checksum.thy ===== *)
theory Checksum
  imports Endian
begin

section \<open>The Internet checksum\<close>

text \<open>
  src/packets/inetchecksum.hpp and inetchecksum.cpp. A memory block is the pair of its address
  (only its parity matters) and its bytes; \<open>None\<close> is a null pointer.
\<close>

type_synonym block = "nat \<times> byte list"

definition load16 :: "byte \<Rightarrow> byte \<Rightarrow> u16" where
  "load16 a b = rd16 b a"

fun calc_bytewise :: "byte list \<Rightarrow> u32 \<Rightarrow> u32" where
  "calc_bytewise (a # b # p8) acc = calc_bytewise p8 (acc + ucast ((ucast a OR push_bit 8 (ucast b)) :: u16))"
| "calc_bytewise [a] acc = acc + ucast a"
| "calc_bytewise [] acc = acc"

fun calc_wordwise :: "byte list \<Rightarrow> u32 \<Rightarrow> u32" where
  "calc_wordwise (a # b # p16) acc = calc_wordwise p16 (acc + ucast (load16 a b))"
| "calc_wordwise [a] acc = acc + ucast a"
| "calc_wordwise [] acc = acc"

definition rfc1071_calc :: "block \<Rightarrow> u32 \<Rightarrow> u32" where
  "rfc1071_calc p acc =
     (if snd p = [] then acc
      else if odd (fst p) then calc_bytewise (snd p) acc
      else calc_wordwise (snd p) acc)"

definition rfc1071_finalize :: "u32 \<Rightarrow> u16" where
  "rfc1071_finalize acc =
     (let acc = (acc AND 0xffff) + drop_bit 16 acc;
          acc = (acc AND 0xffff) + drop_bit 16 acc
      in ucast (NOT acc))"

definition block_length :: "block option \<Rightarrow> nat" where
  "block_length p = (case p of None \<Rightarrow> 0 | Some (_, bs) \<Rightarrow> length bs)"

definition rfc1071 :: "block option \<Rightarrow> block option \<Rightarrow> block option \<Rightarrow> u16 res" where
  "rfc1071 p p2 p3 =
     bindE (bugOn (block_length p3 \<noteq> 0 \<and> odd (block_length p) \<and> odd (block_length p2))
              ''len3 && (len & 1) && (len2 & 1)'') (\<lambda>_.
     let acc = 0;
         acc = (case p of None \<Rightarrow> acc | Some q \<Rightarrow> rfc1071_calc q acc);
         acc = (case p2 of None \<Rightarrow> acc | Some q \<Rightarrow> rfc1071_calc q acc);
         acc = (case p3 of None \<Rightarrow> acc | Some q \<Rightarrow> rfc1071_calc q acc)
     in Inr (rfc1071_finalize acc))"

definition rfc1071_one :: "block option \<Rightarrow> u16 res" where
  "rfc1071_one p = rfc1071 p None None"

definition rfc1071_two :: "block option \<Rightarrow> block option \<Rightarrow> u16 res" where
  "rfc1071_two p p2 = bindE (bugOn (odd (block_length p)) ''len & 1'') (\<lambda>_. rfc1071 p p2 None)"

subsection \<open>The acc as a number\<close>

text \<open>
  \<open>word_sum\<close> is the specification: the exact acc of the 16-bit words. The accumulator of the code
  holds it as long as it fits 32 bits, which \<open>2 ^ 17\<close> bytes always do.
\<close>

fun word_sum :: "byte list \<Rightarrow> nat" where
  "word_sum (a # b # bs) = unat a + 256 * unat b + word_sum bs"
| "word_sum [a] = unat a"
| "word_sum [] = 0"

definition fold16 :: "nat \<Rightarrow> nat" where
  "fold16 s = s mod 65536 + s div 65536"

definition ocsum :: "byte list \<Rightarrow> nat" where
  "ocsum bs = fold16 (fold16 (word_sum bs))"

lemma load16_bytes: "ucast a OR push_bit 8 (ucast b) = load16 a b"
  by (simp add: load16_def rd16_def or.commute)

lemma unat_load16: "unat (load16 a b) = unat a + 256 * unat b"
  by (simp add: load16_def unat_rd16)

lemma calc_same: "calc_bytewise bs acc = calc_wordwise bs acc"
  by (induction bs acc rule: calc_wordwise.induct) (simp_all add: load16_bytes)

lemma rfc1071_calc_wordwise: "rfc1071_calc (al, bs) acc = calc_wordwise bs acc"
  by (simp add: rfc1071_calc_def calc_same)

lemma unat_byte_less: "unat (a :: byte) < 256"
  using unsigned_less [of a, where 'a = nat] by simp

lemma word_sum_bound: "word_sum bs \<le> 65535 * ((length bs + 1) div 2)"
proof (induction bs rule: word_sum.induct)
  case (1 a b bs)
  then show ?case using unat_byte_less [of a] unat_byte_less [of b] by simp
next
  case (2 a)
  then show ?case using unat_byte_less [of a] by simp
qed simp

lemma word_sum_fits: "length bs \<le> 2 ^ 17 \<Longrightarrow> word_sum bs < 2 ^ 32"
proof -
  assume "length bs \<le> 2 ^ 17"
  then have "(length bs + 1) div 2 \<le> 65536" by simp
  then have "65535 * ((length bs + 1) div 2) \<le> 65535 * 65536" by simp
  with word_sum_bound [of bs] show ?thesis by simp
qed

lemma word_sum_append: "even (length a) \<Longrightarrow> word_sum (a @ b) = word_sum a + word_sum b"
  by (induction a rule: word_sum.induct) simp_all

lemma calc_wordwise_sum:
  "unat acc + word_sum bs < 2 ^ 32 \<Longrightarrow> unat (calc_wordwise bs acc) = unat acc + word_sum bs"
proof (induction bs acc rule: calc_wordwise.induct)
  case (1 a b p acc)
  let ?s = "acc + ucast (load16 a b)"
  have s: "unat ?s = unat acc + unat (load16 a b)"
    using "1.prems" by (subst unat_add_lem [THEN iffD1]) (simp_all add: unat_load16)
  have "unat ?s + word_sum p < 2 ^ 32" using "1.prems" s by (simp add: unat_load16)
  from "1.IH" [OF this] s show ?case by (simp add: unat_load16)
next
  case (2 a acc)
  then show ?case by (subst calc_wordwise.simps, subst unat_add_lem [THEN iffD1]) simp_all
qed simp

lemma calc_wordwise_append:
  "even (length a) \<Longrightarrow> calc_wordwise (a @ b) acc = calc_wordwise b (calc_wordwise a acc)"
  by (induction a acc rule: calc_wordwise.induct) simp_all

lemma rfc1071_concat:
  assumes "even (length a)" and "even (length b)"
  shows "rfc1071 (Some (x, a)) (Some (y, b)) (Some (z, c)) = rfc1071_one (Some (0, a @ b @ c))"
  using assms
  by (simp add: rfc1071_one_def rfc1071_def block_length_def rfc1071_calc_wordwise
      calc_wordwise_append Let_def)

lemma rfc1071_concat2:
  assumes "even (length a)"
  shows "rfc1071 (Some (x, a)) (Some (y, b)) None = rfc1071_one (Some (0, a @ b))"
  using assms
  by (simp add: rfc1071_one_def rfc1071_def block_length_def rfc1071_calc_wordwise
      calc_wordwise_append Let_def)

lemma fold16_mod: "fold16 s mod 65535 = s mod 65535"
proof -
  have "s = s div 65536 * 65536 + s mod 65536" by simp
  also have "\<dots> = fold16 s + 65535 * (s div 65536)" by (simp add: fold16_def)
  finally show ?thesis by (metis mod_mult_self2)
qed

lemma fold16_zero: "fold16 s = 0 \<longleftrightarrow> s = 0"
  by (auto simp: fold16_def)

lemma fold16_twice_bound:
  assumes "s < 2 ^ 32"
  shows "fold16 (fold16 s) \<le> 65535"
proof -
  have "s div 65536 < 65536" using assms by (simp add: less_mult_imp_div_less)
  moreover have "s mod 65536 < 65536" by simp
  ultimately have t: "fold16 s \<le> 131070" unfolding fold16_def by linarith
  define u where "u = fold16 s"
  have "65536 * (u div 65536) + u mod 65536 = u" by (rule mult_div_mod_eq)
  moreover have "u mod 65536 < 65536" by simp
  moreover have "u div 65536 < 2" using t by (simp add: u_def less_mult_imp_div_less)
  ultimately have "u mod 65536 + u div 65536 \<le> 65535"
    using t unfolding u_def [symmetric] by (cases "u div 65536 = 0") linarith+
  then show ?thesis by (simp add: fold16_def [of "fold16 s"] u_def)
qed

lemma ocsum_bound: "length bs \<le> 2 ^ 17 \<Longrightarrow> ocsum bs \<le> 65535"
  unfolding ocsum_def by (intro fold16_twice_bound word_sum_fits)

lemma ocsum_mod: "ocsum bs mod 65535 = word_sum bs mod 65535"
  by (simp add: ocsum_def fold16_mod)

lemma ocsum_zero: "ocsum bs = 0 \<longleftrightarrow> word_sum bs = 0"
  by (simp add: ocsum_def fold16_zero)

lemma unat_and_ffff: "unat ((s :: u32) AND 0xffff) = unat s mod 65536"
proof -
  have "s AND 0xffff = take_bit 16 s" by (simp add: take_bit_eq_mask mask_eq_exp_minus_1)
  then show ?thesis by (simp only: unsigned_take_bit_eq) (simp add: take_bit_eq_mod)
qed

lemma unat_drop16: "unat (drop_bit 16 (s :: u32)) = unat s div 65536"
  by (simp add: drop_bit_eq_div unat_div)

lemma unat_fold_step: "unat (((s :: u32) AND 0xffff) + drop_bit 16 s) = fold16 (unat s)"
proof -
  have "unat s < 2 ^ 32" using unsigned_less [of s, where 'a = nat] by simp
  then have "unat (s AND 0xffff) + unat (drop_bit 16 s) < 2 ^ 32"
    unfolding unat_and_ffff unat_drop16
    using less_mult_imp_div_less [of "unat s" 65536 65536] mod_less_divisor [of 65536 "unat s"]
    by simp
  then show ?thesis
    using unat_add_lem [of "s AND 0xffff" "drop_bit 16 s"]
    by (simp add: unat_and_ffff unat_drop16 fold16_def)
qed

lemma unat_not_low:
  assumes "unat (s :: u32) \<le> 65535"
  shows "unat (ucast (NOT s) :: u16) = 65535 - unat s"
proof -
  have "(ucast (NOT s) :: u16) = NOT (ucast s)"
    by (rule bit_word_eqI) (simp add: bit_simps)
  also have "\<dots> = - 1 - ucast s" by (simp add: not_eq_complement)
  finally have "unat (ucast (NOT s) :: u16) = unat (- 1 :: u16) - unat (ucast s :: u16)"
    by (simp add: unat_sub)
  also have "unat (- 1 :: u16) = 65535"
    by (simp add: unsigned_minus_1_eq_mask mask_eq_exp_minus_1)
  also have "unat (ucast s :: u16) = unat s"
    using assms by (simp add: unsigned_ucast_eq take_bit_eq_mod)
  finally show ?thesis .
qed

lemma rfc1071_one_value:
  assumes "length bs \<le> 2 ^ 17"
  shows "\<exists>v. rfc1071_one (Some (al, bs)) = Inr v \<and> unat v = 65535 - ocsum bs"
proof -
  let ?s = "calc_wordwise bs 0"
  have s: "unat ?s = word_sum bs"
    using calc_wordwise_sum [of 0 bs] word_sum_fits [OF assms] by simp
  let ?f = "\<lambda>s. (s AND 0xffff) + drop_bit 16 (s :: u32)"
  have f: "unat (?f (?f ?s)) = ocsum bs"
    unfolding unat_fold_step s ocsum_def ..
  have "rfc1071_one (Some (al, bs)) = Inr (ucast (NOT (?f (?f ?s))))"
    by (simp add: rfc1071_one_def rfc1071_def block_length_def rfc1071_calc_wordwise
        rfc1071_finalize_def Let_def)
  moreover have "unat (ucast (NOT (?f (?f ?s))) :: u16) = 65535 - ocsum bs"
    using ocsum_bound [OF assms] by (subst unat_not_low) (simp_all only: f)
  ultimately show ?thesis by blast
qed

subsection \<open>What a checksum promises its receiver\<close>

text \<open>
  A checksum function over a message with a two-byte hole: with the value it returns stored in the
  hole, the receiver's computation over the whole message gives zero. The IPv4 header, UDP, TCP,
  ICMP, IGMP and VRRP rely on this and nothing else.
\<close>

locale self_checking =
  fixes csum :: "byte list \<Rightarrow> u16 res"
    and store :: "u16 \<Rightarrow> byte list"
    and fits :: "byte list \<Rightarrow> bool"
  assumes total: "fits m \<Longrightarrow> \<exists>v. csum m = Inr v"
    and verifies: "even (length a) \<Longrightarrow> fits (a @ [0, 0] @ b) \<Longrightarrow>
      csum (a @ [0, 0] @ b) = Inr v \<Longrightarrow> csum (a @ store v @ b) = Inr 0"
    and store_length: "length (store v) = 2"
begin

definition sealed :: "byte list \<Rightarrow> byte list \<Rightarrow> byte list res" where
  "sealed a b = bindE (csum (a @ [0, 0] @ b)) (\<lambda>v. Inr (a @ store v @ b))"

lemma sealed_ok:
  assumes "even (length a)" and "fits (a @ [0, 0] @ b)"
  obtains m where "sealed a b = Inr m" and "csum m = Inr 0" and "length m = length a + 2 + length b"
proof -
  obtain v where v: "csum (a @ [0, 0] @ b) = Inr v" using total [OF assms(2)] by blast
  have "sealed a b = Inr (a @ store v @ b)" by (simp add: sealed_def v [simplified])
  moreover have "csum (a @ store v @ b) = Inr 0" by (rule verifies [OF assms v])
  ultimately show thesis by (rule that) (simp add: store_length)
qed

end

lemma word_sum_mem16: "word_sum (mem16 v @ b) = unat v + word_sum b"
proof -
  have "unat (ucast v :: byte) = unat v mod 256"
    by (simp add: unsigned_ucast_eq take_bit_eq_mod)
  moreover have "unat (ucast (drop_bit 8 v) :: byte) = unat v div 256"
  proof -
    have "unat v < 65536" using unsigned_less [of v, where 'a = nat] by simp
    then have "unat v div 256 < 256" by simp
    then show ?thesis
      by (simp add: unsigned_ucast_eq take_bit_eq_mod drop_bit_eq_div unat_div)
  qed
  ultimately show ?thesis by (simp add: mem16_def)
qed

lemma rfc1071_verifies:
  assumes "even (length a)" and "length (a @ [0, 0] @ b) \<le> 2 ^ 17"
    and "rfc1071_one (Some (al, a @ [0, 0] @ b)) = Inr v"
  shows "rfc1071_one (Some (al', a @ mem16 v @ b)) = Inr 0"
proof -
  let ?m = "a @ [0, 0] @ b" and ?m' = "a @ mem16 v @ b"
  have len: "length ?m' \<le> 2 ^ 17" using assms(2) by simp
  have v: "unat v = 65535 - ocsum ?m"
    using rfc1071_one_value [OF assms(2), of al] assms(3) by auto
  have acc: "word_sum ?m' = word_sum ?m + unat v"
    using assms(1) by (simp add: word_sum_append word_sum_mem16)
  have "word_sum ?m + 65535 - ocsum ?m = word_sum ?m'"
    using acc v ocsum_bound [OF assms(2)] by simp
  moreover have "ocsum ?m \<le> word_sum ?m + 65535" using ocsum_bound [OF assms(2)] by simp
  ultimately have "word_sum ?m' + ocsum ?m = word_sum ?m + 65535" by linarith
  then have "(word_sum ?m' + ocsum ?m) mod 65535 = (word_sum ?m + 65535) mod 65535" by (rule arg_cong)
  then have "(word_sum ?m' + ocsum ?m) mod 65535 = (0 + ocsum ?m) mod 65535"
    by (simp add: ocsum_mod)
  then have "65535 dvd word_sum ?m'"
    using mod_eq_dvd_iff_nat [of "ocsum ?m" "word_sum ?m' + ocsum ?m" 65535] by simp
  then have dvd: "ocsum ?m' mod 65535 = 0" by (simp add: ocsum_mod)
  have "word_sum ?m' \<noteq> 0"
    using acc v ocsum_zero [of ?m] ocsum_bound [OF assms(2)] by (cases "word_sum ?m = 0") auto
  then have "ocsum ?m' \<noteq> 0" by (simp add: ocsum_zero)
  with dvd ocsum_bound [OF len] have "ocsum ?m' = 65535"
    by (metis le_neq_implies_less mod_less)
  then show ?thesis
    using rfc1071_one_value [OF len, of al'] by (auto simp: unat_eq_zero)
qed

definition csum_at :: "byte list \<Rightarrow> u16 res" where
  "csum_at m = rfc1071_one (Some (0, m))"

interpretation inet: self_checking csum_at mem16 "\<lambda>m. length m \<le> 2 ^ 17"
proof (unfold_locales, goal_cases)
  case (1 m)
  then show ?case using rfc1071_one_value [of m 0] by (auto simp: csum_at_def)
next
  case (2 a b v)
  then show ?case unfolding csum_at_def by (rule rfc1071_verifies)
qed simp

end
