(* ===== verification/IpPacket.thy ===== *)
theory IpPacket
  imports Ethernet Checksum
begin

section \<open>cIPPacket\<close>

text \<open>
  src/packets/ippacket.hpp and ippacket.cpp: the IPv4 and IPv6 headers, and the list of Ethernet
  packets an IP packet is cut into. A null \<open>l4header\<close> or \<open>payload\<close> is \<open>None\<close>.
\<close>

definition PROTO_ICMP :: byte where "PROTO_ICMP = 1"
definition PROTO_IGMP :: byte where "PROTO_IGMP = 2"
definition PROTO_TCP :: byte where "PROTO_TCP = 6"
definition PROTO_UDP :: byte where "PROTO_UDP = 17"
definition PROTO_GRE :: byte where "PROTO_GRE = 47"
definition PROTO_ICMPv6 :: byte where "PROTO_ICMPv6 = 58"
definition PROTO_VRRP :: byte where "PROTO_VRRP = 112"

subsection \<open>Headers\<close>

record ipv4_header_t =
  vers_ihl :: byte
  tos :: byte
  totalLength :: u16
  ident :: u16
  flags_offset :: u16
  ttl :: byte
  protocol :: byte
  chksum :: u16
  srcIp :: "byte list"
  dstIp :: "byte list"
  routerAlert :: "byte list"

text \<open>The first \<open>hdrLen\<close> bytes of the structure; the option is written only where it is asked for.\<close>

definition ipv4_header_bytes :: "ipv4_header_t \<Rightarrow> byte list" where
  "ipv4_header_bytes h = [vers_ihl h, tos h] @ mem16 (totalLength h) @ mem16 (ident h)
     @ mem16 (flags_offset h) @ [ttl h, protocol h] @ mem16 (chksum h) @ srcIp h @ dstIp h @ routerAlert h"

definition ipv4_header_compile :: "byte list \<Rightarrow> byte list \<Rightarrow> u32 \<Rightarrow> byte \<Rightarrow> u32 \<Rightarrow> u32 \<Rightarrow> bool \<Rightarrow> bool
    \<Rightarrow> nat \<Rightarrow> nat \<Rightarrow> u16 \<Rightarrow> u16 \<Rightarrow> bool \<Rightarrow> bool \<Rightarrow> u16 \<Rightarrow> ipv4_header_t res" where
  "ipv4_header_compile src dst timeToLive proto dscp ecn df mf offset hdrLen totalLen ipId
      withRouterAlert manualChksum manualChksumVal =
     bindE (bugOn (offset mod 8 \<noteq> 0) ''offset % 8'') (\<lambda>_.
     let h = \<lparr>vers_ihl = push_bit 4 4 OR (of_nat (hdrLen div 4) AND 0x0f),
           tos = ucast (push_bit 2 (dscp AND 0x3F) OR (ecn AND 0x03)),
           totalLength = htons totalLen, ident = htons ipId,
           flags_offset = htons ((if df then 0x4000 else 0) OR (if mf then 0x2000 else 0)
              OR (of_nat (offset div 8) AND 0x1fff)),
           ttl = ucast timeToLive, protocol = proto, chksum = 0, srcIp = src, dstIp = dst,
           routerAlert = (if withRouterAlert then [0x94, 4] @ mem16 0 else [])\<rparr>
     in if manualChksum then Inr (h\<lparr>chksum := htons manualChksumVal\<rparr>)
        else bindE (rfc1071_one (Some (0, take hdrLen (ipv4_header_bytes h)))) (\<lambda>c.
             Inr (h\<lparr>chksum := c\<rparr>)))"

record ipv6_header_t =
  vers_tc :: byte
  tc_fl :: byte
  fl :: u16
  v6_payloadLength :: u16
  nextHeader :: byte
  hopLimit :: byte
  v6_srcIp :: "byte list"
  v6_dstIp :: "byte list"

definition ipv6_header_bytes :: "ipv6_header_t \<Rightarrow> byte list" where
  "ipv6_header_bytes h = [vers_tc h, tc_fl h] @ mem16 (fl h) @ mem16 (v6_payloadLength h)
     @ [nextHeader h, hopLimit h] @ v6_srcIp h @ v6_dstIp h"

definition ipv6_header_compile :: "byte list \<Rightarrow> byte list \<Rightarrow> u32 \<Rightarrow> byte \<Rightarrow> u32 \<Rightarrow> u32 \<Rightarrow> u32 \<Rightarrow> u16
    \<Rightarrow> ipv6_header_t" where
  "ipv6_header_compile src dst timeToLive proto dscp ecn flowlabel paylodLen =
     \<lparr>vers_tc = ucast (push_bit 4 6 OR drop_bit 2 (dscp AND 0x3f)),
      tc_fl = ucast (push_bit 6 (dscp AND 3) OR push_bit 4 (ecn AND 3) OR
                ucast (ucast (drop_bit 16 (flowlabel AND 0x0f0000)) :: byte)),
      fl = htons (ucast (flowlabel AND 0xffff)), v6_payloadLength = htons paylodLen,
      nextHeader = proto, hopLimit = ucast timeToLive, v6_srcIp = src, v6_dstIp = dst\<rparr>"

definition ipv4_pseudo_header :: "byte list \<Rightarrow> byte list \<Rightarrow> byte \<Rightarrow> u16 \<Rightarrow> byte list" where
  "ipv4_pseudo_header src dst proto len = src @ dst @ [0, proto] @ mem16 (htons len)"

definition ipv6_pseudo_header :: "byte list \<Rightarrow> byte list \<Rightarrow> byte \<Rightarrow> u32 \<Rightarrow> byte list" where
  "ipv6_pseudo_header src dst proto len = src @ dst @ mem32 (htonl len) @ [0, 0, 0] @ [proto]"

subsection \<open>The packet object\<close>

record cIPPacket =
  m_isIPv6 :: bool
  ip_mtu :: nat
  m_packets :: "cEthernetPacket list"
  m_dscp :: u32
  m_ecn :: u32
  m_ttl :: byte
  v4_srcIP :: "byte list"
  v4_dstIP :: "byte list"
  dontFragment :: bool
  identification :: u16
  hasId :: bool
  hasRouterAlertOption :: bool
  hasChksum :: bool
  v4_chksum :: u16
  v6_srcIP :: "byte list"
  v6_dstIP :: "byte list"
  flowlabel :: u32

definition ip_new :: "bool \<Rightarrow> ('z env_scheme, cIPPacket) M" where
  "ip_new isIPv6 =
     bindM getMyMTU (\<lambda>mtu. bindM (getM junk_of) (\<lambda>junk.
     bindM eth_default (\<lambda>firstPacket.
     bindM (liftE (setTypeLength (if isIPv6 then ETHERTYPE_IPV6 else ETHERTYPE_IPV4) firstPacket)) (\<lambda>firstPacket.
     returnM \<lparr>m_isIPv6 = isIPv6, ip_mtu = unat mtu, m_packets = [firstPacket], m_dscp = 0, m_ecn = 0,
       m_ttl = 1, v4_srcIP = fresh junk 4, v4_dstIP = fresh junk 4, dontFragment = False,
       identification = 0, hasId = False, hasRouterAlertOption = False, hasChksum = False,
       v4_chksum = 0, v6_srcIP = fresh junk 16, v6_dstIP = fresh junk 16, flowlabel = 0\<rparr>))))"

definition getFirstEthernetPacket :: "cIPPacket \<Rightarrow> cEthernetPacket res" where
  "getFirstEthernetPacket ip = bindE (bugOn (length (m_packets ip) \<le> 0) ''m_packets.pcnt() <= 0'') (\<lambda>_.
     Inr (hd (m_packets ip)))"

text \<open>The caller of \<open>getFirstEthernetPacket\<close> changes the packet in place.\<close>

definition onFirstPacket :: "(cEthernetPacket \<Rightarrow> cEthernetPacket res) \<Rightarrow> cIPPacket \<Rightarrow> cIPPacket res" where
  "onFirstPacket f ip = bindE (getFirstEthernetPacket ip) (\<lambda>p. bindE (f p) (\<lambda>p.
     Inr (ip\<lparr>m_packets := p # tl (m_packets ip)\<rparr>)))"

definition ip_setDestMac :: "byte list \<Rightarrow> cIPPacket \<Rightarrow> cIPPacket res" where
  "ip_setDestMac dest ip = bindE (mapE (setDestMac dest) (m_packets ip)) (\<lambda>ps. Inr (ip\<lparr>m_packets := ps\<rparr>))"

definition setDSCP :: "u32 \<Rightarrow> cIPPacket \<Rightarrow> cIPPacket" where
  "setDSCP dscp ip = ip\<lparr>m_dscp := dscp\<rparr>"

definition setECN :: "u32 \<Rightarrow> cIPPacket \<Rightarrow> cIPPacket" where
  "setECN ecn ip = ip\<lparr>m_ecn := ecn\<rparr>"

definition setTimeToLive :: "byte \<Rightarrow> cIPPacket \<Rightarrow> cIPPacket" where
  "setTimeToLive t ip = ip\<lparr>m_ttl := t\<rparr>"

definition setDontFragment :: "bool \<Rightarrow> cIPPacket \<Rightarrow> cIPPacket res" where
  "setDontFragment df ip = bindE (bugOn (m_isIPv6 ip) ''m_isIPv6'') (\<lambda>_. Inr (ip\<lparr>dontFragment := df\<rparr>))"

definition setHeaderChksum :: "u16 \<Rightarrow> cIPPacket \<Rightarrow> cIPPacket res" where
  "setHeaderChksum cksum ip = bindE (bugOn (m_isIPv6 ip) ''m_isIPv6'') (\<lambda>_.
     Inr (ip\<lparr>hasChksum := True, v4_chksum := cksum\<rparr>))"

definition setSource4 :: "byte list \<Rightarrow> cIPPacket \<Rightarrow> cIPPacket res" where
  "setSource4 a ip = bindE (bugOn (m_isIPv6 ip) ''m_isIPv6'') (\<lambda>_. Inr (ip\<lparr>v4_srcIP := a\<rparr>))"

definition getSource4 :: "cIPPacket \<Rightarrow> byte list res" where
  "getSource4 ip = bindE (bugOn (m_isIPv6 ip) ''m_isIPv6'') (\<lambda>_. Inr (v4_srcIP ip))"

definition setDestination4 :: "byte list \<Rightarrow> cIPPacket \<Rightarrow> cIPPacket res" where
  "setDestination4 a ip = bindE (bugOn (m_isIPv6 ip) ''m_isIPv6'') (\<lambda>_. Inr (ip\<lparr>v4_dstIP := a\<rparr>))"

definition getDestination4 :: "cIPPacket \<Rightarrow> byte list res" where
  "getDestination4 ip = bindE (bugOn (m_isIPv6 ip) ''m_isIPv6'') (\<lambda>_. Inr (v4_dstIP ip))"

definition setIdentification :: "u16 \<Rightarrow> cIPPacket \<Rightarrow> cIPPacket res" where
  "setIdentification i ip = bindE (bugOn (m_isIPv6 ip) ''m_isIPv6'') (\<lambda>_.
     Inr (ip\<lparr>identification := i, hasId := True\<rparr>))"

definition setSource6 :: "byte list \<Rightarrow> cIPPacket \<Rightarrow> cIPPacket res" where
  "setSource6 a ip = bindE (bugOn (\<not> m_isIPv6 ip) ''!m_isIPv6'') (\<lambda>_. Inr (ip\<lparr>v6_srcIP := a\<rparr>))"

definition getSource6 :: "cIPPacket \<Rightarrow> byte list res" where
  "getSource6 ip = bindE (bugOn (\<not> m_isIPv6 ip) ''!m_isIPv6'') (\<lambda>_. Inr (v6_srcIP ip))"

definition setDestination6 :: "byte list \<Rightarrow> cIPPacket \<Rightarrow> cIPPacket res" where
  "setDestination6 a ip = bindE (bugOn (\<not> m_isIPv6 ip) ''!m_isIPv6'') (\<lambda>_. Inr (ip\<lparr>v6_dstIP := a\<rparr>))"

definition getDestination6 :: "cIPPacket \<Rightarrow> byte list res" where
  "getDestination6 ip = bindE (bugOn (\<not> m_isIPv6 ip) ''!m_isIPv6'') (\<lambda>_. Inr (v6_dstIP ip))"

definition setFlowLabel :: "u32 \<Rightarrow> cIPPacket \<Rightarrow> cIPPacket res" where
  "setFlowLabel f ip = bindE (bugOn (\<not> m_isIPv6 ip) ''!m_isIPv6'') (\<lambda>_. Inr (ip\<lparr>flowlabel := f\<rparr>))"

definition addRouterAlertOption :: "cIPPacket \<Rightarrow> cIPPacket" where
  "addRouterAlertOption ip = ip\<lparr>hasRouterAlertOption := True\<rparr>"

definition getHeaderLength :: "cIPPacket \<Rightarrow> nat" where
  "getHeaderLength ip = (if m_isIPv6 ip then 40 else if hasRouterAlertOption ip then 24 else 20)"

definition ip_getPayloadLength :: "cIPPacket \<Rightarrow> nat res" where
  "ip_getPayloadLength ip =
     (let ipHeaderLen = getHeaderLength ip
      in bindE (mapE (\<lambda>p. bindE (bugOn (payloadLength p \<le> ipHeaderLen)
             ''p.getPayloadLength () <= ipHeaderLen'') (\<lambda>_. Inr (payloadLength p - ipHeaderLen)))
           (m_packets ip)) (\<lambda>ls. Inr (sz (sum_list ls))))"

definition updateL4Header :: "byte list \<Rightarrow> cIPPacket \<Rightarrow> cIPPacket res" where
  "updateL4Header l4 ip =
     bindE (bugOn (payloadLength (hd (m_packets ip)) \<le> getHeaderLength ip)
        ''packet.getPayloadLength () <= getHeaderLength()'') (\<lambda>_.
     bindE (updatePayloadAt (getHeaderLength ip) l4 (hd (m_packets ip))) (\<lambda>p.
     Inr (ip\<lparr>m_packets := p # tl (m_packets ip)\<rparr>)))"

subsection \<open>Fragmentation\<close>

definition null_length :: "byte list option \<Rightarrow> nat" where
  "null_length p = (case p of None \<Rightarrow> 0 | Some bs \<Rightarrow> length bs)"

definition frag_count :: "nat \<Rightarrow> nat \<Rightarrow> nat \<Rightarrow> nat res" where
  "frag_count mtu ipHeaderLen len =
     (let M = szsub mtu ipHeaderLen
      in if M = 0 then Inl (Undefined ''division by zero'')
         else Inr ((szsub len 1 div M mod 2 ^ 32 + 1) mod 2 ^ 32))"

definition frag_len :: "nat \<Rightarrow> nat \<Rightarrow> nat \<Rightarrow> nat \<Rightarrow> nat \<Rightarrow> nat \<Rightarrow> nat" where
  "frag_len mtu ipHeaderLen n cnt l4headerLen payloadLen =
     (let M = szsub mtu ipHeaderLen;
          fragLen = (if n = 0
            then (if sz (l4headerLen + payloadLen + ipHeaderLen) > mtu then M else sz (l4headerLen + payloadLen))
            else (if sz (payloadLen + ipHeaderLen) > mtu then M else payloadLen))
      in if n + 1 \<noteq> cnt then fragLen div 8 * 8 else fragLen)"

definition read_at :: "byte list \<Rightarrow> nat \<Rightarrow> byte list res" where
  "read_at p n = (if n \<le> length p then Inr (take n p) else Inl (Undefined ''read outside of buffer''))"

text \<open>The body of the loop after the header was written: \<open>payload\<close> is what is left of the payload.\<close>

definition frag_body :: "nat \<Rightarrow> byte list option \<Rightarrow> byte list option \<Rightarrow> nat \<Rightarrow> nat \<Rightarrow> cEthernetPacket
    \<Rightarrow> (cEthernetPacket \<times> nat) res" where
  "frag_body n l4header payload payloadLen fragLen p =
     (if n = 0 then
        let fragLen = szsub fragLen (null_length l4header)
        in bindE (case l4header of
               Some l4 \<Rightarrow> if length l4 \<noteq> 0 then appendPayload p l4 else Inr p | None \<Rightarrow> Inr p) (\<lambda>p.
           bindE (case payload of
               Some d \<Rightarrow> if payloadLen \<noteq> 0 then bindE (read_at d fragLen) (appendPayload p) else Inr p
             | None \<Rightarrow> Inr p) (\<lambda>p. Inr (p, fragLen)))
      else bindE (case payload of
               Some d \<Rightarrow> bindE (read_at d fragLen) (appendPayload p)
             | None \<Rightarrow> if fragLen = 0 then appendPayload p [] else Inl (Undefined ''null pointer'')) (\<lambda>p.
           Inr (p, fragLen)))"

definition v4_fragment :: "cIPPacket \<Rightarrow> byte \<Rightarrow> byte list option \<Rightarrow> u16 \<Rightarrow> nat \<Rightarrow> nat \<Rightarrow> nat
    \<Rightarrow> byte list option \<Rightarrow> nat \<Rightarrow> nat \<Rightarrow> cEthernetPacket
    \<Rightarrow> (cEthernetPacket \<times> byte list option \<times> nat \<times> nat) res" where
  "v4_fragment ip proto l4header ipId fragCnt pcnt n payload payloadLen offset p =
     (let hl = getHeaderLength ip;
          l4len = null_length l4header;
          fragLen = frag_len (ip_mtu ip) hl n pcnt l4len payloadLen
      in bindE (if n < fragCnt then Inr () else Inl (Undefined ''write outside of m_packetsAsArray'')) (\<lambda>_.
         bindE (ipv4_header_compile (v4_srcIP ip) (v4_dstIP ip) (ucast (m_ttl ip)) proto (m_dscp ip)
                  (m_ecn ip) (dontFragment ip) (n + 1 \<noteq> fragCnt) (offset mod 2 ^ 32) hl
                  (of_nat (hl + fragLen)) ipId (hasRouterAlertOption ip) (hasChksum ip)
                  (v4_chksum ip)) (\<lambda>header.
         bindE (setPayload (take hl (ipv4_header_bytes header)) p) (\<lambda>p.
         bindE (frag_body n l4header payload payloadLen fragLen p) (\<lambda>(p, fragLen).
         Inr (p, map_option (drop fragLen) payload, szsub payloadLen fragLen,
              (if n = 0 then offset + fragLen + l4len else offset + fragLen)))))))"

fun v4_loop :: "cIPPacket \<Rightarrow> byte \<Rightarrow> byte list option \<Rightarrow> u16 \<Rightarrow> nat \<Rightarrow> nat \<Rightarrow> nat
    \<Rightarrow> byte list option \<Rightarrow> nat \<Rightarrow> nat \<Rightarrow> cEthernetPacket list \<Rightarrow> cEthernetPacket list res" where
  "v4_loop ip proto l4header ipId fragCnt pcnt n payload payloadLen offset [] = Inr []"
| "v4_loop ip proto l4header ipId fragCnt pcnt n payload payloadLen offset (p # ps) =
     bindE (v4_fragment ip proto l4header ipId fragCnt pcnt n payload payloadLen offset p)
       (\<lambda>(p, payload, payloadLen, offset).
     bindE (v4_loop ip proto l4header ipId fragCnt pcnt (n + 1) payload payloadLen offset ps) (\<lambda>ps.
     Inr (p # ps)))"

definition v4compile :: "byte \<Rightarrow> byte list option \<Rightarrow> byte list option \<Rightarrow> cIPPacket
    \<Rightarrow> ('z env_scheme, cIPPacket) M" where
  "v4compile proto l4header payload ip =
     (let l4len = null_length l4header; plen = null_length payload; hl = getHeaderLength ip
      in if sz (l4len + plen + hl) > 65535 then throwM rangeError
         else bindM (liftE (frag_count (ip_mtu ip) hl (l4len + plen))) (\<lambda>fragCnt.
              bindM (liftE (bugOn (l4len > szsub (ip_mtu ip) hl) ''l4headerLen > m_mtu - ipHeaderLen'')) (\<lambda>_.
              bindM (liftE (if \<not> hasDMAC (hd (m_packets ip)) \<and> ipv4_isMulticast (v4_dstIP ip)
                then onFirstPacket (setDestMac [1, 0, 0x5e, v4_dstIP ip ! 1 AND 0x7f,
                       v4_dstIP ip ! 2, v4_dstIP ip ! 3]) ip
                else Inr ip)) (\<lambda>ip.
              bindM (if fragCnt > 1 \<and> \<not> hasId ip
                then bindM (getM nextIdentification) (\<lambda>i.
                     bindM (modifyM (\<lambda>s. s\<lparr>nextIdentification := i + 1\<rparr>)) (\<lambda>_. returnM i))
                else returnM (identification ip)) (\<lambda>ipId.
              bindM (getM junk_of) (\<lambda>junk.
              bindM (liftE (mapE (\<lambda>_. eth_copy junk (hd (m_packets ip))) [1..<fragCnt])) (\<lambda>copies.
              let ps = m_packets ip @ copies
              in bindM (liftE (v4_loop ip proto l4header ipId fragCnt (length ps) 0 payload plen 0 ps)) (\<lambda>ps.
                 returnM (ip\<lparr>m_packets := ps\<rparr>)))))))))"

definition v6_fragment :: "cIPPacket \<Rightarrow> byte \<Rightarrow> byte list option \<Rightarrow> nat \<Rightarrow> nat \<Rightarrow> nat
    \<Rightarrow> byte list option \<Rightarrow> nat \<Rightarrow> cEthernetPacket \<Rightarrow> (cEthernetPacket \<times> byte list option \<times> nat) res" where
  "v6_fragment ip proto l4header fragCnt pcnt n payload payloadLen p =
     (let hl = getHeaderLength ip;
          l4len = null_length l4header;
          fragLen = frag_len (ip_mtu ip) hl n pcnt l4len payloadLen
      in bindE (if n < fragCnt then Inr () else Inl (Undefined ''write outside of m_packetsAsArray'')) (\<lambda>_.
         let header = ipv6_header_compile (v6_srcIP ip) (v6_dstIP ip) (ucast (m_ttl ip)) proto
               (m_dscp ip) (m_ecn ip) (flowlabel ip) (of_nat fragLen)
         in bindE (setPayload (take hl (ipv6_header_bytes header)) p) (\<lambda>p.
            bindE (frag_body n l4header payload payloadLen fragLen p) (\<lambda>(p, fragLen).
            Inr (p, map_option (drop fragLen) payload, szsub payloadLen fragLen)))))"

fun v6_loop :: "cIPPacket \<Rightarrow> byte \<Rightarrow> byte list option \<Rightarrow> nat \<Rightarrow> nat \<Rightarrow> nat
    \<Rightarrow> byte list option \<Rightarrow> nat \<Rightarrow> cEthernetPacket list \<Rightarrow> cEthernetPacket list res" where
  "v6_loop ip proto l4header fragCnt pcnt n payload payloadLen [] = Inr []"
| "v6_loop ip proto l4header fragCnt pcnt n payload payloadLen (p # ps) =
     bindE (v6_fragment ip proto l4header fragCnt pcnt n payload payloadLen p)
       (\<lambda>(p, payload, payloadLen).
     bindE (v6_loop ip proto l4header fragCnt pcnt (n + 1) payload payloadLen ps) (\<lambda>ps.
     Inr (p # ps)))"

definition v6compile :: "byte \<Rightarrow> byte list option \<Rightarrow> byte list option \<Rightarrow> cIPPacket
    \<Rightarrow> ('z env_scheme, cIPPacket) M" where
  "v6compile proto l4header payload ip =
     (let l4len = null_length l4header; plen = null_length payload; hl = getHeaderLength ip
      in if sz (l4len + plen + hl) > 65535 then throwM rangeError
         else bindM (liftE (frag_count (ip_mtu ip) hl (l4len + plen))) (\<lambda>fragCnt.
              bindM (liftE (bugOn (fragCnt > 1) ''fragCnt > 1'')) (\<lambda>_.
              bindM (liftE (bugOn (l4len > szsub (ip_mtu ip) hl) ''l4headerLen > m_mtu - ipHeaderLen'')) (\<lambda>_.
              bindM (getM junk_of) (\<lambda>junk.
              bindM (liftE (mapE (\<lambda>_. eth_copy junk (hd (m_packets ip))) [1..<fragCnt])) (\<lambda>copies.
              let ps = m_packets ip @ copies
              in bindM (liftE (v6_loop ip proto l4header fragCnt (length ps) 0 payload plen ps)) (\<lambda>ps.
                 returnM (ip\<lparr>m_packets := ps\<rparr>))))))))"

definition ip_compile :: "byte \<Rightarrow> byte list option \<Rightarrow> byte list option \<Rightarrow> cIPPacket
    \<Rightarrow> ('z env_scheme, cIPPacket) M" where
  "ip_compile proto l4header payload ip =
     (if m_isIPv6 ip then v6compile proto l4header payload ip else v4compile proto l4header payload ip)"

subsection \<open>The IPv4 header\<close>

text \<open>
  The header a receiver sees: version 4, header length in words, and the fields in network order.
\<close>

lemma ipv4_header_layout:
  assumes "ipv4_header_compile src dst t proto dscp ecn df mf offset hl len ipId ra man mv = Inr h"
    and "hl = (if ra then 24 else 20)"
  shows "ipv4_header_bytes h =
    [if ra then 0x46 else 0x45, ucast (push_bit 2 (dscp AND 0x3F) OR (ecn AND 0x03))]
    @ be16 len @ be16 ipId
    @ be16 ((if df then 0x4000 else 0) OR (if mf then 0x2000 else 0) OR (of_nat (offset div 8) AND 0x1fff))
    @ [ucast t, proto] @ mem16 (chksum h) @ src @ dst @ (if ra then [0x94, 4, 0, 0] else [])"
proof -
  let ?H = "\<lparr>vers_ihl = push_bit 4 4 OR (of_nat (hl div 4) AND 0x0f),
           tos = ucast (push_bit 2 (dscp AND 0x3F) OR (ecn AND 0x03)),
           totalLength = htons len, ident = htons ipId,
           flags_offset = htons ((if df then 0x4000 else 0) OR (if mf then 0x2000 else 0)
              OR (of_nat (offset div 8) AND 0x1fff)),
           ttl = ucast t, protocol = proto, chksum = 0, srcIp = src, dstIp = dst,
           routerAlert = (if ra then [0x94, 4] @ mem16 0 else [])\<rparr>"
  have "\<exists>c. h = ?H\<lparr>chksum := c\<rparr>"
    using assms(1) unfolding ipv4_header_compile_def Let_def by (cases man) auto
  then obtain c where h: "h = ?H\<lparr>chksum := c\<rparr>" by blast
  have v: "push_bit 4 4 OR (of_nat (hl div 4) AND 0x0f) = (if ra then 0x46 else 0x45 :: byte)"
    using assms(2) by (cases ra) simp_all
  have r: "(if ra then [0x94, 4] @ mem16 0 else []) = (if ra then [0x94, 4, 0, 0] else [])"
    by (simp add: mem16_def)
  show ?thesis unfolding h ipv4_header_bytes_def v r
    by (simp only: ipv4_header_t.simps mem16_htons append_assoc append.simps)
qed

lemma ipv4_header_exists:
  assumes "offset mod 8 = 0" and "hl \<le> 2 ^ 17"
  shows "\<exists>h. ipv4_header_compile src dst t proto dscp ecn df mf offset hl len ipId ra man mv = Inr h"
proof (cases man)
  case True
  then show ?thesis using assms(1) by (simp add: ipv4_header_compile_def Let_def)
next
  case False
  have "\<exists>v. rfc1071_one (Some (0, take hl b)) = Inr v" for b
  proof -
    have "length (take hl b) \<le> 2 ^ 17" using assms(2) by simp
    then show ?thesis using rfc1071_one_value by blast
  qed
  then show ?thesis
    using assms(1) False by (simp add: ipv4_header_compile_def Let_def bindE_Inr_iff)
qed

lemma ipv4_header_total:
  assumes "offset mod 8 = 0" and "length src = 4" and "length dst = 4"
    and hl: "hl = (if ra then 24 else 20)"
  obtains h where "ipv4_header_compile src dst t proto dscp ecn df mf offset hl len ipId ra man mv = Inr h"
    and "length (ipv4_header_bytes h) = hl"
proof -
  have "hl \<le> 2 ^ 17" using hl by simp
  then obtain h where h: "ipv4_header_compile src dst t proto dscp ecn df mf offset hl len ipId ra man mv = Inr h"
    using ipv4_header_exists [OF assms(1)] by blast
  have "length (ipv4_header_bytes h) = hl"
    unfolding ipv4_header_layout [OF h hl] using assms(2-4) by simp
  with h show thesis by (rule that)
qed

lemma ipv4_header_checksum:
  assumes "ipv4_header_compile src dst t proto dscp ecn df mf offset hl len ipId ra False mv = Inr h"
    and "length src = 4" and "length dst = 4" and "hl = (if ra then 24 else 20)"
  shows "csum_at (ipv4_header_bytes h) = Inr 0"
proof -
  let ?a = "[vers_ihl h, tos h] @ mem16 (totalLength h) @ mem16 (ident h)
     @ mem16 (flags_offset h) @ [ttl h, protocol h]"
  let ?b = "srcIp h @ dstIp h @ routerAlert h"
  have split: "ipv4_header_bytes (h\<lparr>chksum := c\<rparr>) = ?a @ mem16 c @ ?b" for c
    by (simp add: ipv4_header_bytes_def)
  have len: "length ?b = hl - 12"
    using assms by (auto simp: ipv4_header_compile_def Let_def)
  have c: "rfc1071_one (Some (0, take hl (ipv4_header_bytes (h\<lparr>chksum := 0\<rparr>)))) = Inr (chksum h)"
    using assms(1) by (auto simp: ipv4_header_compile_def Let_def)
  have z: "mem16 0 = [0, 0]" by (simp add: mem16_def)
  have "csum_at (?a @ [0, 0] @ ?b) = Inr (chksum h)"
    using c len assms(4) unfolding split z csum_at_def by (simp split: if_splits)
  moreover have "even (length ?a)" by simp
  moreover have "length (?a @ [0, 0] @ ?b) \<le> 2 ^ 17"
    using len assms(4) by simp
  ultimately have "csum_at (?a @ mem16 (chksum h) @ ?b) = Inr 0"
    using inet.verifies by blast
  then show ?thesis using split [of "chksum h"] by simp
qed

subsection \<open>Fragments of a datagram\<close>

text \<open>
  The specification: with \<open>M = mtu - header\<close>, fragment \<open>i\<close> of \<open>cnt\<close> carries \<open>chunk M cnt i data\<close> at
  offset \<open>i * M8\<close>, where \<open>M8\<close> is \<open>M\<close> rounded down to a multiple of eight.
\<close>

definition opt_bytes :: "byte list option \<Rightarrow> byte list" where
  "opt_bytes p = (case p of None \<Rightarrow> [] | Some bs \<Rightarrow> bs)"

definition chunk :: "nat \<Rightarrow> nat \<Rightarrow> nat \<Rightarrow> byte list \<Rightarrow> byte list" where
  "chunk M cnt i data = take (if i + 1 = cnt then M else M div 8 * 8) (drop (i * (M div 8 * 8)) data)"

definition v4_header :: "cIPPacket \<Rightarrow> byte \<Rightarrow> u16 \<Rightarrow> bool \<Rightarrow> nat \<Rightarrow> nat \<Rightarrow> byte list" where
  "v4_header ip proto ipId mf offset len =
     (case ipv4_header_compile (v4_srcIP ip) (v4_dstIP ip) (ucast (m_ttl ip)) proto (m_dscp ip)
         (m_ecn ip) (dontFragment ip) mf offset (getHeaderLength ip)
         (of_nat (getHeaderLength ip + len)) ipId (hasRouterAlertOption ip) (hasChksum ip) (v4_chksum ip)
      of Inl _ \<Rightarrow> [] | Inr h \<Rightarrow> ipv4_header_bytes h)"

definition v4_fragment_frame :: "cIPPacket \<Rightarrow> byte \<Rightarrow> u16 \<Rightarrow> nat \<Rightarrow> nat \<Rightarrow> byte list \<Rightarrow> nat \<Rightarrow> frame \<Rightarrow> frame" where
  "v4_fragment_frame ip proto ipId M cnt data i f =
     (let c = chunk M cnt i data
      in f\<lparr>f_payload := v4_header ip proto ipId (i + 1 \<noteq> cnt) (i * (M div 8 * 8)) (length c) @ c\<rparr>)"

lemma v4_header_ok:
  assumes "\<not> m_isIPv6 ip" and "length (v4_srcIP ip) = 4" and "length (v4_dstIP ip) = 4"
    and "offset mod 8 = 0"
  shows "\<exists>h. ipv4_header_compile (v4_srcIP ip) (v4_dstIP ip) (ucast (m_ttl ip)) proto (m_dscp ip)
         (m_ecn ip) (dontFragment ip) mf offset (getHeaderLength ip)
         (of_nat (getHeaderLength ip + len)) ipId (hasRouterAlertOption ip) (hasChksum ip) (v4_chksum ip)
      = Inr h \<and> take (getHeaderLength ip) (ipv4_header_bytes h) = v4_header ip proto ipId mf offset len
      \<and> length (v4_header ip proto ipId mf offset len) = getHeaderLength ip"
proof -
  have hl: "getHeaderLength ip = (if hasRouterAlertOption ip then 24 else 20)"
    using assms(1) by (simp add: getHeaderLength_def)
  obtain h where h: "ipv4_header_compile (v4_srcIP ip) (v4_dstIP ip) (ucast (m_ttl ip)) proto (m_dscp ip)
         (m_ecn ip) (dontFragment ip) mf offset (getHeaderLength ip)
         (of_nat (getHeaderLength ip + len)) ipId (hasRouterAlertOption ip) (hasChksum ip) (v4_chksum ip)
      = Inr h" "length (ipv4_header_bytes h) = getHeaderLength ip"
    by (rule ipv4_header_total [OF assms(4,2,3) hl])
  then show ?thesis by (intro exI [of _ h]) (simp add: v4_header_def)
qed

lemma opt_bytes_length: "length (opt_bytes p) = null_length p"
  by (simp add: opt_bytes_def null_length_def split: option.splits)

lemma append_holds:
  assumes "holds q (f\<lparr>f_payload := H\<rparr>)"
    and "14 + length (f_tags f) + length (f_llc f) + length H + length a \<le> packetMaxLength q"
  obtains q' where "appendPayload q a = Inr q'" "holds q' (f\<lparr>f_payload := H @ a\<rparr>)"
    "packetMaxLength q' = packetMaxLength q"
proof -
  have shape: "length (f_dest f) = 6" "length (f_src f) = 6" "length (f_type f) = 2"
    and max: "packetMaxLength q < 2 ^ 63"
    using assms(1) by (auto simp: holds_def frame_shape_def)
  have "length a < 2 ^ 63" using assms(2) max by linarith
  from appendPayload_holds [OF assms(1) this] that show thesis
    using assms(2) shape by (auto simp: frame_bytes_def)
qed

lemma append_unless_holds:
  assumes "holds q (f\<lparr>f_payload := H\<rparr>)"
    and "14 + length (f_tags f) + length (f_llc f) + length H + length a \<le> packetMaxLength q"
    and "\<not> b \<Longrightarrow> a = []"
  obtains q' where "(if b then appendPayload q a else Inr q) = Inr q'"
    "holds q' (f\<lparr>f_payload := H @ a\<rparr>)" "packetMaxLength q' = packetMaxLength q"
proof (cases b)
  case True
  then show thesis using append_holds [OF assms(1,2)] that by auto
next
  case False
  then show thesis using assms(1,3) that [of q] by simp
qed

text \<open>The loop body appends what it reads of the L4 header and the payload.\<close>

lemma frag_body_holds:
  assumes "holds q (f\<lparr>f_payload := H\<rparr>)"
    and "14 + length (f_tags f) + length (f_llc f) + length H + fragLen \<le> packetMaxLength q"
    and "plen = null_length payload" and "fragLen < 2 ^ 64"
    and "d = (if n = 0 then fragLen - null_length l4header else fragLen)"
    and "n = 0 \<Longrightarrow> null_length l4header \<le> fragLen" and "d \<le> plen"
    and "c = (if n = 0 then opt_bytes l4header else []) @ take d (opt_bytes payload)"
  obtains q' where "frag_body n l4header payload plen fragLen q = Inr (q', d)"
    and "holds q' (f\<lparr>f_payload := H @ c\<rparr>)" and "packetMaxLength q' = packetMaxLength q"
proof (cases "n = 0")
  case True
  let ?l = "opt_bytes l4header" and ?t = "take d (opt_bytes payload)"
  have d: "szsub fragLen (null_length l4header) = d" "length ?l + d = fragLen"
    using assms(4-6) True by (simp_all add: szsub_id opt_bytes_length)
  have ld: "length ?t = d" using assms(3,7) by (simp add: opt_bytes_length)
  obtain q1 where q1: "(if ?l \<noteq> [] then appendPayload q ?l else Inr q) = Inr q1"
    "holds q1 (f\<lparr>f_payload := H @ ?l\<rparr>)" "packetMaxLength q1 = packetMaxLength q"
    using append_unless_holds [OF assms(1), of ?l "?l \<noteq> []"] assms(2) d by auto
  obtain q2 where q2: "(if plen \<noteq> 0 then appendPayload q1 ?t else Inr q1) = Inr q2"
    "holds q2 (f\<lparr>f_payload := (H @ ?l) @ ?t\<rparr>)" "packetMaxLength q2 = packetMaxLength q"
    using append_unless_holds [OF q1(2), of ?t "plen \<noteq> 0"] assms(2,7) d ld q1(3) by auto
  have "frag_body n l4header payload plen fragLen q = Inr (q2, d)"
    using True d q1(1) q2(1) assms(3,7)
    by (cases l4header; cases payload)
       (auto simp: frag_body_def opt_bytes_def null_length_def read_at_def split: if_splits)
  with q2 show thesis using that [of q2] assms(8) True by simp
next
  case False
  have c: "c = take d (opt_bytes payload)" "length c = fragLen" "d = fragLen"
    using assms(3,5,7,8) False by (simp_all add: opt_bytes_length)
  obtain q' where q': "appendPayload q c = Inr q'" "holds q' (f\<lparr>f_payload := H @ c\<rparr>)"
    "packetMaxLength q' = packetMaxLength q"
    using append_holds [OF assms(1), of c] assms(2) c(2) by auto
  have "frag_body n l4header payload plen fragLen q = Inr (q', d)"
    using False c q'(1) assms(3,7)
    by (cases payload) (auto simp: frag_body_def opt_bytes_def null_length_def read_at_def)
  with q' that show thesis by blast
qed

text \<open>Where the loop stands before fragment \<open>i\<close>.\<close>

lemma chunk_facts:
  assumes "0 < length data" and "8 \<le> M" and "cnt = (length data - 1) div M + 1" and "i < cnt"
  defines "M8 \<equiv> M div 8 * 8"
  shows "i * M8 < length data"
    and "i + 1 < cnt \<Longrightarrow> M < length data - i * M8"
    and "length (chunk M cnt i data) = (if i + 1 = cnt then min M (length data - i * M8) else M8)"
    and "cnt = 1 \<longleftrightarrow> length data \<le> M"
proof -
  have M8: "M8 \<le> M" unfolding M8_def by simp
  have c: "(cnt - 1) * M \<le> length data - 1" using assms(3) by simp
  have iM: "i * M8 \<le> i * M" using M8 by simp
  have "i \<le> cnt - 1" using assms(4) by simp
  then have "i * M \<le> (cnt - 1) * M" by (rule mult_le_mono1)
  with c iM assms(1) show lt: "i * M8 < length data" by linarith
  show mid: "M < length data - i * M8" if "i + 1 < cnt"
  proof -
    have "(i + 1) * M \<le> (cnt - 1) * M" using that by (intro mult_right_mono) simp_all
    moreover have "(i + 1) * M = i * M + M" by simp
    ultimately have "i * M8 + M < length data" using c iM assms(1) by linarith
    then show ?thesis by linarith
  qed
  show "length (chunk M cnt i data) = (if i + 1 = cnt then min M (length data - i * M8) else M8)"
    using mid M8 assms(4) unfolding chunk_def M8_def [symmetric] by auto
  show "cnt = 1 \<longleftrightarrow> length data \<le> M"
  proof -
    have "cnt = 1 \<longleftrightarrow> (length data - 1) div M = 0" using assms(3) by simp
    also have "\<dots> \<longleftrightarrow> length data - 1 < M" using assms(2) by (simp add: div_eq_0_iff)
    finally show ?thesis using assms(1,2) by auto
  qed
qed

lemma frag_len_nowrap:
  assumes "l4 + pl + hl < 2 ^ 64" and "hl \<le> mtu" and "mtu < 2 ^ 64"
  shows "frag_len mtu hl i cnt l4 pl =
    (let n = min (mtu - hl) (if i = 0 then l4 + pl else pl)
     in if i + 1 \<noteq> cnt then n div 8 * 8 else n)"
proof -
  have M: "szsub mtu hl = mtu - hl" using assms(2,3) by (rule szsub_id)
  have [simp]: "sz (l4 + pl + hl) = l4 + pl + hl" "sz (l4 + pl) = l4 + pl" "sz (pl + hl) = pl + hl"
    using assms(1) by simp_all
  show ?thesis unfolding frag_len_def M Let_def by (auto simp: min_def)
qed

lemma frag_len_chunk:
  assumes "0 < length data" and "8 \<le> M" and "cnt = (length data - 1) div M + 1" and "i < cnt"
    and "mtu = M + hl" and "length data + hl < 2 ^ 32" and "mtu < 2 ^ 32"
    and "l4 \<le> length data" and "0 < i \<Longrightarrow> l4 + pl \<le> length data \<and> pl = length data - i * (M div 8 * 8)"
    and "i = 0 \<Longrightarrow> l4 + pl = length data"
  shows "frag_len mtu hl i cnt l4 pl = length (chunk M cnt i data)"
proof -
  let ?r = "length data - i * (M div 8 * 8)"
  note f = chunk_facts [OF assms(1-4)]
  have n: "(if i = 0 then l4 + pl else pl) = ?r" using assms(9,10) by (cases "i = 0") auto
  have "l4 + pl + hl < 2 ^ 64" using assms(6,9,10) by (cases "i = 0") auto
  then have "frag_len mtu hl i cnt l4 pl = (let n = min M ?r in if i + 1 \<noteq> cnt then n div 8 * 8 else n)"
    using frag_len_nowrap [of l4 pl hl mtu i cnt] assms(5,7) n by simp
  also have "\<dots> = length (chunk M cnt i data)"
  proof (cases "i + 1 = cnt")
    case True
    then show ?thesis using f(3) by simp
  next
    case False
    then have "M < ?r" using f(2) assms(4) by simp
    then have "min M ?r = M" by simp
    with False f(3) show ?thesis by simp
  qed
  finally show ?thesis .
qed

definition frag_state :: "byte list option \<Rightarrow> byte list \<Rightarrow> nat \<Rightarrow> nat \<Rightarrow> byte list option \<Rightarrow> nat \<Rightarrow> nat \<Rightarrow> bool" where
  "frag_state l4header data M i payload plen offset \<longleftrightarrow>
     offset = i * (M div 8 * 8) \<and> plen = null_length payload
     \<and> (if i = 0 then opt_bytes l4header @ opt_bytes payload = data
        else opt_bytes payload = drop (i * (M div 8 * 8)) data)"

text \<open>
  What the callers of \<open>compile\<close> provide: an IPv4 packet whose L4 header fits the first fragment, and
  Ethernet packets with room for the MTU.
\<close>

definition frag_setup :: "cIPPacket \<Rightarrow> byte list option \<Rightarrow> byte list \<Rightarrow> nat \<Rightarrow> nat \<Rightarrow> bool" where
  "frag_setup ip l4header data M cnt \<longleftrightarrow>
     \<not> m_isIPv6 ip \<and> length (v4_srcIP ip) = 4 \<and> length (v4_dstIP ip) = 4
     \<and> ip_mtu ip = M + getHeaderLength ip \<and> 8 \<le> M \<and> ip_mtu ip < 2 ^ 32
     \<and> 0 < length data \<and> length data + getHeaderLength ip \<le> 65535
     \<and> null_length l4header \<le> M div 8 * 8 \<and> null_length l4header \<le> length data
     \<and> cnt = (length data - 1) div M + 1"

lemma v4_fragment_step:
  assumes su: "frag_setup ip l4header data M cnt" and st: "frag_state l4header data M i payload plen offset"
    and i: "i < cnt" and p: "holds p f"
    and room: "14 + length (f_tags f) + length (f_llc f) + ip_mtu ip \<le> packetMaxLength p"
  shows "\<exists>q payload' plen' offset'.
    v4_fragment ip proto l4header ipId cnt cnt i payload plen offset p = Inr (q, payload', plen', offset')
    \<and> holds q (v4_fragment_frame ip proto ipId M cnt data i f)
    \<and> (i + 1 < cnt \<longrightarrow> frag_state l4header data M (i + 1) payload' plen' offset')"
proof -
  let ?M8 = "M div 8 * 8" and ?hl = "getHeaderLength ip" and ?c = "chunk M cnt i data"
  let ?l4 = "null_length l4header"
  note su' = su [unfolded frag_setup_def]
  have cs: "0 < length data" "8 \<le> M" "cnt = (length data - 1) div M + 1" using su' by auto
  note f = chunk_facts [OF cs i]
  have off: "offset = i * ?M8" and pl: "plen = null_length payload"
    using st by (auto simp: frag_state_def)
  have l4: "?l4 \<le> ?M8" "?l4 \<le> length data" using su' by auto
  have data: "(if i = 0 then opt_bytes l4header else []) @ opt_bytes payload = drop (i * ?M8) data"
    using st by (auto simp: frag_state_def)
  then have ld: "(if i = 0 then ?l4 else 0) + plen = length data - i * ?M8"
    unfolding pl by (auto simp: opt_bytes_length [symmetric] dest!: arg_cong [of _ _ length])
  have iM: "0 < i \<Longrightarrow> ?M8 \<le> i * ?M8" by simp
  have len: "frag_len (ip_mtu ip) ?hl i cnt ?l4 plen = length ?c"
  proof (rule frag_len_chunk [OF cs i])
    show "0 < i \<Longrightarrow> ?l4 + plen \<le> length data \<and> plen = length data - i * ?M8"
    proof -
      assume "0 < i"
      with ld have pl': "plen = length data - i * ?M8" by simp
      have "?l4 \<le> i * ?M8" using iM [OF \<open>0 < i\<close>] l4(1) by linarith
      with pl' f(1) show ?thesis by linarith
    qed
    show "i = 0 \<Longrightarrow> ?l4 + plen = length data" using ld by simp
  qed (use su' l4 in auto)
  have cM: "length ?c \<le> M" using f(3) by (auto split: if_splits)
  have first: "i = 0 \<Longrightarrow> ?l4 \<le> length ?c"
    using f(3) l4 cs(2) i by (auto split: if_splits)
  define d where "d = (if i = 0 then length ?c - ?l4 else length ?c)"
  have "length ?c \<le> length data - i * ?M8" unfolding chunk_def by simp
  then have dp: "d \<le> plen" using ld first unfolding d_def by (auto split: if_splits)
  have c: "?c = (if i = 0 then opt_bytes l4header else []) @ take d (opt_bytes payload)"
  proof -
    have "?c = take (length ?c) (drop (i * ?M8) data)" unfolding chunk_def by (simp add: min_def)
    then show ?thesis using first unfolding data [symmetric] d_def
      by (auto simp: opt_bytes_length split: if_splits)
  qed
  have small: "offset < 2 ^ 32" using f(1) off su' by simp
  have "offset mod 8 = 0" unfolding off by simp
  with small have o8: "offset mod 2 ^ 32 mod 8 = 0" by simp
  let ?H = "v4_header ip proto ipId (i + 1 \<noteq> cnt) offset (length ?c)"
  obtain h where h: "ipv4_header_compile (v4_srcIP ip) (v4_dstIP ip) (ucast (m_ttl ip)) proto (m_dscp ip)
         (m_ecn ip) (dontFragment ip) (i + 1 \<noteq> cnt) offset ?hl
         (of_nat (?hl + length ?c)) ipId (hasRouterAlertOption ip) (hasChksum ip) (v4_chksum ip) = Inr h"
    "take ?hl (ipv4_header_bytes h) = ?H" "length ?H = ?hl"
    using v4_header_ok [of ip offset] su' \<open>offset mod 8 = 0\<close> by metis
  have room': "14 + length (f_tags f) + length (f_llc f) + length ?H + length ?c \<le> packetMaxLength p"
    using room cM h(3) su' by simp
  have sh: "length (f_dest f) = 6" "length (f_src f) = 6" "length (f_type f) = 2"
    using p by (auto simp: holds_def frame_shape_def)
  have "?hl < 2 ^ 63" by (simp add: getHeaderLength_def)
  with h(3) have "length ?H < 2 ^ 63" by simp
  from setPayload_holds [OF p this] room' sh obtain q where q: "setPayload ?H p = Inr q"
    "holds q (f\<lparr>f_payload := ?H\<rparr>)" "packetMaxLength q = packetMaxLength p"
    by (auto simp: frame_bytes_def)
  have "length ?c < 2 ^ 64" using cM su' by simp
  then obtain q' where q': "frag_body i l4header payload plen (length ?c) q = Inr (q', d)"
    "holds q' (f\<lparr>f_payload := ?H @ ?c\<rparr>)"
    using frag_body_holds [OF q(2) _ pl _ d_def first dp c] room' q(3) by auto
  let ?off = "if i = 0 then offset + d + ?l4 else offset + d"
  have r: "v4_fragment ip proto l4header ipId cnt cnt i payload plen offset p
      = Inr (q', map_option (drop d) payload, szsub plen d, ?off)"
    unfolding v4_fragment_def Let_def len
    using i h q(1) q'(1) small by simp
  have fr: "holds q' (v4_fragment_frame ip proto ipId M cnt data i f)"
    using q'(2) off by (simp add: v4_fragment_frame_def Let_def)
  have nx: "frag_state l4header data M (i + 1) (map_option (drop d) payload) (szsub plen d) ?off"
    if "i + 1 < cnt"
  proof -
    have lc: "length ?c = ?M8" using f(3) that by simp
    have "plen < 2 ^ 64" using ld su' by (auto split: if_splits)
    then have pn: "szsub plen d = null_length (map_option (drop d) payload)"
      using dp unfolding pl by (simp add: szsub_id) (simp add: null_length_def split: option.splits)
    have "opt_bytes (map_option (drop d) payload) = drop d (opt_bytes payload)"
      by (simp add: opt_bytes_def split: option.splits)
    also have "\<dots> = drop (length ?c) (drop (i * ?M8) data)"
      unfolding data [symmetric] d_def using first by (auto simp: opt_bytes_length)
    finally have ob: "opt_bytes (map_option (drop d) payload) = drop ((i + 1) * ?M8) data"
      by (simp add: lc add.commute)
    have "?off = (i + 1) * ?M8" using first lc off by (cases "i = 0") (simp_all add: d_def)
    with pn ob show ?thesis by (simp add: frag_state_def)
  qed
  from r fr nx show ?thesis by blast
qed

lemma v4_loop_frames:
  assumes "frag_setup ip l4header data M cnt" and "i + length ps = cnt"
    and "i < cnt \<Longrightarrow> frag_state l4header data M i payload plen offset"
    and "\<forall>p\<in>set ps. holds p f \<and> 14 + length (f_tags f) + length (f_llc f) + ip_mtu ip \<le> packetMaxLength p"
  shows "\<exists>qs. v4_loop ip proto l4header ipId cnt cnt i payload plen offset ps = Inr qs
    \<and> list_all2 (\<lambda>k q. holds q (v4_fragment_frame ip proto ipId M cnt data k f)) [i..<cnt] qs"
  using assms(2-4)
proof (induction ps arbitrary: i payload plen offset)
  case Nil
  then show ?case by simp
next
  case (Cons p ps)
  have i: "i < cnt" using Cons.prems(1) by simp
  have st: "frag_state l4header data M i payload plen offset" using Cons.prems(2) i .
  have p: "holds p f" "14 + length (f_tags f) + length (f_llc f) + ip_mtu ip \<le> packetMaxLength p"
    using Cons.prems(3) by simp_all
  obtain q payload' plen' offset' where q:
    "v4_fragment ip proto l4header ipId cnt cnt i payload plen offset p = Inr (q, payload', plen', offset')"
    "holds q (v4_fragment_frame ip proto ipId M cnt data i f)"
    "i + 1 < cnt \<longrightarrow> frag_state l4header data M (i + 1) payload' plen' offset'"
    using v4_fragment_step [OF assms(1) st i p] by blast
  have "i + 1 + length ps = cnt" using Cons.prems(1) by simp
  from Cons.IH [OF this, of payload' plen' offset'] q(3) Cons.prems(3) obtain qs where qs:
    "v4_loop ip proto l4header ipId cnt cnt (i + 1) payload' plen' offset' ps = Inr qs"
    "list_all2 (\<lambda>k q. holds q (v4_fragment_frame ip proto ipId M cnt data k f)) [i + 1..<cnt] qs"
    by auto
  have "[i..<cnt] = i # [i + 1..<cnt]" using i by (simp add: upt_conv_Cons)
  with q qs show ?case by simp
qed

definition multicast_mac :: "cIPPacket \<Rightarrow> byte list" where
  "multicast_mac ip = [1, 0, 0x5e, v4_dstIP ip ! 1 AND 0x7f, v4_dstIP ip ! 2, v4_dstIP ip ! 3]"

definition with_multicast :: "cIPPacket \<Rightarrow> bool \<Rightarrow> frame \<Rightarrow> frame" where
  "with_multicast ip dmac f =
     (if \<not> dmac \<and> ipv4_isMulticast (v4_dstIP ip) then f\<lparr>f_dest := multicast_mac ip\<rparr> else f)"

lemma copies_hold:
  assumes "holds p f" and "packetMaxLength p < 2 ^ 62"
  shows "\<exists>ps. mapE (\<lambda>_. eth_copy junk p) ns = Inr ps \<and> length ps = length ns
    \<and> (\<forall>q\<in>set ps. holds q f \<and> packetMaxLength q = packetMaxLength p)"
proof (induction ns)
  case (Cons n ns)
  then obtain ps where ps: "mapE (\<lambda>_. eth_copy junk p) ns = Inr ps" "length ps = length ns"
    "\<forall>q\<in>set ps. holds q f \<and> packetMaxLength q = packetMaxLength p" by blast
  obtain q where "eth_copy junk p = Inr q" "holds q f" "packetMaxLength q = packetMaxLength p"
    using eth_copy_holds [OF assms] by blast
  with ps show ?case by (intro exI [of _ "q # ps"]) simp
qed simp

lemma frag_count_setup:
  assumes "frag_setup ip l4header data M cnt"
  shows "frag_count (ip_mtu ip) (getHeaderLength ip) (length data) = Inr cnt" and "cnt < 2 ^ 32"
proof -
  note su = assms [unfolded frag_setup_def]
  have M: "szsub (ip_mtu ip) (getHeaderLength ip) = M" using su by (simp add: szsub_id)
  have "(length data - 1) div M \<le> length data - 1" by simp
  also have "\<dots> < 65535" using su by linarith
  finally have q: "(length data - 1) div M < 65535" .
  have "0 < length data" using su by blast
  then have "1 \<le> length data" by linarith
  moreover have "length data < 2 ^ 64" using su by auto
  ultimately have "szsub (length data) 1 = length data - 1" by (rule szsub_id)
  with q M su show "frag_count (ip_mtu ip) (getHeaderLength ip) (length data) = Inr cnt"
    by (simp add: frag_count_def Let_def)
  show "cnt < 2 ^ 32" using q su by simp
qed

lemma v4_loop_packets_irrelevant:
  "v4_loop (ip\<lparr>m_packets := x\<rparr>) proto l4 ipId cnt tot i payload plen offset ps
   = v4_loop ip proto l4 ipId cnt tot i payload plen offset ps"
proof (induction ps arbitrary: i payload plen offset)
  case (Cons p ps)
  have "v4_fragment (ip\<lparr>m_packets := x\<rparr>) proto l4 ipId cnt tot i payload plen offset p
      = v4_fragment ip proto l4 ipId cnt tot i payload plen offset p"
    by (simp add: v4_fragment_def getHeaderLength_def)
  with Cons.IH show ?case by simp
qed simp

lemma v4compile_frames:
  assumes su: "frag_setup ip l4header (opt_bytes l4header @ opt_bytes payload) M cnt"
    and mp: "m_packets ip = [p]" and p: "holds p f"
    and room: "14 + length (f_tags f) + length (f_llc f) + ip_mtu ip \<le> packetMaxLength p"
    and mx: "packetMaxLength p < 2 ^ 62"
  defines "fresh_id \<equiv> cnt > 1 \<and> \<not> hasId ip"
  shows "\<exists>qs. v4compile proto l4header payload ip s =
      (Inr (ip\<lparr>m_packets := qs\<rparr>), if fresh_id then s\<lparr>nextIdentification := nextIdentification s + 1\<rparr> else s)
    \<and> list_all2 (\<lambda>k q. holds q (v4_fragment_frame ip proto
          (if fresh_id then nextIdentification s else identification ip) M cnt
          (opt_bytes l4header @ opt_bytes payload) k (with_multicast ip (hasDMAC p) f))) [0..<cnt] qs"
proof -
  let ?data = "opt_bytes l4header @ opt_bytes payload" and ?f = "with_multicast ip (hasDMAC p) f"
  let ?id = "if fresh_id then nextIdentification s else identification ip"
  note su' = su [unfolded frag_setup_def]
  have ld: "null_length l4header + null_length payload = length ?data"
    by (simp add: opt_bytes_length)
  have fc: "frag_count (ip_mtu ip) (getHeaderLength ip) (null_length l4header + null_length payload) = Inr cnt"
    unfolding ld by (rule frag_count_setup [OF su])
  have M: "szsub (ip_mtu ip) (getHeaderLength ip) = M" using su' by (simp add: szsub_id)
  have l4: "\<not> null_length l4header > M" using su' by (meson le_trans not_less times_div_less_eq_dividend mult.commute div_times_less_eq_dividend)
  have big: "\<not> sz (null_length l4header + null_length payload + getHeaderLength ip) > 65535"
    unfolding ld using su' by simp
  let ?guard = "\<not> hasDMAC p \<and> ipv4_isMulticast (v4_dstIP ip)"
  obtain p' where p': "(if ?guard then onFirstPacket (setDestMac (multicast_mac ip)) ip else Inr ip)
      = Inr (ip\<lparr>m_packets := [p']\<rparr>)" "holds p' ?f" "packetMaxLength p' = packetMaxLength p"
  proof (cases ?guard)
    case True
    obtain p' where "setDestMac (multicast_mac ip) p = Inr p'" "holds p' (f\<lparr>f_dest := multicast_mac ip\<rparr>)"
      "packetMaxLength p' = packetMaxLength p"
      using setDestMac_holds [OF p, of "multicast_mac ip"] by (auto simp: multicast_mac_def)
    with True mp that [of p'] show thesis
      by (simp add: onFirstPacket_def getFirstEthernetPacket_def with_multicast_def)
  next
    case False
    with mp p that [of p] show thesis by (auto simp: with_multicast_def)
  qed
  have tags: "f_tags ?f = f_tags f" "f_llc ?f = f_llc f" by (simp_all add: with_multicast_def)
  obtain cs where cs: "mapE (\<lambda>_. eth_copy (junk_of s) p') [1..<cnt] = Inr cs" "length cs = cnt - 1"
    "\<forall>q\<in>set cs. holds q ?f \<and> packetMaxLength q = packetMaxLength p'"
    using copies_hold [OF p'(2), of "junk_of s" "[1..<cnt]"] mx p'(3) by auto
  have "1 \<le> cnt" using su' by simp
  then have n: "length (p' # cs) = cnt" using cs(2) by simp
  have "frag_state l4header ?data M 0 payload (null_length payload) 0"
    by (simp add: frag_state_def)
  with v4_loop_frames [OF su, of 0 "p' # cs" payload "null_length payload" 0 ?f proto ?id]
  obtain qs where qs: "v4_loop ip proto l4header ?id cnt cnt 0 payload (null_length payload) 0 (p' # cs) = Inr qs"
    "list_all2 (\<lambda>k q. holds q (v4_fragment_frame ip proto ?id M cnt ?data k ?f)) [0..<cnt] qs"
    using n p' cs(3) room tags by auto
  let ?ip = "ip\<lparr>m_packets := [p']\<rparr>"
  have g: "(if \<not> hasDMAC (hd (m_packets ip)) \<and> ipv4_isMulticast (v4_dstIP ip)
      then onFirstPacket (setDestMac [1, 0, 0x5e, v4_dstIP ip ! 1 AND 0x7f, v4_dstIP ip ! 2, v4_dstIP ip ! 3]) ip
      else Inr ip) = Inr ?ip"
    using p'(1) mp unfolding multicast_mac_def by simp
  have "v4compile proto l4header payload ip s =
      (Inr (ip\<lparr>m_packets := qs\<rparr>), if fresh_id then s\<lparr>nextIdentification := nextIdentification s + 1\<rparr> else s)"
  proof (cases fresh_id)
    case True
    then have "1 < cnt" "\<not> hasId ip" by (simp_all add: fresh_id_def)
    with True show ?thesis
      unfolding v4compile_def Let_def fc g bindM_def liftE_def
      using big l4 M cs qs(1) n
      by (simp add: v4_loop_packets_irrelevant del: v4_loop.simps One_nat_def)
  next
    case False
    then have "\<not> 1 < cnt \<or> hasId ip" by (simp add: fresh_id_def)
    with False show ?thesis
      unfolding v4compile_def Let_def fc g bindM_def liftE_def
      using big l4 M cs qs(1) n
      by (elim disjE) (simp_all add: v4_loop_packets_irrelevant del: v4_loop.simps One_nat_def)
  qed
  with qs(2) show ?thesis by blast
qed

subsection \<open>Reassembly\<close>

text \<open>A receiver puts the chunks in the order of their offsets.\<close>

lemma chunks_prefix:
  assumes "n < cnt"
  shows "concat (map (\<lambda>i. chunk M cnt i data) [0..<n]) = take (n * (M div 8 * 8)) data"
  using assms
proof (induction n)
  case (Suc n)
  let ?M8 = "M div 8 * 8"
  have "concat (map (\<lambda>i. chunk M cnt i data) [0..<Suc n])
      = take (n * ?M8) data @ take ?M8 (drop (n * ?M8) data)"
    using Suc by (simp add: chunk_def)
  also have "\<dots> = take (n * ?M8 + ?M8) data" by (simp add: take_add)
  finally show ?case by (simp add: add.commute)
qed simp

lemma chunks_concat:
  assumes "0 < cnt"
  shows "concat (map (\<lambda>i. chunk M cnt i data) [0..<cnt]) = take ((cnt - 1) * (M div 8 * 8) + M) data"
proof -
  have "[0..<cnt] = [0..<cnt - 1] @ [cnt - 1]"
    using assms by (metis Suc_diff_1 less_eq_nat.simps(1) upt_Suc_append)
  then show ?thesis
    using chunks_prefix [of "cnt - 1" cnt M data] assms by (simp add: chunk_def take_add)
qed

lemma reassembly_complete:
  assumes "M mod 8 = 0" and "0 < M" and "cnt = (length data - 1) div M + 1"
  shows "concat (map (\<lambda>i. chunk M cnt i data) [0..<cnt]) = data"
proof -
  have M8: "M div 8 * 8 = M" using assms(1) by presburger
  have "length data - 1 < ((length data - 1) div M + 1) * M"
    using assms(2) by (metis Suc_eq_plus1 dividend_less_div_times mult.commute mult_Suc add.commute)
  then have "length data \<le> (cnt - 1) * M + M" using assms(3) by (simp add: algebra_simps)
  then show ?thesis using chunks_concat [of cnt M data] assms(3) M8 by simp
qed

end
