(* ===== verification/Transport.thy ===== *)
theory Transport
  imports IpPacket Double
begin

section \<open>UDP, TCP, VXLAN, GRE, ICMP, IGMP and VRRP\<close>

text \<open>
  The subclasses of \<open>cIPPacket\<close>: src/packets/udppacket.cpp, tcppacket.cpp, vxlanpacket.cpp,
  grepacket.cpp, icmppacket.cpp, igmppacket.cpp and vrrppacket.cpp. Each is a record with its own
  members and the base object; \<open>_bytes\<close> is the memory of a header structure.
\<close>

definition nonzero_chksum :: "u16 \<Rightarrow> u16" where
  "nonzero_chksum c = (if c \<noteq> 0 then c else 0xffff)"

text \<open>The part that \<open>cUdpPacket::calcChecksum\<close> and \<open>cTcpPacket::calcChecksum\<close> have in common.\<close>

definition calcChecksum :: "byte \<Rightarrow> cIPPacket \<Rightarrow> byte list \<Rightarrow> byte list option \<Rightarrow> u16 res" where
  "calcChecksum proto ip header payload =
     bindE (if \<not> m_isIPv6 ip
       then bindE (getSource4 ip) (\<lambda>src. bindE (getDestination4 ip) (\<lambda>dst.
            bindE (ip_getPayloadLength ip) (\<lambda>len.
            Inr (ipv4_pseudo_header src dst proto (of_nat len)))))
       else bindE (getSource6 ip) (\<lambda>src. bindE (getDestination6 ip) (\<lambda>dst.
            bindE (ip_getPayloadLength ip) (\<lambda>len.
            Inr (ipv6_pseudo_header src dst proto (of_nat len)))))) (\<lambda>pseudo.
     bindE (rfc1071 (Some (0, pseudo)) (Some (0, header)) (map_option (Pair 0) payload)) (\<lambda>c.
     Inr (nonzero_chksum c)))"

subsection \<open>cUdpPacket\<close>

record udp_header_t =
  udp_srcPort :: u16
  udp_dstPort :: u16
  udp_length :: u16
  udp_checksum :: u16

definition udp_bytes :: "udp_header_t \<Rightarrow> byte list" where
  "udp_bytes h = mem16 (udp_srcPort h) @ mem16 (udp_dstPort h) @ mem16 (udp_length h)
     @ mem16 (udp_checksum h)"

record cUdpPacket =
  udp_ip :: cIPPacket
  udp_header :: udp_header_t

definition udp_new :: "bool \<Rightarrow> ('z env_scheme, cUdpPacket) M" where
  "udp_new isIPv6 = bindM (ip_new isIPv6) (\<lambda>ip. returnM \<lparr>udp_ip = ip,
     udp_header = \<lparr>udp_srcPort = 0, udp_dstPort = 0, udp_length = 0, udp_checksum = 0\<rparr>\<rparr>)"

definition udp_compile :: "byte list option \<Rightarrow> cUdpPacket \<Rightarrow> ('z env_scheme, cUdpPacket) M" where
  "udp_compile payload u =
     (let h = udp_header u\<lparr>udp_length := htons (of_nat (8 + null_length payload))\<rparr>
      in bindM (ip_compile PROTO_UDP (Some (udp_bytes h)) payload (udp_ip u)) (\<lambda>ip.
         bindM (liftE (calcChecksum PROTO_UDP ip (udp_bytes h) payload)) (\<lambda>c.
         let h = h\<lparr>udp_checksum := c\<rparr>
         in bindM (liftE (updateL4Header (udp_bytes h) ip)) (\<lambda>ip.
            returnM \<lparr>udp_ip = ip, udp_header = h\<rparr>))))"

definition udp_setSourcePort :: "u16 \<Rightarrow> cUdpPacket \<Rightarrow> cUdpPacket" where
  "udp_setSourcePort port u = u\<lparr>udp_header := udp_header u\<lparr>udp_srcPort := htons port\<rparr>\<rparr>"

definition udp_setDestinationPort :: "u16 \<Rightarrow> cUdpPacket \<Rightarrow> cUdpPacket" where
  "udp_setDestinationPort port u = u\<lparr>udp_header := udp_header u\<lparr>udp_dstPort := htons port\<rparr>\<rparr>"

definition udp_setChecksum :: "u16 \<Rightarrow> cUdpPacket \<Rightarrow> cUdpPacket res" where
  "udp_setChecksum checksum u =
     (let h = udp_header u\<lparr>udp_checksum := htons checksum\<rparr>
      in bindE (updateL4Header (udp_bytes h) (udp_ip u)) (\<lambda>ip. Inr \<lparr>udp_ip = ip, udp_header = h\<rparr>))"

subsection \<open>cTcpPacket\<close>

record tcp_header_t =
  tcp_srcPort :: u16
  tcp_dstPort :: u16
  seqNumber :: u32
  ackNumber :: u32
  dataOffset :: byte
  tcp_flags :: byte
  window :: u16
  tcp_checksum :: u16
  urgentPtr :: u16

definition tcp_bytes :: "tcp_header_t \<Rightarrow> byte list" where
  "tcp_bytes h = mem16 (tcp_srcPort h) @ mem16 (tcp_dstPort h) @ mem32 (seqNumber h)
     @ mem32 (ackNumber h) @ [dataOffset h, tcp_flags h] @ mem16 (window h)
     @ mem16 (tcp_checksum h) @ mem16 (urgentPtr h)"

definition tcp_init :: tcp_header_t where
  "tcp_init = \<lparr>tcp_srcPort = 0, tcp_dstPort = 0, seqNumber = 0, ackNumber = 0,
     dataOffset = push_bit 4 5, tcp_flags = 0, window = htons 1024, tcp_checksum = 0, urgentPtr = 0\<rparr>"

definition set_flag :: "byte \<Rightarrow> bool \<Rightarrow> byte \<Rightarrow> byte" where
  "set_flag m f flags = (if f then flags OR m else flags AND NOT m)"

definition isSyn :: "tcp_header_t \<Rightarrow> bool" where
  "isSyn h = (tcp_flags h AND 2 \<noteq> 0)"

record cTcpPacket =
  tcp_ip :: cIPPacket
  tcp_header :: tcp_header_t

definition tcp_setSeqNumber :: "u32 \<Rightarrow> cTcpPacket \<Rightarrow> ('z env_scheme, cTcpPacket) M" where
  "tcp_setSeqNumber n t = bindM (modifyM (\<lambda>s. s\<lparr>tcp_sequence := n\<rparr>)) (\<lambda>_.
     returnM (t\<lparr>tcp_header := tcp_header t\<lparr>seqNumber := htonl n\<rparr>\<rparr>))"

definition tcp_new :: "bool \<Rightarrow> ('z env_scheme, cTcpPacket) M" where
  "tcp_new isIPv6 = bindM (ip_new isIPv6) (\<lambda>ip. bindM (getM tcp_sequence) (\<lambda>n.
     tcp_setSeqNumber n \<lparr>tcp_ip = ip, tcp_header = tcp_init\<rparr>))"

definition tcp_compile :: "byte list option \<Rightarrow> bool \<Rightarrow> cTcpPacket \<Rightarrow> ('z env_scheme, cTcpPacket) M" where
  "tcp_compile payload calcChksum t =
     bindM (ip_compile PROTO_TCP (Some (tcp_bytes (tcp_header t))) payload (tcp_ip t)) (\<lambda>ip.
     bindM (liftE (if calcChksum
         then bindE (calcChecksum PROTO_TCP ip (tcp_bytes (tcp_header t)) payload) (\<lambda>c.
              Inr (tcp_header t\<lparr>tcp_checksum := c\<rparr>))
         else Inr (tcp_header t))) (\<lambda>h.
     bindM (liftE (updateL4Header (tcp_bytes h) ip)) (\<lambda>ip.
     bindM (modifyM (\<lambda>s. s\<lparr>tcp_sequence := tcp_sequence s
        + (of_nat (null_length payload) + of_bool (isSyn h))\<rparr>)) (\<lambda>_.
     returnM \<lparr>tcp_ip = ip, tcp_header = h\<rparr>))))"

definition tcp_onHeader :: "(tcp_header_t \<Rightarrow> tcp_header_t) \<Rightarrow> cTcpPacket \<Rightarrow> cTcpPacket" where
  "tcp_onHeader f t = t\<lparr>tcp_header := f (tcp_header t)\<rparr>"

definition tcp_setSourcePort :: "u16 \<Rightarrow> cTcpPacket \<Rightarrow> cTcpPacket" where
  "tcp_setSourcePort port = tcp_onHeader (\<lambda>h. h\<lparr>tcp_srcPort := htons port\<rparr>)"

definition tcp_setDestinationPort :: "u16 \<Rightarrow> cTcpPacket \<Rightarrow> cTcpPacket" where
  "tcp_setDestinationPort port = tcp_onHeader (\<lambda>h. h\<lparr>tcp_dstPort := htons port\<rparr>)"

definition tcp_setChecksum :: "u16 \<Rightarrow> cTcpPacket \<Rightarrow> cTcpPacket" where
  "tcp_setChecksum c = tcp_onHeader (\<lambda>h. h\<lparr>tcp_checksum := htons c\<rparr>)"

definition tcp_setAckNumber :: "u32 \<Rightarrow> cTcpPacket \<Rightarrow> cTcpPacket" where
  "tcp_setAckNumber n = tcp_onHeader (\<lambda>h. h\<lparr>ackNumber := htonl n\<rparr>)"

definition tcp_setWindow :: "u16 \<Rightarrow> cTcpPacket \<Rightarrow> cTcpPacket" where
  "tcp_setWindow w = tcp_onHeader (\<lambda>h. h\<lparr>window := htons w\<rparr>)"

definition tcp_setUrgentPointer :: "u16 \<Rightarrow> cTcpPacket \<Rightarrow> cTcpPacket" where
  "tcp_setUrgentPointer p = tcp_onHeader (\<lambda>h. h\<lparr>urgentPtr := htons p\<rparr>)"

definition tcp_setFlagFIN :: "bool \<Rightarrow> cTcpPacket \<Rightarrow> cTcpPacket" where
  "tcp_setFlagFIN f = tcp_onHeader (\<lambda>h. h\<lparr>tcp_flags := set_flag 1 f (tcp_flags h)\<rparr>)"

definition tcp_setFlagSYN :: "bool \<Rightarrow> cTcpPacket \<Rightarrow> cTcpPacket" where
  "tcp_setFlagSYN f = tcp_onHeader (\<lambda>h. h\<lparr>tcp_flags := set_flag 2 f (tcp_flags h)\<rparr>)"

definition tcp_setFlagRST :: "bool \<Rightarrow> cTcpPacket \<Rightarrow> cTcpPacket" where
  "tcp_setFlagRST f = tcp_onHeader (\<lambda>h. h\<lparr>tcp_flags := set_flag 4 f (tcp_flags h)\<rparr>)"

definition tcp_setFlagPSH :: "bool \<Rightarrow> cTcpPacket \<Rightarrow> cTcpPacket" where
  "tcp_setFlagPSH f = tcp_onHeader (\<lambda>h. h\<lparr>tcp_flags := set_flag 8 f (tcp_flags h)\<rparr>)"

definition tcp_setFlagACK :: "bool \<Rightarrow> cTcpPacket \<Rightarrow> cTcpPacket" where
  "tcp_setFlagACK f = tcp_onHeader (\<lambda>h. h\<lparr>tcp_flags := set_flag 0x10 f (tcp_flags h)\<rparr>)"

definition tcp_setFlagURG :: "bool \<Rightarrow> cTcpPacket \<Rightarrow> cTcpPacket" where
  "tcp_setFlagURG f = tcp_onHeader (\<lambda>h. h\<lparr>tcp_flags := set_flag 0x20 f (tcp_flags h)\<rparr>)"

definition tcp_setFlagECE :: "bool \<Rightarrow> cTcpPacket \<Rightarrow> cTcpPacket" where
  "tcp_setFlagECE f = tcp_onHeader (\<lambda>h. h\<lparr>tcp_flags := set_flag 0x40 f (tcp_flags h)\<rparr>)"

definition tcp_setFlagCWR :: "bool \<Rightarrow> cTcpPacket \<Rightarrow> cTcpPacket" where
  "tcp_setFlagCWR f = tcp_onHeader (\<lambda>h. h\<lparr>tcp_flags := set_flag 0x80 f (tcp_flags h)\<rparr>)"

definition tcp_setFlagNON :: "bool \<Rightarrow> cTcpPacket \<Rightarrow> cTcpPacket" where
  "tcp_setFlagNON f = tcp_onHeader (\<lambda>h. h\<lparr>dataOffset := set_flag 1 f (dataOffset h)\<rparr>)"

subsection \<open>cVxlanPacket\<close>

record vxlan_header_t =
  vx_flags :: byte
  vx_reserved :: "byte list"
  vx_vni :: u32

definition vxlan_bytes :: "vxlan_header_t \<Rightarrow> byte list" where
  "vxlan_bytes h = [vx_flags h] @ vx_reserved h @ mem32 (vx_vni h)"

record cVxlanPacket =
  vx_udp :: cUdpPacket
  vx_header :: vxlan_header_t

definition vxlan_new :: "bool \<Rightarrow> ('z env_scheme, cVxlanPacket) M" where
  "vxlan_new isIPv6 = bindM (udp_new isIPv6) (\<lambda>u. returnM \<lparr>vx_udp = u,
     vx_header = \<lparr>vx_flags = 0x08, vx_reserved = [0, 0, 0], vx_vni = 0\<rparr>\<rparr>)"

definition vxlan_compile :: "byte list \<Rightarrow> cVxlanPacket \<Rightarrow> ('z env_scheme, cVxlanPacket) M" where
  "vxlan_compile payload v =
     (let pkt = vxlan_bytes (vx_header v) @ payload
      in bindM (udp_compile (Some pkt) (vx_udp v)) (\<lambda>u. returnM (v\<lparr>vx_udp := u\<rparr>)))"

definition vxlan_setVni :: "u32 \<Rightarrow> cVxlanPacket \<Rightarrow> cVxlanPacket" where
  "vxlan_setVni vni v =
     (let vni = vni AND 0x00ffffff
      in v\<lparr>vx_header := vx_header v\<lparr>vx_vni := htonl (push_bit 8 vni)\<rparr>\<rparr>)"

subsection \<open>cGrePacket\<close>

record gre_basic_header_t =
  gre_flags :: byte
  gre_version :: byte
  gre_protocol :: u16

definition gre_basic_bytes :: "gre_basic_header_t \<Rightarrow> byte list" where
  "gre_basic_bytes h = [gre_flags h, gre_version h] @ mem16 (gre_protocol h)"

record cGrePacket =
  gre_ip :: cIPPacket
  basicHeader :: gre_basic_header_t
  gre_hasChecksum :: bool
  gre_hasKey :: bool
  gre_hasSeq :: bool
  gre_checksum :: u16
  gre_key :: u32
  gre_seq :: u32

definition gre_new :: "bool \<Rightarrow> ('z env_scheme, cGrePacket) M" where
  "gre_new isIPv6 = bindM (ip_new isIPv6) (\<lambda>ip. returnM \<lparr>gre_ip = ip,
     basicHeader = \<lparr>gre_flags = 0, gre_version = 0, gre_protocol = 0\<rparr>, gre_hasChecksum = False,
     gre_hasKey = False, gre_hasSeq = False, gre_checksum = 0, gre_key = 0, gre_seq = 0\<rparr>)"

definition gre_setProtocolType :: "u16 \<Rightarrow> cGrePacket \<Rightarrow> cGrePacket" where
  "gre_setProtocolType proto g = g\<lparr>basicHeader := basicHeader g\<lparr>gre_protocol := htons proto\<rparr>\<rparr>"

definition gre_setKey :: "u32 \<Rightarrow> cGrePacket \<Rightarrow> cGrePacket" where
  "gre_setKey k g = g\<lparr>gre_key := k, gre_hasKey := True,
     basicHeader := basicHeader g\<lparr>gre_flags := gre_flags (basicHeader g) OR 0x20\<rparr>\<rparr>"

definition gre_setSequence :: "u32 \<Rightarrow> cGrePacket \<Rightarrow> cGrePacket" where
  "gre_setSequence n g = g\<lparr>gre_seq := n, gre_hasSeq := True,
     basicHeader := basicHeader g\<lparr>gre_flags := gre_flags (basicHeader g) OR 0x10\<rparr>\<rparr>"

definition gre_setChecksum :: "u16 \<Rightarrow> cGrePacket \<Rightarrow> cGrePacket" where
  "gre_setChecksum c g = g\<lparr>gre_checksum := c, gre_hasChecksum := True,
     basicHeader := basicHeader g\<lparr>gre_flags := gre_flags (basicHeader g) OR 0x80\<rparr>\<rparr>"

text \<open>The words of the header after the basic one, the checksum word first if there is one.\<close>

definition gre_words :: "cGrePacket \<Rightarrow> u32 list" where
  "gre_words g = (if gre_hasChecksum g then [ucast (htons (gre_checksum g))] else [])
     @ (if gre_hasKey g then [htonl (gre_key g)] else [])
     @ (if gre_hasSeq g then [htonl (gre_seq g)] else [])"

definition gre_header :: "cGrePacket \<Rightarrow> u32 list \<Rightarrow> byte list" where
  "gre_header g ws = gre_basic_bytes (basicHeader g) @ concat (map mem32 ws)"

definition gre_compile :: "byte list option \<Rightarrow> bool \<Rightarrow> cGrePacket \<Rightarrow> ('z env_scheme, cGrePacket) M" where
  "gre_compile payload calc g =
     (let g = (if calc then gre_setChecksum 0 g else g);
          ws = gre_words g;
          header = gre_header g ws
      in bindM (ip_compile PROTO_GRE (Some header) payload (gre_ip g)) (\<lambda>ip.
         if calc
         then bindM (liftE (rfc1071_two (Some (0, header)) (map_option (Pair 0) payload))) (\<lambda>c.
              bindM (liftE (updateL4Header (gre_header g (ws[0 := ucast c])) ip)) (\<lambda>ip.
              returnM (g\<lparr>gre_ip := ip\<rparr>)))
         else returnM (g\<lparr>gre_ip := ip\<rparr>)))"

subsection \<open>cIcmpPacket\<close>

record icmp_header_t =
  icmp_type :: byte
  icmp_code :: byte
  icmp_checksum :: u16

definition icmp_bytes :: "icmp_header_t \<Rightarrow> byte list" where
  "icmp_bytes h = [icmp_type h, icmp_code h] @ mem16 (icmp_checksum h)"

definition icmp_new :: "('z env_scheme, cIPPacket) M" where
  "icmp_new = ip_new False"

definition icmp_with_checksum :: "byte \<Rightarrow> byte \<Rightarrow> byte list \<Rightarrow> byte list option \<Rightarrow> cIPPacket
    \<Rightarrow> ('z env_scheme, cIPPacket) M" where
  "icmp_with_checksum type code rest payload ip =
     (let h = \<lparr>icmp_type = type, icmp_code = code, icmp_checksum = 0\<rparr>
      in bindM (liftE (rfc1071_two (Some (0, icmp_bytes h @ rest)) (map_option (Pair 0) payload))) (\<lambda>c.
         ip_compile PROTO_ICMP (Some (icmp_bytes (h\<lparr>icmp_checksum := c\<rparr>) @ rest)) payload ip))"

definition icmp_compileRaw :: "byte \<Rightarrow> byte \<Rightarrow> byte list option \<Rightarrow> cIPPacket \<Rightarrow> ('z env_scheme, cIPPacket) M" where
  "icmp_compileRaw type code payload ip =
     bindM (liftE (bugOn (payload = None) ''!payload'')) (\<lambda>_.
     bindM (liftE (bugOn (null_length payload = 0) ''!len'')) (\<lambda>_.
     icmp_with_checksum type code [] payload ip))"

definition icmp_compileRaw_checksum :: "byte \<Rightarrow> byte \<Rightarrow> u16 \<Rightarrow> byte list option \<Rightarrow> cIPPacket
    \<Rightarrow> ('z env_scheme, cIPPacket) M" where
  "icmp_compileRaw_checksum type code checksum payload ip =
     bindM (icmp_compileRaw type code payload ip) (\<lambda>ip.
     let h = \<lparr>icmp_type = type, icmp_code = code, icmp_checksum = checksum\<rparr>
     in liftE (updateL4Header (icmp_bytes h) ip))"

definition compileGenericInetHeader :: "cIPPacket \<Rightarrow> byte list res" where
  "compileGenericInetHeader ip =
     bindE (getSource4 ip) (\<lambda>src. bindE (getDestination4 ip) (\<lambda>dst.
     let h = \<lparr>vers_ihl = push_bit 4 4 OR 5, tos = 0, totalLength = htons (of_nat (5 * 4 + 8)),
              ident = 0, flags_offset = 0, ttl = 64, protocol = PROTO_UDP, chksum = 0,
              srcIp = src, dstIp = dst, routerAlert = []\<rparr>
     in bindE (rfc1071_one (Some (0, ipv4_header_bytes h))) (\<lambda>c.
        let udp = \<lparr>udp_srcPort = htons 42, udp_dstPort = htons 4242, udp_length = htons 8,
                  udp_checksum = 0\<rparr>
        in Inr (ipv4_header_bytes (h\<lparr>chksum := c\<rparr>) @ udp_bytes udp))))"

definition inet_or_generic :: "byte list option \<Rightarrow> cIPPacket \<Rightarrow> byte list res" where
  "inet_or_generic inetheader ip =
     (case inetheader of None \<Rightarrow> compileGenericInetHeader ip | Some b \<Rightarrow> Inr b)"

definition icmp_compileWithEmbeddedInet :: "byte \<Rightarrow> byte \<Rightarrow> byte list option \<Rightarrow> cIPPacket
    \<Rightarrow> ('z env_scheme, cIPPacket) M" where
  "icmp_compileWithEmbeddedInet type code inetheader ip =
     bindM (liftE (inet_or_generic inetheader ip)) (\<lambda>inet.
     icmp_with_checksum type code (mem32 0) (Some inet) ip)"

definition icmp_compileRedirect :: "byte \<Rightarrow> byte list \<Rightarrow> byte list option \<Rightarrow> cIPPacket
    \<Rightarrow> ('z env_scheme, cIPPacket) M" where
  "icmp_compileRedirect code gw inetheader ip =
     bindM (liftE (inet_or_generic inetheader ip)) (\<lambda>inet.
     icmp_with_checksum 5 code gw (Some inet) ip)"

definition icmp_compilePing :: "bool \<Rightarrow> u16 \<Rightarrow> u16 \<Rightarrow> byte list option \<Rightarrow> cIPPacket
    \<Rightarrow> ('z env_scheme, cIPPacket) M" where
  "icmp_compilePing reply pid pseq data ip =
     icmp_with_checksum (if reply then 0 else 8) 0 (mem16 (htons pid) @ mem16 (htons pseq)) data ip"

subsection \<open>cIgmpPacket\<close>

record cIgmpPacket =
  igmp_ip :: cIPPacket
  v3sourceAddresses :: "byte list list"

record igmpv2_packet_t =
  ig2_type :: byte
  ig2_maxRespTime :: byte
  ig2_checksum :: u16
  ig2_groupAddress :: "byte list"

definition igmpv2_bytes :: "igmpv2_packet_t \<Rightarrow> byte list" where
  "igmpv2_bytes g = [ig2_type g, ig2_maxRespTime g] @ mem16 (ig2_checksum g) @ ig2_groupAddress g"

record igmpv3_query_t =
  ig3_type :: byte
  ig3_maxRespCode :: byte
  ig3_checksum :: u16
  ig3_groupAddress :: "byte list"
  ig3_flags :: byte
  ig3_qqic :: byte
  ig3_numberOfSources :: u16

definition igmpv3_bytes :: "igmpv3_query_t \<Rightarrow> byte list" where
  "igmpv3_bytes g = [ig3_type g, ig3_maxRespCode g] @ mem16 (ig3_checksum g) @ ig3_groupAddress g
     @ [ig3_flags g, ig3_qqic g] @ mem16 (ig3_numberOfSources g)"

definition setS :: "bool \<Rightarrow> byte \<Rightarrow> byte" where
  "setS b flags = (flags AND 0x08) OR push_bit 3 (of_bool b)"

definition setQRV :: "u32 \<Rightarrow> byte \<Rightarrow> byte" where
  "setQRV qrv flags = (flags AND 0xf8) OR ucast (qrv AND 7)"

definition igmp_new :: "('z env_scheme, cIgmpPacket) M" where
  "igmp_new = bindM (ip_new False) (\<lambda>ip. returnM \<lparr>igmp_ip = ip, v3sourceAddresses = []\<rparr>)"

definition setIpHeaderOptions :: "cIPPacket \<Rightarrow> cIPPacket res" where
  "setIpHeaderOptions ip =
     bindE (setDontFragment True (setDSCP 48 (setTimeToLive 1 ip))) (\<lambda>ip.
     Inr (addRouterAlertOption ip))"

text \<open>The normalisation loop of \<open>floatToTime\<close>.\<close>

fun floatToTime_loop :: "nat \<Rightarrow> nat \<Rightarrow> nat \<times> nat" where
  "floatToTime_loop exp mant =
     (if mant > 31 then floatToTime_loop (exp + 1) (mant div 2) else (exp, mant))"

declare floatToTime_loop.simps [simp del]

definition dge :: "double \<Rightarrow> double \<Rightarrow> bool" where
  "dge a b = (a \<noteq> NaN \<and> b \<noteq> NaN \<and> \<not> dless a b)"

definition floatToTime_int :: "nat \<Rightarrow> byte" where
  "floatToTime_int d = (case floatToTime_loop 0 (d div 8) of (exp, mant) \<Rightarrow>
     0x80 OR push_bit 4 (of_nat exp AND 7) OR (of_nat mant AND 0x0f))"

definition floatToTime :: "double \<Rightarrow> byte res" where
  "floatToTime d =
     (if dless d (dbl 128 1) then bindE (dto_unsigned 8 d) (\<lambda>v. Inr (of_nat v))
      else if dge d (dbl 31744 1) then Inr 255
      else bindE (dto_unsigned 32 d) (\<lambda>v. Inr (floatToTime_int v)))"

definition v12compile :: "byte \<Rightarrow> byte \<Rightarrow> byte list \<Rightarrow> cIgmpPacket \<Rightarrow> ('z env_scheme, cIgmpPacket) M" where
  "v12compile type time grp g =
     bindM (liftE (setIpHeaderOptions (igmp_ip g))) (\<lambda>ip.
     let p = \<lparr>ig2_type = type, ig2_maxRespTime = time, ig2_checksum = 0, ig2_groupAddress = grp\<rparr>
     in bindM (liftE (rfc1071_one (Some (0, igmpv2_bytes p)))) (\<lambda>c.
        bindM (ip_compile PROTO_IGMP (Some (igmpv2_bytes (p\<lparr>ig2_checksum := c\<rparr>))) None ip) (\<lambda>ip.
        returnM (g\<lparr>igmp_ip := ip\<rparr>))))"

definition v3compileGroupQuery :: "double \<Rightarrow> bool \<Rightarrow> u32 \<Rightarrow> double \<Rightarrow> byte list \<Rightarrow> cIgmpPacket
    \<Rightarrow> ('z env_scheme, cIgmpPacket) M" where
  "v3compileGroupQuery maxRespCode b qrv qqic grp g =
     bindM (liftE (setIpHeaderOptions (igmp_ip g))) (\<lambda>ip.
     bindM (liftE (floatToTime maxRespCode)) (\<lambda>mrc.
     bindM (liftE (floatToTime qqic)) (\<lambda>q.
     let n = length (v3sourceAddresses g);
         srcs = concat (v3sourceAddresses g);
         p = \<lparr>ig3_type = 0x11, ig3_maxRespCode = mrc, ig3_checksum = 0, ig3_groupAddress = grp,
              ig3_flags = setQRV qrv (setS b 0), ig3_qqic = q, ig3_numberOfSources = htons (of_nat n)\<rparr>
     in if ig3_numberOfSources p \<noteq> 0
        then bindM (liftE (rfc1071_two (Some (0, igmpv3_bytes p)) (Some (0, srcs)))) (\<lambda>c.
             bindM (ip_compile PROTO_IGMP (Some (igmpv3_bytes (p\<lparr>ig3_checksum := c\<rparr>))) (Some srcs) ip) (\<lambda>ip.
             returnM (g\<lparr>igmp_ip := ip\<rparr>)))
        else bindM (liftE (rfc1071_one (Some (0, igmpv3_bytes p)))) (\<lambda>c.
             bindM (ip_compile PROTO_IGMP (Some (igmpv3_bytes (p\<lparr>ig3_checksum := c\<rparr>))) None ip) (\<lambda>ip.
             returnM (g\<lparr>igmp_ip := ip\<rparr>))))))"

definition v3compileGeneralQuery :: "double \<Rightarrow> bool \<Rightarrow> u32 \<Rightarrow> double \<Rightarrow> cIgmpPacket
    \<Rightarrow> ('z env_scheme, cIgmpPacket) M" where
  "v3compileGeneralQuery maxRespCode b qrv qqic g =
     v3compileGroupQuery maxRespCode b qrv qqic (replicate 4 0) (g\<lparr>v3sourceAddresses := []\<rparr>)"

definition igmp_setDestination :: "byte list \<Rightarrow> cIgmpPacket \<Rightarrow> cIgmpPacket res" where
  "igmp_setDestination a g = bindE (setDestination4 a (igmp_ip g)) (\<lambda>ip. Inr (g\<lparr>igmp_ip := ip\<rparr>))"

definition compileGeneralQuery :: "bool \<Rightarrow> double \<Rightarrow> bool \<Rightarrow> u32 \<Rightarrow> double \<Rightarrow> cIgmpPacket
    \<Rightarrow> ('z env_scheme, cIgmpPacket) M" where
  "compileGeneralQuery v3 maxRespCode b qrv qqic g =
     (let maxRespCode = dmult maxRespCode (dbl 10 1)
      in bindM (liftE (igmp_setDestination [224, 0, 0, 1] g)) (\<lambda>g.
         if v3 then v3compileGeneralQuery maxRespCode b qrv qqic g
         else bindM (liftE (dto_unsigned 8 maxRespCode)) (\<lambda>t.
              v12compile 0x11 (of_nat t) (replicate 4 0) g)))"

definition compileGroupQuery :: "bool \<Rightarrow> double \<Rightarrow> bool \<Rightarrow> u32 \<Rightarrow> double \<Rightarrow> byte list \<Rightarrow> cIgmpPacket
    \<Rightarrow> ('z env_scheme, cIgmpPacket) M" where
  "compileGroupQuery v3 maxRespCode b qrv qqic grp g =
     (let maxRespCode = dmult maxRespCode (dbl 10 1)
      in bindM (liftE (igmp_setDestination grp g)) (\<lambda>g.
         if v3 then v3compileGroupQuery maxRespCode b qrv qqic grp g
         else bindM (liftE (dto_unsigned 8 maxRespCode)) (\<lambda>t.
              v12compile 0x11 (of_nat t) grp g)))"

definition compileReport :: "byte list \<Rightarrow> cIgmpPacket \<Rightarrow> ('z env_scheme, cIgmpPacket) M" where
  "compileReport grp g = bindM (liftE (igmp_setDestination grp g)) (\<lambda>g. v12compile 0x16 0 grp g)"

definition v2compileLeaveGroup :: "byte list \<Rightarrow> cIgmpPacket \<Rightarrow> ('z env_scheme, cIgmpPacket) M" where
  "v2compileLeaveGroup grp g =
     bindM (liftE (igmp_setDestination [224, 0, 0, 2] g)) (\<lambda>g. v12compile 0x17 0 grp g)"

definition v3addSource :: "byte list \<Rightarrow> cIgmpPacket \<Rightarrow> cIgmpPacket" where
  "v3addSource a g = g\<lparr>v3sourceAddresses := v3sourceAddresses g @ [a]\<rparr>"

subsection \<open>cVrrpPacket\<close>

text \<open>The union of the header is its two bytes.\<close>

record vrrp_header_t =
  vers_type :: byte
  vrid :: byte
  vr_prio :: byte
  countIpAddr :: byte
  v2v3 :: "byte list"
  vr_chksum :: u16

definition vrrp_bytes :: "vrrp_header_t \<Rightarrow> byte list" where
  "vrrp_bytes h = [vers_type h, vrid h, vr_prio h, countIpAddr h] @ v2v3 h @ mem16 (vr_chksum h)"

definition vrrp_getVersion :: "vrrp_header_t \<Rightarrow> byte" where
  "vrrp_getVersion h = drop_bit 4 (vers_type h) AND 0x0F"

definition vrrp_getType :: "vrrp_header_t \<Rightarrow> byte" where
  "vrrp_getType h = vers_type h AND 0x0F"

record cVrrpPacket =
  vrrp_ip :: cIPPacket
  vrrp_header :: vrrp_header_t
  vrIPs :: "byte list list"

definition vrrp_new :: "('z env_scheme, cVrrpPacket) M" where
  "vrrp_new = bindM (ip_new False) (\<lambda>ip. returnM \<lparr>vrrp_ip = ip, vrrp_header = \<lparr>vers_type = 0, vrid = 0,
     vr_prio = 0, countIpAddr = 0, v2v3 = [0, 0], vr_chksum = 0\<rparr>, vrIPs = []\<rparr>)"

definition vrrp_onHeader :: "(vrrp_header_t \<Rightarrow> vrrp_header_t) \<Rightarrow> cVrrpPacket \<Rightarrow> cVrrpPacket" where
  "vrrp_onHeader f v = v\<lparr>vrrp_header := f (vrrp_header v)\<rparr>"

definition vrrp_setVersion :: "u32 \<Rightarrow> cVrrpPacket \<Rightarrow> cVrrpPacket" where
  "vrrp_setVersion version = vrrp_onHeader (\<lambda>h.
     h\<lparr>vers_type := ucast (push_bit 4 (version AND 0x0F)) OR (vers_type h AND 0x0F)\<rparr>)"

definition vrrp_setVRID :: "byte \<Rightarrow> cVrrpPacket \<Rightarrow> cVrrpPacket" where
  "vrrp_setVRID i = vrrp_onHeader (\<lambda>h. h\<lparr>vrid := i\<rparr>)"

definition vrrp_setPrio :: "byte \<Rightarrow> cVrrpPacket \<Rightarrow> cVrrpPacket" where
  "vrrp_setPrio p = vrrp_onHeader (\<lambda>h. h\<lparr>vr_prio := p\<rparr>)"

definition vrrp_setType :: "byte \<Rightarrow> cVrrpPacket \<Rightarrow> cVrrpPacket" where
  "vrrp_setType t = vrrp_onHeader (\<lambda>h. h\<lparr>vers_type := (t AND 0x0F) OR (vers_type h AND 0xF0)\<rparr>)"

definition vrrp_setInterval :: "u16 \<Rightarrow> cVrrpPacket \<Rightarrow> cVrrpPacket" where
  "vrrp_setInterval interval = vrrp_onHeader (\<lambda>h.
     if vrrp_getVersion h = 2 then h\<lparr>v2v3 := (v2v3 h)[1 := ucast interval]\<rparr>
     else h\<lparr>v2v3 := mem16 (htons interval)\<rparr>)"

definition vrrp_setChecksum :: "u16 \<Rightarrow> cVrrpPacket \<Rightarrow> cVrrpPacket" where
  "vrrp_setChecksum c = vrrp_onHeader (\<lambda>h. h\<lparr>vr_chksum := htons c\<rparr>)"

definition addVirtualIP :: "byte list \<Rightarrow> cVrrpPacket \<Rightarrow> cVrrpPacket" where
  "addVirtualIP vip v = v\<lparr>vrIPs := vrIPs v @ [vip]\<rparr>"

definition vrrp_checksum :: "cIPPacket \<Rightarrow> vrrp_header_t \<Rightarrow> byte list list \<Rightarrow> u16 res" where
  "vrrp_checksum ip h vips =
     (if vrrp_getVersion h = 2
      then rfc1071_two (Some (0, vrrp_bytes h)) (Some (0, concat vips))
      else bindE (getSource4 ip) (\<lambda>src. bindE (getDestination4 ip) (\<lambda>dst.
           rfc1071 (Some (0, ipv4_pseudo_header src dst PROTO_VRRP (of_nat (8 + 4 * length vips))))
             (Some (0, vrrp_bytes h)) (Some (0, concat vips)))))"

definition vrrp_compile :: "bool \<Rightarrow> cVrrpPacket \<Rightarrow> ('z env_scheme, cVrrpPacket) M" where
  "vrrp_compile calc v =
     bindM (liftE (onFirstPacket (setDestMac [0, 0, 0x5e, 0, 1, vrid (vrrp_header v)]) (vrrp_ip v))) (\<lambda>ip.
     bindM (liftE (setDestination4 [224, 0, 0, 18] (setTimeToLive 255 ip))) (\<lambda>ip.
     let h = vrrp_header v\<lparr>countIpAddr := of_nat (length (vrIPs v))\<rparr>;
         vips = (if vrrp_getVersion h = 2 then vrIPs v @ [replicate 4 0, replicate 4 0] else vrIPs v)
     in bindM (if calc then bindM (liftE (vrrp_checksum ip h vips)) (\<lambda>c. returnM (h\<lparr>vr_chksum := c\<rparr>))
               else returnM h) (\<lambda>h.
        bindM (ip_compile PROTO_VRRP (Some (vrrp_bytes h)) (Some (concat vips)) ip) (\<lambda>ip.
        returnM (v\<lparr>vrrp_ip := ip, vrrp_header := h, vrIPs := vips\<rparr>)))))"

end
