(* ===== verification/LinkPackets.thy ===== *)
theory LinkPackets
  imports Ethernet Double
begin

section \<open>ARP and spanning tree packets\<close>

text \<open>
  src/packets/arppacket.cpp and stppacket.cpp. Both classes add no state to the Ethernet packet they
  derive from. A packed structure is a record of its raw members; its object representation is given
  by the \<open>_bytes\<close> function beside it.
\<close>

subsection \<open>cArpPacket\<close>

record arp_t =
  hwType :: u16
  protType :: u16
  hwAddrSize :: byte
  protAddrSize :: byte
  arp_opcode :: u16
  arp_srcMac :: "byte list"
  arp_srcIp :: "byte list"
  arp_dstMac :: "byte list"
  arp_dstIp :: "byte list"

definition arp_bytes :: "arp_t \<Rightarrow> byte list" where
  "arp_bytes a = mem16 (hwType a) @ mem16 (protType a) @ [hwAddrSize a, protAddrSize a]
     @ mem16 (arp_opcode a) @ arp_srcMac a @ arp_srcIp a @ arp_dstMac a @ arp_dstIp a"

definition arp_isRequest :: "arp_t \<Rightarrow> bool" where
  "arp_isRequest a = (arp_opcode a = htons 1)"

definition arp_isReply :: "arp_t \<Rightarrow> bool" where
  "arp_isReply a = (arp_opcode a = htons 2)"

definition arp_fields :: "u16 \<Rightarrow> byte list \<Rightarrow> byte list \<Rightarrow> byte list \<Rightarrow> byte list \<Rightarrow> arp_t" where
  "arp_fields opcode srcMac srcIp dstMac dstIp =
     \<lparr>hwType = htons 1, protType = htons ETHERTYPE_IPV4, hwAddrSize = 6, protAddrSize = 4,
      arp_opcode = htons opcode, arp_srcMac = srcMac, arp_srcIp = srcIp, arp_dstMac = dstMac,
      arp_dstIp = dstIp\<rparr>"

definition arp_setAll ::
  "u16 \<Rightarrow> byte list \<Rightarrow> byte list \<Rightarrow> byte list \<Rightarrow> byte list \<Rightarrow> cEthernetPacket \<Rightarrow> cEthernetPacket res" where
  "arp_setAll opcode srcMac srcIp dstMac dstIp e =
     (let a = arp_fields opcode srcMac srcIp dstMac dstIp
      in bindE (setMacHeader srcMac (if mac_isNull dstMac then mac_set_all 0xff else dstMac) e) (\<lambda>e.
         bindE (setTypeLength ETHERTYPE_ARP e) (\<lambda>e.
         setPayload (arp_bytes a) e)))"

definition arp_whoHas :: "byte list \<Rightarrow> byte list \<Rightarrow> byte list \<Rightarrow> cEthernetPacket \<Rightarrow> cEthernetPacket res" where
  "arp_whoHas srcMac srcIp ip = arp_setAll 1 srcMac srcIp (mac_set_all 0) ip"

definition arp_probe :: "byte list \<Rightarrow> byte list \<Rightarrow> cEthernetPacket \<Rightarrow> cEthernetPacket res" where
  "arp_probe srcMac ip = arp_setAll 1 srcMac (replicate 4 0) (mac_set_all 0) ip"

definition arp_announce :: "byte list \<Rightarrow> byte list \<Rightarrow> cEthernetPacket \<Rightarrow> cEthernetPacket res" where
  "arp_announce srcMac ip = arp_setAll 1 srcMac ip (mac_set_all 0) ip"

subsection \<open>cStpPacket\<close>

record bridge_id_t =
  prio_ext :: u16
  systemId :: "byte list"

definition bridge_set :: "u32 \<Rightarrow> u32 \<Rightarrow> byte list \<Rightarrow> bridge_id_t" where
  "bridge_set prio ext mac =
     \<lparr>prio_ext = htons (ucast (push_bit 12 (prio AND 0x0f) OR (ext AND 0x0fff))), systemId = mac\<rparr>"

definition bridge_bytes :: "bridge_id_t \<Rightarrow> byte list" where
  "bridge_bytes b = mem16 (prio_ext b) @ systemId b"

record stp_bpdu_t =
  stp_protocol :: u16
  stp_version :: byte
  stp_type :: byte
  stp_flags :: byte
  stp_root :: bridge_id_t
  rootPathCost :: u32
  stp_bridge :: bridge_id_t
  portId :: u16
  messageAge :: u16
  maxAge :: u16
  helloTime :: u16
  forwardDelay :: u16

definition stp_bytes :: "stp_bpdu_t \<Rightarrow> byte list" where
  "stp_bytes b = mem16 (stp_protocol b) @ [stp_version b, stp_type b, stp_flags b]
     @ bridge_bytes (stp_root b) @ mem32 (rootPathCost b) @ bridge_bytes (stp_bridge b)
     @ mem16 (portId b) @ mem16 (messageAge b) @ mem16 (maxAge b) @ mem16 (helloTime b)
     @ mem16 (forwardDelay b)"

definition setPortId :: "u32 \<Rightarrow> u16 \<Rightarrow> stp_bpdu_t \<Rightarrow> stp_bpdu_t" where
  "setPortId prio number b =
     b\<lparr>portId := htons (ucast (push_bit 12 (prio AND 0x0f) OR (ucast number AND 0x0fff)))\<rparr>"

definition setStpFlags :: "bool \<Rightarrow> bool \<Rightarrow> stp_bpdu_t \<Rightarrow> stp_bpdu_t" where
  "setStpFlags topoChange topoChangeAck b =
     b\<lparr>stp_flags := (stp_flags b AND 0x81) OR (push_bit 7 (of_bool topoChangeAck) OR of_bool topoChange)\<rparr>"

definition setRstpFlags :: "bool \<Rightarrow> bool \<Rightarrow> bool \<Rightarrow> bool \<Rightarrow> u32 \<Rightarrow> stp_bpdu_t \<Rightarrow> stp_bpdu_t" where
  "setRstpFlags proposal forwarding learning aggreement role b =
     (let role = role AND 3
      in b\<lparr>stp_flags := stp_flags b OR
             (push_bit 6 (of_bool aggreement) OR push_bit 5 (of_bool forwarding)
              OR push_bit 4 (of_bool learning) OR push_bit 2 (ucast role)
              OR push_bit 1 (of_bool proposal))\<rparr>)"

definition TOPO_CHANGE :: u32 where "TOPO_CHANGE = 1"
definition PROPOSAL :: u32 where "PROPOSAL = 2"
definition LEARNING :: u32 where "LEARNING = 4"
definition FORWARDING :: u32 where "FORWARDING = 8"
definition AGREEMENT :: u32 where "AGREEMENT = 16"
definition TOPO_CHANGE_ACK :: u32 where "TOPO_CHANGE_ACK = 32"

text \<open>\<open>seconds / (1.0/256.0)\<close>: 1/256 is a power of two.\<close>

definition toTime :: "double \<Rightarrow> u16 res" where
  "toTime seconds = bindE (dto_unsigned 16 (ddiv seconds (Fin 1 (-8)))) (\<lambda>v. Inr (of_nat v))"

definition prepareMacHeader :: "cEthernetPacket \<Rightarrow> cEthernetPacket res" where
  "prepareMacHeader e =
     bindE (setDestMac [1, 0x80, 0xc2, 0, 0, 0] e) (\<lambda>e. addLlcHeader 0x42 0x42 3 e)"

definition stp_fields :: "u32 \<Rightarrow> u32 \<Rightarrow> byte list \<Rightarrow> u32 \<Rightarrow> u32 \<Rightarrow> u32 \<Rightarrow> byte list \<Rightarrow> u32 \<Rightarrow> u32
    \<Rightarrow> double \<Rightarrow> double \<Rightarrow> double \<Rightarrow> double \<Rightarrow> u32 \<Rightarrow> stp_bpdu_t res" where
  "stp_fields rootBridgePrio rootBridgeId rootBridgeMac pathCost bridgePrio bridgeId bridgeMac
      portPrio portNumber msgAge mxAge hello delay flags =
     bindE (toTime msgAge) (\<lambda>tAge. bindE (toTime mxAge) (\<lambda>tMax.
     bindE (toTime delay) (\<lambda>tDelay. bindE (toTime hello) (\<lambda>tHello.
     let bpdu = \<lparr>stp_protocol = 0, stp_version = 0, stp_type = 0, stp_flags = 0,
           stp_root = bridge_set rootBridgePrio rootBridgeId rootBridgeMac,
           rootPathCost = htonl pathCost,
           stp_bridge = bridge_set bridgePrio bridgeId bridgeMac,
           portId = 0, messageAge = htons tAge, maxAge = htons tMax, helloTime = htons tHello,
           forwardDelay = htons tDelay\<rparr>
     in Inr (setStpFlags (flags AND TOPO_CHANGE \<noteq> 0) (flags AND TOPO_CHANGE_ACK \<noteq> 0)
               (setPortId portPrio (ucast portNumber) bpdu))))))"

definition stp_compileConfigPdu :: "u32 \<Rightarrow> u32 \<Rightarrow> byte list \<Rightarrow> u32 \<Rightarrow> u32 \<Rightarrow> u32 \<Rightarrow> byte list \<Rightarrow> u32 \<Rightarrow> u32
    \<Rightarrow> double \<Rightarrow> double \<Rightarrow> double \<Rightarrow> double \<Rightarrow> u32 \<Rightarrow> cEthernetPacket \<Rightarrow> cEthernetPacket res" where
  "stp_compileConfigPdu rootBridgePrio rootBridgeId rootBridgeMac pathCost bridgePrio bridgeId bridgeMac
      portPrio portNumber msgAge mxAge hello delay flags e =
     bindE (prepareMacHeader e) (\<lambda>e.
     bindE (stp_fields rootBridgePrio rootBridgeId rootBridgeMac pathCost bridgePrio bridgeId bridgeMac
              portPrio portNumber msgAge mxAge hello delay flags) (\<lambda>bpdu.
     bindE (setPayload (stp_bytes bpdu) e) (\<lambda>e. setLength e)))"

definition stp_compileConfigPduRstp :: "u32 \<Rightarrow> u32 \<Rightarrow> byte list \<Rightarrow> u32 \<Rightarrow> u32 \<Rightarrow> u32 \<Rightarrow> byte list \<Rightarrow> u32 \<Rightarrow> u32
    \<Rightarrow> double \<Rightarrow> double \<Rightarrow> double \<Rightarrow> double \<Rightarrow> u32 \<Rightarrow> u32 \<Rightarrow> cEthernetPacket \<Rightarrow> cEthernetPacket res" where
  "stp_compileConfigPduRstp rootBridgePrio rootBridgeId rootBridgeMac pathCost bridgePrio bridgeId bridgeMac
      portPrio portNumber msgAge mxAge hello delay flags portRole e =
     bindE (prepareMacHeader e) (\<lambda>e.
     bindE (stp_fields rootBridgePrio rootBridgeId rootBridgeMac pathCost bridgePrio bridgeId bridgeMac
              portPrio portNumber msgAge mxAge hello delay flags) (\<lambda>bpdu.
     let bpdu = setRstpFlags (flags AND PROPOSAL \<noteq> 0) (flags AND FORWARDING \<noteq> 0)
                  (flags AND LEARNING \<noteq> 0) (flags AND AGREEMENT \<noteq> 0) portRole
                  (bpdu\<lparr>stp_version := 2, stp_type := 2\<rparr>);
         version1Len = 0
     in bindE (setPayload (stp_bytes bpdu @ [version1Len]) e) (\<lambda>e. setLength e)))"

definition stp_compileTcnPdu :: "cEthernetPacket \<Rightarrow> cEthernetPacket res" where
  "stp_compileTcnPdu e =
     bindE (prepareMacHeader e) (\<lambda>e.
     bindE (setPayload (mem16 0 @ [0, 0x80]) e) (\<lambda>e. setLength e))"

subsection \<open>The frames\<close>

lemma length_arp_bytes:
  "length sm = 6 \<Longrightarrow> length si = 4 \<Longrightarrow> length dm = 6 \<Longrightarrow> length di = 4 \<Longrightarrow>
   length (arp_bytes (arp_fields opc sm si dm di)) = 28"
  by (simp add: arp_bytes_def arp_fields_def)

lemma setMacHeader_holds:
  assumes "holds e f" and "length s = 6" and "length d = 6"
  shows "\<exists>e'. setMacHeader s d e = Inr e' \<and> holds e' (f\<lparr>f_src := s, f_dest := d\<rparr>) \<and> hasDMAC e'
    \<and> packetMaxLength e' = packetMaxLength e"
proof -
  obtain a where a: "setSrcMac s e = Inr a" "holds a (f\<lparr>f_src := s\<rparr>)" "packetMaxLength a = packetMaxLength e"
    using setSrcMac_holds [OF assms(1,2)] by blast
  from setDestMac_holds [OF a(2) assms(3)] a show ?thesis by (auto simp: setMacHeader_def)
qed

text \<open>
  The ARP frame: broadcast when no target MAC is given, EtherType 0x0806 and the 28 bytes of
  RFC 826, in network order.
\<close>

lemma arp_setAll_frame:
  assumes "holds e f" and "f_llc f = []"
    and "length srcMac = 6" "length srcIp = 4" "length dstMac = 6" "length dstIp = 4"
    and "42 + length (f_tags f) \<le> packetMaxLength e"
  shows "\<exists>e'. arp_setAll opc srcMac srcIp dstMac dstIp e = Inr e' \<and> hasDMAC e' \<and>
     visible e' = (if mac_isNull dstMac then replicate 6 0xff else dstMac) @ srcMac @ f_tags f
       @ [0x08, 0x06] @ [0, 1, 0x08, 0, 6, 4] @ be16 opc @ srcMac @ srcIp @ dstMac @ dstIp"
proof -
  let ?d = "if mac_isNull dstMac then mac_set_all 0xff else dstMac"
  let ?p = "arp_bytes (arp_fields opc srcMac srcIp dstMac dstIp)"
  have d: "length ?d = 6" using assms(5) by (simp add: mac_set_all_def)
  obtain a where a: "setMacHeader srcMac ?d e = Inr a" "holds a (f\<lparr>f_src := srcMac, f_dest := ?d\<rparr>)"
    "hasDMAC a" "packetMaxLength a = packetMaxLength e"
    using setMacHeader_holds [OF assms(1,3) d] by blast
  obtain b where b: "setTypeLength ETHERTYPE_ARP a = Inr b"
    "holds b (f\<lparr>f_src := srcMac, f_dest := ?d, f_type := be16 ETHERTYPE_ARP\<rparr>)"
    "hasDMAC b" "packetMaxLength b = packetMaxLength e"
    using setTypeLength_holds [OF a(2)] a(3,4) by fastforce
  let ?f = "f\<lparr>f_src := srcMac, f_dest := ?d, f_type := be16 ETHERTYPE_ARP, f_payload := ?p\<rparr>"
  have len: "length ?p = 28" using assms(3-6) by (simp add: length_arp_bytes)
  then have "length (frame_bytes ?f) \<le> packetMaxLength b"
    using assms(2,3,7) d b(4) by (simp add: frame_bytes_def)
  then obtain c where c: "setPayload ?p b = Inr c" "holds c ?f" "hasDMAC c"
    using setPayload_holds [OF b(2), of ?p] b(3) len by auto
  have r: "arp_setAll opc srcMac srcIp dstMac dstIp e = Inr c"
    using a(1) b(1) c(1) by (simp add: arp_setAll_def Let_def)
  have "visible c = frame_bytes ?f" using c(2) by (rule holds_visible)
  moreover have "be16 ETHERTYPE_ARP = [0x08, 0x06]" "be16 ETHERTYPE_IPV4 = [0x08, 0]" "be16 1 = [0, 1]"
    by (simp_all add: be16_def ETHERTYPE_ARP_def ETHERTYPE_IPV4_def)
  ultimately show ?thesis
    using r c(3) assms(2)
    by (simp add: frame_bytes_def arp_bytes_def arp_fields_def mem16_htons mac_set_all_def)
qed

end
