(* ===== verification/Instruction.thy ===== *)
theory Instruction
  imports LldpParser Transport LinkPackets
begin

section \<open>cInstructionParser\<close>

text \<open>
  src/compiler/instructionparser.hpp and instructionparser.cpp: one instruction of the language is
  parsed into a parameter list and compiled by the method of its protocol. An embedded instruction
  is compiled by the same parser: the methods take the recursive call as the argument \<open>rec\<close> (the
  text and \<open>noEthHeader\<close>), and \<open>parse_fuel\<close> ties the knot; the parser's own depth limit of 8 makes
  9 levels of fuel enough. A null \<open>m_currentInstruction\<close> is the empty text.
\<close>

datatype cLinkable = EthPacket cEthernetPacket | IpPacket cIPPacket

record cResult =
  hasTimestamp :: bool
  timestamp :: u64
  isAbsolute :: bool
  packets :: "cLinkable option"

definition new_cResult :: cResult where
  "new_cResult = \<lparr>hasTimestamp = False, timestamp = 0, isAbsolute = False, packets = None\<rparr>"

type_synonym nested = "string \<Rightarrow> bool \<Rightarrow> (pstate, cResult) M"

definition throwParseException :: "string \<Rightarrow> string option \<Rightarrow> nat \<Rightarrow> string option \<Rightarrow> (pstate, 'a) M" where
  "throwParseException msg val vLen details = bindM (getM m_currentInstruction) (\<lambda>inst.
     throwM (ParseException inst msg val vLen
       (case details of Some [] \<Rightarrow> None | d \<Rightarrow> d)))"

text \<open>The state of a new parser; there is no parameter list before the first instruction.\<close>

definition new_cInstructionParser :: "env \<Rightarrow> bool \<Rightarrow> pstate" where
  "new_cInstructionParser e optDestMAC = env.extend e (pstate.fields
     \<lparr>plist = [], par_used = [], parseError = None,
      defaultParameter = \<lparr>def_int32 = 0, def_mac = [], def_ip = [], def_dbl = NaN\<rparr>\<rparr>
     [] optDestMAC 0 False)"

subsection \<open>Timestamp and protocol\<close>

definition parseTimestamp :: "string \<Rightarrow> cResult \<Rightarrow> (pstate, string \<times> cResult) M" where
  "parseTimestamp p res =
     (let res = res\<lparr>hasTimestamp := False\<rparr>;
          p = skipWhitespaces p;
          c = char_at p 0
      in if isdigit c \<or> c = CHR ''+'' then
           (case strtoull p 10 of (t, rest, erange) \<Rightarrow>
             let res = res\<lparr>isAbsolute := (c \<noteq> CHR ''+''), timestamp := of_nat t\<rparr>
             in bindM (if erange then set_errno True else returnM ()) (\<lambda>_.
                if length rest \<noteq> length p then
                  (case nextCharIgnoreWhitspaces rest CHR '':'' of
                     None \<Rightarrow> throwParseException (''Expected '' @ [CHR 0x27, CHR '':'', CHR 0x27] @ '' after timestamp'') (Some rest) 0 None
                   | Some q \<Rightarrow> returnM (drop 1 q, res\<lparr>hasTimestamp := True\<rparr>))
                else throwParseException ''Invalid timestamp'' (Some p) 0 None))
         else returnM (p, res))"

text \<open>The text at the parameter list, the keyword and its length.\<close>

definition parseProtocollIdentifier :: "string \<Rightarrow> (pstate, string \<times> string \<times> nat) M" where
  "parseProtocollIdentifier p =
     (case nextKeyStart p of
        None \<Rightarrow> throwParseException ''Missing protocol specifier'' None 0 None
      | Some keyword \<Rightarrow>
          let keywordEnd = nextKeyEnd keyword
          in case nextCharIgnoreWhitspaces keywordEnd CHR ''('' of
               None \<Rightarrow> throwParseException (''Expected '' @ [CHR 0x27, CHR ''('', CHR 0x27] @ '' after protocol specifier'') (Some keyword) 0 None
             | Some q \<Rightarrow> returnM (q, keyword, length keyword - length keywordEnd))"

subsection \<open>Helpers of the protocol methods\<close>

definition getParameterOrOwnMac :: "Parameter \<Rightarrow> (pstate, byte list) M" where
  "getParameterOrOwnMac par = ifGiven par asMac getMyMAC"

definition getParameterOrOwnIPv4 :: "Parameter \<Rightarrow> (pstate, byte list) M" where
  "getParameterOrOwnIPv4 par = ifGiven par asIPv4 getMyIPv4"

definition getParameterOrOwnIPv6 :: "Parameter \<Rightarrow> (pstate, byte list) M" where
  "getParameterOrOwnIPv6 par = ifGiven par asIPv6 getMyIPv6"

definition compileMacHeader :: "bool \<Rightarrow> bool \<Rightarrow> cEthernetPacket \<Rightarrow> (pstate, bool \<times> cEthernetPacket) M" where
  "compileMacHeader noDestination destIsOptional e =
     bindM (getParameterOrOwnMac PAR_ETH_SMAC) (\<lambda>smac.
     bindM (liftE (setSrcMac smac e)) (\<lambda>e.
     if \<not> noDestination then
       bindM (findParameterFrom None None (par_syntax PAR_ETH_DMAC) destIsOptional) (\<lambda>r. case r of
         Some r \<Rightarrow> bindM (asMac r) (\<lambda>dmac. bindM (liftE (setDestMac dmac e)) (\<lambda>e. returnM (True, e)))
       | None \<Rightarrow> returnM (False, e))
     else returnM (False, e)))"

definition compileVLANTags :: "cEthernetPacket \<Rightarrow> (pstate, cEthernetPacket) M" where
  "compileVLANTags = for_each None PAR_ETH_VID (\<lambda>r e.
     bindM (bindM (findIntAfter r PAR_ETH_VID PAR_ETH_VTYPE 1) (asInt8 1 2)) (\<lambda>type.
     bindM (asInt16 0 0x0fff r) (\<lambda>vid.
     bindM (bindM (findIntAfter r PAR_ETH_VID PAR_ETH_PRIO 0) (asInt8 0 7)) (\<lambda>prio.
     bindM (bindM (findIntAfter r PAR_ETH_VID PAR_ETH_DEI 0) (asInt8 0 1)) (\<lambda>dei.
     liftE (addVlanTag (type = 1) vid (ucast prio) (ucast dei) e))))))"

text \<open>The two calls that nearly every method makes when it writes an Ethernet header.\<close>

definition macAndVlan :: "bool \<Rightarrow> bool \<Rightarrow> cEthernetPacket \<Rightarrow> (pstate, cEthernetPacket) M" where
  "macAndVlan noDestination destIsOptional e =
     bindM (compileMacHeader noDestination destIsOptional e) (\<lambda>(_, e). compileVLANTags e)"

definition onFirstEthernet :: "(cEthernetPacket \<Rightarrow> (pstate, cEthernetPacket) M) \<Rightarrow> cIPPacket
    \<Rightarrow> (pstate, cIPPacket) M" where
  "onFirstEthernet f ipp = bindM (liftE (getFirstEthernetPacket ipp)) (\<lambda>e. bindM (f e) (\<lambda>e.
     returnM (ipp\<lparr>m_packets := e # tl (m_packets ipp)\<rparr>)))"

definition compileEmbedded :: "nested \<Rightarrow> pref \<Rightarrow> bool \<Rightarrow> (pstate, byte list) M" where
  "compileEmbedded rec r noEthHeader =
     bindM (asEmbedded r) (\<lambda>(payload, isEmbedded). case (isEmbedded, payload) of
       (True, Text t n) \<Rightarrow>
         bindM getMyMTU (\<lambda>mtu.
         bindM (setMyMTU (32 * 1024)) (\<lambda>_.
         bindM (catchM (bindM (rec t noEthHeader) (\<lambda>res. bindM (setMyMTU mtu) (\<lambda>_. returnM res)))
                  (\<lambda>e. bindM (setMyMTU mtu) (\<lambda>_. throwM e))) (\<lambda>res.
         bindM (case packets res of
             Some (EthPacket e) \<Rightarrow> returnM (Some e)
           | Some (IpPacket ipp) \<Rightarrow> bindM (liftE (getFirstEthernetPacket ipp)) (\<lambda>e. returnM (Some e))
           | None \<Rightarrow> returnM None) (\<lambda>eth. case eth of
             Some e \<Rightarrow> returnM (if \<not> noEthHeader then visible e else getPayload e)
           | None \<Rightarrow> throwParseException ''unsupported embedded packet'' (Some t) n None))))
     | _ \<Rightarrow> returnM (stream_bytes payload))"

text \<open>\<open>if (optionalPar) payload = compileEmbedded (optionalPar, noEthHeader, len)\<close>, or a null pointer.\<close>

definition embeddedOrNull :: "nested \<Rightarrow> Parameter \<Rightarrow> bool \<Rightarrow> (pstate, byte list option) M" where
  "embeddedOrNull rec par noEthHeader =
     ifGiven par (\<lambda>r. bindM (compileEmbedded rec r noEthHeader) (\<lambda>b. returnM (Some b))) (returnM None)"

definition parseIPv4Params :: "bool \<Rightarrow> cIPPacket \<Rightarrow> (pstate, bool \<times> cIPPacket) M" where
  "parseIPv4Params noDestinationIP p =
     bindM (int8Or PAR_IP_DSCP 0 0 0x3f) (\<lambda>v. let p = setDSCP (ucast v) p in
     bindM (int8Or PAR_IP_ECN 0 0 3) (\<lambda>v. let p = setECN (ucast v) p in
     bindM (int8Or PAR_IP_TTL 64 0 0xff) (\<lambda>v. let p = setTimeToLive v p in
     bindM (int8Or PAR_IP4_DF 0 0 1) (\<lambda>v.
     bindM (liftE (setDontFragment (v \<noteq> 0) p)) (\<lambda>p.
     bindM (if \<not> noDestinationIP
       then bindM (bindM (findParameter (par_syntax PAR_IP_DIP)) asIPv4) (\<lambda>destIP.
            bindM (liftE (setDestination4 destIP p)) (\<lambda>p. returnM (ipv4_isMulticast destIP, p)))
       else returnM (False, p)) (\<lambda>(isMulticast, p).
     bindM (getParameterOrOwnIPv4 PAR_IP_SIP) (\<lambda>sip.
     bindM (liftE (setSource4 sip p)) (\<lambda>p.
     bindM (ifGiven PAR_IP4_ID (\<lambda>r. bindM (asInt16 0 0xffff r) (\<lambda>i. liftE (setIdentification i p))) (returnM p)) (\<lambda>p.
     bindM (ifGiven PAR_IP4_CHKSUM (\<lambda>r. bindM (asInt16 0 0xffff r) (\<lambda>c. liftE (setHeaderChksum c p))) (returnM p)) (\<lambda>p.
     returnM (isMulticast, p)))))))))))"

definition parseIPv6Params :: "bool \<Rightarrow> cIPPacket \<Rightarrow> (pstate, bool \<times> cIPPacket) M" where
  "parseIPv6Params noDestinationIP p =
     bindM (int8Or PAR_IP_DSCP 0 0 0x3f) (\<lambda>v. let p = setDSCP (ucast v) p in
     bindM (int8Or PAR_IP_ECN 0 0 3) (\<lambda>v. let p = setECN (ucast v) p in
     bindM (int8Or PAR_IP_TTL 64 0 0xff) (\<lambda>v. let p = setTimeToLive v p in
     bindM (if \<not> noDestinationIP
       then bindM (bindM (findParameter (par_syntax PAR_IP_DIP)) asIPv6) (\<lambda>destIP.
            bindM (liftE (setDestination6 destIP p)) (\<lambda>p. returnM (ipv6_isMulticast destIP, p)))
       else returnM (False, p)) (\<lambda>(isMulticast, p).
     bindM (getParameterOrOwnIPv6 PAR_IP_SIP) (\<lambda>sip.
     bindM (liftE (setSource6 sip p)) (\<lambda>p.
     bindM (ifGiven PAR_IP6_FL (\<lambda>r. bindM (asInt32 0 0xfffff r) (\<lambda>f. liftE (setFlowLabel f p))) (returnM p)) (\<lambda>p.
     returnM (isMulticast, p))))))))"

text \<open>
  What the methods for IP, UDP, VXLAN, TCP, GRE and ICMP have in common: the IP parameters and,
  unless there is no Ethernet header, the MAC header of the first packet; the destination MAC is
  optional for a multicast address.
\<close>

definition ipAndMac :: "bool \<Rightarrow> bool \<Rightarrow> cIPPacket \<Rightarrow> (pstate, cIPPacket) M" where
  "ipAndMac noEthHeader isIPv6 p =
     bindM (if isIPv6 then parseIPv6Params False p else parseIPv4Params False p) (\<lambda>(destIsMulticast, p).
     if \<not> noEthHeader
     then bindM (getM m_ipOptionalDestMAC) (\<lambda>opt. onFirstEthernet (macAndVlan False (opt \<or> destIsMulticast)) p)
     else returnM p)"

subsection \<open>Raw and Ethernet frames\<close>

text \<open>\<open>!strncmp (PAR.syntax, name.first, name.second)\<close>: a shortened name matches too.\<close>

definition isNamed :: "Parameter \<Rightarrow> cParameter \<Rightarrow> bool" where
  "isNamed par p = strncmp_eq (par_syntax par) (parameter p) (parLen p)"

definition raw_value :: "cParameter \<Rightarrow> pref \<Rightarrow> (pstate, byte list option) M" where
  "raw_value p r =
     (let some = (\<lambda>m. bindM m (\<lambda>b. returnM (Some b)))
      in if isNamed PAR_RAW_BYTE p then some (bindM (asInt8 0 0xff r) (\<lambda>v. returnM [v]))
         else if isNamed PAR_RAW_BE16 p then some (bindM (asInt16 0 0xffff r) (\<lambda>v. returnM (mem16 (toBE16 v))))
         else if isNamed PAR_RAW_BE32 p then some (bindM (asInt32 0 0xffffffff r) (\<lambda>v. returnM (mem32 (toBE32 v))))
         else if isNamed PAR_RAW_BE64 p then some (bindM (asInt64 0 (- 1) r) (\<lambda>v. returnM (mem64 (toBE64 v))))
         else if isNamed PAR_RAW_LE16 p then some (bindM (asInt16 0 0xffff r) (\<lambda>v. returnM (mem16 (toLE16 v))))
         else if isNamed PAR_RAW_LE32 p then some (bindM (asInt32 0 0xffffffff r) (\<lambda>v. returnM (mem32 (toLE32 v))))
         else if isNamed PAR_RAW_LE64 p then some (bindM (asInt64 0 (- 1) r) (\<lambda>v. returnM (mem64 (toLE64 v))))
         else if isNamed PAR_RAW_IP4 p then some (asIPv4 r)
         else if isNamed PAR_RAW_IP6 p then some (asIPv6 r)
         else if isNamed PAR_RAW_MAC p then some (asMac r)
         else if isNamed PAR_RAW_STREAM p then some (asStream SIZE_MAX r)
         else returnM None)"

fun raw_loop :: "nat list \<Rightarrow> cByteArray \<Rightarrow> (pstate, cByteArray) M" where
  "raw_loop [] payload = returnM payload"
| "raw_loop (n # ns) payload =
     bindM (the_param n) (\<lambda>p.
     bindM (setUsed n True) (\<lambda>_.
     bindM (raw_value p (PRef n)) (\<lambda>v. case v of
       Some b \<Rightarrow> bindM (getM junk_of) (\<lambda>junk. bindM (liftE (append_bytes junk payload b)) (raw_loop ns))
     | None \<Rightarrow> bindM (setUsed n False) (\<lambda>_. raw_loop ns payload))))"

definition compileRAW :: "bool \<Rightarrow> (pstate, cLinkable) M" where
  "compileRAW noEthHeader =
     bindM (getM junk_of) (\<lambda>junk.
     bindM (liftE (new_cByteArray junk 0 DEFAULT_CHUNK)) (\<lambda>payload.
     bindM (getM (length \<circ> plist \<circ> params)) (\<lambda>n.
     bindM (raw_loop [0..<n] payload) (\<lambda>payload.
     let b = bytes_of payload
     in bindM (liftE (eth_new junk (length b + 14))) (\<lambda>e.
        bindM (liftE (if noEthHeader then setPayload b e else setRaw b e)) (\<lambda>e.
        returnM (EthPacket e)))))))"

definition compileETH :: "(pstate, cLinkable) M" where
  "compileETH =
     bindM eth_default (\<lambda>e.
     bindM (macAndVlan False False e) (\<lambda>e.
     bindM (ifGiven PAR_ETH_DSAP
       (\<lambda>r. bindM (asInt8 0 0xff r) (\<lambda>dsap.
            bindM (int8Of PAR_ETH_SSAP 0 0xff) (\<lambda>ssap.
            bindM (int16Or PAR_ETH_CONTROL 3 0 0xffff) (\<lambda>control.
            liftE (addLlcHeader dsap ssap control e)))))
       (ifGiven PAR_ETH_OUI
         (\<lambda>r. bindM (asInt32 0 0x00ffffff r) (\<lambda>oui.
              bindM (int16Of PAR_ETH_PROTOCOL 0 0xffff) (\<lambda>proto.
              liftE (addSnapHeader oui proto e))))
         (returnM e))) (\<lambda>e.
     bindM (bindM (findParameter (par_syntax PAR_ETH_PAYLOAD)) (asStream SIZE_MAX)) (\<lambda>v.
     bindM (liftE (setPayload v e)) (\<lambda>e.
     bindM (if hasLlcHeader e then liftE (setLength e)
            else ifGiven PAR_ETH_ETHERTYPE
              (\<lambda>r. bindM (asInt16 0 0xffff r) (\<lambda>t. liftE (setTypeLength t e)))
              (liftE (setLength e))) (\<lambda>e.
     returnM (EthPacket e)))))))"

definition compileARP :: "bool \<Rightarrow> bool \<Rightarrow> (pstate, cLinkable) M" where
  "compileARP isProbe isGratuitous =
     bindM eth_default (\<lambda>arp.
     bindM (if isProbe then
              bindM getMyMAC (\<lambda>m. bindM (bindM (findParameter (par_syntax PAR_IP_DIP)) asIPv4) (\<lambda>a.
              liftE (arp_probe m a arp)))
            else if isGratuitous then
              bindM getMyMAC (\<lambda>m. bindM (getParameterOrOwnIPv4 PAR_IP_DIP) (\<lambda>a.
              liftE (arp_announce m a arp)))
            else
              bindM (bindM (findMac (par_syntax PAR_ETH_DMAC) (mac_set_all 0)) asMac) (\<lambda>targetMac.
              bindM (int16Or PAR_ARP_OP 1 0 0xffff) (\<lambda>opcode.
              bindM (getParameterOrOwnMac PAR_ETH_SMAC) (\<lambda>smac.
              bindM (getParameterOrOwnIPv4 PAR_IP_SIP) (\<lambda>sip.
              bindM (bindM (findParameter (par_syntax PAR_IP_DIP)) asIPv4) (\<lambda>dip.
              liftE (arp_setAll opcode smac sip targetMac dip arp))))))) (\<lambda>arp.
     bindM (compileVLANTags arp) (\<lambda>arp.
     returnM (EthPacket arp))))"

subsection \<open>IP, UDP, VXLAN, TCP and GRE\<close>

definition compileIP :: "bool \<Rightarrow> bool \<Rightarrow> (pstate, cLinkable) M" where
  "compileIP noEthHeader isIPv6 =
     bindM (ip_new isIPv6) (\<lambda>p.
     bindM (ipAndMac noEthHeader isIPv6 p) (\<lambda>p.
     bindM (bindM (findParameter (par_syntax PAR_IP_PAYLOAD)) (asStream SIZE_MAX)) (\<lambda>payload.
     bindM (int8Of PAR_IP_PROTOCOL 0 0xff) (\<lambda>proto.
     bindM (ip_compile proto None (Some payload) p) (\<lambda>p.
     returnM (IpPacket p))))))"

definition compileUDP :: "nested \<Rightarrow> bool \<Rightarrow> bool \<Rightarrow> (pstate, cLinkable) M" where
  "compileUDP rec noEthHeader isIPv6 =
     bindM (udp_new isIPv6) (\<lambda>u.
     bindM (ipAndMac noEthHeader isIPv6 (udp_ip u)) (\<lambda>p. let u = u\<lparr>udp_ip := p\<rparr> in
     bindM (int16Of PAR_UDP_SPORT 0 0xffff) (\<lambda>v. let u = udp_setSourcePort v u in
     bindM (int16Of PAR_UDP_DPORT 0 0xffff) (\<lambda>v. let u = udp_setDestinationPort v u in
     bindM (embeddedOrNull rec PAR_UDP_PAYLOAD False) (\<lambda>payload.
     bindM (udp_compile payload u) (\<lambda>u.
     bindM (ifGiven PAR_UDP_CHKSUM (\<lambda>r. bindM (asInt16 0 0xffff r) (\<lambda>c. liftE (udp_setChecksum c u)))
              (returnM u)) (\<lambda>u.
     returnM (IpPacket (udp_ip u)))))))))"

definition compileVXLAN :: "nested \<Rightarrow> bool \<Rightarrow> bool \<Rightarrow> (pstate, cLinkable) M" where
  "compileVXLAN rec noEthHeader isIPv6 =
     bindM (vxlan_new isIPv6) (\<lambda>v.
     bindM (ipAndMac noEthHeader isIPv6 (udp_ip (vx_udp v))) (\<lambda>p. let u = vx_udp v\<lparr>udp_ip := p\<rparr> in
     bindM (int16Of PAR_UDP_SPORT 0 0xffff) (\<lambda>port. let u = udp_setSourcePort port u in
     bindM (int16Or PAR_UDP_DPORT 4789 0 0xffff) (\<lambda>port. let u = udp_setDestinationPort port u in
     bindM (int32Or PAR_VXLAN_VNI 0 0 0x00ffffff) (\<lambda>vni. let v = vxlan_setVni vni (v\<lparr>vx_udp := u\<rparr>) in
     bindM (embeddedOrNull rec PAR_VXLAN_PAYLOAD False) (\<lambda>payload.
     bindM (vxlan_compile (case payload of None \<Rightarrow> [] | Some b \<Rightarrow> b) v) (\<lambda>v.
     returnM (IpPacket (udp_ip (vx_udp v))))))))))"

text \<open>The nine flags, in the order of the source.\<close>

fun tcp_flag_params :: "(Parameter \<times> (bool \<Rightarrow> cTcpPacket \<Rightarrow> cTcpPacket)) list \<Rightarrow> cTcpPacket
    \<Rightarrow> (pstate, cTcpPacket) M" where
  "tcp_flag_params [] t = returnM t"
| "tcp_flag_params ((par, f) # fs) t = bindM (boolOr par 0) (\<lambda>v. tcp_flag_params fs (f v t))"

definition tcp_flags_table :: "(Parameter \<times> (bool \<Rightarrow> cTcpPacket \<Rightarrow> cTcpPacket)) list" where
  "tcp_flags_table = [(PAR_TCP_FIN, tcp_setFlagFIN), (PAR_TCP_SYN, tcp_setFlagSYN),
     (PAR_TCP_RESET, tcp_setFlagRST), (PAR_TCP_PUSH, tcp_setFlagPSH), (PAR_TCP_ACKFLAG, tcp_setFlagACK),
     (PAR_TCP_URGENT, tcp_setFlagURG), (PAR_TCP_ECN, tcp_setFlagECE), (PAR_TCP_CWR, tcp_setFlagCWR),
     (PAR_TCP_NONCE, tcp_setFlagNON)]"

definition compileTCP :: "nested \<Rightarrow> bool \<Rightarrow> bool \<Rightarrow> (pstate, cLinkable) M" where
  "compileTCP rec noEthHeader isIPv6 =
     bindM (tcp_new isIPv6) (\<lambda>t.
     bindM (ipAndMac noEthHeader isIPv6 (tcp_ip t)) (\<lambda>p. let t = t\<lparr>tcp_ip := p\<rparr> in
     bindM (int16Of PAR_TCP_SPORT 0 0xffff) (\<lambda>v. let t = tcp_setSourcePort v t in
     bindM (int16Of PAR_TCP_DPORT 0 0xffff) (\<lambda>v. let t = tcp_setDestinationPort v t in
     bindM (int32Of PAR_TCP_SEQ 0 0xffffffff) (\<lambda>v.
     bindM (tcp_setSeqNumber v t) (\<lambda>t.
     bindM (int32Of PAR_TCP_ACK 0 0xffffffff) (\<lambda>v. let t = tcp_setAckNumber v t in
     bindM (int16Or PAR_TCP_WIN 1024 0 0xffff) (\<lambda>v. let t = tcp_setWindow v t in
     bindM (int16Or PAR_TCP_URGPTR 0 0 0xffff) (\<lambda>v. let t = tcp_setUrgentPointer v t in
     bindM (tcp_flag_params tcp_flags_table t) (\<lambda>t.
     bindM (embeddedOrNull rec PAR_TCP_PAYLOAD False) (\<lambda>payload.
     bindM (ifGiven PAR_TCP_CHKSUM
              (\<lambda>r. bindM (asInt16 0 0xffff r) (\<lambda>c. returnM (True, tcp_setChecksum c t)))
              (returnM (False, t))) (\<lambda>(userDefinedChecksum, t).
     bindM (tcp_compile payload (\<not> userDefinedChecksum) t) (\<lambda>t.
     returnM (IpPacket (tcp_ip t)))))))))))))))"

definition compileGRE :: "nested \<Rightarrow> bool \<Rightarrow> bool \<Rightarrow> (pstate, cLinkable) M" where
  "compileGRE rec noEthHeader isIPv6 =
     bindM (gre_new isIPv6) (\<lambda>g.
     bindM (ipAndMac noEthHeader isIPv6 (gre_ip g)) (\<lambda>p. let g = g\<lparr>gre_ip := p\<rparr> in
     bindM (int16Of PAR_GRE_PROTOCOL 0 0xffff) (\<lambda>v. let g = gre_setProtocolType v g in
     bindM (ifGiven PAR_GRE_KEY (\<lambda>r. bindM (asInt32 0 0xffffffff r) (\<lambda>v. returnM (gre_setKey v g)))
              (returnM g)) (\<lambda>g.
     bindM (ifGiven PAR_GRE_SEQ (\<lambda>r. bindM (asInt32 0 0xffffffff r) (\<lambda>v. returnM (gre_setSequence v g)))
              (returnM g)) (\<lambda>g.
     bindM (ifGiven PAR_GRE_CHKSUM (\<lambda>r. bindM (asInt16 0 0xffff r) (\<lambda>v. returnM (v = 0, gre_setChecksum v g)))
              (returnM (False, g))) (\<lambda>(calcChecksum, g).
     bindM (embeddedOrNull rec PAR_GRE_PAYLOAD True) (\<lambda>payload.
     bindM (gre_compile payload calcChecksum g) (\<lambda>g.
     returnM (IpPacket (gre_ip g))))))))))"

subsection \<open>VRRP, STP and IGMP\<close>

text \<open>
  A loop over at most \<open>n\<close> parameters of one name, those after \<open>start\<close>.
\<close>

fun for_upto :: "nat \<Rightarrow> pref option \<Rightarrow> Parameter \<Rightarrow> (pref \<Rightarrow> 'a \<Rightarrow> (pstate, 'a) M) \<Rightarrow> 'a \<Rightarrow> (pstate, 'a) M" where
  "for_upto 0 start par f x = returnM x"
| "for_upto (Suc n) start par f x =
     bindM (findParameterFrom start None (par_syntax par) True) (\<lambda>r. case r of
       None \<Rightarrow> returnM x
     | Some r \<Rightarrow> bindM (f r x) (for_upto n (Some r) par f))"

definition compileVRRP :: "bool \<Rightarrow> u32 \<Rightarrow> (pstate, cLinkable) M" where
  "compileVRRP noEthHeader version =
     bindM vrrp_new (\<lambda>v.
     bindM (parseIPv4Params True (vrrp_ip v)) (\<lambda>(_, p).
     bindM (if \<not> noEthHeader then onFirstEthernet (macAndVlan True False) p else returnM p) (\<lambda>p.
     let v = v\<lparr>vrrp_ip := p\<rparr> in
     bindM (findParameter (par_syntax PAR_VRRP_VRIP)) (\<lambda>firstVRIP.
     let v = vrrp_setVersion version v in
     bindM (int8Of PAR_VRRP_VRID 1 255) (\<lambda>i. let v = vrrp_setVRID i v in
     bindM (asIPv4 firstVRIP) (\<lambda>a. let v = addVirtualIP a v in
     bindM (int8Or PAR_VRRP_VRPRIO 100 0 0xff) (\<lambda>prio. let v = vrrp_setPrio prio v in
     bindM (int8Or PAR_VRRP_TYPE 1 0 15) (\<lambda>type. let v = vrrp_setType type v in
     bindM (if version = 2 then bindM (int8Or PAR_VRRP_AINT 1 0 0xff) (\<lambda>n. returnM (ucast n))
            else int16Or PAR_VRRP_AINT 100 0 4095) (\<lambda>n. let v = vrrp_setInterval n v in
     bindM (ifGiven PAR_VRRP_CHKSUM (\<lambda>r. bindM (asInt16 0 0xffff r) (\<lambda>c. returnM (True, vrrp_setChecksum c v)))
              (returnM (False, v))) (\<lambda>(userDefinedChecksum, v).
     bindM (for_upto 254 (Some firstVRIP) PAR_VRRP_VRIP
              (\<lambda>r v. bindM (asIPv4 r) (\<lambda>a. returnM (addVirtualIP a v))) v) (\<lambda>v.
     bindM (vrrp_compile (\<not> userDefinedChecksum) v) (\<lambda>v.
     returnM (IpPacket (vrrp_ip v))))))))))))))"

definition flagIf :: "u32 \<Rightarrow> Parameter \<Rightarrow> u32 \<Rightarrow> (pstate, u32) M" where
  "flagIf f par d = bindM (boolOr par d) (\<lambda>b. returnM (if b then f else 0))"

definition compileSTP :: "bool \<Rightarrow> bool \<Rightarrow> bool \<Rightarrow> (pstate, cLinkable) M" where
  "compileSTP noEthHeader isRSTP isTCN =
     bindM eth_default (\<lambda>stp.
     bindM (if \<not> noEthHeader then macAndVlan True False stp else returnM stp) (\<lambda>stp.
     bindM (if \<not> isTCN then
       (let time = (\<lambda>par d. doubleOr par d (dbl 0 1) (dbl 255996 1000)) in
       bindM (int8Or PAR_STP_RBPRIO 8 0 15) (\<lambda>rootBridgePrio.
       bindM (int16Or PAR_STP_RBIDEXT 0 0 4095) (\<lambda>rootBridgeId.
       bindM (getParameterOrOwnMac PAR_STP_RBMAC) (\<lambda>rootBridgeMac.
       bindM (int8Or PAR_STP_BPRIO 8 0 15) (\<lambda>bridgePrio.
       bindM (int16Or PAR_STP_BIDEXT 0 0 4095) (\<lambda>bridgeId.
       bindM (getParameterOrOwnMac PAR_STP_BMAC) (\<lambda>bridgeMac.
       bindM (int8Or PAR_STP_PPRIO 8 0 15) (\<lambda>portPrio.
       bindM (int16Or PAR_STP_PNUM 1 1 4095) (\<lambda>portNumber.
       bindM (time PAR_STP_MSGAGE (dbl 0 1)) (\<lambda>msgAge.
       bindM (time PAR_STP_MAXAGE (dbl 20 1)) (\<lambda>mxAge.
       bindM (time PAR_STP_HELLO (dbl 2 1)) (\<lambda>hello.
       bindM (time PAR_STP_DELAY (dbl 15 1)) (\<lambda>delay.
       bindM (flagIf TOPO_CHANGE PAR_STP_TOPOCHANGE 0) (\<lambda>f1.
       bindM (flagIf TOPO_CHANGE_ACK PAR_STP_TOPOCHANGEACK 0) (\<lambda>f2.
       if isRSTP then
         bindM (int32Or PAR_STP_RPATHCOST 20000 1 4294967295) (\<lambda>pathCost.
         bindM (int8Or PAR_STP_PORTROLE 3 1 3) (\<lambda>role.
         bindM (flagIf PROPOSAL PAR_STP_PROPOSAL 0) (\<lambda>f3.
         bindM (flagIf LEARNING PAR_STP_LEARNING 1) (\<lambda>f4.
         bindM (flagIf FORWARDING PAR_STP_FORWARDING 1) (\<lambda>f5.
         bindM (flagIf AGREEMENT PAR_STP_AGREEMENT 0) (\<lambda>f6.
         liftE (stp_compileConfigPduRstp (ucast rootBridgePrio) (ucast rootBridgeId) rootBridgeMac pathCost
           (ucast bridgePrio) (ucast bridgeId) bridgeMac (ucast portPrio) (ucast portNumber)
           msgAge mxAge hello delay (f1 OR f2 OR f3 OR f4 OR f5 OR f6) (ucast role) stp)))))))
       else
         bindM (int32Or PAR_STP_RPATHCOST 4 1 65535) (\<lambda>pathCost.
         liftE (stp_compileConfigPdu (ucast rootBridgePrio) (ucast rootBridgeId) rootBridgeMac pathCost
           (ucast bridgePrio) (ucast bridgeId) bridgeMac (ucast portPrio) (ucast portNumber)
           msgAge mxAge hello delay (f1 OR f2) stp)))))))))))))))))
     else liftE (stp_compileTcnPdu stp)) (\<lambda>stp.
     returnM (EthPacket stp))))"

definition igmp_query :: "bool \<Rightarrow> cIgmpPacket \<Rightarrow> (pstate, cIgmpPacket) M" where
  "igmp_query v3 g =
     bindM (if v3 then
       bindM (boolOr PAR_IGMP_S 0) (\<lambda>s.
       bindM (int8Or PAR_IGMP_QRV 2 0 7) (\<lambda>qrv.
       bindM (doubleOr PAR_IGMP_QQIC (dbl 125 1) (dbl 0 1) (dbl 31744 1)) (\<lambda>qqic.
       bindM (doubleOr PAR_IGMP_TIME (dbl 10 1) (dbl 0 1) (dbl 31744 10)) (\<lambda>time.
       bindM (for_upto 366 None PAR_IGMP_RSIP (\<lambda>r g. bindM (asIPv4 r) (\<lambda>a. returnM (v3addSource a g))) g) (\<lambda>g.
       returnM (s, ucast qrv, qqic, time, g))))))
     else bindM (doubleOr PAR_IGMP_TIME (dbl 10 1) (dbl 0 1) (dbl 255 10)) (\<lambda>time.
       returnM (False, 0, dbl 0 1, time, g))) (\<lambda>(s, qrv, qqic, time, g).
     ifGiven PAR_IGMP_GROUP
       (\<lambda>r. bindM (asIPv4 r) (\<lambda>grp. compileGroupQuery v3 time s qrv qqic grp g))
       (compileGeneralQuery v3 time s qrv qqic g))"

definition compileIGMP :: "bool \<Rightarrow> bool \<Rightarrow> bool \<Rightarrow> bool \<Rightarrow> bool \<Rightarrow> (pstate, cLinkable) M" where
  "compileIGMP noEthHeader v3 query report leave =
     bindM igmp_new (\<lambda>g.
     bindM (parseIPv4Params (query \<or> report \<or> leave) (igmp_ip g)) (\<lambda>(destIsMulticast, p).
     bindM (getM m_ipOptionalDestMAC) (\<lambda>opt.
     bindM (if \<not> noEthHeader
            then onFirstEthernet (macAndVlan (destIsMulticast \<or> opt \<or> query \<or> report \<or> leave) False) p
            else returnM p) (\<lambda>p.
     let g = g\<lparr>igmp_ip := p\<rparr> in
     bindM (if query then igmp_query v3 g
       else bindM (bindM (findParameter (par_syntax PAR_IGMP_GROUP)) asIPv4) (\<lambda>grp.
         if report then compileReport grp g
         else if leave then v2compileLeaveGroup grp g
         else bindM (int8Of PAR_IGMP_TYPE 0 0xff) (\<lambda>type.
              bindM (int8Or PAR_IGMP_TIME 0 0 0xff) (\<lambda>time.
              v12compile type time grp g)))) (\<lambda>g.
     returnM (IpPacket (igmp_ip g)))))))"

subsection \<open>ICMP\<close>

definition compileICMP :: "bool \<Rightarrow> (pstate, cLinkable) M" where
  "compileICMP noEthHeader =
     bindM icmp_new (\<lambda>p.
     bindM (ipAndMac noEthHeader False p) (\<lambda>p.
     bindM (int8Of PAR_ICMP4_TYPE 0 0xff) (\<lambda>type.
     bindM (int8Of PAR_ICMP4_CODE 0 0xff) (\<lambda>code.
     bindM (ifGiven PAR_ICMP4_PAYLOAD (\<lambda>r. bindM (asStream SIZE_MAX r) (\<lambda>b. returnM (Some b)))
              (returnM None)) (\<lambda>payload.
     bindM (ifGiven PAR_ICMP4_CHKSUM
              (\<lambda>r. bindM (asInt16 0 0xffff r) (\<lambda>c. icmp_compileRaw_checksum type code c payload p))
              (icmp_compileRaw type code payload p)) (\<lambda>p.
     returnM (IpPacket p)))))))"

definition compileICMPWithEmbedded :: "nested \<Rightarrow> bool \<Rightarrow> byte \<Rightarrow> (pstate, cLinkable) M" where
  "compileICMPWithEmbedded rec noEthHeader type =
     bindM icmp_new (\<lambda>p.
     bindM (ipAndMac noEthHeader False p) (\<lambda>p.
     bindM (int8Or PAR_ICMP4_CODE 0 0 0xff) (\<lambda>code.
     bindM (embeddedOrNull rec PAR_ICMP4_PAYLOAD True) (\<lambda>payload.
     bindM (icmp_compileWithEmbeddedInet type code payload p) (\<lambda>p.
     returnM (IpPacket p))))))"

definition compileICMPRedirect :: "nested \<Rightarrow> bool \<Rightarrow> (pstate, cLinkable) M" where
  "compileICMPRedirect rec noEthHeader =
     bindM icmp_new (\<lambda>p.
     bindM (ipAndMac noEthHeader False p) (\<lambda>p.
     bindM (int8Or PAR_ICMP4_CODE 0 0 0xff) (\<lambda>code.
     bindM (bindM (findParameter (par_syntax PAR_ICMP4_GW)) asIPv4) (\<lambda>gw.
     bindM (embeddedOrNull rec PAR_ICMP4_PAYLOAD True) (\<lambda>payload.
     bindM (icmp_compileRedirect code gw payload p) (\<lambda>p.
     returnM (IpPacket p)))))))"

definition compileICMPPing :: "nested \<Rightarrow> bool \<Rightarrow> bool \<Rightarrow> (pstate, cLinkable) M" where
  "compileICMPPing rec noEthHeader reply =
     bindM icmp_new (\<lambda>p.
     bindM (ipAndMac noEthHeader False p) (\<lambda>p.
     bindM (int16Or PAR_ICMP4_ID 0 0 0xffff) (\<lambda>i.
     bindM (int16Or PAR_ICMP4_SEQ 0 0 0xffff) (\<lambda>n.
     bindM (embeddedOrNull rec PAR_ICMP4_PAYLOAD True) (\<lambda>payload.
     bindM (icmp_compilePing reply i n payload p) (\<lambda>p.
     returnM (IpPacket p)))))))"

subsection \<open>LLDP\<close>

definition lldp_parsers :: "(cLldpPacket \<Rightarrow> (pstate, cLldpPacket) M) list" where
  "lldp_parsers = [lldp_chassisID, lldp_portID,
     \<lambda>l. bindM (int16Or PAR_LLDP_TTL 120 0 0xffff) (\<lambda>t. addTTL t l),
     lldp_portDescription, lldp_systemName, lldp_systemDescription, lldp_systemCapabilities,
     lldp_managementAddress,
     lldp_portVID, lldp_portProtocolVID, lldp_vlanName, lldp_protocolIdentity, lldp_vidUsageDigest,
     lldp_managementVID, lldp_linkAggregation, lldp_congestionNotification, lldp_etsConfiguration,
     lldp_etsRecommendation, lldp_pfcControlConfig, lldp_applicationPriority, lldp_evb, lldp_cdcb,
     lldp_applicationVLAN,
     lldp_macPhyConfigStatus, lldp_powerViaMDI, lldp_maxFrameSize, lldp_eee, lldp_eeeFastWake,
     lldp_pnDelay, lldp_pnPortStatus, lldp_pnAlias, lldp_pnMrpPortState, lldp_pnChassisMac,
     lldp_pnPTCPStatus, lldp_pnMAUTypeExtension, lldp_pnMrpIcPortStatus,
     lldp_allRawTLVs, lldp_allOidTLVs]"

fun run_all :: "('b \<Rightarrow> ('s, 'b) M) list \<Rightarrow> 'b \<Rightarrow> ('s, 'b) M" where
  "run_all [] x = returnM x"
| "run_all (f # fs) x = bindM (f x) (run_all fs)"

definition compileLLDP :: "bool \<Rightarrow> (pstate, cLinkable) M" where
  "compileLLDP noEthHeader =
     bindM lldp_new (\<lambda>l.
     bindM (if \<not> noEthHeader
            then bindM (macAndVlan False True (lldp_eth l)) (\<lambda>e. returnM (l\<lparr>lldp_eth := e\<rparr>))
            else returnM l) (\<lambda>l.
     bindM (run_all lldp_parsers l) (\<lambda>l.
     bindM (liftE (lldp_compile True l)) (\<lambda>l.
     returnM (EthPacket (lldp_eth l))))))"

subsection \<open>Choosing the protocol\<close>

definition protocol_table :: "nested \<Rightarrow> bool \<Rightarrow> (Protocol \<times> (pstate, cLinkable) M) list" where
  "protocol_table rec noEthHeader =
    [(PR_RAW, compileRAW noEthHeader),
     (PR_ETH, compileETH),
     (PR_ARP, compileARP False False),
     (PR_ARP_PROBE, compileARP True False),
     (PR_ARP_ANNOUNCE, compileARP False True),
     (PR_IPV4, compileIP noEthHeader False),
     (PR_IPV6, compileIP noEthHeader True),
     (PR_UDP4, compileUDP rec noEthHeader False),
     (PR_UDP6, compileUDP rec noEthHeader True),
     (PR_VRRP, compileVRRP noEthHeader 2),
     (PR_VRRP3, compileVRRP noEthHeader 3),
     (PR_STP, compileSTP noEthHeader False False),
     (PR_STP_TCN, compileSTP noEthHeader False True),
     (PR_RSTP, compileSTP noEthHeader True False),
     (PR_IGMP, compileIGMP noEthHeader False False False False),
     (PR_IGMP_QUERY, compileIGMP noEthHeader False True False False),
     (PR_IGMP3_QUERY, compileIGMP noEthHeader True True False False),
     (PR_IGMP_REPORT, compileIGMP noEthHeader False False True False),
     (PR_IGMP_LEAVE, compileIGMP noEthHeader False False False True),
     (PR_ICMP4, compileICMP noEthHeader),
     (PR_ICMP4_UNREACH, compileICMPWithEmbedded rec noEthHeader 3),
     (PR_ICMP4_SRCQ, compileICMPWithEmbedded rec noEthHeader 4),
     (PR_ICMP4_TIMEX, compileICMPWithEmbedded rec noEthHeader 11),
     (PR_ICMP4_REDIR, compileICMPRedirect rec noEthHeader),
     (PR_ICMP4_ECHO, compileICMPPing rec noEthHeader False),
     (PR_ICMP4_ECHOR, compileICMPPing rec noEthHeader True),
     (PR_TCP4, compileTCP rec noEthHeader False),
     (PR_TCP6, compileTCP rec noEthHeader True),
     (PR_VXLAN4, compileVXLAN rec noEthHeader False),
     (PR_VXLAN6, compileVXLAN rec noEthHeader True),
     (PR_GRE4, compileGRE rec noEthHeader False),
     (PR_GRE6, compileGRE rec noEthHeader True),
     (PR_LLDP, compileLLDP noEthHeader)]"

fun select_protocol :: "(Protocol \<times> 'a) list \<Rightarrow> string \<Rightarrow> nat \<Rightarrow> 'a option" where
  "select_protocol [] keyword len = None"
| "select_protocol ((p, m) # tab) keyword len =
     (if strncmp_eq (pr_syntax p) keyword len then Some m else select_protocol tab keyword len)"

subsection \<open>parse\<close>

text \<open>
  The handler of a \<open>FormatException\<close>; \<open>p\<close> is the text at the parameter list. It deletes
  \<open>result.packets\<close>: the packet of this instruction if it was compiled, else (\<open>old\<close>) the one the caller
  left in \<open>result\<close>, which \<open>m_deleted\<close> records.
\<close>

definition onFormatException :: "string \<Rightarrow> bool \<Rightarrow> error \<Rightarrow> (pstate, 'a) M" where
  "onFormatException p old e =
     bindM (modifyM (\<lambda>s. s\<lparr>m_recursionDepth := m_recursionDepth s - 1, m_deleted := m_deleted s \<or> old\<rparr>)) (\<lambda>_.
     case e of
       FormatException exParUnknown v n \<Rightarrow> throwParseException ''Missing parameter'' (Some p) (length p) v
     | FormatException exParRange v n \<Rightarrow> throwParseException ''Range of parameter violated'' v n None
     | FormatException exParFormat v n \<Rightarrow> throwParseException ''Invalid parameter value'' v n None
     | FormatException exParUnused v n \<Rightarrow> throwParseException (why exParUnused) v n None
     | _ \<Rightarrow> throwM e)"

definition handler :: "string \<Rightarrow> bool \<Rightarrow> error \<Rightarrow> (pstate, 'a) M" where
  "handler p old e = (if isFormatException e then onFormatException p old e else throwM e)"

text \<open>The parameter list of an instruction exists while it is compiled.\<close>

definition withParams :: "cParameterList \<Rightarrow> (pstate, 'a) M \<Rightarrow> (pstate, 'a) M" where
  "withParams l m s = (case m (s\<lparr>params := l\<rparr>) of (r, s') \<Rightarrow> (r, s'\<lparr>params := params s\<rparr>))"

definition compile_with :: "nested \<Rightarrow> bool \<Rightarrow> string \<Rightarrow> nat \<Rightarrow> (pstate, cLinkable) M" where
  "compile_with rec noEthHeader keyword keywordLen =
     bindM (modifyM (\<lambda>s. s\<lparr>m_recursionDepth := m_recursionDepth s + 1\<rparr>)) (\<lambda>_.
     bindM (getM m_recursionDepth) (\<lambda>depth.
     if depth > 8 then
       throwParseException ''Maximum depth of embedded instructions reached'' (Some keyword) keywordLen None
     else case select_protocol (protocol_table rec noEthHeader) keyword keywordLen of
       None \<Rightarrow> throwParseException ''Unknown protocol type'' (Some keyword) keywordLen None
     | Some m \<Rightarrow> m))"

definition parse_step :: "nested \<Rightarrow> string \<Rightarrow> cResult \<Rightarrow> bool \<Rightarrow> bool \<Rightarrow> (pstate, cResult) M" where
  "parse_step rec instruction res ignoreTrailingGarbage noEthHeader =
     bindM (getM m_currentInstruction) (\<lambda>prevInstruction.
     bindM (modifyM (\<lambda>s. s\<lparr>m_currentInstruction := instruction\<rparr>)) (\<lambda>_.
     bindM (parseTimestamp instruction res) (\<lambda>(p, res).
     bindM (parseProtocollIdentifier p) (\<lambda>(p, keyword, keywordLen).
     bindM (new_cParameterList p ignoreTrailingGarbage) (\<lambda>l.
     withParams l
       (case parseError l of
          Some err \<Rightarrow> throwParseException ''Syntax error'' (Some err) 0 None
        | None \<Rightarrow>
            catchM (bindM (compile_with rec noEthHeader keyword keywordLen) (\<lambda>pkt.
                bindM (catchM checkForUnusedParameters (handler p False)) (\<lambda>_.
                bindM (modifyM (\<lambda>s. s\<lparr>m_currentInstruction := prevInstruction\<rparr>)) (\<lambda>_.
                bindM (modifyM (\<lambda>s. s\<lparr>m_recursionDepth := m_recursionDepth s - 1\<rparr>)) (\<lambda>_.
                returnM (res\<lparr>packets := Some pkt\<rparr>))))))
              (handler p (packets res \<noteq> None))))))))"

fun parse_fuel :: "nat \<Rightarrow> string \<Rightarrow> cResult \<Rightarrow> bool \<Rightarrow> bool \<Rightarrow> (pstate, cResult) M" where
  "parse_fuel 0 instruction res ignoreTrailingGarbage noEthHeader = throwM (Undefined ''out of fuel'')"
| "parse_fuel (Suc n) instruction res ignoreTrailingGarbage noEthHeader =
     parse_step (\<lambda>t noEth. parse_fuel n t new_cResult True noEth) instruction res ignoreTrailingGarbage noEthHeader"

definition parse :: "string \<Rightarrow> cResult \<Rightarrow> bool \<Rightarrow> bool \<Rightarrow> (pstate, cResult) M" where
  "parse = parse_fuel 9"

text \<open>The lines \<open>printProtocolList\<close> prints, each the text of one \<open>Console::Print\<close>.\<close>

definition padded :: "nat \<Rightarrow> string \<Rightarrow> string" where
  "padded n t = t @ replicate (n - length t) CHR '' ''"

definition protocol_lines :: "bool \<Rightarrow> Protocol \<Rightarrow> string list" where
  "protocol_lines details p =
     (padded 24 (pr_syntax p) @ pr_descr p @ [CHR 0x0A])
     # (if details then map (\<lambda>m. ''   '' @ padded 21 (par_syntax m) @ par_descr m @ [CHR 0x0A]) (mandatory p)
          @ ['' optional'' @ [CHR 0x0A]]
          @ map (\<lambda>m. ''   '' @ padded 21 (par_syntax m) @ par_descr m @ [CHR 0x0A]) (optional p)
          @ [[CHR 0x0A]]
        else [])"

fun print_protocols :: "Protocol list \<Rightarrow> string option \<Rightarrow> string list" where
  "print_protocols [] proto = []"
| "print_protocols (p # ps) proto =
     (let isAll = (proto = Some ''all'')
      in if proto = None \<or> proto = Some (pr_syntax p) \<or> isAll
         then protocol_lines (proto \<noteq> None) p
              @ (if proto \<noteq> None \<and> \<not> isAll then [] else print_protocols ps proto)
         else print_protocols ps proto)"

definition printProtocolList :: "string option \<Rightarrow> string list" where
  "printProtocolList proto = print_protocols all_protos proto"

end
