(* ===== verification/Timeval.thy ===== *)
theory Timeval
  imports Double
begin

section \<open>cTimeval\<close>

text \<open>
  src/common/timeval.hpp. A \<open>cTimeval\<close> is its 64-bit number of microseconds; \<open>add\<close>, \<open>sub\<close> and the
  conversions wrap around. \<open>now\<close> reads the system clock and is not modelled. A \<open>struct timeval\<close> is
  the pair of its fields, which are 64-bit here.
\<close>

type_synonym cTimeval = u64

record timeval =
  tv_sec :: u64
  tv_usec :: u64

definition tv_ms :: "cTimeval \<Rightarrow> u64" where
  "tv_ms t = t div 1000"

definition tv_s :: "cTimeval \<Rightarrow> u64" where
  "tv_s t = t div 1000000"

definition tv_ns :: "cTimeval \<Rightarrow> u64" where
  "tv_ns t = t * 1000"

definition tv_setMs :: "u64 \<Rightarrow> cTimeval" where
  "tv_setMs ms = ms * 1000"

definition tv_setS :: "u64 \<Rightarrow> cTimeval" where
  "tv_setS s = s * 1000000"

definition tv_isNull :: "cTimeval \<Rightarrow> bool" where
  "tv_isNull t = (t = 0)"

definition timeval_of :: "cTimeval \<Rightarrow> timeval" where
  "timeval_of t = \<lparr>tv_sec = tv_s t, tv_usec = t mod 1000000\<rparr>"

definition tv_set :: "timeval \<Rightarrow> cTimeval" where
  "tv_set tv = tv_sec tv * 1000000 + tv_usec tv"

definition tv_add :: "cTimeval \<Rightarrow> cTimeval \<Rightarrow> cTimeval" where
  "tv_add t val = t + val"

definition tv_sub :: "cTimeval \<Rightarrow> cTimeval \<Rightarrow> cTimeval" where
  "tv_sub t val = t - val"

definition tv_mul :: "double \<Rightarrow> cTimeval \<Rightarrow> cTimeval res" where
  "tv_mul val t = bindE (dto_unsigned 64 (dmult (dbl (unat t) 1) val)) (\<lambda>v. Inr (of_nat v))"

definition roundDown :: "cTimeval \<Rightarrow> cTimeval \<Rightarrow> cTimeval res" where
  "roundDown d t = (if d = 0 then Inl (Undefined ''division by zero'') else Inr ((t div d) * d))"

subsection \<open>Conversions\<close>

lemma timeval_roundtrip: "tv_set (timeval_of t) = t"
  unfolding tv_set_def timeval_of_def tv_s_def timeval.simps by (rule div_mult_mod_eq)

lemma unat_tv_usec: "unat (tv_usec (timeval_of t)) < 1000000"
  by (simp add: timeval_of_def unat_mod)

lemma tv_add_sub [simp]: "tv_sub (tv_add t d) d = t" "tv_add (tv_sub t d) d = t"
  by (simp_all add: tv_add_def tv_sub_def)

lemma roundDown_bounds:
  assumes "roundDown d t = Inr r"
  shows "r \<le> t" and "unat t < unat r + unat d" and "unat r mod unat d = 0"
proof -
  have d: "d \<noteq> 0" and r: "r = t div d * d" using assms by (auto simp: roundDown_def split: if_splits)
  have nd: "0 < unat d" using d by (simp add: unat_gt_0)
  have le: "unat t div unat d * unat d \<le> unat t" by (rule div_times_less_eq_dividend)
  have "unat t < 2 ^ 64" using unsigned_less [of t, where 'a = nat] by simp
  with le have "unat t div unat d * unat d < 2 ^ 64" by (rule le_less_trans)
  then have u: "unat r = unat t div unat d * unat d"
    using r unat_mult_lem [of "t div d" d] by (simp add: unat_div)
  show "r \<le> t" using u le by (simp add: word_le_nat_alt)
  have "unat t = unat t div unat d * unat d + unat t mod unat d" by simp
  moreover have "unat t mod unat d < unat d" using nd by simp
  ultimately show "unat t < unat r + unat d" using u by linarith
  show "unat r mod unat d = 0" using u by simp
qed

text \<open>The factor 1 changes nothing, for 285 years.\<close>

lemma tv_mul_one:
  assumes "unat t < 2 ^ 53"
  shows "tv_mul (dbl 1 1) t = Inr t"
proof (cases "t = 0")
  case True
  have one: "dbl 1 1 = Fin (2 ^ 52) (- 52)" using to_double_exact [of 1 0] by (simp add: dbl_def)
  have "dbl 0 1 = Fin 0 0" by (simp add: dbl_def to_double_def)
  then have "dmult (dbl 0 1) (dbl 1 1) = Fin 0 0" unfolding one by (simp add: dmult_def to_double_def)
  then show ?thesis using True by (simp add: tv_mul_def dto_unsigned_def dtrunc_def)
next
  case False
  let ?n = "unat t" and ?b = "bits (unat t)"
  have n: "0 < ?n" "?n < 2 ^ 53" using False assms by (simp_all add: unat_gt_0)
  have b: "?b \<le> 53" by (rule bits_le [OF n(2)])
  have one: "dbl 1 1 = Fin (2 ^ 52) (- 52)"
    using to_double_exact [of 1 0] by (simp add: dbl_def)
  have d: "dbl ?n 1 = Fin (int ?n * 2 ^ (53 - ?b)) (int ?b - 53)"
    using to_double_exact [OF n, of 0] by (simp add: dbl_def)
  have "53 - ?b + 52 = 105 - ?b" using b by simp
  then have "(2::int) ^ (53 - ?b) * 2 ^ 52 = 2 ^ (105 - ?b)" by (metis power_add)
  then have "int ?n * 2 ^ (53 - ?b) * 2 ^ 52 = int ?n * 2 ^ (105 - ?b)" by (simp only: mult.assoc)
  moreover have "nat (- (int ?b - 53 + - 52)) = 105 - ?b" using b by auto
  moreover have "dmult (Fin x e) (Fin y e') = fst (to_double (x * y) (2 ^ nat (- (e + e'))))" if "e + e' < 0" for x y e e'
    using that by (simp add: dmult_def)
  moreover have "int ?b - 53 + - 52 < 0" using b by simp
  ultimately have "dmult (dbl ?n 1) (dbl 1 1) = fst (to_double (int ?n * 2 ^ (105 - ?b)) (2 ^ (105 - ?b)))"
    unfolding one d by presburger
  then have "dmult (dbl ?n 1) (dbl 1 1) = Fin (int ?n * 2 ^ (53 - ?b)) (int ?b - 53)"
    unfolding to_double_exact [OF n] by simp
  moreover have "\<bar>int ?n * 2 ^ (53 - ?b)\<bar> div 2 ^ nat (- (int ?b - 53)) = int ?n"
    using b by (simp add: nat_diff_distrib abs_mult)
  moreover have "\<not> int ?n * 2 ^ (53 - ?b) < 0" by (simp add: not_less)
  ultimately have "dto_unsigned 64 (dmult (dbl ?n 1) (dbl 1 1)) = Inr ?n"
    using b n(2) uint_lt2p [of t] by (cases "?b = 53") (simp_all add: dto_unsigned_def dtrunc_def)
  then show ?thesis by (simp add: tv_mul_def)
qed

end
