(* ===== verification/PacketData.thy ===== *)
theory PacketData
  imports Instruction Timeval
begin

section \<open>cPacketData\<close>

text \<open>
  src/common/linkable.hpp and src/compiler/packetdata.hpp: the compiled packets form a singly linked
  list of heap objects. The heap is the list of the objects allocated so far and a pointer is an
  index into it; \<open>m_freed\<close> marks a deleted object, and touching one is \<open>Undefined\<close>. \<open>getAll\<close> is the
  walk \<open>for (p = getFirst (); p; p = p->getNext ())\<close>; None would be a walk that does not end.
\<close>

record lnode =
  l_item :: cLinkable
  m_next :: "nat option"
  m_t :: cTimeval
  m_freed :: bool

record cPacketData =
  pd_heap :: "lnode list"
  hasUserTimestamps :: bool
  pd_head :: "nat option"
  pd_tail :: "nat option"
  elements :: nat
  ethPackets :: nat
  ipv4Packets :: nat
  totalBytes :: nat

definition new_cPacketData :: cPacketData where
  "new_cPacketData = \<lparr>pd_heap = [], hasUserTimestamps = False, pd_head = None, pd_tail = None,
     elements = 0, ethPackets = 0, ipv4Packets = 0, totalBytes = 0\<rparr>"

definition live :: "lnode list \<Rightarrow> nat \<Rightarrow> bool" where
  "live h a = (a < length h \<and> \<not> m_freed (h ! a))"

definition at_node :: "lnode list \<Rightarrow> nat \<Rightarrow> lnode res" where
  "at_node h a = (if live h a then Inr (h ! a) else Inl (Undefined ''use after free''))"

definition on_node :: "nat \<Rightarrow> (lnode \<Rightarrow> lnode) \<Rightarrow> cPacketData \<Rightarrow> cPacketData res" where
  "on_node a f d = bindE (at_node (pd_heap d) a) (\<lambda>n. Inr (d\<lparr>pd_heap := (pd_heap d)[a := f n]\<rparr>))"

definition setNext :: "nat \<Rightarrow> nat option \<Rightarrow> cPacketData \<Rightarrow> cPacketData res" where
  "setNext a next = on_node a (\<lambda>n. n\<lparr>m_next := next\<rparr>)"

definition setTime :: "nat \<Rightarrow> cTimeval \<Rightarrow> cPacketData \<Rightarrow> cPacketData res" where
  "setTime a t = on_node a (\<lambda>n. n\<lparr>m_t := t\<rparr>)"

text \<open>\<open>new\<close>: a linkable without successor and with time zero.\<close>

definition new_linkable :: "cLinkable \<Rightarrow> cPacketData \<Rightarrow> nat \<times> cPacketData" where
  "new_linkable x d = (length (pd_heap d),
     d\<lparr>pd_heap := pd_heap d @ [\<lparr>l_item = x, m_next = None, m_t = 0, m_freed = False\<rparr>]\<rparr>)"

definition delete_linkable :: "nat \<Rightarrow> cPacketData \<Rightarrow> cPacketData res" where
  "delete_linkable a = on_node a (\<lambda>n. n\<lparr>m_freed := True\<rparr>)"

definition add_packet :: "nat \<Rightarrow> cPacketData \<Rightarrow> cPacketData res" where
  "add_packet a d =
     bindE (case pd_head d of
         None \<Rightarrow> Inr (d\<lparr>pd_head := Some a\<rparr>)
       | Some _ \<Rightarrow> (case pd_tail d of None \<Rightarrow> Inl (Undefined ''null pointer'') | Some t \<Rightarrow> setNext t (Some a) d)) (\<lambda>d.
     bindE (setNext a None (d\<lparr>pd_tail := Some a\<rparr>)) (\<lambda>d.
     Inr (d\<lparr>elements := sz (elements d + 1)\<rparr>)))"

text \<open>The Ethernet packets of a linkable, in the order they are sent.\<close>

definition frames_of :: "cLinkable \<Rightarrow> cEthernetPacket list" where
  "frames_of x = (case x of EthPacket p \<Rightarrow> [p] | IpPacket ip \<Rightarrow> m_packets ip)"

definition count_frame :: "cEthernetPacket \<Rightarrow> cPacketData \<Rightarrow> cPacketData" where
  "count_frame p d = d\<lparr>ethPackets := sz (ethPackets d + 1), totalBytes := sz (totalBytes d + getLength p)\<rparr>"

definition updateStats :: "cLinkable \<Rightarrow> cPacketData \<Rightarrow> cPacketData" where
  "updateStats x d = (case x of
     EthPacket p \<Rightarrow> count_frame p d
   | IpPacket ip \<Rightarrow> fold count_frame (m_packets ip) (d\<lparr>ipv4Packets := sz (ipv4Packets d + 1)\<rparr>))"

definition addPacket :: "nat \<Rightarrow> cPacketData \<Rightarrow> cPacketData res" where
  "addPacket a d = bindE (add_packet a d) (\<lambda>d. bindE (at_node (pd_heap d) a) (\<lambda>n. Inr (updateStats (l_item n) d)))"

definition getPacketCnt :: "cPacketData \<Rightarrow> nat" where
  "getPacketCnt d = ethPackets d"

definition getTotalPacketBytes :: "cPacketData \<Rightarrow> nat" where
  "getTotalPacketBytes d = totalBytes d"

partial_function (option) walk :: "lnode list \<Rightarrow> nat option \<Rightarrow> nat list res option" where
  "walk h p = (case p of
     None \<Rightarrow> Some (Inr [])
   | Some a \<Rightarrow> (case at_node h a of
       Inl e \<Rightarrow> Some (Inl e)
     | Inr n \<Rightarrow> Option.bind (walk h (m_next n)) (\<lambda>r. Some (bindE r (\<lambda>as. Inr (a # as))))))"

definition getAll :: "cPacketData \<Rightarrow> nat list res option" where
  "getAll d = walk (pd_heap d) (pd_head d)"

text \<open>The destructor reads the successor before it deletes a node.\<close>

partial_function (option) destroy :: "cPacketData \<Rightarrow> nat option \<Rightarrow> cPacketData res option" where
  "destroy d p = (case p of
     None \<Rightarrow> Some (Inr d)
   | Some a \<Rightarrow> (case at_node (pd_heap d) a of
       Inl e \<Rightarrow> Some (Inl e)
     | Inr n \<Rightarrow> (case delete_linkable a d of
         Inl e \<Rightarrow> Some (Inl e)
       | Inr d \<Rightarrow> destroy d (m_next n))))"

subsection \<open>The abstract list\<close>

text \<open>\<open>linked h p xs\<close>: from pointer \<open>p\<close> the live nodes \<open>xs\<close> follow, and then the null pointer.\<close>

fun linked :: "lnode list \<Rightarrow> nat option \<Rightarrow> nat list \<Rightarrow> bool" where
  "linked h p [] = (p = None)"
| "linked h p (a # as) = (p = Some a \<and> live h a \<and> linked h (m_next (h ! a)) as)"

lemma walk_linked: "linked h p xs \<Longrightarrow> walk h p = Some (Inr xs)"
  by (induction xs arbitrary: p) (simp_all add: walk.simps at_node_def)

lemma linked_walk: "walk h p = Some (Inr xs) \<Longrightarrow> linked h p xs"
proof (induction xs arbitrary: p)
  case Nil
  then show ?case
    by (subst (asm) walk.simps) (auto simp: bindE_Inr_iff split: option.splits sum.splits bind_splits)
next
  case (Cons a as)
  from Cons.prems have "p = Some a \<and> live h a \<and> walk h (m_next (h ! a)) = Some (Inr as)"
    by (subst (asm) walk.simps)
      (auto simp: at_node_def bindE_Inr_iff split: option.splits sum.splits bind_splits if_splits)
  with Cons.IH show ?case by simp
qed

lemma linked_live: "linked h p xs \<Longrightarrow> \<forall>a\<in>set xs. live h a"
  by (induction xs arbitrary: p) auto

lemma linked_unique: "linked h p xs \<Longrightarrow> linked h p ys \<Longrightarrow> xs = ys"
  using walk_linked [of h p xs] walk_linked [of h p ys] by simp

lemma linked_update: "linked h p xs \<Longrightarrow> a \<notin> set xs \<Longrightarrow> linked (h[a := n]) p xs"
  by (induction xs arbitrary: p) (auto simp: live_def nth_list_update)

lemma linked_item: "linked h p xs \<Longrightarrow> a < length h \<Longrightarrow> m_next n = m_next (h ! a) \<Longrightarrow> m_freed n = m_freed (h ! a)
    \<Longrightarrow> linked (h[a := n]) p xs"
  by (induction xs arbitrary: p) (auto simp: live_def nth_list_update)

lemma linked_append_heap: "linked h p xs \<Longrightarrow> linked (h @ ns) p xs"
  by (induction xs arbitrary: p) (auto simp: live_def nth_append)

lemma linked_snoc:
  assumes "linked h p (xs @ [t])" and "distinct (xs @ [t])" and "live h a" and "a \<notin> set (xs @ [t])"
  shows "linked ((h[t := (h ! t)\<lparr>m_next := Some a\<rparr>])[a := (h ! a)\<lparr>m_next := None\<rparr>]) p (xs @ [t, a])"
  using assms
proof (induction xs arbitrary: p)
  case Nil
  then show ?case by (auto simp: live_def nth_list_update)
next
  case (Cons x xs)
  then have "x \<noteq> t" "x \<noteq> a" by auto
  with Cons show ?case by (simp add: live_def)
qed

text \<open>
  The list holds the linkables \<open>xs\<close> in this order, and the counters agree with it (until \<open>size_t\<close>
  wraps around).
\<close>

definition frames_in :: "lnode list \<Rightarrow> nat list \<Rightarrow> cEthernetPacket list" where
  "frames_in h xs = concat (map (\<lambda>a. frames_of (l_item (h ! a))) xs)"

definition data_ok :: "cPacketData \<Rightarrow> nat list \<Rightarrow> bool" where
  "data_ok d xs \<longleftrightarrow> linked (pd_heap d) (pd_head d) xs \<and> distinct xs
     \<and> pd_tail d = (if xs = [] then None else Some (last xs)) \<and> elements d = sz (length xs)
     \<and> ethPackets d = sz (length (frames_in (pd_heap d) xs))
     \<and> totalBytes d = sz (sum_list (map getLength (frames_in (pd_heap d) xs)))"

definition contents :: "cPacketData \<Rightarrow> nat list \<Rightarrow> (cLinkable \<times> cTimeval) list" where
  "contents d xs = map (\<lambda>a. (l_item (pd_heap d ! a), m_t (pd_heap d ! a))) xs"

lemma data_ok_new: "data_ok new_cPacketData []"
  by (simp add: data_ok_def new_cPacketData_def frames_in_def)

lemma sz_add_left [simp]: "sz (sz a + b) = sz (a + b)"
  by (simp add: sz_def mod_add_left_eq)

lemma sz_Suc_left [simp]: "sz (Suc (sz a + b)) = sz (Suc (a + b))" "sz (Suc (sz a)) = sz (Suc a)"
  using sz_add_left [of a "Suc b"] sz_add_left [of a 1] by simp_all

lemma updateStats_eq:
  "updateStats x d = d\<lparr>ethPackets := ethPackets (updateStats x d), totalBytes := totalBytes (updateStats x d),
     ipv4Packets := ipv4Packets (updateStats x d)\<rparr>"
  "ethPackets d = sz n \<Longrightarrow> ethPackets (updateStats x d) = sz (n + length (frames_of x))"
  "totalBytes d = sz m \<Longrightarrow> totalBytes (updateStats x d) = sz (m + sum_list (map getLength (frames_of x)))"
proof -
  have a: "fold count_frame ps d = d\<lparr>ethPackets := ethPackets (fold count_frame ps d),
      totalBytes := totalBytes (fold count_frame ps d)\<rparr>" for ps d
  proof (induction ps arbitrary: d)
    case (Cons p ps)
    from Cons.IH [of "count_frame p d"] show ?case
      by (cases "fold count_frame ps (count_frame p d)") (auto simp: count_frame_def)
  qed simp
  have b: "ethPackets d = sz n \<Longrightarrow> ethPackets (fold count_frame ps d) = sz (n + length ps)" for ps d n
    by (induction ps arbitrary: d n) (auto simp: count_frame_def)
  have c: "totalBytes d = sz m \<Longrightarrow> totalBytes (fold count_frame ps d) = sz (m + sum_list (map getLength ps))" for ps d m
  proof (induction ps arbitrary: d m)
    case (Cons p ps)
    have "totalBytes (count_frame p d) = sz (m + getLength p)" using Cons.prems by (simp add: count_frame_def)
    from Cons.IH [OF this] show ?case by (simp add: add.assoc)
  qed simp
  show "updateStats x d = d\<lparr>ethPackets := ethPackets (updateStats x d), totalBytes := totalBytes (updateStats x d),
     ipv4Packets := ipv4Packets (updateStats x d)\<rparr>"
  proof (cases x)
    case (IpPacket ip)
    let ?d = "d\<lparr>ipv4Packets := sz (ipv4Packets d + 1)\<rparr>"
    show ?thesis using a [of "m_packets ip" ?d] unfolding updateStats_def IpPacket cLinkable.case
      by (cases "fold count_frame (m_packets ip) ?d"; cases d) simp
  qed (simp add: updateStats_def count_frame_def)
  show "ethPackets d = sz n \<Longrightarrow> ethPackets (updateStats x d) = sz (n + length (frames_of x))"
    by (cases x) (simp_all add: updateStats_def frames_of_def b count_frame_def)
  show "totalBytes d = sz m \<Longrightarrow> totalBytes (updateStats x d) = sz (m + sum_list (map getLength (frames_of x)))"
    by (cases x) (simp_all add: updateStats_def frames_of_def c count_frame_def)
qed

lemma updateStats_unchanged [simp]:
  "pd_heap (updateStats x d) = pd_heap d" "pd_head (updateStats x d) = pd_head d"
  "pd_tail (updateStats x d) = pd_tail d" "elements (updateStats x d) = elements d"
  "hasUserTimestamps (updateStats x d) = hasUserTimestamps d"
  by (subst updateStats_eq(1), simp)+

text \<open>Only the successors change in the heap.\<close>

definition same_items :: "lnode list \<Rightarrow> lnode list \<Rightarrow> bool" where
  "same_items h h' \<longleftrightarrow> length h' = length h
     \<and> (\<forall>b. l_item (h' ! b) = l_item (h ! b) \<and> m_t (h' ! b) = m_t (h ! b) \<and> m_freed (h' ! b) = m_freed (h ! b))"

lemma same_items_update: "same_items h (h[a := (h ! a)\<lparr>m_next := n\<rparr>])"
  by (cases "a < length h") (auto simp: same_items_def nth_list_update list_update_beyond)

lemma same_items_trans: "same_items h h' \<Longrightarrow> same_items h' h'' \<Longrightarrow> same_items h h''"
  by (simp add: same_items_def)

lemma add_packet_ok:
  assumes "data_ok d xs" and "live (pd_heap d) a" and "a \<notin> set xs"
  shows "\<exists>d'. add_packet a d = Inr d' \<and> linked (pd_heap d') (pd_head d') (xs @ [a])
    \<and> pd_tail d' = Some a \<and> elements d' = sz (Suc (length xs)) \<and> same_items (pd_heap d) (pd_heap d')
    \<and> ethPackets d' = ethPackets d \<and> totalBytes d' = totalBytes d \<and> hasUserTimestamps d' = hasUserTimestamps d"
proof (cases xs rule: rev_cases)
  case Nil
  let ?h = "(pd_heap d)[a := (pd_heap d ! a)\<lparr>m_next := None\<rparr>]"
  have "add_packet a d = Inr (d\<lparr>pd_head := Some a, pd_tail := Some a, pd_heap := ?h, elements := sz (elements d + 1)\<rparr>)"
    using assms Nil by (simp add: data_ok_def add_packet_def setNext_def on_node_def at_node_def)
  moreover have "linked ?h (Some a) [a]" using assms(2) by (simp add: live_def)
  ultimately show ?thesis using assms Nil by (simp add: data_ok_def same_items_update)
next
  case (snoc ys t)
  let ?h1 = "(pd_heap d)[t := (pd_heap d ! t)\<lparr>m_next := Some a\<rparr>]"
  let ?h = "?h1[a := (pd_heap d ! a)\<lparr>m_next := None\<rparr>]"
  have l: "linked (pd_heap d) (pd_head d) (ys @ [t])" "distinct (ys @ [t])" "a \<notin> set (ys @ [t])"
    using assms snoc by (auto simp: data_ok_def)
  have t: "live (pd_heap d) t" using linked_live [OF l(1)] by simp
  have at: "a \<noteq> t" using l(3) by auto
  have "pd_head d \<noteq> None" using l(1) by (cases ys) auto
  then have "add_packet a d = Inr (d\<lparr>pd_tail := Some a, pd_heap := ?h, elements := sz (elements d + 1)\<rparr>)"
    using assms snoc t at
    by (auto simp: data_ok_def add_packet_def setNext_def on_node_def at_node_def live_def)
  moreover have "linked ?h (pd_head d) (ys @ [t, a])" by (rule linked_snoc [OF l(1,2) assms(2) l(3)])
  moreover have "same_items (pd_heap d) ?h"
    using same_items_trans [OF same_items_update same_items_update [of ?h1 a None]] at by simp
  ultimately show ?thesis using assms snoc by (simp add: data_ok_def)
qed

lemma frames_in_same: "same_items h h' \<Longrightarrow> frames_in h' xs = frames_in h xs"
  by (simp add: frames_in_def same_items_def)

text \<open>\<open>addPacket\<close> appends the linkable to the list.\<close>

lemma addPacket_appends:
  assumes "data_ok d xs" and "live (pd_heap d) a" and "a \<notin> set xs"
  shows "\<exists>d'. addPacket a d = Inr d' \<and> data_ok d' (xs @ [a])
    \<and> contents d' (xs @ [a]) = contents d xs @ [(l_item (pd_heap d ! a), m_t (pd_heap d ! a))]
    \<and> hasUserTimestamps d' = hasUserTimestamps d \<and> length (pd_heap d') = length (pd_heap d)"
proof -
  obtain d1 where d1: "add_packet a d = Inr d1" "linked (pd_heap d1) (pd_head d1) (xs @ [a])"
    "pd_tail d1 = Some a" "elements d1 = sz (Suc (length xs))" "same_items (pd_heap d) (pd_heap d1)"
    "ethPackets d1 = ethPackets d" "totalBytes d1 = totalBytes d" "hasUserTimestamps d1 = hasUserTimestamps d"
    using add_packet_ok [OF assms] by blast
  let ?x = "l_item (pd_heap d ! a)" and ?d = "updateStats (l_item (pd_heap d ! a)) d1"
  have it: "l_item (pd_heap d1 ! a) = ?x" using d1(5) by (simp add: same_items_def)
  have "live (pd_heap d1) a" using linked_live [OF d1(2)] by simp
  then have r: "addPacket a d = Inr ?d" using d1(1) it by (simp add: addPacket_def at_node_def)
  have "frames_in (pd_heap d1) (xs @ [a]) = frames_in (pd_heap d) xs @ frames_of ?x"
    using frames_in_same [OF d1(5)] it by (simp add: frames_in_def)
  then have "data_ok ?d (xs @ [a])"
    using assms(1,3) d1 updateStats_eq(2) [of d1 _ ?x] updateStats_eq(3) [of d1 _ ?x] by (simp add: data_ok_def)
  moreover have "contents ?d (xs @ [a]) = contents d xs @ [(?x, m_t (pd_heap d ! a))]"
    using d1(5) by (simp add: contents_def same_items_def)
  ultimately show ?thesis using r d1(5,8) by (simp add: same_items_def)
qed

subsection \<open>Deleting\<close>

lemma destroy_linked:
  assumes "linked (pd_heap d) p xs" and "distinct xs"
  shows "\<exists>d'. destroy d p = Some (Inr d') \<and> length (pd_heap d') = length (pd_heap d)
    \<and> (\<forall>b<length (pd_heap d). m_freed (pd_heap d' ! b) = (m_freed (pd_heap d ! b) \<or> b \<in> set xs))"
  using assms
proof (induction xs arbitrary: d p)
  case Nil
  then show ?case by (simp add: destroy.simps)
next
  case (Cons a as)
  let ?d = "d\<lparr>pd_heap := (pd_heap d)[a := (pd_heap d ! a)\<lparr>m_freed := True\<rparr>]\<rparr>"
  have a: "live (pd_heap d) a" "p = Some a" "linked (pd_heap d) (m_next (pd_heap d ! a)) as" "a \<notin> set as"
    using Cons.prems by auto
  have "linked (pd_heap ?d) (m_next (pd_heap d ! a)) as" using linked_update [OF a(3,4)] by simp
  from Cons.IH [OF this] Cons.prems(2) obtain d' where d': "destroy ?d (m_next (pd_heap d ! a)) = Some (Inr d')"
    "length (pd_heap d') = length (pd_heap d)"
    "\<forall>b<length (pd_heap d). m_freed (pd_heap d' ! b) = (m_freed (pd_heap ?d ! b) \<or> b \<in> set as)" by auto
  have "destroy d p = Some (Inr d')"
    using a d'(1) by (simp add: destroy.simps [of d "Some a"] at_node_def delete_linkable_def on_node_def)
  then show ?case using d'(2,3) a(1) by (auto simp: live_def nth_list_update)
qed

text \<open>
  A walk over a list with a deleted node ends in it: \<open>chained\<close> is \<open>linked\<close> without asking for live nodes.
\<close>

fun chained :: "lnode list \<Rightarrow> nat option \<Rightarrow> nat list \<Rightarrow> bool" where
  "chained h p [] = (p = None)"
| "chained h p (a # as) = (p = Some a \<and> chained h (m_next (h ! a)) as)"

lemma linked_chained: "linked h p xs \<Longrightarrow> chained h p xs"
  by (induction xs arbitrary: p) auto

lemma chained_update: "chained h p xs \<Longrightarrow> m_next n = m_next (h ! a) \<Longrightarrow> chained (h[a := n]) p xs"
  by (cases "a < length h", induction xs arbitrary: p) (auto simp: nth_list_update list_update_beyond)

lemma destroy_dangling:
  assumes "chained (pd_heap d) p xs" and "distinct xs" and "b \<in> set xs" and "\<not> live (pd_heap d) b"
  shows "destroy d p = Some (Inl (Undefined ''use after free''))"
  using assms
proof (induction xs arbitrary: d p)
  case (Cons a as)
  have p: "p = Some a" "chained (pd_heap d) (m_next (pd_heap d ! a)) as" using Cons.prems(1) by auto
  show ?case
  proof (cases "live (pd_heap d) a")
    case False
    then show ?thesis using p(1) by (simp add: destroy.simps [of d "Some a"] at_node_def)
  next
    case True
    let ?d = "d\<lparr>pd_heap := (pd_heap d)[a := (pd_heap d ! a)\<lparr>m_freed := True\<rparr>]\<rparr>"
    have b: "b \<in> set as" using Cons.prems(3,4) True by auto
    have "chained (pd_heap ?d) (m_next (pd_heap d ! a)) as" using chained_update [OF p(2)] by simp
    moreover have "\<not> live (pd_heap ?d) b"
      using Cons.prems(4) by (cases "a = b") (auto simp: live_def nth_list_update)
    ultimately have "destroy ?d (m_next (pd_heap d ! a)) = Some (Inl (Undefined ''use after free''))"
      using Cons.IH [of ?d] Cons.prems(2) b by simp
    then show ?thesis
      using True p(1) by (simp add: destroy.simps [of d "Some a"] at_node_def delete_linkable_def on_node_def)
  qed
qed simp

end
