(* ===== verification/Pipeline.thy ===== *)
theory Pipeline
  imports PacketData
begin

section \<open>The stages between the compiler and the output\<close>

text \<open>
  src/engine/filter.cpp, resolver.cpp, scheduler.cpp and preprocessor.cpp. A stage walks over the packet
  list and changes the packets in place. \<open>stage_walk f\<close> is this walk for a stage that does \<open>f\<close> with
  each packet and carries a state \<open>'c\<close> of its own; None would be a walk that does not end.
\<close>

type_synonym 'c item_step = "cLinkable \<Rightarrow> ('c, cLinkable) N"

definition pureN :: "'a res \<Rightarrow> ('c, 'a) N" where
  "pureN r c = Some (r, c)"

partial_function (option) stage_walk :: "'c item_step \<Rightarrow> nat option \<Rightarrow> 'c \<times> cPacketData
    \<Rightarrow> (unit res \<times> 'c \<times> cPacketData) option" where
  "stage_walk f p s = (case s of (c, d) \<Rightarrow> (case p of
     None \<Rightarrow> Some (Inr (), c, d)
   | Some a \<Rightarrow> (case at_node (pd_heap d) a of
       Inl e \<Rightarrow> Some (Inl e, c, d)
     | Inr n \<Rightarrow> (case f (l_item n) c of
         None \<Rightarrow> None
       | Some (r, c) \<Rightarrow> (case r of
           Inl e \<Rightarrow> Some (Inl e, c, d)
         | Inr x \<Rightarrow> (case on_node a (\<lambda>n. n\<lparr>l_item := x\<rparr>) d of
             Inl e \<Rightarrow> Some (Inl e, c, d)
           | Inr d \<Rightarrow> stage_walk f (m_next n) (c, d)))))))"

text \<open>What a stage does with the packets, without the list.\<close>

fun stage_list :: "'c item_step \<Rightarrow> cLinkable list \<Rightarrow> ('c, cLinkable list) N" where
  "stage_list f [] c = Some (Inr [], c)"
| "stage_list f (x # xs) c = bindN (f x) (\<lambda>y. bindN (stage_list f xs) (\<lambda>ys. pureN (Inr (y # ys)))) c"

subsection \<open>cFilter\<close>

record cFilter =
  forcedDMAC :: "byte list option"
  dropDMAC :: "byte list option"
  dropSMAC :: "byte list option"

definition filter_item :: "cFilter \<Rightarrow> unit item_step" where
  "filter_item flt x = pureN (case forcedDMAC flt of
     None \<Rightarrow> Inr x
   | Some mac \<Rightarrow> (case x of
       EthPacket e \<Rightarrow> bindE (setDestMac mac e) (\<lambda>e. Inr (EthPacket e))
     | IpPacket ip \<Rightarrow> bindE (ip_setDestMac mac ip) (\<lambda>ip. Inr (IpPacket ip))))"

definition run_filter :: "cFilter \<Rightarrow> (cPacketData, unit) N" where
  "run_filter flt d =
     (if forcedDMAC flt \<noteq> None \<or> dropDMAC flt \<noteq> None \<or> dropSMAC flt \<noteq> None
      then map_option (\<lambda>(r, u, d). (r, d)) (stage_walk (filter_item flt) (pd_head d) ((), d))
      else Some (Inr (), d))"

subsection \<open>cResolver\<close>

text \<open>
  \<open>resolve\<close> is \<open>cArp::resolve\<close> with the state \<open>'r\<close> of its interface: the hardware address of a host, or
  None for no answer. The cache is a map from IPv4 addresses.
\<close>

type_synonym 'r arp = "byte list \<Rightarrow> ('r, byte list option) N"
type_synonym 'r resolver_state = "(byte list \<Rightarrow> byte list option) \<times> 'r"

definition lookup_host :: "'r arp \<Rightarrow> byte list \<Rightarrow> ('r resolver_state, byte list) N" where
  "lookup_host resolve dip c = (case c of (cache, r) \<Rightarrow> (case cache dip of
     Some mac \<Rightarrow> Some (Inr mac, cache, r)
   | None \<Rightarrow> (case resolve dip r of
       None \<Rightarrow> None
     | Some (m, r) \<Rightarrow> (case m of
         Inl e \<Rightarrow> Some (Inl e, cache, r)
       | Inr None \<Rightarrow> Some (Inl (RuntimeError ''Could not resolve host(s).''), cache, r)
       | Inr (Some mac) \<Rightarrow> Some (Inr mac, cache(dip \<mapsto> mac), r)))))"

definition resolve_item :: "'r arp \<Rightarrow> 'r resolver_state item_step" where
  "resolve_item resolve x = (case x of
     EthPacket e \<Rightarrow> pureN (Inr x)
   | IpPacket ip \<Rightarrow>
       bindN (pureN (getFirstEthernetPacket ip)) (\<lambda>e.
       if hasDMAC e then pureN (Inr x)
       else bindN (pureN (getDestination4 ip)) (\<lambda>dip.
            bindN (lookup_host resolve dip) (\<lambda>mac.
            bindN (pureN (ip_setDestMac mac ip)) (\<lambda>ip. pureN (Inr (IpPacket ip)))))))"

definition run_resolver :: "'r arp \<Rightarrow> ('r \<times> cPacketData, unit) N" where
  "run_resolver resolve s = (case s of (r, d) \<Rightarrow>
     map_option (\<lambda>(x, (cache, r), d). (x, r, d))
       (stage_walk (resolve_item resolve) (pd_head d) ((Map.empty, r), d)))"

subsection \<open>cScheduler and cPreprocessor\<close>

definition run_scheduler :: "cPacketData \<Rightarrow> cPacketData" where
  "run_scheduler d = d"

definition setRandomSrcMac :: "bool \<Rightarrow> bool \<Rightarrow> cEthernetPacket \<Rightarrow> ('z env_scheme, cEthernetPacket) M" where
  "setRandomSrcMac unicast multicast e = bindM (mac_setRandom unicast multicast) (\<lambda>m. liftE (setSrcMac m e))"

definition setRandomDestMac :: "bool \<Rightarrow> bool \<Rightarrow> cEthernetPacket \<Rightarrow> ('z env_scheme, cEthernetPacket) M" where
  "setRandomDestMac unicast multicast e = bindM (mac_setRandom unicast multicast) (\<lambda>m. liftE (setDestMac m e))"

record cPreprocessor =
  randomSrcMac :: bool
  randomDstMac :: bool

definition preprocess :: "cPreprocessor \<Rightarrow> cEthernetPacket \<Rightarrow> ('z env_scheme, cEthernetPacket) M" where
  "preprocess pp e =
     bindM (if randomSrcMac pp then setRandomSrcMac True False e else returnM e) (\<lambda>e.
     if randomDstMac pp then setRandomDestMac True False e else returnM e)"

subsection \<open>A stage that keeps the packets' lengths\<close>

text \<open>
  The interface between the list and its stages: \<open>f\<close> changes bytes but no lengths, so the counters of the
  list stay right.
\<close>

locale list_stage =
  fixes f :: "'c item_step"
  assumes keeps_lengths: "f x c = Some (Inr y, c') \<Longrightarrow> map getLength (frames_of y) = map getLength (frames_of x)"
begin

text \<open>The walk does with the listed packets what \<open>stage_list\<close> does.\<close>

lemma walk_refines:
  "linked (pd_heap d) p xs \<Longrightarrow> distinct xs \<Longrightarrow>
   (case stage_list f (map (\<lambda>a. l_item (pd_heap d ! a)) xs) c of
      None \<Rightarrow> stage_walk f p (c, d) = None
    | Some (Inl e, c') \<Rightarrow> \<exists>d'. stage_walk f p (c, d) = Some (Inl e, c', d')
    | Some (Inr ys, c') \<Rightarrow> \<exists>h. stage_walk f p (c, d) = Some (Inr (), c', d\<lparr>pd_heap := h\<rparr>) \<and> linked h p xs
        \<and> length h = length (pd_heap d) \<and> map (\<lambda>a. l_item (h ! a)) xs = ys
        \<and> (\<forall>b. m_t (h ! b) = m_t (pd_heap d ! b)) \<and> (\<forall>b. b \<notin> set xs \<longrightarrow> h ! b = pd_heap d ! b)
        \<and> map getLength (concat (map frames_of ys))
            = map getLength (concat (map (\<lambda>a. frames_of (l_item (pd_heap d ! a))) xs)))"
proof (induction xs arbitrary: c d p)
  case Nil
  then show ?case by (simp add: stage_walk.simps [of f None]) (metis cPacketData.surjective cPacketData.update_convs(1))
next
  case (Cons a as)
  let ?n = "pd_heap d ! a"
  have a: "p = Some a" "live (pd_heap d) a" "linked (pd_heap d) (m_next ?n) as" "a \<notin> set as" "distinct as"
    using Cons.prems by auto
  show ?case
  proof (cases "f (l_item ?n) c")
    case None
    then show ?thesis using a(1,2) by (simp add: stage_walk.simps [of f "Some a"] at_node_def bindN_def)
  next
    case (Some rc)
    then obtain r c1 where rc: "f (l_item ?n) c = Some (r, c1)" by (cases rc) auto
    show ?thesis
    proof (cases r)
      case (Inl e)
      then show ?thesis using a(1,2) rc by (simp add: stage_walk.simps [of f "Some a"] at_node_def bindN_def)
    next
      case (Inr y)
      note y = rc [unfolded Inr]
      let ?h = "(pd_heap d)[a := ?n\<lparr>l_item := y\<rparr>]"
      let ?d = "d\<lparr>pd_heap := ?h\<rparr>"
      have step: "stage_walk f p (c, d) = stage_walk f (m_next ?n) (c1, ?d)"
        using a(1,2) y by (simp add: stage_walk.simps [of f "Some a"] at_node_def on_node_def)
      have as: "(\<lambda>b. l_item (?h ! b)) b = l_item (pd_heap d ! b)" if "b \<in> set as" for b
        using that a(4) by (cases "a = b") auto
      then have items: "map (\<lambda>b. l_item (?h ! b)) as = map (\<lambda>b. l_item (pd_heap d ! b)) as"
        "map (\<lambda>b. frames_of (l_item (?h ! b))) as = map (\<lambda>b. frames_of (l_item (pd_heap d ! b))) as" by auto
      have "linked (pd_heap ?d) (m_next ?n) as" using linked_update [OF a(3,4)] by simp
      note IH = Cons.IH [OF this a(5), of c1]
      have keep: "\<And>b. m_t (?h ! b) = m_t (pd_heap d ! b)"
        using a(2) by (simp add: nth_list_update live_def)
      let ?rest = "stage_list f (map (\<lambda>b. l_item (?h ! b)) as) c1"
      consider "?rest = None" | e c' where "?rest = Some (Inl e, c')" | ys c' where "?rest = Some (Inr ys, c')"
        by (cases ?rest) (auto, metis sum.exhaust)
      then show ?thesis
      proof cases
        case 3
        then obtain h where r: "stage_walk f (m_next ?n) (c1, ?d) = Some (Inr (), c', ?d\<lparr>pd_heap := h\<rparr>)"
          "linked h (m_next ?n) as" "length h = length ?h" "map (\<lambda>a. l_item (h ! a)) as = ys"
          "\<forall>b. m_t (h ! b) = m_t (?h ! b)" "\<forall>b. b \<notin> set as \<longrightarrow> h ! b = ?h ! b"
          "map getLength (concat (map frames_of ys))
             = map getLength (concat (map (\<lambda>a. frames_of (l_item (?h ! a))) as))"
          using IH by auto
        have ha: "h ! a = ?n\<lparr>l_item := y\<rparr>" "live h a"
          using r(3,6) a(2,4) by (auto simp: live_def)
        have list: "stage_list f (map (\<lambda>a. l_item (pd_heap d ! a)) (a # as)) c = Some (Inr (y # ys), c')"
          using y 3 items(1) by (simp add: pureN_def)
        have "linked h p (a # as)" using ha r(2) a(1) by simp
        moreover have "stage_walk f p (c, d) = Some (Inr (), c', d\<lparr>pd_heap := h\<rparr>)" using step r(1) by simp
        moreover have "\<forall>b. b \<notin> set (a # as) \<longrightarrow> h ! b = pd_heap d ! b" using r(6) by auto
        moreover have "length h = length (pd_heap d)" "map (\<lambda>a. l_item (h ! a)) (a # as) = y # ys"
          "\<forall>b. m_t (h ! b) = m_t (pd_heap d ! b)" using ha r(3-5) keep by simp_all
        moreover have "map getLength (concat (map frames_of (y # ys)))
            = map getLength (concat (map (\<lambda>a. frames_of (l_item (pd_heap d ! a))) (a # as)))"
          using r(7) keeps_lengths [OF y] items(2) by simp
        ultimately show ?thesis unfolding list option.case prod.case sum.case by (intro exI [of _ h] conjI)
      qed (use IH step y items in \<open>simp_all add: bindN_def\<close>)
    qed
  qed
qed

lemma stage_ok:
  assumes "data_ok d xs"
  shows "case stage_list f (map fst (contents d xs)) c of
      None \<Rightarrow> stage_walk f (pd_head d) (c, d) = None
    | Some (Inl e, c') \<Rightarrow> \<exists>d'. stage_walk f (pd_head d) (c, d) = Some (Inl e, c', d')
    | Some (Inr ys, c') \<Rightarrow> \<exists>d'. stage_walk f (pd_head d) (c, d) = Some (Inr (), c', d') \<and> data_ok d' xs
        \<and> contents d' xs = zip ys (map snd (contents d xs)) \<and> hasUserTimestamps d' = hasUserTimestamps d"
proof -
  have l: "linked (pd_heap d) (pd_head d) xs" "distinct xs" using assms by (auto simp: data_ok_def)
  have items: "map fst (contents d xs) = map (\<lambda>a. l_item (pd_heap d ! a)) xs"
    "map snd (contents d xs) = map (\<lambda>a. m_t (pd_heap d ! a)) xs" by (auto simp: contents_def)
  note w = walk_refines [OF l, of c]
  let ?r = "stage_list f (map (\<lambda>a. l_item (pd_heap d ! a)) xs) c"
  consider "?r = None" | e c' where "?r = Some (Inl e, c')" | ys c' where "?r = Some (Inr ys, c')"
    by (cases ?r) (auto, metis sum.exhaust)
  then show ?thesis
  proof cases
    case 3
    then obtain h where r: "stage_walk f (pd_head d) (c, d) = Some (Inr (), c', d\<lparr>pd_heap := h\<rparr>)"
      "linked h (pd_head d) xs" "map (\<lambda>a. l_item (h ! a)) xs = ys" "\<forall>b. m_t (h ! b) = m_t (pd_heap d ! b)"
      "map getLength (concat (map frames_of ys)) = map getLength (frames_in (pd_heap d) xs)"
      using w by (auto simp: frames_in_def)
    have "frames_in h xs = concat (map frames_of ys)" using r(3) by (auto simp: frames_in_def comp_def)
    then have "map getLength (frames_in h xs) = map getLength (frames_in (pd_heap d) xs)" using r(5) by simp
    moreover then have "length (frames_in h xs) = length (frames_in (pd_heap d) xs)" by (metis length_map)
    ultimately have "data_ok (d\<lparr>pd_heap := h\<rparr>) xs" using assms r(2) by (simp add: data_ok_def)
    moreover have "contents (d\<lparr>pd_heap := h\<rparr>) xs = zip ys (map (\<lambda>a. m_t (pd_heap d ! a)) xs)"
      using r(3,4) by (auto simp: contents_def zip_map_map zip_same_conv_map)
    ultimately show ?thesis unfolding items using r(1) 3 by simp
  qed (use w items in simp_all)
qed

end

subsection \<open>The stages of the program\<close>

lemma setDestMac_length: "setDestMac m e = Inr e' \<Longrightarrow> getLength e' = getLength e"
  by (auto simp: setDestMac_def store_def getLength_def)

lemma mapE_lengths: "mapE (setDestMac m) es = Inr es' \<Longrightarrow> map getLength es' = map getLength es"
proof (induction es arbitrary: es')
  case (Cons e es)
  then show ?case by (auto dest: setDestMac_length)
qed simp

lemma ip_setDestMac_lengths:
  "ip_setDestMac m ip = Inr ip' \<Longrightarrow> map getLength (m_packets ip') = map getLength (m_packets ip)"
  by (auto simp: ip_setDestMac_def dest: mapE_lengths)

interpretation filter_stage: list_stage "filter_item flt"
  by unfold_locales (auto simp: filter_item_def pureN_def frames_of_def dest: setDestMac_length ip_setDestMac_lengths
      split: option.splits cLinkable.splits)

lemma bindN_Inr_iff:
  "bindN m f s = Some (Inr y, s'') \<longleftrightarrow> (\<exists>x s'. m s = Some (Inr x, s') \<and> f x s' = Some (Inr y, s''))"
  by (auto simp: bindN_def split: option.splits sum.splits)

interpretation resolver_stage: list_stage "resolve_item resolve"
  by unfold_locales (auto simp: resolve_item_def pureN_def frames_of_def bindN_Inr_iff dest: ip_setDestMac_lengths
      split: cLinkable.splits if_splits)

text \<open>The filter overwrites the destination of every packet, those of fragments included.\<close>

definition redirected :: "byte list \<Rightarrow> cLinkable \<Rightarrow> cLinkable res" where
  "redirected mac x = (case x of
     EthPacket e \<Rightarrow> bindE (setDestMac mac e) (\<lambda>e. Inr (EthPacket e))
   | IpPacket ip \<Rightarrow> bindE (ip_setDestMac mac ip) (\<lambda>ip. Inr (IpPacket ip)))"

lemma filter_list: "forcedDMAC flt = Some mac \<Longrightarrow>
    stage_list (filter_item flt) xs u = Some (mapE (redirected mac) xs, u)"
proof (induction xs)
  case (Cons x xs)
  have "filter_item flt x = pureN (redirected mac x)"
    using Cons.prems by (simp add: filter_item_def redirected_def)
  then show ?case using Cons
    by (cases "redirected mac x"; cases "mapE (redirected mac) xs") (simp_all add: bindN_def pureN_def)
qed simp

lemma run_filter_ok:
  assumes "data_ok d xs" and "forcedDMAC flt = Some mac"
  shows "case mapE (redirected mac) (map fst (contents d xs)) of
      Inl e \<Rightarrow> \<exists>d'. run_filter flt d = Some (Inl e, d')
    | Inr ys \<Rightarrow> \<exists>d'. run_filter flt d = Some (Inr (), d') \<and> data_ok d' xs
        \<and> contents d' xs = zip ys (map snd (contents d xs)) \<and> hasUserTimestamps d' = hasUserTimestamps d"
  using filter_stage.stage_ok [OF assms(1), of flt "()"] assms(2)
  by (auto simp: run_filter_def filter_list split: sum.splits)

subsection \<open>The resolver's cache\<close>

text \<open>
  The specification asks for the host of every packet; \<open>host\<close> is a network whose answers do not change
  while the program runs.
\<close>

definition resolved :: "(byte list \<Rightarrow> byte list option) \<Rightarrow> cLinkable \<Rightarrow> cLinkable res" where
  "resolved host x = (case x of
     EthPacket e \<Rightarrow> Inr x
   | IpPacket ip \<Rightarrow>
       bindE (getFirstEthernetPacket ip) (\<lambda>e.
       if hasDMAC e then Inr x
       else bindE (getDestination4 ip) (\<lambda>dip. case host dip of
              Some mac \<Rightarrow> bindE (ip_setDestMac mac ip) (\<lambda>ip. Inr (IpPacket ip))
            | None \<Rightarrow> Inl (RuntimeError ''Could not resolve host(s).''))))"

text \<open>A network that writes down which hosts it is asked for.\<close>

definition logging :: "(byte list \<Rightarrow> byte list option) \<Rightarrow> byte list list arp" where
  "logging host dip asked = Some (Inr (host dip), asked @ [dip])"

definition cache_ok :: "(byte list \<Rightarrow> byte list option) \<Rightarrow> byte list list resolver_state \<Rightarrow> bool" where
  "cache_ok host c \<longleftrightarrow> (case c of (cache, asked) \<Rightarrow>
     distinct asked \<and> set asked = dom cache \<and> (\<forall>dip mac. cache dip = Some mac \<longrightarrow> host dip = Some mac))"

lemma lookup_host_cached:
  assumes "cache_ok host c"
  shows "case host dip of
      None \<Rightarrow> \<exists>c'. lookup_host (logging host) dip c = Some (Inl (RuntimeError ''Could not resolve host(s).''), c')
    | Some mac \<Rightarrow> \<exists>c'. lookup_host (logging host) dip c = Some (Inr mac, c') \<and> cache_ok host c'"
  using assms
  by (cases c) (auto simp: cache_ok_def lookup_host_def logging_def split: option.splits)

lemma resolve_item_ok:
  assumes "cache_ok host c"
  shows "case resolved host x of
      Inl e \<Rightarrow> \<exists>c'. resolve_item (logging host) x c = Some (Inl e, c')
    | Inr y \<Rightarrow> \<exists>c'. resolve_item (logging host) x c = Some (Inr y, c') \<and> cache_ok host c'"
proof (cases x)
  case (IpPacket ip)
  show ?thesis
  proof (cases "bindE (getFirstEthernetPacket ip) (\<lambda>e. if hasDMAC e then Inl (Bug []) else getDestination4 ip)")
    case (Inl e)
    then show ?thesis using assms IpPacket
      by (cases "getFirstEthernetPacket ip"; cases "getDestination4 ip")
        (auto simp: resolved_def resolve_item_def pureN_def bindN_def split: if_splits)
  next
    case (Inr dip)
    then obtain e where "getFirstEthernetPacket ip = Inr e" "\<not> hasDMAC e" "getDestination4 ip = Inr dip"
      by (auto split: if_splits)
    then show ?thesis using lookup_host_cached [OF assms, of dip] IpPacket
      by (cases "host dip") (auto simp: resolved_def resolve_item_def pureN_def bindN_def bindE_def split: sum.splits)
  qed
qed (simp add: resolved_def resolve_item_def assms pureN_def)

lemma resolver_list:
  "cache_ok host c \<Longrightarrow> (case mapE (resolved host) xs of
      Inl e \<Rightarrow> \<exists>c'. stage_list (resolve_item (logging host)) xs c = Some (Inl e, c')
    | Inr ys \<Rightarrow> \<exists>c'. stage_list (resolve_item (logging host)) xs c = Some (Inr ys, c') \<and> cache_ok host c')"
proof (induction xs arbitrary: c)
  case (Cons x xs)
  show ?case using resolve_item_ok [OF Cons.prems, of x] Cons.IH
    by (cases "resolved host x"; cases "mapE (resolved host) xs") (fastforce simp: bindN_def pureN_def)+
qed simp

lemma run_resolver_ok:
  assumes "data_ok d xs"
  shows "case mapE (resolved host) (map fst (contents d xs)) of
      Inl e \<Rightarrow> \<exists>asked d'. run_resolver (logging host) ([], d) = Some (Inl e, asked, d')
    | Inr ys \<Rightarrow> \<exists>asked d'. run_resolver (logging host) ([], d) = Some (Inr (), asked, d') \<and> distinct asked
        \<and> data_ok d' xs \<and> contents d' xs = zip ys (map snd (contents d xs))
        \<and> hasUserTimestamps d' = hasUserTimestamps d"
proof -
  have "cache_ok host (Map.empty, [])" by (simp add: cache_ok_def)
  from resolver_list [OF this, of "map fst (contents d xs)"]
  show ?thesis using resolver_stage.stage_ok [OF assms, of "logging host" "(Map.empty, [])"]
    by (fastforce simp: run_resolver_def cache_ok_def split: sum.splits)
qed

end
