(* ===== verification/Sleep.thy ===== *)
theory Sleep
  imports Timeval
begin

section \<open>Waiting\<close>

text \<open>
  src/os/linux/sleep.cpp. The clock is a parameter: \<open>clock k\<close> is what its reading number \<open>k\<close> delivers in
  nanoseconds, and the state of a caller is how many readings it has made. \<open>sleep_for\<close> does no more than
  let time pass, which the next reading shows. A wait that does not end is None.
\<close>

type_synonym clock = "nat \<Rightarrow> nat"

text \<open>\<open>duration_cast<microseconds> (t2 - t1).count ()\<close>, as an unsigned number.\<close>

definition us_since :: "nat \<Rightarrow> nat \<Rightarrow> u64" where
  "us_since t1 t2 = (if t1 \<le> t2 then of_nat ((t2 - t1) div 1000) else - of_nat ((t1 - t2) div 1000))"

partial_function (option) busy_loop :: "clock \<Rightarrow> nat \<Rightarrow> u64 \<Rightarrow> nat \<Rightarrow> nat option" where
  "busy_loop clock t1 us k = (if us_since t1 (clock k) < us then busy_loop clock t1 us (k + 1) else Some (k + 1))"

definition busyWaitUs :: "clock \<Rightarrow> u64 \<Rightarrow> nat \<Rightarrow> nat option" where
  "busyWaitUs clock us k = (if us = 0 then Some k else busy_loop clock (clock k) us (k + 1))"

text \<open>
  \<open>SleepInit\<close> measures 1000 sleeps. The sum of the measured times is a \<open>double\<close>; it is an integer and
  exact as long as it is below \<open>2 ^ 53\<close> nanoseconds.
\<close>

definition SleepInit :: "clock \<Rightarrow> nat \<Rightarrow> cTimeval res \<times> nat" where
  "SleepInit clock k =
     (let totalTime = sum_list (map (\<lambda>n. clock (k + 2 * n + 1) - clock (k + 2 * n)) [0..<1000])
      in (bindE (dto_unsigned 64 (ddiv (ddiv (dbl totalTime 1) (dbl 1000 1)) (dbl 1000 1))) (\<lambda>v. Inr (of_nat v)),
          k + 2000))"

definition SleepFor :: "clock \<Rightarrow> cTimeval \<Rightarrow> cTimeval \<Rightarrow> nat \<Rightarrow> nat res option" where
  "SleepFor clock resolution t k =
     (if tv_isNull resolution then Some (Inl (Bug ''resolution.isNull()''))
      else if t < resolution then map_option Inr (busyWaitUs clock t k)
      else (case roundDown resolution t of
          Inl e \<Rightarrow> Some (Inl e)
        | Inr tRounded \<Rightarrow>
            (let elapsedUs = us_since (clock k) (clock (k + 1))
             in if t > elapsedUs then map_option Inr (busyWaitUs clock (t - elapsedUs) (k + 2))
                else Some (Inr (k + 2)))))"

subsection \<open>Every wait ends and none is too short\<close>

text \<open>A clock that does not run backwards, passes every moment and does not jump by 146000 years.\<close>

definition ticking :: "clock \<Rightarrow> bool" where
  "ticking clock \<longleftrightarrow> mono clock \<and> (\<forall>k. clock (Suc k) - clock k < 1000 * 2 ^ 62) \<and> (\<forall>t. \<exists>k. t \<le> clock k)"

lemma us_since_exact:
  assumes "t1 \<le> t2" and "t2 - t1 < 1000 * 2 ^ 64"
  shows "unat (us_since t1 t2) = (t2 - t1) div 1000"
proof -
  have "(t2 - t1) div 1000 < 2 ^ 64" using assms(2) by (simp add: div_less_iff_less_mult)
  then show ?thesis using assms(1) by (simp add: us_since_def unat_of_nat)
qed

lemma busy_loop_runs:
  assumes "\<And>i. k \<le> i \<Longrightarrow> i < j \<Longrightarrow> us_since t1 (clock i) < us" and "us \<le> us_since t1 (clock j)" and "k \<le> j"
  shows "busy_loop clock t1 us k = Some (j + 1)"
  using assms
proof (induction "j - k" arbitrary: k)
  case 0
  then show ?case by (subst busy_loop.simps) (simp add: not_less [symmetric])
next
  case (Suc n)
  have "busy_loop clock t1 us (k + 1) = Some (j + 1)" using Suc.hyps(2) Suc.prems by (intro Suc.hyps(1)) auto
  then show ?case using Suc.hyps(2) Suc.prems(1) [of k] by (subst busy_loop.simps) simp
qed

lemma busyWaitUs_waits:
  assumes "ticking clock" and "unat us \<le> 2 ^ 63"
  shows "\<exists>k'. busyWaitUs clock us k = Some k' \<and> k \<le> k' \<and> (us \<noteq> 0 \<longrightarrow> k < k')
    \<and> unat us * 1000 \<le> clock (k' - 1) - clock k"
proof (cases "us = 0")
  case True
  then show ?thesis by (simp add: busyWaitUs_def)
next
  case False
  have mono: "i \<le> j \<Longrightarrow> clock i \<le> clock j" for i j using assms(1) by (simp add: ticking_def monoD)
  have jump: "clock (Suc i) - clock i < 1000 * 2 ^ 62" for i using assms(1) by (simp add: ticking_def)
  let ?late = "\<lambda>j. k + 1 \<le> j \<and> clock k + 1000 * unat us \<le> clock j"
  obtain n where "clock k + 1000 * unat us \<le> clock n" using assms(1) by (auto simp: ticking_def)
  then have "?late (max n (k + 1))" using mono [of n "max n (k + 1)"] by simp
  then obtain j where j: "?late j" "\<And>i. i < j \<Longrightarrow> \<not> ?late i" using exists_least_iff [of ?late] by blast
  have early: "clock i < clock k + 1000 * unat us" if "k + 1 \<le> i" "i < j" for i using j(2) [OF that(2)] that(1) by simp
  have "clock (j - 1) < clock k + 1000 * unat us \<or> j - 1 = k" using early [of "j - 1"] j(1) by fastforce
  moreover have "clock j - clock (j - 1) < 1000 * 2 ^ 62" using jump [of "j - 1"] j(1) by simp
  ultimately have small: "clock j - clock k < 1000 * 2 ^ 64" using assms(2) by (elim disjE) simp_all
  have "us_since (clock k) (clock i) < us" if "k + 1 \<le> i" "i < j" for i
  proof -
    have i: "clock k \<le> clock i" "clock i - clock k < 1000 * unat us" using early [OF that] mono [of k i] that by auto
    then have "unat (us_since (clock k) (clock i)) = (clock i - clock k) div 1000"
      using assms(2) by (intro us_since_exact) simp_all
    then show ?thesis using i by (simp add: word_less_nat_alt div_less_iff_less_mult mult.commute)
  qed
  moreover have "us \<le> us_since (clock k) (clock j)"
    using us_since_exact [of "clock k" "clock j"] mono [of k j] j(1) small
    by (simp add: word_le_nat_alt less_eq_div_iff_mult_less_eq mult.commute) linarith
  ultimately have "busy_loop clock (clock k) us (k + 1) = Some (j + 1)"
    using j(1) by (intro busy_loop_runs) auto
  then show ?thesis using False j(1) by (simp add: busyWaitUs_def) linarith
qed

lemma SleepFor_waits:
  assumes "ticking clock" and "resolution \<noteq> 0" and "unat t \<le> 2 ^ 63"
  shows "\<exists>k'. SleepFor clock resolution t k = Some (Inr k') \<and> k \<le> k' \<and> (t \<noteq> 0 \<longrightarrow> k < k')
    \<and> unat t * 1000 \<le> clock (k' - 1) - clock k"
proof (cases "t < resolution")
  case True
  then show ?thesis using busyWaitUs_waits [OF assms(1,3), of k] assms(2) by (auto simp: SleepFor_def tv_isNull_def)
next
  case False
  let ?e = "us_since (clock k) (clock (k + 1))"
  have mono: "i \<le> j \<Longrightarrow> clock i \<le> clock j" for i j using assms(1) by (simp add: ticking_def monoD)
  have "clock (k + 1) - clock k < 1000 * 2 ^ 64" using assms(1) by (auto simp: ticking_def dest: spec [of _ k])
  then have e: "unat ?e = (clock (k + 1) - clock k) div 1000" using us_since_exact mono [of k "k + 1"] by simp
  have start: "SleepFor clock resolution t k = (if t > ?e then map_option Inr (busyWaitUs clock (t - ?e) (k + 2))
      else Some (Inr (k + 2)))"
    using False assms(2) by (simp add: SleepFor_def tv_isNull_def roundDown_def Let_def)
  show ?thesis
  proof (cases "t > ?e")
    case True
    then have u: "unat (t - ?e) = unat t - unat ?e" by (simp add: unat_sub)
    have "unat (t - ?e) \<le> 2 ^ 63" using u assms(3) by simp
    from busyWaitUs_waits [OF assms(1) this, of "k + 2"]
    obtain k' where k': "busyWaitUs clock (t - ?e) (k + 2) = Some k'" "k + 2 \<le> k'"
      "unat (t - ?e) * 1000 \<le> clock (k' - 1) - clock (k + 2)"
      by (elim exE conjE) (rule that)
    have "unat t * 1000 - unat ?e * 1000 \<le> clock (k' - 1) - clock (k + 1)"
      using k'(3) u mono [of "k + 1" "k + 2"] by (simp add: diff_mult_distrib)
    moreover have "unat ?e * 1000 \<le> clock (k + 1) - clock k" using e by simp
    ultimately have "unat t * 1000 \<le> clock (k' - 1) - clock k"
      using mono [of k "k + 1"] mono [of "k + 1" "k' - 1"] k'(2) by linarith
    then show ?thesis using True k'(1,2) start by auto
  next
    case False
    then have "unat t * 1000 \<le> clock (k + 1) - clock k"
      using e by (simp add: word_le_nat_alt not_less less_eq_div_iff_mult_less_eq)
    then show ?thesis using False start by auto
  qed
qed

end
