(* ===== verification/LinuxInterface.thy ===== *)
theory LinuxInterface
  imports Pipeline Sleep LinkPackets
begin

section \<open>The network interface on Linux\<close>

text \<open>
  src/os/linux/interface.cpp, arp.cpp and signal.cpp. What the operating system answers is the record
  \<open>os\<close>; a call whose answer changes from call to call gets the number of the call. A \<open>cInterface\<close> is
  the record of its members, followed by what the calls have changed outside of it: the numbers of the
  calls made so far, the open descriptors, the frames on the wire (each with the number of the last
  reading of the clock before it) and the variable \<open>resolution\<close> of sleep.cpp. Console output and the
  text of \<open>errno\<close> are left out. A new address object is zero.
\<close>

record sockaddr_ll =
  sll_ifindex :: int
  sll_halen :: byte
  sll_addr :: "byte list"

record ifaddrs =
  ifa_name :: string
  ifa_family :: "u16 option"
  ifa_host :: "string option"

record os =
  os_clock :: clock
  os_nametoindex :: "string \<Rightarrow> u32"
  os_socket :: "nat \<Rightarrow> int"
  os_hwaddr :: "string \<Rightarrow> (u16 \<times> byte list) option"
  os_ifaddr :: "string \<Rightarrow> byte list option"
  os_ifmtu :: "string \<Rightarrow> u32 option"
  os_getifaddrs :: "ifaddrs list option"
  os_file :: "string \<Rightarrow> string option"
  os_sendto :: "nat \<Rightarrow> sockaddr_ll \<Rightarrow> byte list \<Rightarrow> int"
  os_setsockopt :: "nat \<Rightarrow> bool"
  os_recv :: "nat \<Rightarrow> byte list option"

record cInterface =
  if_name :: string
  ifcHandle :: int
  ifIndex :: int
  myMac :: "byte list"
  myIP :: "byte list"
  myIPv6 :: "byte list"
  if_mtu :: u32
  linkSpeed :: u64
  lastSentPacket :: cTimeval
  firstPacket :: bool
  tStart :: "nat option"
  if_sentPackets :: u64
  if_sentBytes :: u64
  k_sockets :: nat
  k_open :: "int list"
  k_clock :: nat
  k_sendto :: nat
  k_setsockopt :: nat
  k_recv :: nat
  wire :: "(nat \<times> byte list) list"
  sleep_resolution :: cTimeval

subsection \<open>Descriptors\<close>

definition sys_socket :: "os \<Rightarrow> (cInterface, int) M" where
  "sys_socket os i = (let fd = os_socket os (k_sockets i)
     in (Inr fd, i\<lparr>k_sockets := k_sockets i + 1, k_open := (if fd < 0 then k_open i else fd # k_open i)\<rparr>))"

definition sys_close :: "int \<Rightarrow> (cInterface, unit) M" where
  "sys_close fd = modifyM (\<lambda>i. i\<lparr>k_open := remove1 fd (k_open i)\<rparr>)"

text \<open>\<open>std::chrono::...::now ()\<close>: the number of the reading.\<close>

definition sys_now :: "(cInterface, nat) M" where
  "sys_now i = (Inr (k_clock i), i\<lparr>k_clock := k_clock i + 1\<rparr>)"

text \<open>\<open>duration_cast<...>(t2 - t1).count ()\<close> in units of \<open>unit_ns\<close>; it truncates.\<close>

definition elapsed :: "nat \<Rightarrow> nat \<Rightarrow> nat \<Rightarrow> int" where
  "elapsed unit_ns t1 t2 = (if t1 \<le> t2 then int ((t2 - t1) div unit_ns) else - int ((t1 - t2) div unit_ns))"

definition sys_setsockopt :: "os \<Rightarrow> (cInterface, bool) M" where
  "sys_setsockopt os i = (Inr (os_setsockopt os (k_setsockopt i)), i\<lparr>k_setsockopt := k_setsockopt i + 1\<rparr>)"

definition sys_recv :: "os \<Rightarrow> (cInterface, byte list option) M" where
  "sys_recv os i = (Inr (map_option (take 64) (os_recv os (k_recv i))), i\<lparr>k_recv := k_recv i + 1\<rparr>)"

definition device_of :: "int \<Rightarrow> byte list \<Rightarrow> sockaddr_ll" where
  "device_of ifindex mac = \<lparr>sll_ifindex = ifindex, sll_halen = ucast (htons 6), sll_addr = mac\<rparr>"

definition sys_sendto :: "os \<Rightarrow> sockaddr_ll \<Rightarrow> byte list \<Rightarrow> (cInterface, int) M" where
  "sys_sendto os device bytes i = (let n = os_sendto os (k_sendto i) device bytes
     in (Inr n, i\<lparr>k_sendto := k_sendto i + 1,
                 wire := (if n < 0 then wire i else wire i @ [(k_clock i - 1, bytes)])\<rparr>))"

subsection \<open>The adapter\<close>

text \<open>
  The ioctl calls see the first 15 characters of the name. A failing ioctl returns without closing the
  socket.
\<close>

definition ifr_name :: "string \<Rightarrow> string" where
  "ifr_name n = take 15 n"

definition ARPHRD_ETHER :: u16 where "ARPHRD_ETHER = 1"
definition ARPHRD_LOOPBACK :: u16 where "ARPHRD_LOOPBACK = 772"
definition AF_INET6 :: u16 where "AF_INET6 = 10"

text \<open>The address, or None where the function returns false.\<close>

definition getMAC :: "os \<Rightarrow> (cInterface, byte list option) M" where
  "getMAC os =
     bindM (getM id) (\<lambda>i.
     if \<not> mac_isNull (myMac i) then returnM (Some (myMac i))
     else bindM (sys_socket os) (\<lambda>s.
          if s < 0 then returnM None
          else case os_hwaddr os (ifr_name (if_name i)) of
              None \<Rightarrow> returnM None
            | Some (family, sa_data) \<Rightarrow>
                bindM (sys_close s) (\<lambda>_.
                returnM (if family \<noteq> ARPHRD_ETHER \<and> family \<noteq> ARPHRD_LOOPBACK then None
                         else Some (take 6 sa_data)))))"

definition getIPv4 :: "os \<Rightarrow> (cInterface, byte list option) M" where
  "getIPv4 os =
     bindM (getM id) (\<lambda>i.
     if \<not> ipv4_isNull (myIP i) then returnM (Some (myIP i))
     else bindM (sys_socket os) (\<lambda>s.
          if s < 0 then returnM None
          else case os_ifaddr os (ifr_name (if_name i)) of
              None \<Rightarrow> returnM None
            | Some ip \<Rightarrow>
                bindM (modifyM (\<lambda>i. i\<lparr>myIP := ip\<rparr>)) (\<lambda>_.
                bindM (sys_close s) (\<lambda>_. returnM (Some ip)))))"

text \<open>
  The loop over the addresses of the system: the first IPv6 address of the interface. None is an error,
  \<open>Some None\<close> no such address. The zone index of a link-local address is cut off.
\<close>

fun ipv6_host :: "string \<Rightarrow> ifaddrs list \<Rightarrow> string option option" where
  "ipv6_host name [] = Some None"
| "ipv6_host name (a # as) =
     (if ifa_family a \<noteq> Some AF_INET6 then ipv6_host name as
      else if ifa_name a \<noteq> name then ipv6_host name as
      else case ifa_host a of
          None \<Rightarrow> None
        | Some host \<Rightarrow> Some (Some (takeWhile (\<lambda>c. c \<noteq> CHR ''%'') host)))"

text \<open>\<open>ip\<close> is what the caller's variable holds; a text that is no address leaves it as it is.\<close>

definition getIPv6 :: "os \<Rightarrow> env \<Rightarrow> byte list \<Rightarrow> (cInterface, byte list option) M" where
  "getIPv6 os e ip =
     bindM (getM id) (\<lambda>i.
     if \<not> ipv6_isNull (myIPv6 i) then returnM (Some (myIPv6 i))
     else case os_getifaddrs os of
         None \<Rightarrow> returnM None
       | Some ifaddr \<Rightarrow> (case ipv6_host (if_name i) ifaddr of
             Some (Some host) \<Rightarrow>
               bindM (liftE (fst (ipv6_set_text host e))) (\<lambda>r.
               let ip = (case r of Some a \<Rightarrow> a | None \<Rightarrow> ip)
               in bindM (modifyM (\<lambda>i. i\<lparr>myIPv6 := ip\<rparr>)) (\<lambda>_. returnM (Some ip)))
           | _ \<Rightarrow> returnM None))"

definition getMTU :: "os \<Rightarrow> (cInterface, u32) M" where
  "getMTU os =
     bindM (getM id) (\<lambda>i.
     if if_mtu i \<noteq> 0 then returnM (if_mtu i)
     else bindM (sys_socket os) (\<lambda>s.
          if s < 0 then returnM 0
          else case os_ifmtu os (ifr_name (if_name i)) of
              None \<Rightarrow> returnM 0
            | Some m \<Rightarrow>
                bindM (modifyM (\<lambda>i. i\<lparr>if_mtu := m\<rparr>)) (\<lambda>_. bindM (sys_close s) (\<lambda>_. returnM m))))"

definition getLinkSpeed :: "os \<Rightarrow> (cInterface, u64) M" where
  "getLinkSpeed os =
     bindM (getM id) (\<lambda>i.
     if linkSpeed i \<noteq> 0 then returnM (linkSpeed i)
     else case os_file os (''/sys/class/net/'' @ if_name i @ ''/speed'') of
         None \<Rightarrow> returnM 0
       | Some text \<Rightarrow>
           (let s = take 31 text;
                speed = (if s = [] then 0 else of_nat (fst (strtoull s 10)) * 1000000)
            in bindM (modifyM (\<lambda>i. i\<lparr>linkSpeed := speed\<rparr>)) (\<lambda>_. returnM speed)))"

definition if_isOpen :: "cInterface \<Rightarrow> bool" where
  "if_isOpen i = (ifcHandle i \<noteq> -1)"

definition isReady :: "cInterface \<Rightarrow> bool" where
  "isReady i = (ifIndex i \<noteq> 0)"

subsection \<open>Opening and closing\<close>

definition if_init :: "string \<Rightarrow> cInterface" where
  "if_init ifname = \<lparr>if_name = ifname, ifcHandle = -1, ifIndex = 0, myMac = replicate 6 0,
     myIP = replicate 4 0, myIPv6 = replicate 16 0, if_mtu = 0, linkSpeed = 0, lastSentPacket = 0,
     firstPacket = True, tStart = None, if_sentPackets = 0, if_sentBytes = 0, k_sockets = 0, k_open = [],
     k_clock = 0, k_sendto = 0, k_setsockopt = 0, k_recv = 0, wire = [], sleep_resolution = 0\<rparr>"

definition new_cInterface :: "os \<Rightarrow> string \<Rightarrow> bool \<Rightarrow> cInterface" where
  "new_cInterface os ifname needPriviledges =
     (let i = (if_init ifname)\<lparr>ifIndex := sint (os_nametoindex os ifname)\<rparr>
      in if ifIndex i = 0 then i
         else if needPriviledges then
           snd (bindM (sys_socket os) (\<lambda>fd.
                if fd < 0 then modifyM (\<lambda>i. i\<lparr>ifIndex := 0\<rparr>) else sys_close fd) i)
         else i)"

definition if_close :: "(cInterface, unit) M" where
  "if_close =
     bindM (getM ifcHandle) (\<lambda>h.
     bindM (if h > 0 then sys_close h else returnM ()) (\<lambda>_.
     modifyM (\<lambda>i. i\<lparr>ifcHandle := -1, ifIndex := 0, myMac := replicate 6 0, myIP := replicate 4 0\<rparr>)))"

text \<open>\<open>getMAC (myMac)\<close> writes through the reference, so the address is kept from here on.\<close>

definition if_open :: "os \<Rightarrow> (cInterface, bool) M" where
  "if_open os =
     bindM (getM ifcHandle) (\<lambda>h.
     if h > 0 then returnM True
     else bindM (sys_socket os) (\<lambda>fd.
          bindM (modifyM (\<lambda>i. i\<lparr>ifcHandle := fd\<rparr>)) (\<lambda>_.
          if fd < 0 then bindM if_close (\<lambda>_. returnM False)
          else bindM (sys_setsockopt os) (\<lambda>failed. bindM (getMAC os) (\<lambda>m.
               bindM (modifyM (\<lambda>i. i\<lparr>myMac := (case m of Some a \<Rightarrow> a | None \<Rightarrow> myMac i)\<rparr>)) (\<lambda>_.
               bindM (getMTU os) (\<lambda>mtu. bindM (modifyM (\<lambda>i. i\<lparr>if_mtu := mtu\<rparr>)) (\<lambda>_.
               bindM (getLinkSpeed os) (\<lambda>speed. bindM (modifyM (\<lambda>i. i\<lparr>linkSpeed := speed\<rparr>)) (\<lambda>_.
               bindM (modifyM (\<lambda>i. i\<lparr>lastSentPacket := 0\<rparr>)) (\<lambda>_.
               getM if_isOpen)))))))))))"

subsection \<open>Sending\<close>

definition prepareSendQueue :: "os \<Rightarrow> nat \<Rightarrow> nat \<Rightarrow> bool \<Rightarrow> (cInterface, bool) M" where
  "prepareSendQueue os packetCnt byteCnt synchronized =
     bindM (if synchronized then
              bindM (getM k_clock) (\<lambda>k. case SleepInit (os_clock os) k of (r, k) \<Rightarrow>
              bindM (modifyM (\<lambda>i. i\<lparr>k_clock := k\<rparr>)) (\<lambda>_.
              bindM (liftE r) (\<lambda>accuracy. modifyM (\<lambda>i. i\<lparr>sleep_resolution := accuracy\<rparr>))))
            else returnM ()) (\<lambda>_. returnM True)"

definition sys_Sleep :: "os \<Rightarrow> cTimeval \<Rightarrow> (cInterface, unit) N" where
  "sys_Sleep os t i = (case SleepFor (os_clock os) (sleep_resolution i) t (k_clock i) of
     None \<Rightarrow> None
   | Some (Inl e) \<Rightarrow> Some (Inl e, i)
   | Some (Inr k) \<Rightarrow> Some (Inr (), i\<lparr>k_clock := k\<rparr>))"

definition wait_for :: "os \<Rightarrow> cTimeval \<Rightarrow> (cInterface, unit) N" where
  "wait_for os t =
     bindN (liftN (getM (\<lambda>i. tv_sub t (lastSentPacket i)))) (\<lambda>sleepTime.
     bindN (liftN (bindM (getM firstPacket) (\<lambda>first.
         if first then
           bindM (modifyM (\<lambda>i. i\<lparr>firstPacket := False\<rparr>)) (\<lambda>_.
           bindM sys_now (\<lambda>k. modifyM (\<lambda>i. i\<lparr>tStart := Some k\<rparr>)))
         else returnM ()))) (\<lambda>_.
     if \<not> tv_isNull sleepTime then
       bindN (sys_Sleep os sleepTime) (\<lambda>_.
       liftN (modifyM (\<lambda>i. i\<lparr>lastSentPacket := tv_add (lastSentPacket i) sleepTime\<rparr>)))
     else liftN (returnM ())))"

definition transmit :: "os \<Rightarrow> byte list \<Rightarrow> (cInterface, bool) M" where
  "transmit os payload =
     bindM (getM (\<lambda>i. device_of (ifIndex i) (myMac i))) (\<lambda>device.
     bindM (sys_sendto os device payload) (\<lambda>n.
     if n \<noteq> int (length payload) then returnM False
     else bindM (modifyM (\<lambda>i. i\<lparr>if_sentPackets := if_sentPackets i + 1,
                              if_sentBytes := if_sentBytes i + of_nat (length payload)\<rparr>)) (\<lambda>_.
          returnM True)))"

definition sendPacket :: "os \<Rightarrow> byte list \<Rightarrow> cTimeval \<Rightarrow> (cInterface, bool) N" where
  "sendPacket os payload t = bindN (wait_for os t) (\<lambda>_. liftN (transmit os payload))"

definition flushSendQueue :: bool where
  "flushSendQueue = True"

text \<open>The duration in microseconds. When nothing was sent \<open>tStart\<close> still is the epoch of the clock.\<close>

definition getSendStatistic :: "os \<Rightarrow> (cInterface, u64 \<times> u64 \<times> int) M" where
  "getSendStatistic os =
     bindM sys_now (\<lambda>tEnd. getM (\<lambda>i.
       (if_sentPackets i, if_sentBytes i,
        elapsed 1000 (case tStart i of None \<Rightarrow> 0 | Some k \<Rightarrow> os_clock os k) (os_clock os tEnd))))"

subsection \<open>cArp\<close>

definition arp_read :: "byte list \<Rightarrow> arp_t" where
  "arp_read b = \<lparr>hwType = rd16 (b ! 1) (b ! 0), protType = rd16 (b ! 3) (b ! 2), hwAddrSize = b ! 4, protAddrSize = b ! 5,
     arp_opcode = rd16 (b ! 7) (b ! 6), arp_srcMac = take 6 (drop 8 b), arp_srcIp = take 4 (drop 14 b),
     arp_dstMac = take 6 (drop 18 b), arp_dstIp = take 4 (drop 24 b)\<rparr>"

text \<open>What the code takes from a received frame: the sender's address, when it is the reply it waits for.\<close>

definition arp_reply_from :: "byte list \<Rightarrow> byte list \<Rightarrow> byte list option" where
  "arp_reply_from ip buf =
     (if length buf < 42 then None
      else let arp = arp_read (drop 14 buf)
           in if rd16 (buf ! 13) (buf ! 12) = htons ETHERTYPE_ARP \<and> arp_isReply arp \<and> ipv4_eq (arp_srcIp arp) ip
              then Some (arp_srcMac arp) else None)"

partial_function (option) recv_loop :: "os \<Rightarrow> byte list \<Rightarrow> nat \<Rightarrow> cInterface
    \<Rightarrow> (byte list option res \<times> cInterface) option" where
  "recv_loop os ip start i = bindN (liftN (sys_recv os)) (\<lambda>r i.
     case Option.bind r (arp_reply_from ip) of
       Some mac \<Rightarrow> Some (Inr (Some mac), i)
     | None \<Rightarrow> bindN (liftN sys_now) (\<lambda>now i.
         if elapsed 1000000 (os_clock os start) (os_clock os now) < 1000 then recv_loop os ip start i
         else Some (Inr None, i)) i) i"

fun arp_tries :: "os \<Rightarrow> sockaddr_ll \<Rightarrow> byte list \<Rightarrow> byte list \<Rightarrow> nat \<Rightarrow> (cInterface, byte list option) N" where
  "arp_tries os device request ip 0 = liftN (returnM None)"
| "arp_tries os device request ip (Suc n) =
     bindN (liftN (sys_setsockopt os)) (\<lambda>failed.
     if failed then liftN (returnM None)
     else bindN (liftN sys_now) (\<lambda>start.
          bindN (liftN (sys_sendto os device request)) (\<lambda>sent.
          if sent \<noteq> int (length request) then liftN (returnM None)
          else bindN (recv_loop os ip start) (\<lambda>r. case r of
              Some mac \<Rightarrow> liftN (returnM (Some mac))
            | None \<Rightarrow> arp_tries os device request ip n))))"

definition arp_request :: "env \<Rightarrow> byte list \<Rightarrow> byte list \<Rightarrow> byte list \<Rightarrow> cEthernetPacket res" where
  "arp_request e mac myip ip = bindE (fst (eth_default e)) (arp_whoHas mac myip ip)"

definition arp_resolve :: "os \<Rightarrow> env \<Rightarrow> cInterface arp" where
  "arp_resolve os e ip =
     bindN (liftN (getM if_isOpen)) (\<lambda>opened.
     bindN (liftN (liftE (bugOn (\<not> opened) ''!ifc.isOpen ()''))) (\<lambda>_.
     bindN (liftN (getMAC os)) (\<lambda>mac.
     bindN (liftN (liftE (case mac of None \<Rightarrow> Inl (Bug ''!ifc.getMAC(myMac)'') | Some m \<Rightarrow> Inr m))) (\<lambda>mac.
     bindN (liftN (getIPv4 os)) (\<lambda>myip.
     bindN (liftN (liftE (case myip of None \<Rightarrow> Inl (Bug ''!ifc.getIPv4(myIP)'') | Some a \<Rightarrow> Inr a))) (\<lambda>myip.
     bindN (liftN (sys_socket os)) (\<lambda>arpSock.
     if arpSock < 0 then liftN (returnM None)
     else bindN (liftN (getM (\<lambda>i. device_of (sint (os_nametoindex os (if_name i))) mac))) (\<lambda>device.
          bindN (liftN (liftE (arp_request e mac myip ip))) (\<lambda>arpReq.
          bindN (arp_tries os device (visible arpReq) ip 2) (\<lambda>r.
          bindN (liftN (sys_close arpSock)) (\<lambda>_. liftN (returnM r))))))))))))"

subsection \<open>cSignal\<close>

text \<open>\<open>gSigIntStatus\<close>, and how often the callback was called when there is one.\<close>

record cSignal =
  gSigIntStatus :: int
  sig_callback :: "nat option"

definition sigintHandler :: "int \<Rightarrow> cSignal \<Rightarrow> cSignal" where
  "sigintHandler signal g =
     (if signal = 2 then g\<lparr>gSigIntStatus := gSigIntStatus g + 1, sig_callback := map_option Suc (sig_callback g)\<rparr>
      else g)"

definition sigintSignalled :: "cSignal \<Rightarrow> bool" where
  "sigintSignalled g = (gSigIntStatus g \<noteq> 0)"

definition sigintSetCallback :: "cSignal \<Rightarrow> cSignal" where
  "sigintSetCallback g = g\<lparr>sig_callback := Some 0\<rparr>"

end
