(* ===== verification/PcapFile.thy ===== *)
theory PcapFile
  imports Timeval
begin

section \<open>cPcapFileIO\<close>

text \<open>
  src/pcap/pcapfileio.cpp. libpcap is a parameter: what \<open>pcap_open_offline\<close> finds at a path, and which of
  its functions fail. A capture file is what \<open>pcap_next_ex\<close> delivers from it: the packets, each with as
  many bytes as its \<open>caplen\<close> says, then a result code that is not 1 and, where the library has set the
  header pointer by then, the header behind it. What \<open>pcap_dump\<close> has written is the list in \<open>m_dumper\<close>.
\<close>

record pcap_pkthdr =
  ts :: timeval
  caplen :: u32
  pkt_len :: u32

type_synonym pcap_record = "pcap_pkthdr \<times> byte list"

record pcap_file =
  pf_records :: "pcap_record list"
  pf_end :: int
  pf_endHeader :: "pcap_pkthdr option"

record libpcap =
  pcap_open_offline :: "string \<Rightarrow> pcap_file option"
  pcap_open_dead :: bool
  pcap_dump_open :: "string \<Rightarrow> bool"
  dump_ferror :: "nat \<Rightarrow> bool"

record cPcapFileIO =
  m_modeWrite :: bool
  m_fileHandle :: "pcap_file option"
  m_dumper :: "pcap_record list option"
  m_path :: "string option"
  m_fileError :: bool
  m_eof :: bool
  m_offset :: cTimeval
  m_firstRead :: bool

definition new_cPcapFileIO :: cPcapFileIO where
  "new_cPcapFileIO = \<lparr>m_modeWrite = False, m_fileHandle = None, m_dumper = None, m_path = None,
     m_fileError = False, m_eof = False, m_offset = 0, m_firstRead = False\<rparr>"

definition pcap_open :: "libpcap \<Rightarrow> string \<Rightarrow> bool \<Rightarrow> cPcapFileIO \<Rightarrow> (bool \<times> cPcapFileIO) res" where
  "pcap_open lib path write f =
     bindE (bugOn (m_fileHandle f \<noteq> None) ''m_fileHandle'') (\<lambda>_.
     let opened = (\<lambda>f. Inr (True, f\<lparr>m_modeWrite := write, m_path := Some path, m_eof := False, m_offset := 0\<rparr>))
     in if \<not> write then
          let f = f\<lparr>m_fileHandle := pcap_open_offline lib path, m_firstRead := True\<rparr>
          in if m_fileHandle f = None then Inr (False, f) else opened f
        else if \<not> pcap_open_dead lib then Inr (False, f)
        else if \<not> pcap_dump_open lib path then Inr (False, f\<lparr>m_fileHandle := None\<rparr>)
        else opened (f\<lparr>m_fileHandle := Some \<lparr>pf_records = [], pf_end = -2, pf_endHeader = None\<rparr>,
                     m_dumper := Some []\<rparr>))"

definition pcap_close :: "cPcapFileIO \<Rightarrow> cPcapFileIO" where
  "pcap_close f = f\<lparr>m_fileHandle := None, m_dumper := None, m_path := None, m_fileError := False, m_eof := False\<rparr>"

text \<open>Times are made relative to the first packet.\<close>

definition relative_time :: "pcap_pkthdr \<Rightarrow> cPcapFileIO \<Rightarrow> pcap_pkthdr \<times> cPcapFileIO" where
  "relative_time h f =
     (if m_firstRead f then
        (h\<lparr>ts := \<lparr>tv_sec = 0, tv_usec = 0\<rparr>\<rparr>, f\<lparr>m_offset := tv_set (ts h), m_firstRead := False\<rparr>)
      else (h\<lparr>ts := timeval_of (tv_sub (tv_set (ts h)) (m_offset f))\<rparr>, f))"

definition pcap_read :: "cPcapFileIO \<Rightarrow> (pcap_record option \<times> cPcapFileIO) res" where
  "pcap_read f =
     (case m_fileHandle f of
        None \<Rightarrow> Inl (Bug ''!m_fileHandle'')
      | Some h \<Rightarrow>
          bindE (bugOn (m_modeWrite f) ''m_modeWrite'') (\<lambda>_.
          if m_fileError f \<or> m_eof f then Inr (None, f)
          else case pf_records h of
              (hdr, bytes) # rs \<Rightarrow>
                (let (hdr, f) = relative_time hdr (f\<lparr>m_fileHandle := Some (h\<lparr>pf_records := rs\<rparr>)\<rparr>)
                 in Inr (Some (hdr, bytes), f))
            | [] \<Rightarrow>
                if pf_end h = 0 \<or> pf_end h = -1 then Inr (None, f\<lparr>m_fileError := True\<rparr>)
                else case pf_endHeader h of
                    None \<Rightarrow> Inl (Undefined ''uninitialised pointer'')
                  | Some hdr \<Rightarrow>
                      if pf_end h = -2 then Inr (None, snd (relative_time hdr (f\<lparr>m_eof := True\<rparr>)))
                      else Inl (Undefined ''uninitialised pointer'')))"

text \<open>The overload the compiler calls: time, length and data of the next packet.\<close>

definition pcap_read_packet :: "cPcapFileIO \<Rightarrow> ((cTimeval \<times> int \<times> byte list) option \<times> cPcapFileIO) res" where
  "pcap_read_packet f = bindE (pcap_read f) (\<lambda>(r, f).
     Inr (case r of
       Some (hdr, bytes) \<Rightarrow> (Some (tv_set (ts hdr), sint (pkt_len hdr), bytes), f)
     | None \<Rightarrow> (None, f)))"

definition pcap_write :: "libpcap \<Rightarrow> cTimeval \<Rightarrow> byte list \<Rightarrow> int \<Rightarrow> bool \<Rightarrow> cPcapFileIO
    \<Rightarrow> (bool \<times> cPcapFileIO) res" where
  "pcap_write lib time frame n absoluteTimestamp f =
     bindE (bugOn (m_fileHandle f = None) ''!m_fileHandle'') (\<lambda>_.
     case m_dumper f of
       None \<Rightarrow> Inl (Bug ''!m_dumper'')
     | Some written \<Rightarrow>
         bindE (bugOn (\<not> m_modeWrite f) ''!m_modeWrite'') (\<lambda>_.
         if m_fileError f then Inr (False, f)
         else
           let off = (if absoluteTimestamp then time else tv_add (m_offset f) time);
               k = of_int n :: u32;
               hdr = \<lparr>ts = timeval_of off, caplen = k, pkt_len = k\<rparr>
           in if length frame < unat k then Inl (Undefined ''read outside of buffer'')
              else let err = dump_ferror lib (length written)
                   in Inr (\<not> err, f\<lparr>m_offset := off, m_dumper := Some (written @ [(hdr, take (unat k) frame)]),
                        m_fileError := err\<rparr>)))"

subsection \<open>Reading a whole file\<close>

text \<open>Each packet that is read shortens the rest of the file.\<close>

definition pcap_left :: "cPcapFileIO \<Rightarrow> nat" where
  "pcap_left f = (case m_fileHandle f of None \<Rightarrow> 0 | Some h \<Rightarrow> length (pf_records h))"

lemma pcap_read_packet_left:
  "pcap_read_packet f = Inr (Some p, f') \<Longrightarrow> pcap_left f' < pcap_left f"
  by (auto simp: pcap_read_packet_def pcap_read_def pcap_left_def relative_time_def Let_def bugOn_def
      split: option.splits list.splits if_splits)

text \<open>What a complete file delivers: each packet with its time after the first one.\<close>

definition delivered :: "cTimeval \<Rightarrow> pcap_record \<Rightarrow> cTimeval \<times> int \<times> byte list" where
  "delivered t0 r = (tv_sub (tv_set (ts (fst r))) t0, sint (pkt_len (fst r)), snd r)"

fun delivered_all :: "pcap_record list \<Rightarrow> (cTimeval \<times> int \<times> byte list) list" where
  "delivered_all [] = []"
| "delivered_all (r # rs) = map (delivered (tv_set (ts (fst r)))) (r # rs)"

text \<open>
  A savefile that is read to its end: \<open>pcap_next_ex\<close> documents \<open>-2\<close> there. It says nothing about the header pointer,
  so both cases stay possible: the pointer is set, or it is the uninitialised one of the caller.
\<close>

definition complete :: "pcap_file \<Rightarrow> bool" where
  "complete h \<longleftrightarrow> pf_end h = -2"

definition end_of_file :: "pcap_file \<Rightarrow> unit res" where
  "end_of_file h = (if pf_endHeader h = None then Inl (Undefined ''uninitialised pointer'') else Inr ())"

definition reading :: "cPcapFileIO \<Rightarrow> pcap_file \<Rightarrow> bool" where
  "reading f h \<longleftrightarrow> m_fileHandle f = Some h \<and> \<not> m_modeWrite f \<and> \<not> m_fileError f \<and> \<not> m_eof f"

lemma read_next:
  assumes "reading f h" and "pf_records h = r # rs"
  shows "pcap_read_packet f =
    (if m_firstRead f
     then Inr (Some (delivered (tv_set (ts (fst r))) r),
            f\<lparr>m_fileHandle := Some (h\<lparr>pf_records := rs\<rparr>), m_offset := tv_set (ts (fst r)), m_firstRead := False\<rparr>)
     else Inr (Some (delivered (m_offset f) r), f\<lparr>m_fileHandle := Some (h\<lparr>pf_records := rs\<rparr>)\<rparr>))"
  using assms
  by (cases r) (simp add: pcap_read_packet_def pcap_read_def reading_def relative_time_def delivered_def
      tv_set_def tv_sub_def timeval_roundtrip [unfolded tv_set_def])

lemma read_end:
  assumes "reading f h" and "complete h" and "pf_records h = []"
  shows "(\<exists>f'. pcap_read_packet f = Inr (None, f') \<and> \<not> m_fileError f' \<and> end_of_file h = Inr ())
    \<or> (\<exists>x. pcap_read_packet f = Inl x \<and> end_of_file h = Inl x)"
  using assms by (auto simp: pcap_read_packet_def pcap_read_def reading_def complete_def relative_time_def end_of_file_def
      split: option.splits)

lemma open_reading:
  assumes "pcap_open_offline lib path = Some h"
  shows "\<exists>f. pcap_open lib path False new_cPcapFileIO = Inr (True, f) \<and> reading f h \<and> m_firstRead f"
  using assms by (simp add: pcap_open_def new_cPcapFileIO_def reading_def Let_def)

end
