(* ===== verification/Output.thy ===== *)
theory Output
  imports LinuxInterface PcapFile
begin

section \<open>The file backends and the output stage\<close>

text \<open>
  src/engine/asciibackend.cpp, pcapbackend.cpp and output.cpp. The streams of stdio are parameters:
  \<open>fopen_w\<close> says whether a file can be opened for writing, \<open>printf_fails k\<close> whether the call number \<open>k\<close>
  of \<open>vfprintf\<close> on the stream fails. The text written so far is part of the backend's record.
\<close>

record stdio =
  fopen_w :: "string \<Rightarrow> bool"
  printf_fails :: "nat \<Rightarrow> bool"

subsection \<open>cAsciiBackend\<close>

record cAsciiBackend =
  ab_filename :: string
  m_printPacketNumber :: bool
  m_printPacketTime :: bool
  m_hexdump :: bool
  m_colSeparator :: string
  m_byteSeparator :: string
  m_writtenPackets :: u64
  m_writtenBytes :: u64
  ab_calls :: nat
  ab_text :: string

definition new_cAsciiBackend :: "stdio \<Rightarrow> string \<Rightarrow> bool \<Rightarrow> bool \<Rightarrow> bool \<Rightarrow> string \<Rightarrow> string \<Rightarrow> cAsciiBackend res" where
  "new_cAsciiBackend io file printPacketNumber printPacketTime hexdump colSeparator byteSeparator =
     (if file \<noteq> ''-'' \<and> \<not> fopen_w io file then Inl (FileIOException ''Could not open file'' file)
      else Inr \<lparr>ab_filename = file, m_printPacketNumber = printPacketNumber, m_printPacketTime = printPacketTime,
             m_hexdump = hexdump, m_colSeparator = colSeparator, m_byteSeparator = byteSeparator,
             m_writtenPackets = 0, m_writtenBytes = 0, ab_calls = 0, ab_text = []\<rparr>)"

text \<open>\<open>write (format, ...)\<close> for the text the format gives; \<open>vfprintf\<close> returns its length.\<close>

definition ab_printf :: "stdio \<Rightarrow> string \<Rightarrow> (cAsciiBackend, unit) M" where
  "ab_printf io text a =
     (let fails = printf_fails io (ab_calls a);
          a = a\<lparr>ab_calls := ab_calls a + 1\<rparr>
      in if fails \<or> text = [] then (Inl (FileIOException ''Could not write file'' (ab_filename a)), a)
         else (Inr (), a\<lparr>m_writtenBytes := m_writtenBytes a + of_nat (length text), ab_text := ab_text a @ text\<rparr>))"

definition pad_left :: "nat \<Rightarrow> char \<Rightarrow> string \<Rightarrow> string" where
  "pad_left n c s = replicate (n - length s) c @ s"

fun show_hex :: "nat \<Rightarrow> string" where
  "show_hex n = (if n < 16 then [hex_digit n] else show_hex (n div 16) @ [hex_digit (n mod 16)])"

declare show_hex.simps [simp del]

definition newline :: string where
  "newline = [CHR 0x0A]"

definition tab :: string where
  "tab = [CHR 0x09]"

text \<open>The loop of \<open>dump\<close>; \<open>buff\<close> is the C string in the buffer.\<close>

fun dump_loop :: "stdio \<Rightarrow> nat \<Rightarrow> string \<Rightarrow> byte list \<Rightarrow> (cAsciiBackend, nat \<times> string) M" where
  "dump_loop io i buff [] = returnM (i, buff)"
| "dump_loop io i buff (b # bs) =
     bindM (if i mod 16 = 0 then
              bindM (if i \<noteq> 0 then ab_printf io (''  '' @ buff @ newline) else returnM ()) (\<lambda>_.
              ab_printf io (pad_left 4 CHR ''0'' (show_hex i) @ '' ''))
            else returnM ()) (\<lambda>_.
     bindM (ab_printf io ('' '' @ hex_byte b)) (\<lambda>_.
     let c = (if b < 0x20 \<or> b > 0x7e then CHR ''.'' else char_of (unat b))
     in dump_loop io (i + 1) (take (i mod 16) buff @ [c]) bs))"

text \<open>\<open>while ((i % 16) != 0)\<close>: \<open>n\<close> columns are left.\<close>

fun dump_pad :: "stdio \<Rightarrow> nat \<Rightarrow> (cAsciiBackend, unit) M" where
  "dump_pad io 0 = returnM ()"
| "dump_pad io (Suc n) = bindM (ab_printf io ''   '') (\<lambda>_. dump_pad io n)"

definition dump :: "stdio \<Rightarrow> byte list \<Rightarrow> (cAsciiBackend, unit) M" where
  "dump io p =
     (if length p = 0 then returnM ()
      else bindM (dump_loop io 0 [] p) (\<lambda>(i, buff).
           bindM (dump_pad io ((16 - i mod 16) mod 16)) (\<lambda>_.
           ab_printf io (''  '' @ buff @ newline))))"

fun print_bytes :: "stdio \<Rightarrow> byte list \<Rightarrow> (cAsciiBackend, unit) M" where
  "print_bytes io [] = returnM ()"
| "print_bytes io (b # bs) =
     bindM (getM m_byteSeparator) (\<lambda>separator.
     bindM (ab_printf io (hex_byte b @ separator)) (\<lambda>_. print_bytes io bs))"

definition count_packet :: "(cAsciiBackend, unit) M" where
  "count_packet = modifyM (\<lambda>a. a\<lparr>m_writtenPackets := m_writtenPackets a + 1\<rparr>)"

definition ab_write :: "stdio \<Rightarrow> cTimeval \<Rightarrow> cEthernetPacket \<Rightarrow> (cAsciiBackend, unit) M" where
  "ab_write io sendTime p =
     (let t = timeval_of sendTime; bytes = visible p
      in bindM (getM id) (\<lambda>a.
         bindM (if m_printPacketNumber a
                then ab_printf io (pad_left 5 CHR '' '' (show_nat (unat (m_writtenPackets a + 1))) @ m_colSeparator a)
                else returnM ()) (\<lambda>_.
         bindM (if m_printPacketTime a
                then ab_printf io (show_nat (unat (tv_sec t)) @ ''.'' @ pad_left 6 CHR ''0'' (show_nat (unat (tv_usec t)))
                       @ m_colSeparator a)
                else returnM ()) (\<lambda>_.
         if m_hexdump a then
           bindM (ab_printf io newline) (\<lambda>_. bindM (dump io bytes) (\<lambda>_. count_packet))
         else
           bindM (print_bytes io bytes) (\<lambda>_. bindM (ab_printf io newline) (\<lambda>_. count_packet))))))"

definition ab_statistic :: "cAsciiBackend \<Rightarrow> u64 \<times> u64 \<times> int" where
  "ab_statistic a = (m_writtenPackets a, m_writtenBytes a, 0)"

subsection \<open>cPcapBackend\<close>

record cPcapBackend =
  pb_outfile :: cPcapFileIO
  m_pcapWrittenPackets :: u64
  m_pcapWrittenBytes :: u64

definition new_cPcapBackend :: "libpcap \<Rightarrow> string \<Rightarrow> cPcapBackend res" where
  "new_cPcapBackend lib file =
     bindE (pcap_open lib file True new_cPcapFileIO) (\<lambda>(ok, f).
     if \<not> ok then Inl (FileIOException ''Could not open file'' file)
     else Inr \<lparr>pb_outfile = f, m_pcapWrittenPackets = 0, m_pcapWrittenBytes = 0\<rparr>)"

definition pb_write :: "libpcap \<Rightarrow> cTimeval \<Rightarrow> cEthernetPacket \<Rightarrow> (cPcapBackend, unit) M" where
  "pb_write lib sendTime p b =
     (case pcap_write lib sendTime (packet p) (sint (of_nat (getLength p) :: u32)) True (pb_outfile b) of
        Inl e \<Rightarrow> (Inl e, b)
      | Inr (ok, f) \<Rightarrow>
          (let b = b\<lparr>pb_outfile := f\<rparr>
           in if \<not> ok then (Inl (FileIOException ''Could not write file'' (case m_path f of Some n \<Rightarrow> n | None \<Rightarrow> [])), b)
              else (Inr (), b\<lparr>m_pcapWrittenPackets := m_pcapWrittenPackets b + 1,
                             m_pcapWrittenBytes := m_pcapWrittenBytes b + of_nat (getLength p)\<rparr>)))"

definition pb_statistic :: "cPcapBackend \<Rightarrow> u64 \<times> u64 \<times> int" where
  "pb_statistic b = (m_pcapWrittenPackets b, m_pcapWrittenBytes b, 0)"

subsection \<open>cOutput\<close>

text \<open>
  The members \<open>m_outfile\<close> and \<open>m_netif\<close> are pointers, of which one is set. The surroundings of the
  program are one record.
\<close>

datatype cFileBackend = PcapBackend cPcapBackend | AsciiBackend cAsciiBackend

record world =
  w_os :: os
  w_stdio :: stdio
  w_libpcap :: libpcap
  w_files :: "string \<Rightarrow> string option"
  w_signals :: "nat \<Rightarrow> cSignal"

record cOutput =
  m_outfile :: "cFileBackend option"
  m_netif :: "cInterface option"
  m_realtimeMode :: bool
  m_repeat :: int

definition new_cOutput :: cOutput where
  "new_cOutput = \<lparr>m_outfile = None, m_netif = None, m_realtimeMode = False, m_repeat = 1\<rparr>"

definition prepare_netif :: "cInterface \<Rightarrow> bool \<Rightarrow> int \<Rightarrow> cOutput \<Rightarrow> cOutput" where
  "prepare_netif netif realtime repeat o1 = o1\<lparr>m_netif := Some netif, m_realtimeMode := realtime, m_repeat := repeat\<rparr>"

definition prepare_file :: "world \<Rightarrow> string \<Rightarrow> string \<Rightarrow> int \<Rightarrow> cOutput \<Rightarrow> cOutput res" where
  "prepare_file w file format repeat o1 =
     (let o1 = o1\<lparr>m_realtimeMode := False, m_repeat := repeat\<rparr>;
          ascii = (\<lambda>number time hexdump column byte.
            bindE (new_cAsciiBackend (w_stdio w) file number time hexdump column byte) (\<lambda>a.
            Inr (o1\<lparr>m_outfile := Some (AsciiBackend a)\<rparr>)))
      in if format = ''pcap'' then
           bindE (new_cPcapBackend (w_libpcap w) file) (\<lambda>b. Inr (o1\<lparr>m_outfile := Some (PcapBackend b)\<rparr>))
         else if format = ''text'' then ascii True True False tab '' ''
         else if format = ''hexstream'' then ascii False False False [] []
         else if format = ''hexdump'' then ascii False False True tab []
         else Inl (FileIOException ''Unupported file format'' format))"

text \<open>The two ways of \<open>processPacket\<close> to get rid of a packet.\<close>

definition netif_put :: "os \<Rightarrow> cTimeval \<Rightarrow> cEthernetPacket \<Rightarrow> (cInterface, unit) N" where
  "netif_put os sendTime p =
     bindN (sendPacket os (visible p) sendTime) (\<lambda>ok.
     if ok then liftN (returnM ()) else liftN (throwM (RuntimeError ''Could not send packet.'')))"

definition file_write :: "world \<Rightarrow> cTimeval \<Rightarrow> cEthernetPacket \<Rightarrow> (cFileBackend, unit) M" where
  "file_write w sendTime p b = (case b of
     PcapBackend b \<Rightarrow> (case pb_write (w_libpcap w) sendTime p b of (r, b) \<Rightarrow> (r, PcapBackend b))
   | AsciiBackend a \<Rightarrow> (case ab_write (w_stdio w) sendTime p a of (r, a) \<Rightarrow> (r, AsciiBackend a)))"

definition output_put :: "world \<Rightarrow> cTimeval \<Rightarrow> cEthernetPacket \<Rightarrow> (cOutput, unit) N" where
  "output_put w sendTime p o1 = (case m_netif o1 of
     Some i \<Rightarrow> map_option (\<lambda>(r, i). (r, o1\<lparr>m_netif := Some i\<rparr>)) (netif_put (w_os w) sendTime p i)
   | None \<Rightarrow> (case m_outfile o1 of
       None \<Rightarrow> Some (Inl nullPointer, o1)
     | Some b \<Rightarrow> (case file_write w sendTime p b of (r, b) \<Rightarrow> Some (r, o1\<lparr>m_outfile := Some b\<rparr>))))"

text \<open>
  The loop over the packets works for everything that takes packets: \<open>put\<close> with a state \<open>'k\<close>. The
  state of the loop is the random source, the packet list, the number of looks at \<open>sigintSignalled\<close>, the
  local variable \<open>sendTime\<close> and \<open>m_repeat\<close>.
\<close>

record 'k run_state =
  r_env :: env
  r_sink :: 'k
  r_data :: cPacketData
  r_polls :: nat
  r_time :: cTimeval
  r_repeat :: int

type_synonym 'k putter = "cTimeval \<Rightarrow> cEthernetPacket \<Rightarrow> ('k, unit) N"

definition on_env :: "(env, 'a) M \<Rightarrow> ('k run_state, 'a) N" where
  "on_env m s = (case m (r_env s) of (r, e) \<Rightarrow> Some (r, s\<lparr>r_env := e\<rparr>))"

definition on_sink :: "('k, 'a) N \<Rightarrow> ('k run_state, 'a) N" where
  "on_sink m s = (case m (r_sink s) of None \<Rightarrow> None | Some (r, k) \<Rightarrow> Some (r, s\<lparr>r_sink := k\<rparr>))"

definition poll :: "world \<Rightarrow> ('k run_state, bool) N" where
  "poll w s = Some (Inr (sigintSignalled (w_signals w (r_polls s))), s\<lparr>r_polls := r_polls s + 1\<rparr>)"

definition processPacket :: "cPreprocessor \<Rightarrow> 'k putter \<Rightarrow> cEthernetPacket \<Rightarrow> ('k run_state, cEthernetPacket) N" where
  "processPacket pp put p =
     bindN (on_env (preprocess pp p)) (\<lambda>p.
     bindN (\<lambda>s. on_sink (put (r_time s) p) s) (\<lambda>_. liftN (returnM p)))"

fun process_frames :: "cPreprocessor \<Rightarrow> 'k putter \<Rightarrow> cEthernetPacket list \<Rightarrow> ('k run_state, cEthernetPacket list) N" where
  "process_frames pp put [] = liftN (returnM [])"
| "process_frames pp put (p # ps) =
     bindN (processPacket pp put p) (\<lambda>p. bindN (process_frames pp put ps) (\<lambda>ps. liftN (returnM (p # ps))))"

definition output_item :: "cPreprocessor \<Rightarrow> 'k putter \<Rightarrow> cLinkable \<Rightarrow> ('k run_state, cLinkable) N" where
  "output_item pp put x = (case x of
     EthPacket e \<Rightarrow> bindN (processPacket pp put e) (\<lambda>e. liftN (returnM (EthPacket e)))
   | IpPacket ip \<Rightarrow> bindN (process_frames pp put (m_packets ip)) (\<lambda>es. liftN (returnM (IpPacket (ip\<lparr>m_packets := es\<rparr>)))))"

definition on_list :: "(cPacketData \<Rightarrow> cPacketData res) \<Rightarrow> ('k run_state, unit) M" where
  "on_list f s = (case f (r_data s) of Inl e \<Rightarrow> (Inl e, s) | Inr d \<Rightarrow> (Inr (), s\<lparr>r_data := d\<rparr>))"

text \<open>\<open>sendTime.add (p->getTime ())\<close> and the packet itself; the result is the next packet.\<close>

definition output_node :: "cPreprocessor \<Rightarrow> 'k putter \<Rightarrow> nat \<Rightarrow> ('k run_state, nat option) N" where
  "output_node pp put a =
     bindN (\<lambda>s. liftN (liftE (at_node (pd_heap (r_data s)) a)) s) (\<lambda>n.
     bindN (liftN (modifyM (\<lambda>s. s\<lparr>r_time := tv_add (r_time s) (m_t n)\<rparr>))) (\<lambda>_.
     bindN (output_item pp put (l_item n)) (\<lambda>x.
     bindN (liftN (on_list (on_node a (\<lambda>n. n\<lparr>l_item := x\<rparr>)))) (\<lambda>_. liftN (returnM (m_next n))))))"

partial_function (option) output_pass :: "world \<Rightarrow> cPreprocessor \<Rightarrow> 'k putter \<Rightarrow> nat option \<Rightarrow> 'k run_state
    \<Rightarrow> (unit res \<times> 'k run_state) option" where
  "output_pass w pp put p s = bindN (poll w) (\<lambda>signalled s.
     if signalled then Some (Inr (), s)
     else case p of
         None \<Rightarrow> Some (Inr (), s)
       | Some a \<Rightarrow> bindN (output_node pp put a) (\<lambda>next s. output_pass w pp put next s) s) s"

text \<open>\<open>endless || m_repeat--\<close>\<close>

definition another_round :: "bool \<Rightarrow> ('k run_state, bool) M" where
  "another_round endless s =
     (if endless then (Inr True, s)
      else if r_repeat s = - (2 ^ 31) then (Inl (Undefined ''signed overflow''), s)
      else (Inr (r_repeat s \<noteq> 0), s\<lparr>r_repeat := r_repeat s - 1\<rparr>))"

partial_function (option) output_rounds :: "world \<Rightarrow> cPreprocessor \<Rightarrow> 'k putter \<Rightarrow> bool \<Rightarrow> 'k run_state
    \<Rightarrow> (unit res \<times> 'k run_state) option" where
  "output_rounds w pp put endless s = bindN (poll w) (\<lambda>signalled s.
     if signalled then Some (Inr (), s)
     else bindN (liftN (another_round endless)) (\<lambda>again s.
       if \<not> again then Some (Inr (), s)
       else bindN (\<lambda>s. output_pass w pp put (pd_head (r_data s)) s) (\<lambda>_ s. output_rounds w pp put endless s) s) s) s"

text \<open>\<open>operator<<\<close>\<close>

definition queue_sizes :: "int \<Rightarrow> cPacketData \<Rightarrow> nat \<times> nat" where
  "queue_sizes repeat d = (nat (int (getPacketCnt d) * repeat mod 2 ^ 64), nat (int (getTotalPacketBytes d) * repeat mod 2 ^ 64))"

definition output_prepare :: "world \<Rightarrow> cPacketData \<Rightarrow> (cOutput, unit) M" where
  "output_prepare w d o1 = (case m_netif o1 of
     None \<Rightarrow> (Inr (), o1)
   | Some i \<Rightarrow> (case queue_sizes (m_repeat o1) d of (cnt, bytes) \<Rightarrow>
       (case prepareSendQueue (w_os w) cnt bytes (m_realtimeMode o1) i of
          (r, i) \<Rightarrow> (bindE r (\<lambda>_. Inr ()), o1\<lparr>m_netif := Some i\<rparr>))))"

definition run_output :: "world \<Rightarrow> cPreprocessor \<Rightarrow> (cOutput run_state, unit) N" where
  "run_output w pp =
     bindN (\<lambda>s. on_sink (liftN (output_prepare w (r_data s))) s) (\<lambda>_.
     bindN (liftN (modifyM (\<lambda>s. s\<lparr>r_time := 0, r_repeat := m_repeat (r_sink s)\<rparr>))) (\<lambda>_ s.
     output_rounds w pp (output_put w) (r_repeat s = 0) s))"

definition output_statistic :: "world \<Rightarrow> (cOutput, u64 \<times> u64 \<times> int) M" where
  "output_statistic w o1 = (case m_netif o1 of
     Some i \<Rightarrow> (case getSendStatistic (w_os w) i of (r, i) \<Rightarrow> (r, o1\<lparr>m_netif := Some i\<rparr>))
   | None \<Rightarrow> (case m_outfile o1 of
       None \<Rightarrow> (Inl nullPointer, o1)
     | Some (PcapBackend b) \<Rightarrow> (Inr (pb_statistic b), o1)
     | Some (AsciiBackend a) \<Rightarrow> (Inr (ab_statistic a), o1)))"

end
