(* ===== verification/InterfaceFacts.thy ===== *)
theory InterfaceFacts
  imports LinuxInterface
begin

section \<open>What the interface guarantees\<close>

text \<open>
  Frames are never sent before their time, an address that was resolved comes from a reply of the host,
  and which descriptors stay open.
\<close>

subsection \<open>Sending on time\<close>

definition reliable :: "os \<Rightarrow> bool" where
  "reliable os \<longleftrightarrow> ticking (os_clock os) \<and> (\<forall>n d b. os_sendto os n d b = int (length b))"

text \<open>
  The interface can take a frame for the time \<open>t\<close>. \<open>k0\<close> is the reading of the clock at the first frame;
  once it was made, the time of the frame before has been reached.
\<close>

definition can_send :: "os \<Rightarrow> nat \<Rightarrow> cTimeval \<Rightarrow> cInterface \<Rightarrow> bool" where
  "can_send os k0 t i \<longleftrightarrow> reliable os \<and> lastSentPacket i \<le> t \<and> unat t \<le> 2 ^ 63
     \<and> (sleep_resolution i = 0 \<longrightarrow> t = lastSentPacket i)
     \<and> (if firstPacket i then k_clock i = k0 \<and> lastSentPacket i = 0
        else tStart i = Some k0 \<and> k0 < k_clock i
          \<and> os_clock os k0 + 1000 * unat (lastSentPacket i) \<le> os_clock os (k_clock i - 1))"

definition on_time :: "os \<Rightarrow> nat \<Rightarrow> cTimeval \<Rightarrow> byte list \<Rightarrow> nat \<times> byte list \<Rightarrow> bool" where
  "on_time os k0 t b e \<longleftrightarrow> snd e = b \<and> os_clock os k0 + 1000 * unat t \<le> os_clock os (fst e)"

lemma wait_for_runs:
  assumes "can_send os k0 t i"
  shows "\<exists>i'. wait_for os t i = Some (Inr (), i') \<and> lastSentPacket i' = t \<and> \<not> firstPacket i' \<and> tStart i' = Some k0
    \<and> k0 < k_clock i' \<and> os_clock os k0 + 1000 * unat t \<le> os_clock os (k_clock i' - 1)
    \<and> wire i' = wire i \<and> sleep_resolution i' = sleep_resolution i
    \<and> if_sentPackets i' = if_sentPackets i \<and> if_sentBytes i' = if_sentBytes i"
proof -
  let ?d = "t - lastSentPacket i"
  have mono: "a \<le> b \<Longrightarrow> os_clock os a \<le> os_clock os b" for a b
    using assms by (simp add: can_send_def reliable_def ticking_def monoD)
  have le: "lastSentPacket i \<le> t" "unat t \<le> 2 ^ 63" using assms by (simp_all add: can_send_def)
  then have d: "unat ?d = unat t - unat (lastSentPacket i)" by (simp add: unat_sub)
  have le': "unat (lastSentPacket i) \<le> unat t" using le(1) by (simp add: word_le_nat_alt)
  define j where "j = (if firstPacket i then i\<lparr>firstPacket := False, k_clock := k_clock i + 1, tStart := Some (k_clock i)\<rparr> else i)"
  have j: "\<not> firstPacket j" "tStart j = Some k0" "k0 < k_clock j" "lastSentPacket j = lastSentPacket i"
    "os_clock os k0 + 1000 * unat (lastSentPacket i) \<le> os_clock os (k_clock j - 1)" "wire j = wire i"
    "sleep_resolution j = sleep_resolution i" "if_sentPackets j = if_sentPackets i" "if_sentBytes j = if_sentBytes i"
    using assms by (auto simp: j_def can_send_def)
  have w: "wait_for os t i = (if \<not> tv_isNull ?d then bindN (sys_Sleep os ?d) (\<lambda>_.
      liftN (modifyM (\<lambda>i. i\<lparr>lastSentPacket := tv_add (lastSentPacket i) ?d\<rparr>))) j else Some (Inr (), j))"
    by (simp add: wait_for_def tv_sub_def j_def bindM_def bindN_def sys_now_def)
  show ?thesis
  proof (cases "?d = 0")
    case True
    then have "t = lastSentPacket i" by simp
    then show ?thesis using w j by (simp add: tv_isNull_def)
  next
    case False
    then have r: "sleep_resolution j \<noteq> 0" using assms j(7) by (auto simp: can_send_def)
    have t: "ticking (os_clock os)" "unat ?d \<le> 2 ^ 63"
      using assms d le(2) by (simp add: can_send_def reliable_def, linarith)
    from SleepFor_waits [OF t(1) r t(2), of "k_clock j"] obtain k' where
      k': "SleepFor (os_clock os) (sleep_resolution j) ?d (k_clock j) = Some (Inr k')" "k_clock j < k'"
      "unat ?d * 1000 \<le> os_clock os (k' - 1) - os_clock os (k_clock j)" using False by auto
    have "wait_for os t i = Some (Inr (), j\<lparr>k_clock := k', lastSentPacket := t\<rparr>)"
      using w False k'(1) j(4) by (simp add: tv_isNull_def bindN_def sys_Sleep_def tv_add_def)
    moreover have "os_clock os k0 + 1000 * unat t \<le> os_clock os (k' - 1)"
      using k'(3) j(5) d le' mono [of "k_clock j - 1" "k_clock j"] mono [of "k_clock j" "k' - 1"]
        less_imp_le [OF k'(2)] k'(2) by (simp add: diff_mult_distrib) linarith
    ultimately show ?thesis using k'(2) j by simp
  qed
qed

lemma sendPacket_runs:
  assumes "can_send os k0 t i"
  shows "\<exists>i' e. sendPacket os b t i = Some (Inr True, i') \<and> wire i' = wire i @ [e] \<and> on_time os k0 t b e
    \<and> lastSentPacket i' = t \<and> sleep_resolution i' = sleep_resolution i
    \<and> (\<forall>t'. t \<le> t' \<and> unat t' \<le> 2 ^ 63 \<and> (sleep_resolution i = 0 \<longrightarrow> t' = t) \<longrightarrow> can_send os k0 t' i')
    \<and> if_sentPackets i' = if_sentPackets i + 1 \<and> if_sentBytes i' = if_sentBytes i + of_nat (length b)"
proof -
  from wait_for_runs [OF assms] obtain i1 where w: "wait_for os t i = Some (Inr (), i1)" "lastSentPacket i1 = t"
    "\<not> firstPacket i1" "tStart i1 = Some k0" "k0 < k_clock i1"
    "os_clock os k0 + 1000 * unat t \<le> os_clock os (k_clock i1 - 1)" "wire i1 = wire i"
    "sleep_resolution i1 = sleep_resolution i" "if_sentPackets i1 = if_sentPackets i" "if_sentBytes i1 = if_sentBytes i"
    by blast
  have r: "reliable os" using assms by (simp add: can_send_def)
  let ?i = "i1\<lparr>k_sendto := k_sendto i1 + 1, wire := wire i1 @ [(k_clock i1 - 1, b)],
    if_sentPackets := if_sentPackets i1 + 1, if_sentBytes := if_sentBytes i1 + of_nat (length b)\<rparr>"
  have "sendPacket os b t i = Some (Inr True, ?i)"
    using w(1) r by (simp add: sendPacket_def bindN_def transmit_def bindM_def sys_sendto_def reliable_def Let_def)
  then show ?thesis using w r
    by (intro exI [of _ ?i] exI [of _ "(k_clock i1 - 1, b)"]) (auto simp: on_time_def can_send_def)
qed

text \<open>The length of the hardware address is a byte but gets a swapped 16-bit number.\<close>

lemma device_halen: "sll_halen (device_of ifindex mac) = 0"
proof -
  have "htons 6 = 0x0600" by (simp add: htons_def)
  then show ?thesis by (simp add: device_of_def)
qed

subsection \<open>Address resolution\<close>

text \<open>Whatever happens: the address is that of a reply which was received, from the host that was asked.\<close>

text \<open>
  A reply as RFC 826 lays it out in an Ethernet frame: after the two addresses the EtherType 0x0806, the
  hardware and protocol types and sizes, the opcode 2, the sender's hardware and protocol address and the
  target's. It is written with byte positions only; the lemma below says that this is what the code takes.
\<close>

definition rfc826_reply :: "byte list \<Rightarrow> byte list \<Rightarrow> byte list \<Rightarrow> bool" where
  "rfc826_reply ip mac buf \<longleftrightarrow> (\<exists>addresses types target rest. length addresses = 12 \<and> length types = 6
     \<and> length mac = 6 \<and> length ip = 4 \<and> length target = 10
     \<and> buf = addresses @ [0x08, 0x06] @ types @ [0, 2] @ mac @ ip @ target @ rest)"

lemma rd16_inject: "rd16 a b = rd16 c d \<longleftrightarrow> a = c \<and> b = d"
proof
  assume eq: "rd16 a b = rd16 c d"
  have low: "bit b n = bit d n" for n
    using eq [unfolded bit_eq_iff, rule_format, of n] by (cases "n < 8") (simp_all add: rd16_def bit_simps)
  have high: "bit a n = bit c n" for n
    using eq [unfolded bit_eq_iff, rule_format, of "n + 8"] by (cases "n < 8") (simp_all add: rd16_def bit_simps)
  show "a = c \<and> b = d" using low high by (simp add: bit_eq_iff)
qed simp

lemma rd16_constants: "rd16 a b = htons ETHERTYPE_ARP \<longleftrightarrow> b = 0x08 \<and> a = 0x06" "rd16 a b = htons 2 \<longleftrightarrow> b = 0 \<and> a = 2"
proof -
  have "htons ETHERTYPE_ARP = rd16 0x06 0x08" "htons 2 = rd16 2 0"
    by (simp_all add: rd16_def htons_def ETHERTYPE_ARP_def)
  then show "rd16 a b = htons ETHERTYPE_ARP \<longleftrightarrow> b = 0x08 \<and> a = 0x06" "rd16 a b = htons 2 \<longleftrightarrow> b = 0 \<and> a = 2"
    by (auto simp: rd16_inject)
qed

lemma frame_pieces:
  "42 \<le> length b \<Longrightarrow> b = take 12 b @ [b ! 12, b ! 13] @ take 6 (drop 14 b) @ [b ! 20, b ! 21] @ take 6 (drop 22 b)
     @ take 4 (drop 28 b) @ take 10 (drop 32 b) @ drop 42 b"
  by (intro nth_equalityI)
    (auto simp: nth_append nth_Cons' less_diff_conv2, (rule arg_cong [where f = "nth b"], presburger)+)

lemma arp_reply_from_iff: "arp_reply_from ip (take 64 buf) = Some mac \<longleftrightarrow> rfc826_reply ip mac buf"
proof
  assume "arp_reply_from ip (take 64 buf) = Some mac"
  then have "42 \<le> length buf" "buf ! 12 = 0x08" "buf ! 13 = 0x06" "buf ! 20 = 0" "buf ! 21 = 2"
    "take 6 (drop 22 buf) = mac" "take 4 (drop 28 buf) = ip"
    by (auto simp: arp_reply_from_def arp_read_def arp_isReply_def ipv4_eq_def Let_def rd16_constants
        drop_take min_def split: if_splits)
  then show "rfc826_reply ip mac buf" using frame_pieces [of buf] unfolding rfc826_reply_def
    by (intro exI [of _ "take 12 buf"] exI [of _ "take 6 (drop 14 buf)"] exI [of _ "take 10 (drop 32 buf)"]
        exI [of _ "drop 42 buf"]) auto
next
  assume "rfc826_reply ip mac buf"
  then show "arp_reply_from ip (take 64 buf) = Some mac"
    by (auto simp: rfc826_reply_def arp_reply_from_def arp_read_def arp_isReply_def ipv4_eq_def Let_def rd16_constants
        nth_append)
qed

definition answered :: "os \<Rightarrow> byte list \<Rightarrow> nat \<Rightarrow> nat \<Rightarrow> byte list \<Rightarrow> bool" where
  "answered os ip lo hi mac \<longleftrightarrow> (\<exists>k buf. lo \<le> k \<and> k < hi \<and> os_recv os k = Some buf \<and> rfc826_reply ip mac buf)"

lemma answered_later: "answered os ip k n mac \<Longrightarrow> j \<le> k \<Longrightarrow> answered os ip j n mac"
  by (auto simp: answered_def intro: order.trans)

definition recv_ok :: "os \<Rightarrow> byte list \<Rightarrow> nat \<Rightarrow> cInterface \<Rightarrow> byte list option res \<times> cInterface \<Rightarrow> bool" where
  "recv_ok os ip k i r \<longleftrightarrow> k \<le> k_recv (snd r) \<and> wire (snd r) = wire i
    \<and> (case fst r of Inr (Some mac) \<Rightarrow> answered os ip k (k_recv (snd r)) mac | Inr None \<Rightarrow> True | Inl e \<Rightarrow> False)"

lemma recv_loop_sound:
  "recv_loop os ip start i = Some r \<Longrightarrow> recv_ok os ip (k_recv i) i r"
proof (rule recv_loop.raw_induct [where P = "\<lambda>os ip start i r. recv_ok os ip (k_recv i) i r"])
  fix again and os :: os and ip start i r
  assume IH: "\<And>os ip start i r. again os ip start i = Some r \<Longrightarrow> recv_ok os ip (k_recv i) i r"
    and h: "bindN (liftN (sys_recv os)) (\<lambda>r i.
     case Option.bind r (arp_reply_from ip) of
       Some mac \<Rightarrow> Some (Inr (Some mac), i)
     | None \<Rightarrow> bindN (liftN sys_now) (\<lambda>now i.
         if elapsed 1000000 (os_clock os start) (os_clock os now) < 1000 then again os ip start i
         else Some (Inr None, i)) i) i = Some r"
  let ?b = "map_option (take 64) (os_recv os (k_recv i))"
  show "recv_ok os ip (k_recv i) i r"
  proof (cases "Option.bind ?b (arp_reply_from ip)")
    case (Some mac)
    then have "answered os ip (k_recv i) (k_recv i + 1) mac"
      by (cases "os_recv os (k_recv i)") (auto simp: answered_def arp_reply_from_iff)
    then show ?thesis using h Some by (auto simp: recv_ok_def sys_recv_def bindN_def)
  next
    case None
    let ?i = "i\<lparr>k_recv := k_recv i + 1, k_clock := k_clock i + 1\<rparr>"
    consider "again os ip start ?i = Some r" | "r = (Inr None, ?i)"
      using h None by (auto simp: sys_recv_def sys_now_def bindN_def split: if_splits)
    then show ?thesis
    proof cases
      case 1
      from IH [OF this] show ?thesis
        by (auto simp: recv_ok_def intro: answered_later split: sum.splits option.splits)
    qed (simp add: recv_ok_def)
  qed
qed

lemma arp_tries_sound:
  "arp_tries os device request ip n i = Some (r, i') \<Longrightarrow> k_recv i \<le> k_recv i'
    \<and> (\<exists>sent. wire i' = wire i @ sent \<and> length sent \<le> n \<and> set (map snd sent) \<subseteq> {request})
    \<and> (case r of Inr (Some mac) \<Rightarrow> answered os ip (k_recv i) (k_recv i') mac | Inr None \<Rightarrow> True | Inl e \<Rightarrow> False)"
proof (induction n arbitrary: i)
  case (Suc n)
  let ?i = "i\<lparr>k_setsockopt := k_setsockopt i + 1, k_clock := k_clock i + 1, k_sendto := k_sendto i + 1,
    wire := (if os_sendto os (k_sendto i) device request < 0 then wire i else wire i @ [(k_clock i, request)])\<rparr>"
  have sent: "\<exists>sent. wire ?i = wire i @ sent \<and> length sent \<le> 1 \<and> set (map snd sent) \<subseteq> {request}" by simp
  show ?case
  proof (cases "os_setsockopt os (k_setsockopt i)")
    case True
    then show ?thesis using Suc.prems by (auto simp: bindN_def sys_setsockopt_def)
  next
    case opt: False
    show ?thesis
    proof (cases "os_sendto os (k_sendto i) device request \<noteq> int (length request)")
      case True
      then show ?thesis using opt Suc.prems
        by (auto simp: bindN_def sys_setsockopt_def sys_now_def sys_sendto_def Let_def split: if_splits)
    next
      case False
      then obtain x j where x: "recv_loop os ip (k_clock i) ?i = Some (x, j)"
        "(case x of Inl e \<Rightarrow> Some (Inl e, j) | Inr (Some mac) \<Rightarrow> Some (Inr (Some mac), j)
           | Inr None \<Rightarrow> arp_tries os device request ip n j) = Some (r, i')"
        using opt Suc.prems
        by (auto simp: bindN_def sys_setsockopt_def sys_now_def sys_sendto_def Let_def split: if_splits option.splits sum.splits)
      have ok: "recv_ok os ip (k_recv i) ?i (x, j)" using recv_loop_sound [OF x(1)] by simp
      then have w: "k_recv i \<le> k_recv j" "wire j = wire ?i" by (simp_all add: recv_ok_def)
      consider mac where "x = Inr (Some mac)" | "x = Inr None"
        using ok by (auto simp: recv_ok_def split: sum.splits option.splits)
      then show ?thesis
      proof cases
        case 1
        then show ?thesis using x(2) ok w sent by (fastforce simp: recv_ok_def)
      next
        case 2
        then have "arp_tries os device request ip n j = Some (r, i')" using x(2) by simp
        from Suc.IH [OF this] obtain more where m: "wire i' = wire j @ more" "length more \<le> n"
          "set (map snd more) \<subseteq> {request}" "k_recv j \<le> k_recv i'"
          "case r of Inr (Some mac) \<Rightarrow> answered os ip (k_recv j) (k_recv i') mac | Inr None \<Rightarrow> True | Inl e \<Rightarrow> False"
          by blast
        obtain one where o: "wire ?i = wire i @ one" "length one \<le> 1" "set (map snd one) \<subseteq> {request}" using sent by blast
        have "wire i' = wire i @ (one @ more) \<and> length (one @ more) \<le> Suc n \<and> set (map snd (one @ more)) \<subseteq> {request}"
          using m(1-3) o w(2) by simp
        then show ?thesis using m(4,5) w(1)
          by (auto intro: answered_later split: sum.splits option.splits)
      qed
    qed
  qed
qed auto

lemma arp_tries_returns:
  assumes "ticking (os_clock os)"
  shows "\<exists>r. arp_tries os device request ip n i = Some r"
proof -
  have late: "\<exists>n. 1000 \<le> elapsed 1000000 (os_clock os start) (os_clock os (k + n))" for start k
  proof -
    obtain m where m: "os_clock os start + 1000000000 \<le> os_clock os m" using assms by (auto simp: ticking_def)
    have "os_clock os m \<le> os_clock os (k + m)" using assms by (simp add: ticking_def monoD)
    then have "1000000000 \<le> os_clock os (k + m) - os_clock os start" "os_clock os start \<le> os_clock os (k + m)" using m by simp_all
    then have "1000 \<le> elapsed 1000000 (os_clock os start) (os_clock os (k + m))"
      using div_le_mono [of 1000000000 "os_clock os (k + m) - os_clock os start" 1000000] by (simp add: elapsed_def)
    then show ?thesis by blast
  qed
  have loop: "\<exists>r. recv_loop os ip start i = Some r"
    if "1000 \<le> elapsed 1000000 (os_clock os start) (os_clock os (k_clock i + n))" for start i n
    using that
  proof (induction n arbitrary: i)
    case 0
    then show ?case by (subst recv_loop.simps) (simp add: bindN_def sys_recv_def sys_now_def split: option.splits)
  next
    case (Suc n)
    let ?i = "i\<lparr>k_recv := k_recv i + 1, k_clock := k_clock i + 1\<rparr>"
    have "\<exists>r. recv_loop os ip start ?i = Some r" using Suc by simp
    then show ?case by (subst recv_loop.simps) (auto simp: bindN_def sys_recv_def sys_now_def split: option.splits)
  qed
  show ?thesis
  proof (induction n arbitrary: i)
    case (Suc n)
    let ?i = "i\<lparr>k_setsockopt := k_setsockopt i + 1, k_clock := k_clock i + 1, k_sendto := k_sendto i + 1,
      wire := (if os_sendto os (k_sendto i) device request < 0 then wire i else wire i @ [(k_clock i, request)])\<rparr>"
    obtain x j where x: "recv_loop os ip (k_clock i) ?i = Some (x, j)"
      using late [of "k_clock i" "k_clock ?i"] loop by (metis surj_pair)
    obtain r where r: "arp_tries os device request ip n j = Some r" using Suc.IH by blast
    show ?case
    proof (cases "os_setsockopt os (k_setsockopt i) \<or> os_sendto os (k_sendto i) device request \<noteq> int (length request)")
      case True
      then show ?thesis by (auto simp: bindN_def sys_setsockopt_def sys_now_def sys_sendto_def Let_def)
    next
      case False
      then show ?thesis using x r
        by (auto simp: bindN_def sys_setsockopt_def sys_now_def sys_sendto_def Let_def split: sum.splits option.splits)
    qed
  qed simp
qed

lemma getMAC_keeps: "getMAC os i = (r, i') \<Longrightarrow> k_recv i' = k_recv i \<and> wire i' = wire i \<and> k_clock i' = k_clock i"
  by (auto simp: getMAC_def bindM_def sys_socket_def sys_close_def Let_def split: if_splits option.splits prod.splits)

lemma getIPv4_keeps: "getIPv4 os i = (r, i') \<Longrightarrow> k_recv i' = k_recv i \<and> wire i' = wire i \<and> k_clock i' = k_clock i"
  by (auto simp: getIPv4_def bindM_def sys_socket_def sys_close_def Let_def split: if_splits option.splits)

definition ready_to_resolve :: "os \<Rightarrow> cInterface \<Rightarrow> bool" where
  "ready_to_resolve os i \<longleftrightarrow> if_isOpen i \<and> (\<exists>m. fst (getMAC os i) = Inr (Some m)) \<and> (\<exists>a. fst (getIPv4 os i) = Inr (Some a))"

lemma arp_resolve_unopened: "\<not> if_isOpen i \<Longrightarrow> arp_resolve os e ip i = Some (Inl (Bug ''!ifc.isOpen ()''), i)"
  by (simp add: arp_resolve_def bindN_def)

lemma arp_resolve_cases:
  assumes "arp_resolve os e ip i = Some (Inr (Some mac), i')"
  obtains m myip j device request j' where "arp_request e m myip ip = Inr request"
    "k_recv j = k_recv i" "wire j = wire i"
    "arp_tries os device (visible request) ip 2 j = Some (Inr (Some mac), j')" "wire i' = wire j'" "k_recv i' = k_recv j'"
  using assms
  by (auto simp: arp_resolve_def bindN_def bugOn_def sys_socket_def sys_close_def Let_def
      dest!: getMAC_keeps getIPv4_keeps
      split: if_splits option.splits sum.splits prod.splits)
    (rule that [rotated 3], assumption, simp, simp, assumption, simp, simp)

lemma arp_resolve_sound:
  assumes "arp_resolve os e ip i = Some (Inr (Some mac), i')"
  shows "answered os ip (k_recv i) (k_recv i') mac"
    and "\<exists>m myip request sent. arp_request e m myip ip = Inr request \<and> wire i' = wire i @ sent
      \<and> length sent \<le> 2 \<and> set (map snd sent) \<subseteq> {visible request}"
proof -
  obtain m myip j device request j' where c: "arp_request e m myip ip = Inr request"
    "k_recv j = k_recv i" "wire j = wire i"
    "arp_tries os device (visible request) ip 2 j = Some (Inr (Some mac), j')" "wire i' = wire j'" "k_recv i' = k_recv j'"
    by (rule arp_resolve_cases [OF assms])
  show "answered os ip (k_recv i) (k_recv i') mac"
    and "\<exists>m myip request sent. arp_request e m myip ip = Inr request \<and> wire i' = wire i @ sent
      \<and> length sent \<le> 2 \<and> set (map snd sent) \<subseteq> {visible request}"
    using arp_tries_sound [OF c(4)] c by fastforce+
qed

text \<open>The reply that \<open>cArpPacket\<close> builds is understood, whoever is asked.\<close>

lemma rd16_mem16: "rd16 (mem16 v ! 1) (mem16 v ! 0) = v"
  by (rule bit_word_eqI) (auto simp: rd16_def mem16_def bit_simps)

lemma arp_read_bytes:
  assumes "length sm = 6" "length si = 4" "length dm = 6" "length di = 4"
  shows "arp_read (arp_bytes (arp_fields opc sm si dm di) @ rest) = arp_fields opc sm si dm di"
proof -
  have "rd16 (mem16 v ! Suc 0) (mem16 v ! 0) = v" for v using rd16_mem16 [of v] by simp
  moreover have "length (mem16 v) = 2" for v by (simp add: mem16_def)
  ultimately show ?thesis using assms
    by (simp add: arp_read_def arp_bytes_def arp_fields_def nth_append)
qed

lemma arp_reply_understood:
  assumes "length eth = 12" and "length sm = 6" "length si = 4" "length dm = 6" "length di = 4"
  shows "arp_reply_from ip (take 64 (eth @ [0x08, 0x06] @ arp_bytes (arp_fields opc sm si dm di) @ pad))
    = (if opc = 2 \<and> si = ip then Some sm else None)"
proof -
  let ?b = "arp_bytes (arp_fields opc sm si dm di)"
  have len: "length ?b = 28" using assms by (simp add: length_arp_bytes)
  have buf: "take 64 (eth @ [0x08, 0x06] @ ?b @ pad) = eth @ [0x08, 0x06] @ ?b @ take 22 pad"
    using assms(1) len by simp
  have opc: "htons opc = htons 2 \<longleftrightarrow> opc = 2" by (metis htons_involution)
  have type: "rd16 6 8 = htons ETHERTYPE_ARP"
    by (simp add: rd16_def htons_def ETHERTYPE_ARP_def)
  have nth: "(eth @ [0x08, 0x06] @ ?b @ take 22 pad) ! 13 = 6" "(eth @ [0x08, 0x06] @ ?b @ take 22 pad) ! 12 = 8"
    using assms(1) by (simp_all add: nth_append)
  have drop: "drop 14 (eth @ [0x08, 0x06] @ ?b @ take 22 pad) = ?b @ take 22 pad" using assms(1) by simp
  show ?thesis using assms len
    unfolding buf arp_reply_from_def Let_def nth drop arp_read_bytes [OF assms(2-5)] type
    by (simp add: arp_isReply_def arp_fields_def ipv4_eq_def opc)
qed

subsection \<open>Descriptors\<close>

lemma getMAC_closes: "os_hwaddr os (ifr_name (if_name i)) \<noteq> None \<Longrightarrow> k_open (snd (getMAC os i)) = k_open i"
  by (auto simp: getMAC_def bindM_def sys_socket_def sys_close_def Let_def)

lemma getMTU_closes: "os_ifmtu os (ifr_name (if_name i)) \<noteq> None \<Longrightarrow> k_open (snd (getMTU os i)) = k_open i"
  by (auto simp: getMTU_def bindM_def sys_socket_def sys_close_def Let_def)

lemma getIPv4_closes: "os_ifaddr os (ifr_name (if_name i)) \<noteq> None \<Longrightarrow> k_open (snd (getIPv4 os i)) = k_open i"
  by (auto simp: getIPv4_def bindM_def sys_socket_def sys_close_def Let_def)

text \<open>A failing ioctl leaves its socket open.\<close>

lemma getMAC_leaks:
  "os_hwaddr os (ifr_name (if_name i)) = None \<Longrightarrow> mac_isNull (myMac i) \<Longrightarrow> 0 \<le> os_socket os (k_sockets i)
    \<Longrightarrow> getMAC os i = (Inr None, i\<lparr>k_sockets := k_sockets i + 1, k_open := os_socket os (k_sockets i) # k_open i\<rparr>)"
  by (simp add: getMAC_def bindM_def sys_socket_def Let_def)

end
