(* ===== verification/Script.thy ===== *)
theory Script
  imports PacketData
begin

section \<open>The script reader\<close>

text \<open>
  src/compiler/fileparser.cpp: \<open>cFileParser\<close> reads a script character by character into a buffer
  that grows, drops comments, counts lines and the braces of control blocks, and hands over the text
  of an instruction at its \<open>;\<close>. A file is the text \<open>getc\<close> delivers until it returns \<open>EOF\<close>, and the
  file system a function from paths to files. The buffer is what \<open>realloc\<close> has delivered so far,
  with the arbitrary content of the parameter \<open>junk\<close> behind what was written.
\<close>

record cFileParser =
  instructionBuffer :: string
  fp_delay :: u64
  fp_ipOptionalDestMAC :: bool
  fp :: "string option"
  fp_path :: string
  lineNbr :: u32
  openControlBlocks :: int

abbreviation NL :: char where "NL \<equiv> CHR 0x0A"

definition new_cFileParser :: "u64 \<Rightarrow> bool \<Rightarrow> cFileParser" where
  "new_cFileParser defaultDelay ipOptionalDestMAC = \<lparr>instructionBuffer = [], fp_delay = defaultDelay,
     fp_ipOptionalDestMAC = ipOptionalDestMAC, fp = None, fp_path = [], lineNbr = 1, openControlBlocks = 0\<rparr>"

definition fp_open :: "(string \<Rightarrow> string option) \<Rightarrow> string \<Rightarrow> cFileParser \<Rightarrow> (bool \<times> cFileParser) res" where
  "fp_open files filepath f =
     bindE (bugOn (fp f \<noteq> None) ''fp'') (\<lambda>_.
     case files filepath of
       None \<Rightarrow> Inr (False, f)
     | Some t \<Rightarrow> Inr (True, f\<lparr>fp := Some t, lineNbr := 1, fp_path := filepath\<rparr>))"

definition fp_close :: "cFileParser \<Rightarrow> cFileParser" where
  "fp_close f = (case fp f of None \<Rightarrow> f | Some _ \<Rightarrow> f\<lparr>fp := None, fp_path := []\<rparr>)"

text \<open>The buffer is extended by 10 kB when it is full; its size is an \<open>int\<close>.\<close>

definition grow :: "(nat \<Rightarrow> byte) \<Rightarrow> nat \<Rightarrow> cFileParser \<Rightarrow> cFileParser res" where
  "grow junk offset f =
     (let n = length (instructionBuffer f)
      in if offset \<ge> n then
           if n + 10 * 1024 \<ge> 2 ^ 31 then Inl (Undefined ''integer overflow'')
           else Inr (f\<lparr>instructionBuffer :=
                  instructionBuffer f @ map (\<lambda>i. char_of (unat (junk i))) [n..<n + 10 * 1024]\<rparr>)
         else Inr f)"

definition put_char :: "nat \<Rightarrow> char \<Rightarrow> cFileParser \<Rightarrow> cFileParser" where
  "put_char offset c f = f\<lparr>instructionBuffer := (instructionBuffer f)[offset := c]\<rparr>"

text \<open>The C string at the start of the buffer.\<close>

definition c_string :: "string \<Rightarrow> string res" where
  "c_string buf = (if NUL \<in> set buf then Inr (takeWhile (\<lambda>c. c \<noteq> NUL) buf)
     else Inl (Undefined ''read outside of buffer''))"

definition fileParseError :: "cFileParser \<Rightarrow> string \<Rightarrow> error" where
  "fileParseError f msg = (case c_string (instructionBuffer f) of
     Inl e \<Rightarrow> e
   | Inr text \<Rightarrow> FileParseException (fp_path f) (sint (lineNbr f)) (Some text) msg (Some (skipWhitespaces text)) 0 None)"

definition quoted :: "char \<Rightarrow> string" where
  "quoted c = [CHR 0xE2, CHR 0x80, CHR 0x98, c, CHR 0xE2, CHR 0x80, CHR 0x99]"

text \<open>
  The loop of \<open>parse\<close> up to the call of the instruction parser: the text of the next instruction, or
  None at the end of the file.
\<close>

fun fp_scan :: "(nat \<Rightarrow> byte) \<Rightarrow> nat \<Rightarrow> bool \<Rightarrow> cFileParser \<Rightarrow> string \<Rightarrow> string option res \<times> cFileParser" where
  "fp_scan junk offset comment f [] = (Inr None, f\<lparr>fp := Some []\<rparr>)"
| "fp_scan junk offset comment f (c # cs) =
     (case grow junk offset f of
        Inl e \<Rightarrow> (Inl e, f)
      | Inr f \<Rightarrow>
          if c = CHR ''#'' then fp_scan junk offset True f cs
          else
            let f = (if c = NL then f\<lparr>lineNbr := lineNbr f + 1\<rparr> else f)
            in if comment \<and> c \<noteq> NL then fp_scan junk offset True f cs
               else if c = CHR '';'' then
                 let f = put_char offset NUL f
                 in (bindE (c_string (instructionBuffer f)) (\<lambda>t. Inr (Some t)), f\<lparr>fp := Some cs\<rparr>)
               else if c = CHR ''{'' then
                 fp_scan junk 0 False (f\<lparr>openControlBlocks := openControlBlocks f + 1\<rparr>) cs
               else if c = CHR ''}'' then
                 let f = put_char offset c (f\<lparr>openControlBlocks := openControlBlocks f - 1\<rparr>)
                 in if char_at (skipWhitespaces (instructionBuffer f)) 0 \<noteq> CHR ''}'' then
                      (Inl (fileParseError f ''syntax error before '}'. Missing ';'?''), f\<lparr>fp := Some cs\<rparr>)
                    else if openControlBlocks f < 0 then
                      (Inl (fileParseError f (''Missing matching '' @ quoted CHR ''{'')), f\<lparr>fp := Some cs\<rparr>)
                    else fp_scan junk 0 False f cs
               else fp_scan junk (Suc offset) False (put_char offset c f) cs)"

definition fp_next :: "(nat \<Rightarrow> byte) \<Rightarrow> cFileParser \<Rightarrow> string option res \<times> cFileParser" where
  "fp_next junk f =
     (case fp f of
        None \<Rightarrow> (Inl (Bug ''!fp''), f)
      | Some cs \<Rightarrow> (case fp_scan junk 0 False f cs of
            (Inr None, f) \<Rightarrow>
              (if openControlBlocks f < 0 then Inl (Bug ''openControlBlocks < 0'')
               else if openControlBlocks f > 0 then
                 Inl (FileParseException (fp_path f) (sint (lineNbr f)) None
                        (''Expected '' @ quoted CHR ''}'' @ '' at end of input'') None 0 None)
               else Inr None, f)
          | rf \<Rightarrow> rf))"

subsection \<open>Comments\<close>

text \<open>A comment starts at any \<open>#\<close> and goes on to the end of the line, which is not part of it.\<close>

fun strip_comments :: "bool \<Rightarrow> string \<Rightarrow> string" where
  "strip_comments comment [] = []"
| "strip_comments comment (c # cs) =
     (if c = CHR ''#'' then strip_comments True cs
      else if c = NL then c # strip_comments False cs
      else if comment then strip_comments True cs
      else c # strip_comments False cs)"

fun in_comment :: "bool \<Rightarrow> string \<Rightarrow> bool" where
  "in_comment comment [] = comment"
| "in_comment comment (c # cs) = in_comment (c = CHR ''#'' \<or> comment \<and> c \<noteq> NL) cs"

definition plain :: "string \<Rightarrow> bool" where
  "plain t \<longleftrightarrow> CHR '';'' \<notin> set t \<and> CHR ''{'' \<notin> set t \<and> CHR ''}'' \<notin> set t"

lemma strip_length: "length (strip_comments comment t) \<le> length t"
  by (induction t arbitrary: comment) (auto intro: le_SucI)

lemma strip_plain: "CHR ''#'' \<notin> set t \<Longrightarrow> strip_comments False t = t \<and> \<not> in_comment False t"
  by (induction t) auto

subsection \<open>What the loop does with text between instructions\<close>

text \<open>
  \<open>scanned f f' t\<close>: from \<open>f\<close> to \<open>f'\<close> the text \<open>t\<close> was read: only the buffer and the line number have
  changed.
\<close>

definition scanned :: "cFileParser \<Rightarrow> cFileParser \<Rightarrow> string \<Rightarrow> bool" where
  "scanned f f' t \<longleftrightarrow> f' = f\<lparr>instructionBuffer := instructionBuffer f',
     lineNbr := lineNbr f + of_nat (count_list t NL)\<rparr>"

lemma scannedD:
  "scanned f f' t \<Longrightarrow> lineNbr f' = lineNbr f + of_nat (count_list t NL) \<and> fp f' = fp f \<and> fp_path f' = fp_path f
     \<and> fp_delay f' = fp_delay f \<and> fp_ipOptionalDestMAC f' = fp_ipOptionalDestMAC f
     \<and> openControlBlocks f' = openControlBlocks f"
  unfolding scanned_def by (erule ssubst) simp

text \<open>The buffer after \<open>realloc\<close>: what it held, and behind it whatever the new memory holds.\<close>

definition grown :: "(nat \<Rightarrow> byte) \<Rightarrow> nat \<Rightarrow> string \<Rightarrow> string" where
  "grown junk m b = b @ map (\<lambda>i. char_of (unat (junk i))) [length b..<m]"

text \<open>Behind the first \<open>n\<close> characters \<open>b'\<close> is \<open>b\<close>, extended as often as needed.\<close>

definition kept :: "(nat \<Rightarrow> byte) \<Rightarrow> nat \<Rightarrow> string \<Rightarrow> string \<Rightarrow> bool" where
  "kept junk n b b' \<longleftrightarrow> (\<exists>m. (m = 0 \<or> length b + 10240 \<le> m) \<and> length b' = length (grown junk m b) \<and> drop n b' = drop n (grown junk m b))"

lemma grown_none: "grown junk 0 b = b"
  by (simp add: grown_def)

lemma grown_grown: "grown junk n (grown junk m b) = grown junk (if length b \<le> m then max m n else n) b"
proof -
  have "[length b..<m] @ [m..<n] = [length b..<max m n]" if "length b \<le> m"
    using that upt_add_eq_append [of "length b" m "max m n - m"] by (auto simp: max_def)
  then show ?thesis by (auto simp: grown_def simp flip: map_append)
qed

lemma kept_refl: "kept junk n b b"
  unfolding kept_def by (intro exI [of _ 0]) (simp add: grown_none)

lemma kept_grown_refl: "length b + 10240 \<le> m \<Longrightarrow> kept junk n b (grown junk m b)"
  unfolding kept_def by blast

lemma kept_trans: "kept junk n b b1 \<Longrightarrow> kept junk n' b1 b2 \<Longrightarrow> n \<le> n' \<Longrightarrow> n \<le> length b1 \<Longrightarrow> kept junk n' b b2"
proof -
  assume h: "kept junk n b b1" "kept junk n' b1 b2" "n \<le> n'" "n \<le> length b1"
  obtain k where k: "k = 0 \<or> length b1 + 10240 \<le> k" "length b2 = length (grown junk k b1)"
    "drop n' b2 = drop n' (grown junk k b1)" using h(2) by (auto simp: kept_def)
  obtain m where m: "m = 0 \<or> length b + 10240 \<le> m" "length b1 = length (grown junk m b)"
    "drop n b1 = drop n (grown junk m b)" using h(1) by (auto simp: kept_def)
  let ?g = "grown junk k (grown junk m b)"
  have g: "length (grown junk k b1) = length ?g" "drop n (grown junk k b1) = drop n ?g"
    using m(2,3) h(4) by (simp_all add: grown_def)
  have "drop n' (grown junk k b1) = drop n' ?g" using arg_cong [OF g(2), of "drop (n' - n)"] h(3) by simp
  moreover have "\<exists>j. (j = 0 \<or> length b + 10240 \<le> j) \<and> ?g = grown junk j b"
  proof (cases "length b \<le> m")
    case True
    then show ?thesis using m(1) k(1) m(2) unfolding grown_grown
      by (intro exI [of _ "if k = 0 then m else max m k"]) (auto simp: grown_def max_def)
  next
    case False
    then show ?thesis using m(1,2) k(1) unfolding grown_grown
      by (intro exI [of _ k]) (auto simp: grown_none)
  qed
  ultimately show ?thesis using k(2,3) g(1) unfolding kept_def by metis
qed

lemma kept_update: "offset < n \<Longrightarrow> kept junk n b (b[offset := c])"
  unfolding kept_def by (intro exI [of _ 0]) (simp add: grown_none)

lemma grow_ok:
  assumes "offset \<le> length (instructionBuffer f)" and "offset + 10240 < 2 ^ 31"
  shows "\<exists>b. grow junk offset f = Inr (f\<lparr>instructionBuffer := b\<rparr>) \<and> offset < length b
    \<and> take offset b = take offset (instructionBuffer f) \<and> (\<forall>n. kept junk n (instructionBuffer f) b)"
proof (cases "offset = length (instructionBuffer f)")
  case True
  let ?b = "grown junk (offset + 10 * 1024) (instructionBuffer f)"
  have "grow junk offset f = Inr (f\<lparr>instructionBuffer := ?b\<rparr>)"
    using True assms(2) by (simp add: grow_def grown_def Let_def)
  then show ?thesis using True by (intro exI [of _ ?b] conjI allI kept_grown_refl) (simp_all add: grown_def)
next
  case False
  then show ?thesis using assms by (intro exI [of _ "instructionBuffer f"]) (simp add: grow_def kept_refl)
qed

lemma fp_scan_skip:
  "grow junk offset f = Inr g \<Longrightarrow> c = CHR ''#'' \<or> comment \<and> c \<noteq> NL
   \<Longrightarrow> fp_scan junk offset comment f (c # cs) = fp_scan junk offset True g cs"
  by (subst fp_scan.simps(2)) (auto simp del: fp_scan.simps)

lemma fp_scan_keep:
  "grow junk offset f = Inr g \<Longrightarrow> \<not> (c = CHR ''#'' \<or> comment \<and> c \<noteq> NL)
   \<Longrightarrow> c \<noteq> CHR '';'' \<and> c \<noteq> CHR ''{'' \<and> c \<noteq> CHR ''}''
   \<Longrightarrow> fp_scan junk offset comment f (c # cs)
     = fp_scan junk (Suc offset) False (put_char offset c (g\<lparr>lineNbr := lineNbr g + (if c = NL then 1 else 0)\<rparr>)) cs"
  by (subst fp_scan.simps(2)) (auto simp del: fp_scan.simps)

lemma fp_scan_text:
  assumes "plain (strip_comments comment t)" and "offset \<le> length (instructionBuffer f)"
    and "offset + length t + 10240 < 2 ^ 31"
  shows "\<exists>f'. scanned f f' t
    \<and> take (offset + length (strip_comments comment t)) (instructionBuffer f')
        = take offset (instructionBuffer f) @ strip_comments comment t
    \<and> offset + length (strip_comments comment t) \<le> length (instructionBuffer f')
    \<and> kept junk (offset + length (strip_comments comment t)) (instructionBuffer f) (instructionBuffer f')
    \<and> fp_scan junk offset comment f (t @ cs)
        = fp_scan junk (offset + length (strip_comments comment t)) (in_comment comment t) f' cs"
  using assms
proof (induction t arbitrary: comment offset f)
  case Nil
  then show ?case by (intro exI [of _ f]) (simp add: scanned_def kept_refl)
next
  case (Cons c t)
  let ?skip = "c = CHR ''#'' \<or> comment \<and> c \<noteq> NL"
  obtain b where b: "grow junk offset f = Inr (f\<lparr>instructionBuffer := b\<rparr>)" "offset < length b"
    "take offset b = take offset (instructionBuffer f)" "\<forall>n. kept junk n (instructionBuffer f) b"
    using grow_ok [of offset f junk] Cons.prems by auto
  define b' where "b' = (if ?skip then b else b[offset := c])"
  define o' where "o' = (if ?skip then offset else Suc offset)"
  let ?f = "f\<lparr>instructionBuffer := b', lineNbr := lineNbr f + (if c = NL then 1 else 0)\<rparr>"
  have strip: "strip_comments comment (c # t) = (if ?skip then [] else [c]) @ strip_comments ?skip t" by auto
  have "plain (strip_comments ?skip t)" using Cons.prems(1) by (simp add: strip plain_def split: if_splits)
  moreover have "o' \<le> length (instructionBuffer ?f)" using b(2) by (simp add: o'_def b'_def)
  moreover have "o' + length t + 10240 < 2 ^ 31" using Cons.prems(3) by (simp add: o'_def)
  ultimately obtain f' where f': "scanned ?f f' t"
    "take (o' + length (strip_comments ?skip t)) (instructionBuffer f')
       = take o' (instructionBuffer ?f) @ strip_comments ?skip t"
    "o' + length (strip_comments ?skip t) \<le> length (instructionBuffer f')"
    "kept junk (o' + length (strip_comments ?skip t)) (instructionBuffer ?f) (instructionBuffer f')"
    "fp_scan junk o' ?skip ?f (t @ cs)
       = fp_scan junk (o' + length (strip_comments ?skip t)) (in_comment ?skip t) f' cs"
    using Cons.IH [of "?skip" o' ?f] by blast
  have "\<not> ?skip \<Longrightarrow> c \<noteq> CHR '';'' \<and> c \<noteq> CHR ''{'' \<and> c \<noteq> CHR ''}''"
    using Cons.prems(1) by (auto simp: plain_def split: if_splits)
  then have step: "fp_scan junk offset comment f ((c # t) @ cs) = fp_scan junk o' ?skip ?f (t @ cs)"
  proof (cases ?skip)
    case True
    then have "?f = f\<lparr>instructionBuffer := b\<rparr>" by (cases f) (auto simp: b'_def)
    then show ?thesis using fp_scan_skip [OF b(1) True, of "t @ cs"] True
      by (simp only: o'_def if_True append_Cons simp_thms)
  next
    case False
    moreover have "?f = put_char offset c ((f\<lparr>instructionBuffer := b\<rparr>)\<lparr>lineNbr :=
        lineNbr (f\<lparr>instructionBuffer := b\<rparr>) + (if c = NL then 1 else 0)\<rparr>)"
      using False unfolding put_char_def by (cases f) (auto simp: b'_def)
    ultimately show ?thesis using fp_scan_keep [OF b(1) False, of "t @ cs"]
      using \<open>\<not> ?skip \<Longrightarrow> c \<noteq> CHR '';'' \<and> c \<noteq> CHR ''{'' \<and> c \<noteq> CHR ''}''\<close>
      by (simp only: o'_def if_False append_Cons simp_thms)
  qed
  have len: "offset + length (strip_comments comment (c # t)) = o' + length (strip_comments ?skip t)"
    unfolding strip by (simp add: o'_def)
  have tk: "take o' b' = take offset (instructionBuffer f) @ (if ?skip then [] else [c])"
    using b(2,3) by (simp add: o'_def b'_def take_Suc_conv_app_nth)
  have "take (o' + length (strip_comments ?skip t)) (instructionBuffer f') = take o' b' @ strip_comments ?skip t"
    using f'(2) by (simp split del: if_split)
  then have front: "take (offset + length (strip_comments comment (c # t))) (instructionBuffer f')
      = take offset (instructionBuffer f) @ strip_comments comment (c # t)"
    unfolding len tk append_assoc strip [symmetric] .
  have sc: "scanned f f' (c # t)" using f'(1) unfolding scanned_def by (cases f') (auto simp: add_ac)
  have "kept junk o' b b'" using kept_update [of offset o' junk b c] by (auto simp: b'_def o'_def kept_refl)
  moreover have o': "offset \<le> o'" "o' \<le> length b'" using b(2) by (simp_all add: o'_def b'_def)
  ultimately have "kept junk o' (instructionBuffer f) b'"
    using kept_trans [OF spec [OF b(4), of offset] _ o'(1)] b(2) by simp
  then have "kept junk (o' + length (strip_comments ?skip t)) (instructionBuffer f) (instructionBuffer f')"
    by (rule kept_trans) (use f'(4) o'(2) in simp_all)
  then have left: "kept junk (offset + length (strip_comments comment (c # t))) (instructionBuffer f) (instructionBuffer f')"
    unfolding len .
  show ?case using sc front f'(3,5) step len left by (intro exI [of _ f']) simp
qed

lemma takeWhile_stop: "\<not> P c \<Longrightarrow> takeWhile P (xs @ c # ys) = takeWhile P xs"
  by (induction xs) auto

text \<open>A character written behind the text that was read.\<close>

lemma put_char_text:
  assumes "o' < length (instructionBuffer f)" and "take o' (instructionBuffer f) = t"
  shows "\<exists>ys. instructionBuffer (put_char o' c f) = t @ c # ys"
proof -
  have "instructionBuffer (put_char o' c f) = t @ c # drop (Suc o') (instructionBuffer f)"
    using assms by (simp add: put_char_def upd_conv_take_nth_drop)
  then show ?thesis ..
qed

text \<open>The text up to a special character \<open>c\<close> is in the buffer when the character is handled.\<close>

lemma fp_scan_until:
  assumes "plain (strip_comments False t)" and "\<not> in_comment False t" and "length t + 10240 < 2 ^ 31"
  obtains f1 f2 where "scanned f f1 t" and "scanned f f2 t"
    and "fp_scan junk 0 False f (t @ cs) = fp_scan junk (length (strip_comments False t)) False f1 cs"
    and "grow junk (length (strip_comments False t)) f1 = Inr f2"
    and "length (strip_comments False t) < length (instructionBuffer f2)"
    and "take (length (strip_comments False t)) (instructionBuffer f2) = strip_comments False t"
    and "kept junk (length (strip_comments False t)) (instructionBuffer f) (instructionBuffer f2)"
proof -
  let ?o = "length (strip_comments False t)"
  obtain f1 where f1: "scanned f f1 t" "take ?o (instructionBuffer f1) = strip_comments False t"
    "?o \<le> length (instructionBuffer f1)" "kept junk ?o (instructionBuffer f) (instructionBuffer f1)"
    "fp_scan junk 0 False f (t @ cs) = fp_scan junk ?o False f1 cs"
    using fp_scan_text [of False t 0 f junk cs] assms by auto
  have "?o + 10240 < 2 ^ 31" using strip_length [of False t] assms(3) by simp
  then obtain b where b: "grow junk ?o f1 = Inr (f1\<lparr>instructionBuffer := b\<rparr>)" "?o < length b"
    "take ?o b = take ?o (instructionBuffer f1)" "kept junk ?o (instructionBuffer f1) b" using grow_ok [OF f1(3)] by blast
  have "scanned f (f1\<lparr>instructionBuffer := b\<rparr>) t"
    using f1(1) unfolding scanned_def by (cases f1) auto
  from that [OF f1(1) this f1(5) b(1)] b(2,3) f1(2) kept_trans [OF f1(4) b(4) _ f1(3)] show thesis by simp
qed

lemma fp_next_instruction:
  assumes "fp f = Some (t @ CHR '';'' # cs)" and "plain (strip_comments False t)" and "\<not> in_comment False t"
    and "length t + 10240 < 2 ^ 31"
  shows "\<exists>b. fp_next junk f = (Inr (Some (takeWhile (\<lambda>c. c \<noteq> NUL) (strip_comments False t))),
    f\<lparr>instructionBuffer := b, fp := Some cs, lineNbr := lineNbr f + of_nat (count_list t NL)\<rparr>)"
proof -
  obtain f1 f2 where s: "scanned f f2 t" "fp_scan junk 0 False f (t @ CHR '';'' # cs)
      = fp_scan junk (length (strip_comments False t)) False f1 (CHR '';'' # cs)"
    "grow junk (length (strip_comments False t)) f1 = Inr f2"
    "length (strip_comments False t) < length (instructionBuffer f2)"
    "take (length (strip_comments False t)) (instructionBuffer f2) = strip_comments False t"
    using fp_scan_until [OF assms(2-4)] by metis
  let ?f = "put_char (length (strip_comments False t)) NUL f2"
  obtain ys where ys: "instructionBuffer ?f = strip_comments False t @ NUL # ys"
    using put_char_text [OF s(4,5)] by blast
  have "fp_scan junk 0 False f (t @ CHR '';'' # cs)
      = (bindE (c_string (instructionBuffer ?f)) (\<lambda>t. Inr (Some t)), ?f\<lparr>fp := Some cs\<rparr>)"
    unfolding s(2) using s(3) by (simp add: Let_def)
  also have "c_string (instructionBuffer ?f) = Inr (takeWhile (\<lambda>c. c \<noteq> NUL) (strip_comments False t))"
    by (simp add: c_string_def ys takeWhile_stop)
  finally have "fp_next junk f = (Inr (Some (takeWhile (\<lambda>c. c \<noteq> NUL) (strip_comments False t))), ?f\<lparr>fp := Some cs\<rparr>)"
    using assms(1) by (simp add: fp_next_def)
  moreover have "?f\<lparr>fp := Some cs\<rparr> = f\<lparr>instructionBuffer := instructionBuffer ?f, fp := Some cs,
      lineNbr := lineNbr f + of_nat (count_list t NL)\<rparr>"
    using s(1) unfolding scanned_def put_char_def by (cases f2) auto
  ultimately show ?thesis by metis
qed

text \<open>What follows the last \<open>;\<close> is not an instruction, whatever it is.\<close>

lemma fp_next_end:
  assumes "fp f = Some t" and "plain (strip_comments False t)" and "length t + 10240 < 2 ^ 31"
    and "openControlBlocks f = 0"
  shows "\<exists>b. fp_next junk f = (Inr None,
    f\<lparr>instructionBuffer := b, fp := Some [], lineNbr := lineNbr f + of_nat (count_list t NL)\<rparr>)"
proof -
  obtain f1 where f1: "scanned f f1 t" "fp_scan junk 0 False f (t @ [])
      = fp_scan junk (0 + length (strip_comments False t)) (in_comment False t) f1 []"
    using fp_scan_text [of False t 0 f junk "[]"] assms(2,3) by auto
  have "openControlBlocks f1 = 0" using scannedD [OF f1(1)] assms(4) by simp
  then have "fp_next junk f = (Inr None, f1\<lparr>fp := Some []\<rparr>)" using assms(1) f1(2) by (simp add: fp_next_def)
  moreover have "f1\<lparr>fp := Some []\<rparr> = f\<lparr>instructionBuffer := instructionBuffer f1, fp := Some [],
      lineNbr := lineNbr f + of_nat (count_list t NL)\<rparr>"
    using f1(1) unfolding scanned_def by (cases f1) auto
  ultimately show ?thesis by metis
qed

text \<open>A closing brace is an error behind an unfinished instruction and outside of a block.\<close>

lemma fp_next_brace:
  assumes "fp f = Some (t @ CHR ''}'' # cs)" and "plain (strip_comments False t)" and "\<not> in_comment False t"
    and "length t + 10240 < 2 ^ 31"
    and "(\<exists>c\<in>set (strip_comments False t). \<not> isspace c) \<and> msg = ''syntax error before '}'. Missing ';'?''
      \<or> (\<forall>c\<in>set (strip_comments False t). isspace c) \<and> openControlBlocks f \<le> 0
         \<and> msg = ''Missing matching '' @ quoted CHR ''{''"
  shows "\<exists>m rest. (m = 0 \<or> length (instructionBuffer f) + 10240 \<le> m)
    \<and> length (grown junk m (instructionBuffer f)) = length (strip_comments False t) + 1 + length rest
    \<and> rest = drop (length (strip_comments False t) + 1) (grown junk m (instructionBuffer f))
    \<and> fst (fp_next junk f) = Inl (let text = strip_comments False t @ CHR ''}'' # rest in
        if NUL \<in> set text
        then FileParseException (fp_path f) (sint (lineNbr f + of_nat (count_list t NL))) (Some (takeWhile (\<lambda>c. c \<noteq> NUL) text)) msg
               (Some (skipWhitespaces (takeWhile (\<lambda>c. c \<noteq> NUL) text))) 0 None
        else Undefined ''read outside of buffer'')"
proof -
  let ?t = "strip_comments False t"
  obtain f1 f2 where s: "scanned f f2 t" "fp_scan junk 0 False f (t @ CHR ''}'' # cs)
      = fp_scan junk (length ?t) False f1 (CHR ''}'' # cs)"
    "grow junk (length ?t) f1 = Inr f2" "length ?t < length (instructionBuffer f2)"
    "take (length ?t) (instructionBuffer f2) = ?t" "kept junk (length ?t) (instructionBuffer f) (instructionBuffer f2)"
    using fp_scan_until [OF assms(2-4)] by metis
  obtain m where m: "length (instructionBuffer f2) = length (grown junk m (instructionBuffer f))"
    and m': "m = 0 \<or> length (instructionBuffer f) + 10240 \<le> m" and m2:
    "drop (length ?t) (instructionBuffer f2) = drop (length ?t) (grown junk m (instructionBuffer f))"
    using s(6) by (auto simp: kept_def)
  have len: "length (grown junk m (instructionBuffer f)) = length ?t + 1 + length (drop (length ?t + 1) (grown junk m (instructionBuffer f)))"
    using s(4) m by simp
  let ?g = "f2\<lparr>openControlBlocks := openControlBlocks f2 - 1\<rparr>"
  let ?f = "put_char (length ?t) CHR ''}'' ?g"
  let ?ys = "drop (length ?t + 1) (grown junk m (instructionBuffer f))"
  have ys: "instructionBuffer ?f = ?t @ CHR ''}'' # ?ys"
  proof -
    have "instructionBuffer ?f = ?t @ CHR ''}'' # drop (Suc (length ?t)) (instructionBuffer f2)"
      using s(4,5) by (simp add: put_char_def upd_conv_take_nth_drop)
    then show ?thesis using arg_cong [OF m2, of "drop 1"] by simp
  qed
  have brace: "\<not> isspace CHR ''}''" by code_simp
  have nb: "CHR ''}'' \<notin> set ?t" using assms(2) by (simp add: plain_def)
  have p: "char_at (skipWhitespaces (instructionBuffer ?f)) 0 = CHR ''}'' \<longleftrightarrow> (\<forall>c\<in>set ?t. isspace c)"
  proof (cases "\<forall>c\<in>set ?t. isspace c")
    case True
    then show ?thesis unfolding ys skipWhitespaces_def using brace by (simp add: dropWhile_append2 char_at_def)
  next
    case False
    then obtain c where c: "c \<in> set ?t" "\<not> isspace c" by blast
    then have "dropWhile isspace ?t \<noteq> []" by (auto simp: dropWhile_eq_Nil_conv)
    moreover have "set (dropWhile isspace ?t) \<subseteq> set ?t" by (meson set_dropWhileD subsetI)
    ultimately have "hd (dropWhile isspace ?t) \<noteq> CHR ''}''" using nb by (metis hd_in_set subsetD)
    then show ?thesis unfolding ys skipWhitespaces_def dropWhile_append1 [of c ?t isspace, OF c] using False
      \<open>dropWhile isspace ?t \<noteq> []\<close> by (cases "dropWhile isspace ?t") (auto simp: char_at_def)
  qed
  have ob: "openControlBlocks ?f = openControlBlocks f - 1" using scannedD [OF s(1)] by (simp add: put_char_def)
  have "fst (fp_scan junk 0 False f (t @ CHR ''}'' # cs)) = Inl (fileParseError ?f msg)"
    unfolding s(2) using s(3) p ob assms(5) by (auto simp: Let_def)
  then have "fst (fp_next junk f) = Inl (fileParseError ?f msg)"
    using assms(1) by (auto simp: fp_next_def split: prod.splits sum.splits)
  moreover have "fp_path ?f = fp_path f \<and> lineNbr ?f = lineNbr f + of_nat (count_list t NL)"
    using scannedD [OF s(1)] by (simp add: put_char_def)
  ultimately show ?thesis unfolding fileParseError_def c_string_def ys Let_def
    by (intro exI [of _ m] exI [of _ ?ys] conjI refl m' len) simp
qed

end
