(* ===== verification/Compiler.thy ===== *)
theory Compiler
  imports Script PcapFile
begin

section \<open>The compiler driver\<close>

text \<open>
  src/compiler/compiler.cpp: \<open>cCompiler\<close> turns the arguments, the instructions of script files or the
  packets of capture files into the packet list. The record \<open>cCompiler\<close> holds its constants; its state
  is the shared one with the packet list, the script reader and the local variable \<open>result\<close>, whose
  member \<open>packets\<close> is the pointer \<open>c_packets\<close>. Debug output and the clock it reads are left out.
\<close>

datatype inputType = PACKET | SCRIPT | PCAP

record cCompiler =
  c_type :: inputType
  defaultDelay :: cTimeval
  defaultDelayScale :: u32
  c_ipOptionalDestMAC :: bool
  pcapScalingFactor :: double

record cstate = env +
  c_data :: cPacketData
  c_fileParser :: cFileParser
  c_result :: cResult
  c_packets :: "nat option"

definition new_cCompiler :: "inputType \<Rightarrow> cTimeval \<Rightarrow> u32 \<Rightarrow> bool \<Rightarrow> double \<Rightarrow> env \<Rightarrow> (cCompiler \<times> cstate) res" where
  "new_cCompiler t delay delayScale optDestMAC pcapScaling e =
     (if delayScale = 0 then Inl (Undefined ''division by zero'')
      else Inr (\<lparr>c_type = t, defaultDelay = delay, defaultDelayScale = delayScale,
                 c_ipOptionalDestMAC = optDestMAC, pcapScalingFactor = pcapScaling\<rparr>,
        env.extend e (cstate.fields new_cPacketData (new_cFileParser (delay div ucast delayScale) optDestMAC)
          new_cResult None)))"

definition on_data :: "(cPacketData \<Rightarrow> cPacketData res) \<Rightarrow> (cstate, unit) M" where
  "on_data f s = (case f (c_data s) of Inl e \<Rightarrow> (Inl e, s) | Inr d \<Rightarrow> (Inr (), s\<lparr>c_data := d\<rparr>))"

text \<open>
  \<open>cInstructionParser (...).parse (text, result)\<close>. The new packet is an object on the heap; an
  exception may have deleted the object \<open>result.packets\<close> pointed to before.
\<close>

definition parse_instruction :: "bool \<Rightarrow> string \<Rightarrow> (cstate, unit) M" where
  "parse_instruction optDestMAC text s =
     (let old = (c_result s)\<lparr>packets := map_option (\<lambda>a. l_item (pd_heap (c_data s) ! a)) (c_packets s)\<rparr>;
          (r, p) = parse text old False False (new_cInstructionParser (env.truncate s) optDestMAC);
          s = env.extend (env.truncate p) (env.more s)
      in case r of
           Inr res \<Rightarrow> (case packets res of
               Some x \<Rightarrow> (let (a, d) = new_linkable x (c_data s)
                          in (Inr (), s\<lparr>c_data := d, c_result := res, c_packets := Some a\<rparr>))
             | None \<Rightarrow> (Inr (), s\<lparr>c_result := res, c_packets := None\<rparr>))
         | Inl e \<Rightarrow> (case c_packets s of
               Some a \<Rightarrow>
                 if m_deleted p then
                   bindM (on_data (delete_linkable a)) (\<lambda>_. throwM e) (s\<lparr>c_packets := None\<rparr>)
                 else (Inl e, s)
             | None \<Rightarrow> (Inl e, s)))"

text \<open>
  What both loops do with a compiled instruction; \<open>start\<close> is the time absolute timestamps count from.
  The result is the new \<open>currtime\<close>.
\<close>

definition enqueue :: "cTimeval \<Rightarrow> cTimeval \<Rightarrow> cTimeval \<Rightarrow> (cstate, cTimeval) M" where
  "enqueue start time currtime =
     bindM (getM c_result) (\<lambda>res. bindM (getM c_packets) (\<lambda>p.
     case p of
       None \<Rightarrow> throwM nullPointer
     | Some a \<Rightarrow>
         if \<not> isAbsolute res then
           bindM (on_data (setTime a time)) (\<lambda>_. bindM (on_data (addPacket a)) (\<lambda>_.
           returnM (tv_add currtime time)))
         else let time = tv_add time start
              in if time < currtime then throwM (Bug ''FIXME'')
                 else bindM (on_data (setTime a (tv_sub time currtime))) (\<lambda>_. bindM (on_data (addPacket a)) (\<lambda>_.
                      returnM time))))"

definition user_timestamps :: "bool \<Rightarrow> (cstate, unit) M" where
  "user_timestamps b = modifyM (\<lambda>s. s\<lparr>c_data := (c_data s)\<lparr>hasUserTimestamps := b\<rparr>\<rparr>)"

definition scaled_time :: "cCompiler \<Rightarrow> (cstate, cTimeval) M" where
  "scaled_time c = getM (\<lambda>s. timestamp (c_result s) * ucast (defaultDelayScale c))"

definition clear_result :: "(cstate, unit) M" where
  "clear_result = modifyM (\<lambda>s. s\<lparr>c_result := new_cResult, c_packets := None\<rparr>)"

subsection \<open>Packets of the command line\<close>

text \<open>\<open>c_str ()\<close> ends at the first NUL.\<close>

definition c_str :: "string \<Rightarrow> string" where
  "c_str t = takeWhile (\<lambda>c. c \<noteq> NUL) t"

definition process_packet :: "cCompiler \<Rightarrow> string \<Rightarrow> cTimeval \<Rightarrow> (cstate, cTimeval) M" where
  "process_packet c inst currtime =
     bindM (parse_instruction (c_ipOptionalDestMAC c) (c_str inst)) (\<lambda>_.
     bindM (getM c_result) (\<lambda>res.
     bindM (if hasTimestamp res then user_timestamps True
            else modifyM (\<lambda>s. s\<lparr>c_result := (c_result s)\<lparr>
                   timestamp := defaultDelay c div ucast (defaultDelayScale c), isAbsolute := False\<rparr>\<rparr>)) (\<lambda>_.
     bindM (scaled_time c) (\<lambda>time. enqueue 0 time currtime))))"

fun packets_loop :: "cCompiler \<Rightarrow> string list \<Rightarrow> cTimeval \<Rightarrow> (cstate, cTimeval) M" where
  "packets_loop c [] currtime = returnM currtime"
| "packets_loop c (inst # input) currtime =
     bindM (process_packet c inst currtime) (packets_loop c input)"

definition processPackets :: "cCompiler \<Rightarrow> string list \<Rightarrow> (cstate, unit) M" where
  "processPackets c input =
     bindM clear_result (\<lambda>_. bindM (packets_loop c input 0) (\<lambda>currtime. returnM ()))"

subsection \<open>Script files\<close>

text \<open>\<open>cFileParser::parse\<close>: true for an instruction, false for \<open>EOF\<close>.\<close>

definition in_file :: "cFileParser \<Rightarrow> error \<Rightarrow> error" where
  "in_file f e = (case e of
     ParseException inst msg begin len details \<Rightarrow>
       FileParseException (fp_path f) (sint (lineNbr f)) (Some inst) msg begin len details
   | _ \<Rightarrow> e)"

definition fp_parse :: "(cstate, bool) M" where
  "fp_parse s =
     (case fp_next (junk_of s) (c_fileParser s) of (r, f) \<Rightarrow>
      let s = s\<lparr>c_fileParser := f\<rparr>
      in case r of
           Inl e \<Rightarrow> (Inl e, s)
         | Inr None \<Rightarrow> (Inr False, s)
         | Inr (Some text) \<Rightarrow>
             catchM (bindM (parse_instruction (fp_ipOptionalDestMAC f) text) (\<lambda>_. returnM True))
               (\<lambda>e. throwM (in_file f e))
               (s\<lparr>c_result := (c_result s)\<lparr>isAbsolute := False, timestamp := fp_delay f\<rparr>\<rparr>))"

definition process_instruction :: "cCompiler \<Rightarrow> cTimeval \<Rightarrow> cTimeval \<Rightarrow> (cstate, cTimeval) M" where
  "process_instruction c start currtime =
     bindM (scaled_time c) (\<lambda>time.
     bindM (getM c_result) (\<lambda>res.
     bindM (if hasTimestamp res then user_timestamps True else returnM ()) (\<lambda>_.
     enqueue start time currtime)))"

definition script_left :: "cstate \<Rightarrow> nat" where
  "script_left s = (case fp (c_fileParser s) of None \<Rightarrow> 0 | Some cs \<Rightarrow> length cs)"

lemma fp_scan_left:
  "fp_scan junk offset comment f cs = (Inr (Some t), f') \<Longrightarrow> \<exists>cs'. fp f' = Some cs' \<and> length cs' < length cs"
proof (induction cs arbitrary: offset comment f)
  case (Cons c cs)
  have IH: "fp_scan junk offset comment f cs = (Inr (Some t), f')
      \<Longrightarrow> \<exists>cs'. fp f' = Some cs' \<and> length cs' < Suc (length cs)" for offset comment f
    using Cons.IH less_SucI by blast
  show ?case using Cons.prems by (auto simp: Let_def split: sum.splits if_splits dest: IH)
qed simp

lemma env_extend_simps [simp]:
  "c_data (env.extend e (env.more s)) = c_data s" "c_fileParser (env.extend e (env.more s)) = c_fileParser s"
  "c_result (env.extend e (env.more s)) = c_result s" "c_packets (env.extend e (env.more s)) = c_packets s"
  by (cases s, simp add: env.defs)+

lemma on_data_fileParser [simp]: "on_data f s = (r, s') \<Longrightarrow> c_fileParser s' = c_fileParser s"
  by (auto simp: on_data_def split: sum.splits)

lemma parse_instruction_fileParser:
  "parse_instruction b t s = (r, s') \<Longrightarrow> c_fileParser s' = c_fileParser s"
  unfolding parse_instruction_def
  by (auto simp: Let_def new_linkable_def bindM_def split: prod.splits sum.splits option.splits if_splits)

lemma enqueue_fileParser: "enqueue start time currtime s = (r, s') \<Longrightarrow> c_fileParser s' = c_fileParser s"
  unfolding enqueue_def
  by (auto simp: Let_def bindM_def split: prod.splits sum.splits option.splits if_splits)

lemma process_instruction_fileParser:
  "process_instruction c start currtime s = (r, s') \<Longrightarrow> c_fileParser s' = c_fileParser s"
  unfolding process_instruction_def user_timestamps_def scaled_time_def
  by (auto simp: bindM_def dest: enqueue_fileParser split: if_splits)

lemma fp_parse_left: "fp_parse s = (Inr True, s') \<Longrightarrow> script_left s' < script_left s"
proof -
  assume h: "fp_parse s = (Inr True, s')"
  then obtain t f where n: "fp_next (junk_of s) (c_fileParser s) = (Inr (Some t), f)"
    by (cases "fp_next (junk_of s) (c_fileParser s)") (auto simp: fp_parse_def Let_def split: sum.splits option.splits)
  then have "\<exists>cs cs'. fp (c_fileParser s) = Some cs \<and> fp f = Some cs' \<and> length cs' < length cs"
    by (auto simp: fp_next_def split: option.splits prod.splits sum.splits if_splits dest: fp_scan_left)
  moreover have "c_fileParser s' = f"
    using h n by (auto simp: fp_parse_def Let_def bindM_def catchM_def
        split: prod.splits sum.splits dest: parse_instruction_fileParser)
  ultimately show ?thesis by (auto simp: script_left_def)
qed

text \<open>\<open>while ((count = fileParser.parse (result)) >= 0)\<close>; every instruction shortens the rest of the file.\<close>

function script_loop :: "cCompiler \<Rightarrow> cTimeval \<Rightarrow> cTimeval \<Rightarrow> cstate \<Rightarrow> cTimeval res \<times> cstate" where
  "script_loop c start currtime s =
     (case fp_parse s of (r, s1) \<Rightarrow> (case r of
        Inl e \<Rightarrow> (Inl e, s1)
      | Inr again \<Rightarrow>
          if \<not> again then (Inr currtime, s1)
          else (case process_instruction c start currtime s1 of (r, s2) \<Rightarrow> (case r of
              Inl e \<Rightarrow> (Inl e, s2)
            | Inr currtime \<Rightarrow> script_loop c start currtime s2))))"
  by pat_completeness auto
termination
  by (relation "measure (\<lambda>(c, start, currtime, s). script_left s)")
    (auto dest!: sym [of _ "fp_parse _"] sym [of _ "process_instruction _ _ _ _"] fp_parse_left
      process_instruction_fileParser simp: script_left_def)

declare script_loop.simps [simp del]

definition fp_open_file :: "(string \<Rightarrow> string option) \<Rightarrow> string \<Rightarrow> (cstate, bool) M" where
  "fp_open_file files path s = (case fp_open files path (c_fileParser s) of
     Inl e \<Rightarrow> (Inl e, s) | Inr (ok, f) \<Rightarrow> (Inr ok, s\<lparr>c_fileParser := f\<rparr>))"

text \<open>After the loop \<open>count\<close> is always \<open>EOF\<close>: the reader does not tell a read error from the end of the file.\<close>

fun script_files_loop :: "cCompiler \<Rightarrow> (string \<Rightarrow> string option) \<Rightarrow> string list \<Rightarrow> cTimeval \<Rightarrow> (cstate, unit) M" where
  "script_files_loop c files [] currtime = returnM ()"
| "script_files_loop c files (path # input) currtime =
     bindM (fp_open_file files path) (\<lambda>ok.
     if \<not> ok then throwM (FileIOException ''Could not open file'' path)
     else bindM (script_loop c currtime currtime) (\<lambda>currtime.
          bindM (modifyM (\<lambda>s. s\<lparr>c_fileParser := fp_close (c_fileParser s)\<rparr>)) (\<lambda>_.
          script_files_loop c files input currtime)))"

definition processScriptFiles :: "cCompiler \<Rightarrow> (string \<Rightarrow> string option) \<Rightarrow> string list \<Rightarrow> (cstate, unit) M" where
  "processScriptFiles c files input = bindM clear_result (\<lambda>_. script_files_loop c files input 0)"

subsection \<open>Capture files\<close>

text \<open>A negative length is a huge one for \<open>new[]\<close>.\<close>

definition new_raw_packet :: "int \<Rightarrow> byte list \<Rightarrow> (cstate, nat) M" where
  "new_raw_packet len bytes =
     (if len < 0 then throwM (RuntimeError ''std::bad_array_new_length'')
      else bindM (getM junk_of) (\<lambda>junk.
           bindM (liftE (eth_new junk (nat len))) (\<lambda>e.
           bindM (liftE (if length bytes < nat len then Inl (Undefined ''read outside of buffer'')
                         else setRaw (take (nat len) bytes) e)) (\<lambda>e.
           bindM (getM c_data) (\<lambda>d. let (a, d) = new_linkable (EthPacket e) d
             in bindM (modifyM (\<lambda>s. s\<lparr>c_data := d\<rparr>)) (\<lambda>_. returnM a))))))"

definition process_captured :: "cCompiler \<Rightarrow> cTimeval \<Rightarrow> cTimeval \<times> int \<times> byte list \<Rightarrow> (cstate, cTimeval) M" where
  "process_captured c currtime p = (case p of (t, len, bytes) \<Rightarrow>
     bindM (new_raw_packet len bytes) (\<lambda>a.
     bindM (liftE (tv_mul (pcapScalingFactor c) (tv_sub t currtime))) (\<lambda>delta.
     bindM (on_data (setTime a delta)) (\<lambda>_.
     bindM (on_data (addPacket a)) (\<lambda>_. returnM t)))))"

function pcap_loop :: "cCompiler \<Rightarrow> cPcapFileIO \<Rightarrow> cTimeval \<Rightarrow> (cstate, cTimeval \<times> cPcapFileIO) M" where
  "pcap_loop c f currtime =
     (case pcap_read_packet f of
        Inl e \<Rightarrow> throwM e
      | Inr (r, f') \<Rightarrow> (case r of
          None \<Rightarrow> returnM (currtime, f')
        | Some p \<Rightarrow> bindM (process_captured c currtime p) (pcap_loop c f')))"
  by pat_completeness auto
termination
  by (relation "measure (\<lambda>(c, f, currtime). pcap_left f)") (auto dest: pcap_read_packet_left)

declare pcap_loop.simps [simp del]

definition dis_zero :: "double \<Rightarrow> bool" where
  "dis_zero d = (case d of Fin m e \<Rightarrow> m = 0 | _ \<Rightarrow> False)"

fun pcap_files_loop :: "cCompiler \<Rightarrow> libpcap \<Rightarrow> string list \<Rightarrow> cTimeval \<Rightarrow> (cstate, unit) M" where
  "pcap_files_loop c lib [] currtime = returnM ()"
| "pcap_files_loop c lib (path # input) currtime =
     bindM (liftE (pcap_open lib path False new_cPcapFileIO)) (\<lambda>(ok, f).
     if \<not> ok then throwM (FileIOException ''Could not open file'' path)
     else bindM (user_timestamps (\<not> dis_zero (pcapScalingFactor c))) (\<lambda>_.
          bindM (pcap_loop c f currtime) (\<lambda>(currtime, f).
          if m_fileError f then throwM (FileIOException ''Could not read file'' path)
          else pcap_files_loop c lib input currtime)))"

definition processPcapFiles :: "cCompiler \<Rightarrow> libpcap \<Rightarrow> string list \<Rightarrow> (cstate, unit) M" where
  "processPcapFiles c lib input = pcap_files_loop c lib input 0"

subsection \<open>The operator of the compiler\<close>

definition compile_input :: "cCompiler \<Rightarrow> (string \<Rightarrow> string option) \<Rightarrow> libpcap \<Rightarrow> string list \<Rightarrow> (cstate, unit) M" where
  "compile_input c files lib input = (case c_type c of
     PACKET \<Rightarrow> processPackets c input
   | SCRIPT \<Rightarrow> processScriptFiles c files input
   | PCAP \<Rightarrow> processPcapFiles c lib input)"

end
