(* ===== verification/CompilerFacts.thy ===== *)
theory CompilerFacts
  imports Compiler
begin

section \<open>The compiler driver refines a heap-free specification\<close>

text \<open>
  The specification compiles every instruction by itself, with a new result object and no heap, and
  turns the time of each into a delay. The code shares one result object between the instructions and
  links the packets on the heap.
\<close>

subsection \<open>The result object\<close>

text \<open>\<open>merge res r\<close>: what the result object \<open>res\<close> becomes when a new one would become \<open>r\<close>.\<close>

definition merge :: "cResult \<Rightarrow> cResult \<Rightarrow> cResult" where
  "merge res r = (if hasTimestamp r then r else res\<lparr>hasTimestamp := False, packets := packets r\<rparr>)"

text \<open>
  \<open>same_run f m m'\<close>: both run alike, except for the mark of a deleted object when they throw.
\<close>

definition same_run :: "('a \<Rightarrow> 'b) \<Rightarrow> (pstate, 'a) M \<Rightarrow> (pstate, 'b) M \<Rightarrow> bool" where
  "same_run f m m' \<longleftrightarrow> (\<forall>s s1. (\<forall>x. m s = (Inr x, s1) \<longrightarrow> m' s = (Inr (f x), s1))
     \<and> (\<forall>e. m s = (Inl e, s1) \<longrightarrow> (\<exists>b. m' s = (Inl e, s1\<lparr>m_deleted := b\<rparr>))))"

lemma same_runD:
  assumes "same_run f m m'"
  shows "m s = (Inr x, s1) \<Longrightarrow> m' s = (Inr (f x), s1)"
    and "m s = (Inl e, s1) \<Longrightarrow> \<exists>b. m' s = (Inl e, s1\<lparr>m_deleted := b\<rparr>)"
  using assms unfolding same_run_def by blast+

lemma same_runI:
  assumes "\<And>s s1 x. m s = (Inr x, s1) \<Longrightarrow> m' s = (Inr (f x), s1)"
    and "\<And>s s1 e. m s = (Inl e, s1) \<Longrightarrow> \<exists>b. m' s = (Inl e, s1\<lparr>m_deleted := b\<rparr>)"
  shows "same_run f m m'"
  using assms unfolding same_run_def by blast

lemma m_deleted_eq: "\<exists>b. s = s\<lparr>m_deleted := b\<rparr>"
  by (rule exI [of _ "m_deleted s"]) simp

lemma same_run_refl: "same_run (\<lambda>x. x) m m"
  by (rule same_runI) (auto simp: m_deleted_eq)

lemma same_run_throw: "same_run f (throwParseException msg v l d) (throwParseException msg v l d)"
  by (rule same_runI) (auto simp: throwParseException_def bindM_def m_deleted_eq)

lemma same_run_bind:
  assumes "same_run f m m'" and "\<And>x. same_run g (k x) (k' (f x))"
  shows "same_run g (bindM m k) (bindM m' k')"
proof (rule same_runI)
  fix s s1 y
  assume "bindM m k s = (Inr y, s1)"
  then show "bindM m' k' s = (Inr (g y), s1)"
    using same_runD(1) [OF assms(1)] same_runD(1) [OF assms(2)] by (fastforce simp: bindM_Inr_iff)
next
  fix s s1 e
  assume h: "bindM m k s = (Inl e, s1)"
  obtain r s0 where m: "m s = (r, s0)" by fastforce
  show "\<exists>b. bindM m' k' s = (Inl e, s1\<lparr>m_deleted := b\<rparr>)"
  proof (cases r)
    case (Inl e')
    then show ?thesis using h m same_runD(2) [OF assms(1), of s e' s0] by (auto simp: bindM_def)
  next
    case (Inr x)
    then have "m' s = (Inr (f x), s0)" using m same_runD(1) [OF assms(1)] by simp
    moreover have "k x s0 = (Inl e, s1)" using h m Inr by (simp add: bindM_def)
    ultimately show ?thesis using same_runD(2) [OF assms(2)] by (simp add: bindM_def)
  qed
qed

lemma same_run_same: "(\<And>x. same_run g (k x) (k' x)) \<Longrightarrow> same_run g (bindM m k) (bindM m k')"
  by (rule same_run_bind [OF same_run_refl])

lemma same_run_withParams: "same_run f m m' \<Longrightarrow> same_run f (withParams l m) (withParams l m')"
proof (rule same_runI)
  fix s s1 x
  assume r: "same_run f m m'"
  show "withParams l m s = (Inr x, s1) \<Longrightarrow> withParams l m' s = (Inr (f x), s1)"
    using same_runD(1) [OF r] by (auto simp: withParams_def split: prod.splits)
next
  fix s s1 e
  assume r: "same_run f m m'" and "withParams l m s = (Inl e, s1)"
  then obtain s0 where s0: "m (s\<lparr>params := l\<rparr>) = (Inl e, s0)" "s1 = s0\<lparr>params := params s\<rparr>"
    by (auto simp: withParams_def split: prod.splits)
  then obtain b where "m' (s\<lparr>params := l\<rparr>) = (Inl e, s0\<lparr>m_deleted := b\<rparr>)" using same_runD(2) [OF r] by blast
  then show "\<exists>b. withParams l m' s = (Inl e, s1\<lparr>m_deleted := b\<rparr>)"
    using s0(2) by (intro exI [of _ b]) (simp add: withParams_def)
qed

text \<open>A handler throws again; what it throws does not depend on the old packet.\<close>

lemma handler_throws:
  "\<exists>e' d. handler p old e s = (Inl e' :: 'a res, s\<lparr>m_recursionDepth := d, m_deleted := m_deleted s \<or> (old \<and> isFormatException e)\<rparr>)
    \<and> (\<forall>old' b. handler p old' e (s\<lparr>m_deleted := b\<rparr>)
        = (Inl e' :: 'b res, s\<lparr>m_recursionDepth := d, m_deleted := b \<or> (old' \<and> isFormatException e)\<rparr>))"
proof (cases "isFormatException e")
  case False
  have "s = s\<lparr>m_recursionDepth := m_recursionDepth s, m_deleted := m_deleted s\<rparr>" by simp
  then show ?thesis using False by (intro exI [of _ e] exI [of _ "m_recursionDepth s"]) (simp add: handler_def)
next
  case True
  then obtain c v n where e: "e = FormatException c v n" by (cases e) (auto simp: isFormatException_def)
  show ?thesis unfolding e
    by (cases c; rule exI; rule exI [of _ "m_recursionDepth s - 1"])
      (auto simp: handler_def onFormatException_def isFormatException_def throwParseException_def bindM_def)
qed

lemma same_run_handler:
  fixes f :: "'a \<Rightarrow> 'b"
  assumes "same_run f m m'"
  shows "same_run f (catchM m (handler p old)) (catchM m' (handler p old'))"
proof (rule same_runI)
  fix s s1 y
  assume h: "catchM m (handler p old) s = (Inr y, s1)"
  obtain r s0 where m: "m s = (r, s0)" by fastforce
  have "handler p old e s0 \<noteq> (Inr y, s1)" for e
    using handler_throws [of p old e s0] by (metis Inl_Inr_False prod.inject)
  with h m have "m s = (Inr y, s1)" by (cases r) (auto simp: catchM_def)
  then show "catchM m' (handler p old') s = (Inr (f y), s1)"
    using same_runD(1) [OF assms] by (simp add: catchM_def)
next
  fix s s1 e
  assume h: "catchM m (handler p old) s = (Inl e, s1)"
  obtain r s0 where r: "m s = (r, s0)" by fastforce
  with h obtain e0 where m: "m s = (Inl e0, s0)" "handler p old e0 s0 = (Inl e :: 'a res, s1)"
    by (cases r) (simp_all add: catchM_def)
  obtain b where b: "m' s = (Inl e0, s0\<lparr>m_deleted := b\<rparr>)" using same_runD(2) [OF assms m(1)] by blast
  obtain d where d: "s1 = s0\<lparr>m_recursionDepth := d, m_deleted := m_deleted s0 \<or> (old \<and> isFormatException e0)\<rparr>"
    "handler p old' e0 (s0\<lparr>m_deleted := b\<rparr>)
      = (Inl e :: 'b res, s0\<lparr>m_recursionDepth := d, m_deleted := b \<or> (old' \<and> isFormatException e0)\<rparr>)"
    using handler_throws [where 'a = 'a and 'b = 'b, of p old e0 s0] m(2) by auto
  show "\<exists>b. catchM m' (handler p old') s = (Inl e, s1\<lparr>m_deleted := b\<rparr>)"
    using b d by (intro exI [of _ "b \<or> (old' \<and> isFormatException e0)"]) (simp add: catchM_def)
qed

lemma same_run_timestamp:
  "same_run (\<lambda>(p, r). (p, (merge res r)\<lparr>packets := packets res\<rparr>)) (parseTimestamp t new_cResult) (parseTimestamp t res)"
proof -
  have ret: "f x = y \<Longrightarrow> same_run f (returnM x) (returnM y)" for f and x :: 'x and y :: 'y
    by (rule same_runI) auto
  have ret': "f x = y \<Longrightarrow> same_run f (Pair (Inr x)) (returnM y)" for f and x :: 'x and y :: 'y
    by (rule same_runI) auto
  show ?thesis unfolding parseTimestamp_def Let_def
    by (cases "strtoull (skipWhitespaces t) 10")
      (auto simp: merge_def new_cResult_def intro!: same_run_same same_run_throw ret ret' split: option.splits)
qed

text \<open>\<open>parse\<close> with a used result object.\<close>

lemma parse_is_step: "parse t res g n = parse_step (\<lambda>t b. parse_fuel 8 t new_cResult True b) t res g n"
  using parse_fuel.simps(2) [of 8] by (simp add: parse_def)

lemma parse_used_result: "same_run (merge res) (parse t new_cResult g n) (parse t res g n)"
proof -
  have ret: "same_run (merge res) (returnM (r\<lparr>packets := Some pkt\<rparr>))
      (returnM (((merge res r)\<lparr>packets := packets res\<rparr>)\<lparr>packets := Some pkt\<rparr>))" for r pkt
    by (rule same_runI) (auto simp: merge_def)
  note ret' = ret [simplified]
  show ?thesis unfolding parse_is_step parse_step_def
    by (auto intro!: same_run_same same_run_bind [OF same_run_timestamp] same_run_withParams same_run_throw
        same_run_handler ret' split: option.splits)
qed

subsection \<open>The specification\<close>

definition next_delay :: "cTimeval \<Rightarrow> cTimeval \<Rightarrow> bool \<Rightarrow> cTimeval \<Rightarrow> (cTimeval \<times> cTimeval) res" where
  "next_delay start currtime absolute time =
     (if \<not> absolute then Inr (time, currtime + time)
      else if time + start < currtime then Inl (Bug ''FIXME'')
      else Inr (time + start - currtime, time + start))"

text \<open>
  An instruction by itself: its packet, whether it has a timestamp and whether that is absolute, and its
  time in microseconds.
\<close>

definition compile_instruction :: "cCompiler \<Rightarrow> string \<Rightarrow> (env, cLinkable \<times> bool \<times> bool \<times> cTimeval) M" where
  "compile_instruction c t e =
     (case parse t new_cResult False False (new_cInstructionParser e (c_ipOptionalDestMAC c)) of (r, p) \<Rightarrow>
       (bindE r (\<lambda>res. case packets res of
           None \<Rightarrow> Inl nullPointer
         | Some x \<Rightarrow> Inr (x, hasTimestamp res, hasTimestamp res \<and> isAbsolute res,
             (if hasTimestamp res then timestamp res else defaultDelay c div ucast (defaultDelayScale c))
               * ucast (defaultDelayScale c))),
        env.truncate p))"

fun compile_all :: "cCompiler \<Rightarrow> cTimeval \<Rightarrow> string list \<Rightarrow> cTimeval
    \<Rightarrow> (env, (cLinkable \<times> cTimeval \<times> bool) list \<times> cTimeval) M" where
  "compile_all c start [] currtime = returnM ([], currtime)"
| "compile_all c start (t # input) currtime =
     bindM (compile_instruction c t) (\<lambda>(x, user, absolute, time).
     bindM (liftE (next_delay start currtime absolute time)) (\<lambda>(d, currtime).
     bindM (compile_all c start input currtime) (\<lambda>(xs, currtime). returnM ((x, d, user) # xs, currtime))))"

subsection \<open>The packet list of a state\<close>

text \<open>
  \<open>queued s items\<close>: the list is well-formed, holds \<open>items\<close> with their delays, and the pointer in the result
  object is null or points into it.
\<close>

definition queued :: "cstate \<Rightarrow> (cLinkable \<times> cTimeval) list \<Rightarrow> bool" where
  "queued s items \<longleftrightarrow> (\<exists>xs. data_ok (c_data s) xs \<and> contents (c_data s) xs = items
     \<and> (case c_packets s of None \<Rightarrow> True | Some a \<Rightarrow> a \<in> set xs))"

lemma data_ok_live: "data_ok d xs \<Longrightarrow> a \<in> set xs \<Longrightarrow> live (pd_heap d) a"
  using linked_live by (auto simp: data_ok_def)

lemma data_ok_user [simp]: "data_ok (d\<lparr>hasUserTimestamps := b\<rparr>) xs = data_ok d xs"
  "contents (d\<lparr>hasUserTimestamps := b\<rparr>) xs = contents d xs"
  by (simp_all add: data_ok_def contents_def)

text \<open>A new packet that gets a time and is put into the list.\<close>

lemma new_in_list:
  assumes "data_ok d xs" and "new_linkable x d = (a, d1)"
  shows "\<exists>d2 d3. setTime a t d1 = Inr d2 \<and> addPacket a d2 = Inr d3 \<and> data_ok d3 (xs @ [a])
    \<and> contents d3 (xs @ [a]) = contents d xs @ [(x, t)] \<and> hasUserTimestamps d3 = hasUserTimestamps d"
proof -
  let ?n = "\<lparr>l_item = x, m_next = None, m_t = t, m_freed = False\<rparr>"
  have a: "a = length (pd_heap d)" and d1: "d1 = d\<lparr>pd_heap := pd_heap d @ [?n\<lparr>m_t := 0\<rparr>]\<rparr>"
    using assms(2) by (auto simp: new_linkable_def)
  let ?d2 = "d\<lparr>pd_heap := pd_heap d @ [?n]\<rparr>"
  have s: "setTime a t d1 = Inr ?d2"
    using a d1 by (simp add: setTime_def on_node_def at_node_def live_def list_update_append)
  have inside: "\<forall>b\<in>set xs. b < length (pd_heap d)"
    using data_ok_live [OF assms(1)] by (auto simp: live_def)
  then have same: "frames_in (pd_heap d @ [?n]) xs = frames_in (pd_heap d) xs" "contents ?d2 xs = contents d xs"
    by (auto simp: frames_in_def contents_def nth_append intro!: arg_cong [of _ _ concat])
  have "data_ok ?d2 xs" using assms(1) same(1) by (auto simp: data_ok_def intro: linked_append_heap)
  moreover have "live (pd_heap ?d2) a" "a \<notin> set xs" using a inside by (auto simp: live_def)
  ultimately obtain d3 where "addPacket a ?d2 = Inr d3" "data_ok d3 (xs @ [a])"
    "contents d3 (xs @ [a]) = contents ?d2 xs @ [(l_item (pd_heap ?d2 ! a), m_t (pd_heap ?d2 ! a))]"
    "hasUserTimestamps d3 = hasUserTimestamps ?d2"
    using addPacket_appends by blast
  then show ?thesis using s same(2) a by simp
qed

subsection \<open>One instruction\<close>

lemma truncate_updates [simp]:
  "env.truncate (p\<lparr>m_deleted := b\<rparr>) = env.truncate p"
  "env.truncate (s\<lparr>c_data := d\<rparr>) = env.truncate s"
  "env.truncate (s\<lparr>c_result := res\<rparr>) = env.truncate s"
  "env.truncate (s\<lparr>c_packets := q\<rparr>) = env.truncate s"
  "env.truncate (s\<lparr>c_fileParser := f\<rparr>) = env.truncate s"
  "env.truncate (env.extend e (env.more s)) = e"
  by (simp_all add: env.defs)

lemma parse_instruction_ok:
  assumes "parse t new_cResult False False (new_cInstructionParser (env.truncate s) b) = (Inr res, p)"
    and "packets res = Some x" and "new_linkable x (c_data s) = (a, d)"
  shows "parse_instruction b t s = (Inr (), (env.extend (env.truncate p) (env.more s))
    \<lparr>c_data := d, c_result := merge (c_result s) res, c_packets := Some a\<rparr>)"
proof -
  let ?old = "(c_result s)\<lparr>packets := map_option (\<lambda>a. l_item (pd_heap (c_data s) ! a)) (c_packets s)\<rparr>"
  have "parse t ?old False False (new_cInstructionParser (env.truncate s) b) = (Inr (merge ?old res), p)"
    using same_runD(1) [OF parse_used_result assms(1)] .
  moreover have "packets (merge ?old res) = Some x" "merge ?old res = merge (c_result s) res"
    using assms(2) by (simp_all add: merge_def)
  ultimately show ?thesis using assms(3) by (simp add: parse_instruction_def)
qed

lemma parse_instruction_none:
  assumes "parse t new_cResult False False (new_cInstructionParser (env.truncate s) b) = (Inr res, p)"
    and "packets res = None"
  shows "parse_instruction b t s = (Inr (), (env.extend (env.truncate p) (env.more s))
    \<lparr>c_result := merge (c_result s) res, c_packets := None\<rparr>)"
proof -
  let ?old = "(c_result s)\<lparr>packets := map_option (\<lambda>a. l_item (pd_heap (c_data s) ! a)) (c_packets s)\<rparr>"
  have "parse t ?old False False (new_cInstructionParser (env.truncate s) b) = (Inr (merge ?old res), p)"
    using same_runD(1) [OF parse_used_result assms(1)] .
  moreover have "packets (merge ?old res) = None" "merge ?old res = merge (c_result s) res"
    using assms(2) by (simp_all add: merge_def)
  ultimately show ?thesis by (simp add: parse_instruction_def)
qed

lemma delete_live: "live (pd_heap d) a \<Longrightarrow>
    delete_linkable a d = Inr (d\<lparr>pd_heap := (pd_heap d)[a := (pd_heap d ! a)\<lparr>m_freed := True\<rparr>]\<rparr>)"
  by (simp add: delete_linkable_def on_node_def at_node_def)

lemma queued_live: "queued s items \<Longrightarrow> c_packets s = Some a \<Longrightarrow> live (pd_heap (c_data s)) a"
  using data_ok_live by (auto simp: queued_def)

lemma parse_instruction_error:
  assumes "parse t new_cResult False False (new_cInstructionParser (env.truncate s) b) = (Inl e, p)"
    and "queued s items"
  shows "\<exists>s'. parse_instruction b t s = (Inl e, s') \<and> env.truncate s' = env.truncate p"
proof -
  let ?old = "(c_result s)\<lparr>packets := map_option (\<lambda>a. l_item (pd_heap (c_data s) ! a)) (c_packets s)\<rparr>"
  obtain d where d: "parse t ?old False False (new_cInstructionParser (env.truncate s) b) = (Inl e, p\<lparr>m_deleted := d\<rparr>)"
    using same_runD(2) [OF parse_used_result assms(1)] by blast
  show ?thesis
  proof (cases "c_packets s")
    case None
    then show ?thesis using d by (simp add: parse_instruction_def)
  next
    case (Some a)
    then have "live (pd_heap (c_data s)) a" using queued_live [OF assms(2)] by blast
    then show ?thesis using d Some
      by (cases d) (simp_all add: parse_instruction_def bindM_def on_data_def delete_live)
  qed
qed

text \<open>The packet of the instruction goes into the list with the delay of the specification.\<close>

lemma enqueue_new:
  assumes "data_ok d xs" and "contents d xs = items" and "new_linkable x d = (a, d1)"
    and "c_data s = d1\<lparr>hasUserTimestamps := u\<rparr>" and "c_packets s = Some a"
  shows "case next_delay start currtime (isAbsolute (c_result s)) time of
      Inl e \<Rightarrow> enqueue start time currtime s = (Inl e, s)
    | Inr (delta, currtime') \<Rightarrow> \<exists>s'. enqueue start time currtime s = (Inr currtime', s')
        \<and> env.truncate s' = env.truncate s \<and> queued s' (items @ [(x, delta)])
        \<and> hasUserTimestamps (c_data s') = u \<and> c_packets s' = Some a \<and> c_fileParser s' = c_fileParser s"
proof -
  let ?d = "d\<lparr>hasUserTimestamps := u\<rparr>"
  have n: "new_linkable x ?d = (a, d1\<lparr>hasUserTimestamps := u\<rparr>)" and dx: "data_ok ?d xs"
    using assms(1,3) by (auto simp: new_linkable_def)
  have "\<exists>s'. bindM (on_data (setTime a t)) (\<lambda>_. bindM (on_data (addPacket a)) (\<lambda>_. returnM r)) s = (Inr r, s')
      \<and> env.truncate s' = env.truncate s \<and> queued s' (items @ [(x, t)])
      \<and> hasUserTimestamps (c_data s') = u \<and> c_packets s' = Some a \<and> c_fileParser s' = c_fileParser s"
    for t and r :: cTimeval
  proof -
    obtain d2 d3 where d: "setTime a t (d1\<lparr>hasUserTimestamps := u\<rparr>) = Inr d2" "addPacket a d2 = Inr d3"
      "data_ok d3 (xs @ [a])" "contents d3 (xs @ [a]) = contents ?d xs @ [(x, t)]"
      "hasUserTimestamps d3 = hasUserTimestamps ?d"
      using new_in_list [OF dx n] by blast
    then have "bindM (on_data (setTime a t)) (\<lambda>_. bindM (on_data (addPacket a)) (\<lambda>_. returnM r)) s
        = (Inr r, s\<lparr>c_data := d3\<rparr>)"
      using assms(4) by (simp add: bindM_def on_data_def)
    moreover have "queued (s\<lparr>c_data := d3\<rparr>) (items @ [(x, t)])"
      using d assms(2,5) by (auto simp: queued_def)
    ultimately show ?thesis using d(5) assms(5) by auto
  qed
  then show ?thesis using assms(5)
    by (auto simp: enqueue_def next_delay_def bindM_def Let_def tv_add_def tv_sub_def)
qed

lemma process_packet_error:
  assumes "queued s items" and "compile_instruction c (c_str t) (env.truncate s) = (Inl e, e1)"
  shows "\<exists>s'. process_packet c t currtime s = (Inl e, s') \<and> env.truncate s' = e1"
proof -
  obtain r p where p: "parse (c_str t) new_cResult False False
      (new_cInstructionParser (env.truncate s) (c_ipOptionalDestMAC c)) = (r, p)" by fastforce
  show ?thesis
  proof (cases r)
    case (Inl e')
    then have "e' = e" "env.truncate p = e1" using assms(2) p by (simp_all add: compile_instruction_def)
    then show ?thesis using parse_instruction_error [OF p [unfolded Inl] assms(1)]
      by (auto simp: process_packet_def bindM_def)
  next
    case (Inr res)
    then have n: "packets res = None" "e = nullPointer" "env.truncate p = e1"
      using assms(2) p by (auto simp: compile_instruction_def split: option.splits)
    show ?thesis using parse_instruction_none [OF p [unfolded Inr] n(1)] n(2,3)
      by (auto simp: process_packet_def bindM_def user_timestamps_def scaled_time_def enqueue_def)
  qed
qed

lemma process_packet_ok:
  assumes "queued s items"
    and "compile_instruction c (c_str t) (env.truncate s) = (Inr (x, user, absolute, time), e1)"
  shows "case next_delay 0 currtime absolute time of
      Inl e \<Rightarrow> \<exists>s'. process_packet c t currtime s = (Inl e, s') \<and> env.truncate s' = e1
    | Inr (delta, currtime') \<Rightarrow> \<exists>s'. process_packet c t currtime s = (Inr currtime', s')
        \<and> env.truncate s' = e1 \<and> queued s' (items @ [(x, delta)]) \<and> c_packets s' \<noteq> None
        \<and> hasUserTimestamps (c_data s') = (hasUserTimestamps (c_data s) \<or> user)"
proof -
  obtain res p where p: "parse (c_str t) new_cResult False False
      (new_cInstructionParser (env.truncate s) (c_ipOptionalDestMAC c)) = (Inr res, p)"
    and x: "packets res = Some x" "hasTimestamp res = user" "absolute = (user \<and> isAbsolute res)" "env.truncate p = e1"
    and time: "time = (if user then timestamp res else defaultDelay c div ucast (defaultDelayScale c))
        * ucast (defaultDelayScale c)"
    using assms(2) unfolding compile_instruction_def
    by (auto simp: bindE_Inr_iff split: prod.splits option.splits)
  obtain a d where d: "new_linkable x (c_data s) = (a, d)" by fastforce
  obtain xs where xs: "data_ok (c_data s) xs" "contents (c_data s) xs = items"
    using assms(1) by (auto simp: queued_def)
  let ?s = "(env.extend (env.truncate p) (env.more s))
    \<lparr>c_data := d, c_result := merge (c_result s) res, c_packets := Some a\<rparr>"
  have hu: "hasUserTimestamps d = hasUserTimestamps (c_data s)" using d by (auto simp: new_linkable_def)
  define s1 where "s1 = (if user then ?s\<lparr>c_data := d\<lparr>hasUserTimestamps := True\<rparr>\<rparr>
     else ?s\<lparr>c_result := (merge (c_result s) res)\<lparr>
       timestamp := defaultDelay c div ucast (defaultDelayScale c), isAbsolute := False\<rparr>\<rparr>)"
  have run: "process_packet c t currtime s = enqueue 0 time currtime s1"
    using parse_instruction_ok [OF p x(1) d] x(2) time
    by (cases user) (simp_all add: process_packet_def bindM_def user_timestamps_def scaled_time_def s1_def merge_def)
  have s1: "c_data s1 = d\<lparr>hasUserTimestamps := (hasUserTimestamps (c_data s) \<or> user)\<rparr>"
    "c_packets s1 = Some a" "env.truncate s1 = e1" "isAbsolute (c_result s1) = absolute"
    using x hu by (simp_all add: s1_def merge_def)
  show ?thesis using enqueue_new [OF xs d s1(1,2), where start = 0 and currtime = currtime and time = time] s1(3,4) unfolding run
    by (auto split: sum.splits prod.splits)
qed

text \<open>All packets of the command line.\<close>

lemma next_delay_split:
  "compile_all c start (t # input) currtime e = (case compile_instruction c t e of
     (Inl x, e1) \<Rightarrow> (Inl x, e1)
   | (Inr (x, user, absolute, time), e1) \<Rightarrow> (case next_delay start currtime absolute time of
       Inl x \<Rightarrow> (Inl x, e1)
     | Inr (d, currtime') \<Rightarrow> (case compile_all c start input currtime' e1 of
         (Inl x, e2) \<Rightarrow> (Inl x, e2)
       | (Inr (xs, currtime''), e2) \<Rightarrow> (Inr ((x, d, user) # xs, currtime''), e2))))"
  by (auto simp: bindM_def split: prod.splits sum.splits)

definition listed :: "(cLinkable \<times> cTimeval \<times> bool) list \<Rightarrow> (cLinkable \<times> cTimeval) list" where
  "listed xs = map (\<lambda>(x, d, user). (x, d)) xs"

definition any_user :: "(cLinkable \<times> cTimeval \<times> bool) list \<Rightarrow> bool" where
  "any_user xs = list_ex (\<lambda>(x, d, user). user) xs"

lemma packets_loop_refines:
  "queued s items \<Longrightarrow> (case compile_all c 0 (map c_str input) currtime (env.truncate s) of
      (Inl e, e1) \<Rightarrow> \<exists>s'. packets_loop c input currtime s = (Inl e, s') \<and> env.truncate s' = e1
    | (Inr (xs, currtime'), e1) \<Rightarrow> \<exists>s'. packets_loop c input currtime s = (Inr currtime', s')
        \<and> env.truncate s' = e1 \<and> queued s' (items @ listed xs) \<and> (input \<noteq> [] \<or> c_packets s \<noteq> None \<longrightarrow> c_packets s' \<noteq> None)
        \<and> hasUserTimestamps (c_data s') = (hasUserTimestamps (c_data s) \<or> any_user xs))"
proof (induction input arbitrary: s items currtime)
  case Nil
  then show ?case by (simp add: listed_def any_user_def)
next
  case (Cons t input)
  obtain r e1 where ci: "compile_instruction c (c_str t) (env.truncate s) = (r, e1)" by fastforce
  show ?case
  proof (cases r)
    case (Inl e)
    then show ?thesis using process_packet_error [OF Cons.prems ci [unfolded Inl], of currtime] ci
      by (auto simp: next_delay_split bindM_def simp del: compile_all.simps)
  next
    case (Inr y)
    then obtain x user absolute time where y: "r = Inr (x, user, absolute, time)" by (cases y) auto
    note step = process_packet_ok [OF Cons.prems ci [unfolded y], of currtime]
    show ?thesis
    proof (cases "next_delay 0 currtime absolute time")
      case (Inl e)
      then show ?thesis using step ci y by (auto simp: next_delay_split bindM_def simp del: compile_all.simps)
    next
      case (Inr z)
      then obtain d ct where z: "next_delay 0 currtime absolute time = Inr (d, ct)" by (cases z) auto
      then obtain s1 where s1: "process_packet c t currtime s = (Inr ct, s1)" "env.truncate s1 = e1"
        "queued s1 (items @ [(x, d)])" "hasUserTimestamps (c_data s1) = (hasUserTimestamps (c_data s) \<or> user)"
        "c_packets s1 \<noteq> None"
        using step by auto
      show ?thesis using Cons.IH [OF s1(3), of ct] s1(1,2,4,5) ci y z
        by (auto simp: next_delay_split bindM_def listed_def any_user_def simp del: compile_all.simps
            split: prod.splits sum.splits)
    qed
  qed
qed

subsection \<open>Script files\<close>

text \<open>The result object of a script instruction starts with the default delay.\<close>

lemma process_script_error:
  assumes "queued s items" and "fp_next (junk_of s) (c_fileParser s) = (Inr (Some t), f)"
    and "compile_instruction c t (env.truncate s) = (Inl e, e1)"
    and "fp_ipOptionalDestMAC f = c_ipOptionalDestMAC c"
  shows "\<exists>s'. script_loop c start currtime s = (Inl (in_file f e), s') \<and> env.truncate s' = e1"
proof -
  let ?s = "s\<lparr>c_fileParser := f, c_result := (c_result s)\<lparr>isAbsolute := False, timestamp := fp_delay f\<rparr>\<rparr>"
  have q: "queued ?s items" "env.truncate ?s = env.truncate s" using assms(1) by (simp_all add: queued_def)
  obtain r p where p: "parse t new_cResult False False
      (new_cInstructionParser (env.truncate ?s) (c_ipOptionalDestMAC c)) = (r, p)" by fastforce
  show ?thesis
  proof (cases r)
    case (Inl e')
    then have e: "e' = e" "env.truncate p = e1" using assms(3) p q by (simp_all add: compile_instruction_def)
    then obtain s' where s': "parse_instruction (c_ipOptionalDestMAC c) t ?s = (Inl e, s')" "env.truncate s' = e1"
      using parse_instruction_error [OF p [unfolded Inl] q(1)] by auto
    then show ?thesis using assms(2,4)
      by (subst script_loop.simps) (simp add: fp_parse_def Let_def bindM_def catchM_def)
  next
    case (Inr res)
    then have n: "packets res = None" "e = nullPointer" "env.truncate p = e1"
      using assms(3) p q by (auto simp: compile_instruction_def split: option.splits)
    show ?thesis using parse_instruction_none [OF p [unfolded Inr] n(1)] n(2,3) assms(2,4)
      by (subst script_loop.simps)
        (auto simp: fp_parse_def Let_def bindM_def catchM_def process_instruction_def user_timestamps_def
          scaled_time_def enqueue_def in_file_def nullPointer_def)
  qed
qed

lemma script_loop_next:
  "fp_parse s = (Inr True, s1) \<Longrightarrow> process_instruction c start currtime s1 = m
   \<Longrightarrow> script_loop c start currtime s = (case m of
      (Inl e, s2) \<Rightarrow> (Inl e, s2) | (Inr ct, s2) \<Rightarrow> script_loop c start ct s2)"
  by (subst script_loop.simps) (auto split: prod.splits sum.splits)

lemma process_script_ok:
  assumes "queued s items" and "fp_next (junk_of s) (c_fileParser s) = (Inr (Some t), f)"
    and "compile_instruction c t (env.truncate s) = (Inr (x, user, absolute, time), e1)"
    and "fp_ipOptionalDestMAC f = c_ipOptionalDestMAC c"
    and "fp_delay f = defaultDelay c div ucast (defaultDelayScale c)"
  shows "case next_delay start currtime absolute time of
      Inl e \<Rightarrow> \<exists>s'. script_loop c start currtime s = (Inl e, s') \<and> env.truncate s' = e1
    | Inr (delta, currtime') \<Rightarrow> \<exists>s'. script_loop c start currtime s = script_loop c start currtime' s'
        \<and> env.truncate s' = e1 \<and> queued s' (items @ [(x, delta)]) \<and> c_fileParser s' = f
        \<and> hasUserTimestamps (c_data s') = (hasUserTimestamps (c_data s) \<or> user)"
proof -
  let ?s0 = "s\<lparr>c_fileParser := f, c_result := (c_result s)\<lparr>isAbsolute := False, timestamp := fp_delay f\<rparr>\<rparr>"
  obtain res p where p: "parse t new_cResult False False
      (new_cInstructionParser (env.truncate ?s0) (c_ipOptionalDestMAC c)) = (Inr res, p)"
    and x: "packets res = Some x" "hasTimestamp res = user" "absolute = (user \<and> isAbsolute res)" "env.truncate p = e1"
    and time: "time = (if user then timestamp res else fp_delay f) * ucast (defaultDelayScale c)"
    using assms(3,5) unfolding compile_instruction_def
    by (auto simp: bindE_Inr_iff split: prod.splits option.splits)
  obtain a d where d: "new_linkable x (c_data ?s0) = (a, d)" by fastforce
  obtain xs where xs: "data_ok (c_data ?s0) xs" "contents (c_data ?s0) xs = items"
    using assms(1) by (auto simp: queued_def)
  let ?s = "(env.extend (env.truncate p) (env.more ?s0))
    \<lparr>c_data := d, c_result := merge (c_result ?s0) res, c_packets := Some a\<rparr>"
  have hu: "hasUserTimestamps d = hasUserTimestamps (c_data s)" using d by (auto simp: new_linkable_def)
  have fpp: "fp_parse s = (Inr True, ?s)"
    using parse_instruction_ok [OF p x(1) d] assms(2,4) by (simp add: fp_parse_def Let_def bindM_def catchM_def)
  define s1 where "s1 = (if user then ?s\<lparr>c_data := d\<lparr>hasUserTimestamps := True\<rparr>\<rparr> else ?s)"
  have run: "process_instruction c start currtime ?s = enqueue start time currtime s1"
    using x(2) time
    by (cases user) (simp_all add: process_instruction_def bindM_def user_timestamps_def scaled_time_def s1_def merge_def)
  have s1: "c_data s1 = d\<lparr>hasUserTimestamps := (hasUserTimestamps (c_data s) \<or> user)\<rparr>"
    "c_packets s1 = Some a" "env.truncate s1 = e1" "isAbsolute (c_result s1) = absolute" "c_fileParser s1 = f"
    using x hu by (simp_all add: s1_def merge_def)
  have step: "script_loop c start currtime s = (case enqueue start time currtime s1 of
      (Inl e, s2) \<Rightarrow> (Inl e, s2) | (Inr ct, s2) \<Rightarrow> script_loop c start ct s2)"
    by (rule script_loop_next [OF fpp run])
  show ?thesis unfolding step
    using enqueue_new [OF xs d s1(1,2), where start = start and currtime = currtime and time = time] s1(3-5)
    by (auto split: sum.splits prod.splits)
qed

text \<open>
  The text of an instruction may hold comments; it must not end inside of one, and not hold a special
  character outside of one.
\<close>

definition instruction_text :: "string \<Rightarrow> bool" where
  "instruction_text t \<longleftrightarrow> plain (strip_comments False t) \<and> \<not> in_comment False t \<and> length t + 10240 < 2 ^ 31"

definition script :: "string list \<Rightarrow> string" where
  "script texts = concat (map (\<lambda>t. t @ [CHR '';'']) texts)"

definition trailing_text :: "string \<Rightarrow> bool" where
  "trailing_text t \<longleftrightarrow> plain (strip_comments False t) \<and> length t + 10240 < 2 ^ 31"

definition instruction_of :: "string \<Rightarrow> string" where
  "instruction_of t = c_str (strip_comments False t)"

definition reader_ready :: "cCompiler \<Rightarrow> cstate \<Rightarrow> bool" where
  "reader_ready c s \<longleftrightarrow> fp_ipOptionalDestMAC (c_fileParser s) = c_ipOptionalDestMAC c
     \<and> fp_delay (c_fileParser s) = defaultDelay c div ucast (defaultDelayScale c)
     \<and> openControlBlocks (c_fileParser s) = 0"

text \<open>The loop ends with an exception at one of the instructions, and reports the line where its text ends.\<close>

definition script_fails :: "cCompiler \<Rightarrow> cTimeval \<Rightarrow> cTimeval \<Rightarrow> string list \<Rightarrow> cstate \<Rightarrow> error \<Rightarrow> env \<Rightarrow> bool" where
  "script_fails c start currtime texts s e e1 \<longleftrightarrow>
     (\<exists>s' f n. script_loop c start currtime s = (Inl (in_file f e), s') \<and> env.truncate s' = e1
        \<and> fp_path f = fp_path (c_fileParser s) \<and> n < length texts
        \<and> lineNbr f = lineNbr (c_fileParser s) + of_nat (count_list (script (take (Suc n) texts)) NL))"

definition after :: "cFileParser \<Rightarrow> string \<Rightarrow> string \<Rightarrow> cFileParser \<Rightarrow> bool" where
  "after f t cs f' \<longleftrightarrow> fp_path f' = fp_path f \<and> fp f' = Some cs
     \<and> lineNbr f' = lineNbr f + of_nat (count_list t NL)"

lemma script_fails_here:
  assumes "script_loop c start currtime s = (Inl (in_file f e), s')" and "env.truncate s' = e1"
    and "after (c_fileParser s) t cs f"
  shows "script_fails c start currtime (t # texts) s e e1"
  unfolding script_fails_def using assms
  by (intro exI [of _ s'] exI [of _ f] exI [of _ 0]) (simp add: after_def script_def)

lemma script_fails_later:
  assumes "script_fails c start ct texts s1 e e1" and "script_loop c start currtime s = script_loop c start ct s1"
    and "after (c_fileParser s) t cs (c_fileParser s1)"
  shows "script_fails c start currtime (t # texts) s e e1"
proof -
  obtain s' f n where g: "script_loop c start ct s1 = (Inl (in_file f e), s')" "env.truncate s' = e1"
    "fp_path f = fp_path (c_fileParser s1)" "n < length texts"
    "lineNbr f = lineNbr (c_fileParser s1) + of_nat (count_list (script (take (Suc n) texts)) NL)"
    using assms(1) by (auto simp: script_fails_def)
  then show ?thesis unfolding script_fails_def using assms(2,3)
    by (intro exI [of _ s'] exI [of _ f] exI [of _ "Suc n"]) (simp add: after_def script_def)
qed

lemma fp_next_script:
  assumes "reader_ready c s" and "fp (c_fileParser s) = Some (script (t # texts) @ rest)" and "instruction_text t"
  obtains f where "fp_next (junk_of s) (c_fileParser s) = (Inr (Some (instruction_of t)), f)"
    and "after (c_fileParser s) t (script texts @ rest) f" and "fp_ipOptionalDestMAC f = c_ipOptionalDestMAC c"
    and "fp_delay f = defaultDelay c div ucast (defaultDelayScale c)" and "openControlBlocks f = 0"
proof -
  let ?f = "c_fileParser s"
  obtain b where b: "fp_next (junk_of s) ?f = (Inr (Some (instruction_of t)), ?f\<lparr>instructionBuffer := b,
      fp := Some (script texts @ rest), lineNbr := lineNbr ?f + of_nat (count_list t NL)\<rparr>)"
    using fp_next_instruction [of ?f t "script texts @ rest" "junk_of s"] assms(2,3)
    by (auto simp: script_def instruction_text_def instruction_of_def c_str_def)
  show thesis by (rule that [OF b]) (use assms(1) in \<open>simp_all add: after_def reader_ready_def\<close>)
qed

lemma script_loop_refines:
  assumes "queued s items" and "reader_ready c s" and "fp (c_fileParser s) = Some (script texts @ rest)"
    and "\<forall>t\<in>set texts. instruction_text t" and "trailing_text rest"
  shows "case compile_all c start (map instruction_of texts) currtime (env.truncate s) of
      (Inl e, e1) \<Rightarrow> script_fails c start currtime texts s e e1
    | (Inr (xs, currtime'), e1) \<Rightarrow> \<exists>s'. script_loop c start currtime s = (Inr currtime', s')
        \<and> env.truncate s' = e1 \<and> queued s' (items @ listed xs) \<and> reader_ready c s'
        \<and> hasUserTimestamps (c_data s') = (hasUserTimestamps (c_data s) \<or> any_user xs)
        \<and> fp (c_fileParser s') = Some []"
  using assms
proof (induction texts arbitrary: s items currtime)
  case Nil
  then obtain b where b: "fp_next (junk_of s) (c_fileParser s) = (Inr None, (c_fileParser s)\<lparr>instructionBuffer := b,
      fp := Some [], lineNbr := lineNbr (c_fileParser s) + of_nat (count_list rest NL)\<rparr>)"
    using fp_next_end [of "c_fileParser s" rest "junk_of s"]
    by (auto simp: script_def trailing_text_def reader_ready_def)
  then show ?case using Nil.prems(1,2)
    by (subst script_loop.simps)
      (auto simp: fp_parse_def Let_def listed_def any_user_def queued_def reader_ready_def)
next
  case (Cons t texts)
  obtain f where nx: "fp_next (junk_of s) (c_fileParser s) = (Inr (Some (instruction_of t)), f)"
    and f: "after (c_fileParser s) t (script texts @ rest) f" "fp_ipOptionalDestMAC f = c_ipOptionalDestMAC c"
      "fp_delay f = defaultDelay c div ucast (defaultDelayScale c)" "openControlBlocks f = 0"
    using fp_next_script [OF Cons.prems(2,3)] Cons.prems(4) by auto
  obtain r e1 where ci: "compile_instruction c (instruction_of t) (env.truncate s) = (r, e1)" by fastforce
  show ?case
  proof (cases r)
    case (Inl e)
    then show ?thesis using process_script_error [OF Cons.prems(1) nx ci [unfolded Inl] f(2), of start currtime] ci
      by (auto simp: next_delay_split simp del: compile_all.simps intro: script_fails_here [OF _ _ f(1)])
  next
    case (Inr y)
    then obtain x user absolute time where y: "r = Inr (x, user, absolute, time)" by (cases y) auto
    note step = process_script_ok [OF Cons.prems(1) nx ci [unfolded y] f(2,3), of start currtime]
    show ?thesis
    proof (cases "next_delay start currtime absolute time")
      case (Inl e)
      then have "e = Bug ''FIXME''" by (auto simp: next_delay_def split: if_splits)
      then have "in_file f e = e" by (simp add: in_file_def)
      with Inl show ?thesis using step ci y
        by (auto simp: next_delay_split simp del: compile_all.simps intro!: script_fails_here [OF _ _ f(1)])
    next
      case (Inr z)
      then obtain d ct where z: "next_delay start currtime absolute time = Inr (d, ct)" by (cases z) auto
      then obtain s1 where s1: "script_loop c start currtime s = script_loop c start ct s1" "env.truncate s1 = e1"
        "queued s1 (items @ [(x, d)])" "c_fileParser s1 = f"
        "hasUserTimestamps (c_data s1) = (hasUserTimestamps (c_data s) \<or> user)"
        using step by auto
      have a: "reader_ready c s1" "fp (c_fileParser s1) = Some (script texts @ rest)"
        using s1(4) f by (simp_all add: reader_ready_def after_def)
      note later = script_fails_later [OF _ s1(1) f(1) [folded s1(4)]]
      show ?thesis using Cons.IH [OF s1(3) a, of ct] s1 ci y z Cons.prems(4,5)
        by (auto simp: next_delay_split listed_def any_user_def simp del: compile_all.simps
            split: prod.splits sum.splits intro: later)
    qed
  qed
qed

subsection \<open>Whole runs\<close>

text \<open>Several script files: the absolute times of a file count from the time its predecessor has reached.\<close>

fun compile_files :: "cCompiler \<Rightarrow> string list list \<Rightarrow> cTimeval
    \<Rightarrow> (env, (cLinkable \<times> cTimeval \<times> bool) list) M" where
  "compile_files c [] currtime = returnM []"
| "compile_files c (texts # input) currtime =
     bindM (compile_all c currtime texts currtime) (\<lambda>(xs, currtime').
     bindM (compile_files c input currtime') (\<lambda>ys. returnM (xs @ ys)))"

lemma fresh_compiler:
  assumes "new_cCompiler t delay sc opt scaling e = Inr (c, s)"
  shows "c = \<lparr>c_type = t, defaultDelay = delay, defaultDelayScale = sc, c_ipOptionalDestMAC = opt,
      pcapScalingFactor = scaling\<rparr>"
    and "env.truncate s = e" and "queued s []" and "reader_ready c s" and "fp (c_fileParser s) = None"
    and "\<not> hasUserTimestamps (c_data s)" and "c_data s = new_cPacketData" and "c_packets s = None"
  using assms
  by (auto simp: new_cCompiler_def env.defs cstate.defs queued_def reader_ready_def data_ok_new [unfolded new_cPacketData_def] contents_def
      new_cPacketData_def new_cFileParser_def split: if_splits intro!: exI [of _ "[]"])

lemma clear_result_run:
  "queued s items \<Longrightarrow> \<exists>s'. clear_result s = (Inr (), s') \<and> queued s' items \<and> env.truncate s' = env.truncate s
     \<and> c_fileParser s' = c_fileParser s \<and> c_data s' = c_data s"
  by (auto simp: clear_result_def queued_def)

lemma processPackets_refines:
  assumes "queued s items"
  shows "case compile_all c 0 (map c_str input) 0 (env.truncate s) of
      (Inl e, e1) \<Rightarrow> \<exists>s'. processPackets c input s = (Inl e, s') \<and> env.truncate s' = e1
    | (Inr (xs, currtime), e1) \<Rightarrow> \<exists>s'. processPackets c input s = (Inr (), s') \<and> env.truncate s' = e1
        \<and> queued s' (items @ listed xs)
        \<and> hasUserTimestamps (c_data s') = (hasUserTimestamps (c_data s) \<or> any_user xs)"
proof -
  obtain s0 where s0: "clear_result s = (Inr (), s0)" "queued s0 items" "env.truncate s0 = env.truncate s"
    "c_data s0 = c_data s" using clear_result_run [OF assms] by blast
  then show ?thesis using packets_loop_refines [OF s0(2), of c input 0]
    by (auto simp: processPackets_def bindM_def split: prod.splits sum.splits)
qed

text \<open>A script file \<open>path\<close> holds the instructions \<open>texts path\<close> and something behind the last \<open>;\<close>.\<close>

definition script_file :: "(string \<Rightarrow> string option) \<Rightarrow> (string \<Rightarrow> string list) \<Rightarrow> string \<Rightarrow> bool" where
  "script_file files texts path \<longleftrightarrow> (\<exists>rest. files path = Some (script (texts path) @ rest) \<and> trailing_text rest)
     \<and> (\<forall>t\<in>set (texts path). instruction_text t)"

lemma script_files_refine:
  assumes "queued s items" and "reader_ready c s" and "fp (c_fileParser s) = None"
    and "\<forall>path\<in>set input. script_file files texts path"
  shows "case compile_files c (map (\<lambda>path. map instruction_of (texts path)) input) currtime (env.truncate s) of
      (Inl e, e1) \<Rightarrow> \<exists>s' f. script_files_loop c files input currtime s = (Inl (in_file f e), s')
        \<and> env.truncate s' = e1 \<and> fp_path f \<in> set input
    | (Inr xs, e1) \<Rightarrow> \<exists>s'. script_files_loop c files input currtime s = (Inr (), s') \<and> env.truncate s' = e1
        \<and> queued s' (items @ listed xs)
        \<and> hasUserTimestamps (c_data s') = (hasUserTimestamps (c_data s) \<or> any_user xs)"
  using assms
proof (induction input arbitrary: s items currtime)
  case Nil
  then show ?case by (simp add: listed_def any_user_def)
next
  case (Cons path input)
  obtain rest where content: "files path = Some (script (texts path) @ rest)" "trailing_text rest"
    "\<forall>t\<in>set (texts path). instruction_text t"
    using Cons.prems(4) by (auto simp: script_file_def)
  let ?f = "(c_fileParser s)\<lparr>fp := Some (script (texts path) @ rest), lineNbr := 1, fp_path := path\<rparr>"
  let ?s = "s\<lparr>c_fileParser := ?f\<rparr>"
  have op: "fp_open_file files path s = (Inr True, ?s)"
    using Cons.prems(3) content(1) by (simp add: fp_open_file_def fp_open_def)
  have "queued ?s items" "reader_ready c ?s" "fp (c_fileParser ?s) = Some (script (texts path) @ rest)"
    using Cons.prems(1,2) by (simp_all add: queued_def reader_ready_def)
  note loop = script_loop_refines [OF this content(3,2), of currtime currtime]
  obtain r e1 where r: "compile_all c currtime (map instruction_of (texts path)) currtime (env.truncate ?s) = (r, e1)"
    by fastforce
  show ?case
  proof (cases r)
    case (Inl e)
    then show ?thesis using loop r op by (auto simp: bindM_def script_fails_def)
  next
    case (Inr y)
    then obtain xs ct where y: "r = Inr (xs, ct)" by (cases y) auto
    then obtain s1 where s1: "script_loop c currtime currtime ?s = (Inr ct, s1)" "env.truncate s1 = e1"
      "queued s1 (items @ listed xs)" "reader_ready c s1" "fp (c_fileParser s1) = Some []"
      "hasUserTimestamps (c_data s1) = (hasUserTimestamps (c_data s) \<or> any_user xs)"
      using loop r by auto
    let ?s2 = "s1\<lparr>c_fileParser := fp_close (c_fileParser s1)\<rparr>"
    have "queued ?s2 (items @ listed xs)" "reader_ready c ?s2" "fp (c_fileParser ?s2) = None"
      using s1(3-5) by (simp_all add: queued_def reader_ready_def fp_close_def)
    note IH = Cons.IH [OF this, of ct]
    show ?thesis using IH Cons.prems(4) s1(1,2,6) r y op
      by (auto simp: bindM_def listed_def any_user_def split: prod.splits sum.splits)
  qed
qed

subsection \<open>Due times\<close>

text \<open>
  \<open>cOutput\<close> adds the delays up again. \<open>due\<close> is when each packet has to be sent: an absolute time counts
  from the start of the script, a relative one from the packet before.
\<close>

fun send_times :: "cTimeval \<Rightarrow> cTimeval list \<Rightarrow> cTimeval list" where
  "send_times now [] = []"
| "send_times now (d # ds) = (now + d) # send_times (now + d) ds"

fun due :: "cTimeval \<Rightarrow> cTimeval \<Rightarrow> (bool \<times> cTimeval) list \<Rightarrow> cTimeval list" where
  "due start now [] = []"
| "due start now ((absolute, time) # xs) =
     (let t = (if absolute then start + time else now + time) in t # due start t xs)"

fun compile_each :: "cCompiler \<Rightarrow> string list \<Rightarrow> (env, (cLinkable \<times> bool \<times> bool \<times> cTimeval) list) M" where
  "compile_each c [] = returnM []"
| "compile_each c (t # input) = bindM (compile_instruction c t) (\<lambda>x. bindM (compile_each c input) (\<lambda>xs. returnM (x # xs)))"

lemma compile_all_due:
  "compile_all c start input currtime e = (Inr (xs, currtime'), e1) \<Longrightarrow>
   \<exists>ys. compile_each c input e = (Inr ys, e1) \<and> map fst xs = map fst ys
     \<and> send_times currtime (map (\<lambda>(x, d, user). d) xs) = due start currtime (map (\<lambda>(x, user, at). at) ys)
     \<and> currtime' = last (currtime # send_times currtime (map (\<lambda>(x, d, user). d) xs))"
proof (induction input arbitrary: currtime e xs)
  case (Cons t input)
  then obtain x user absolute time e0 d ct xs' where h: "compile_instruction c t e = (Inr (x, user, absolute, time), e0)"
    "next_delay start currtime absolute time = Inr (d, ct)" "compile_all c start input ct e0 = (Inr (xs', currtime'), e1)"
    "xs = (x, d, user) # xs'"
    by (auto simp: next_delay_split split: prod.splits sum.splits simp del: compile_all.simps)
  obtain ys where ys: "compile_each c input e0 = (Inr ys, e1)" "map fst xs' = map fst ys"
    "send_times ct (map (\<lambda>(x, d, user). d) xs') = due start ct (map (\<lambda>(x, user, at). at) ys)"
    "currtime' = last (ct # send_times ct (map (\<lambda>(x, d, user). d) xs'))"
    using Cons.IH [OF h(3)] by blast
  have "currtime + d = ct" "ct = (if absolute then start + time else currtime + time)"
    using h(2) by (auto simp: next_delay_def add.commute split: if_splits)
  then show ?case using h ys by (intro exI [of _ "(x, user, absolute, time) # ys"]) (simp add: bindM_def Let_def)
qed simp

subsection \<open>An instruction that fails after others were compiled\<close>

lemma packets_loop_append:
  "packets_loop c (xs @ ys) currtime = bindM (packets_loop c xs currtime) (packets_loop c ys)"
proof (induction xs arbitrary: currtime)
  case (Cons x xs)
  have assoc: "bindM (bindM m f) g = bindM m (\<lambda>y. bindM (f y) g)" for m :: "(cstate, 'a) M" and f g
    by (rule ext) (auto simp: bindM_def split: prod.splits sum.splits)
  have "packets_loop c (xs @ ys) = (\<lambda>y. bindM (packets_loop c xs y) (packets_loop c ys))"
    using Cons.IH by (rule ext)
  then show ?case by (simp add: assoc)
qed simp

text \<open>The pointer in the result object still refers to the packet before, which is in the list.\<close>

lemma process_packet_deletes:
  assumes "queued s items" and "c_packets s \<noteq> None"
    and "\<And>res. packets res \<noteq> None \<Longrightarrow> \<exists>p. parse (c_str t) res False False
          (new_cInstructionParser (env.truncate s) (c_ipOptionalDestMAC c)) = (Inl e, p) \<and> m_deleted p"
  shows "\<exists>s'. process_packet c t currtime s = (Inl e, s')
    \<and> destroy (c_data s') (pd_head (c_data s')) = Some (Inl (Undefined ''use after free''))"
proof -
  let ?old = "(c_result s)\<lparr>packets := map_option (\<lambda>a. l_item (pd_heap (c_data s) ! a)) (c_packets s)\<rparr>"
  obtain a where a: "c_packets s = Some a" using assms(2) by blast
  obtain xs where xs: "data_ok (c_data s) xs" "a \<in> set xs" using assms(1) a by (auto simp: queued_def)
  obtain p where p: "parse (c_str t) ?old False False
      (new_cInstructionParser (env.truncate s) (c_ipOptionalDestMAC c)) = (Inl e, p)" "m_deleted p"
    using assms(3) [of ?old] a by auto
  let ?h = "(pd_heap (c_data s))[a := (pd_heap (c_data s) ! a)\<lparr>m_freed := True\<rparr>]"
  let ?d = "(c_data s)\<lparr>pd_heap := ?h\<rparr>"
  have l: "live (pd_heap (c_data s)) a" using data_ok_live [OF xs] .
  then have run: "\<exists>s'. process_packet c t currtime s = (Inl e, s') \<and> c_data s' = ?d"
    using p a by (simp add: process_packet_def parse_instruction_def bindM_def on_data_def delete_live)
  have "chained (pd_heap ?d) (pd_head ?d) xs" "distinct xs"
    using xs(1) chained_update [of "pd_heap (c_data s)" "pd_head (c_data s)" xs] linked_chained
    by (auto simp: data_ok_def)
  moreover have "\<not> live (pd_heap ?d) a" using l by (simp add: live_def)
  ultimately have "destroy ?d (pd_head ?d) = Some (Inl (Undefined ''use after free''))"
    using destroy_dangling xs(2) by blast
  then show ?thesis using run by auto
qed

lemma processPackets_dangling:
  assumes "queued s items" and "compile_all c 0 (map c_str input) 0 (env.truncate s) = (Inr (xs, currtime), e1)"
    and "input \<noteq> []"
    and "\<And>res. packets res \<noteq> None \<Longrightarrow> \<exists>p. parse (c_str t) res False False
          (new_cInstructionParser e1 (c_ipOptionalDestMAC c)) = (Inl e, p) \<and> m_deleted p"
  shows "\<exists>s'. processPackets c (input @ [t]) s = (Inl e, s')
    \<and> destroy (c_data s') (pd_head (c_data s')) = Some (Inl (Undefined ''use after free''))"
proof -
  obtain s0 where s0: "clear_result s = (Inr (), s0)" "queued s0 items" "env.truncate s0 = env.truncate s"
    using clear_result_run [OF assms(1)] by blast
  then obtain s1 where s1: "packets_loop c input 0 s0 = (Inr currtime, s1)" "env.truncate s1 = e1"
    "queued s1 (items @ listed xs)" "c_packets s1 \<noteq> None"
    using packets_loop_refines [OF s0(2), of c input 0] assms(2,3) by auto
  obtain s' where "process_packet c t currtime s1 = (Inl e, s')"
    "destroy (c_data s') (pd_head (c_data s')) = Some (Inl (Undefined ''use after free''))"
    using process_packet_deletes [OF s1(3,4), of t c e currtime] assms(4) s1(2) by auto
  then show ?thesis using s0(1) s1(1) by (auto simp: processPackets_def packets_loop_append bindM_def)
qed

end
