(* ===== verification/CaptureFacts.thy ===== *)
theory CaptureFacts
  imports CompilerFacts
begin

section \<open>Capture files: written, read back and compiled\<close>

subsection \<open>One captured packet\<close>

text \<open>A packet the compiler takes: at least a MAC header, all of it captured, and an \<open>int\<close> long.\<close>

definition whole_frame :: "cTimeval \<times> int \<times> byte list \<Rightarrow> bool" where
  "whole_frame p = (case p of (t, len, bytes) \<Rightarrow> 14 \<le> len \<and> len < 2 ^ 31 \<and> nat len \<le> length bytes)"

text \<open>What is queued, as frames: an Ethernet packet by the bytes that are sent.\<close>

definition as_frames :: "(cLinkable \<times> cTimeval) list \<Rightarrow> (byte list list \<times> cTimeval) list" where
  "as_frames items = map (\<lambda>(x, d). (map visible (frames_of x), d)) items"

definition listing :: "cstate \<Rightarrow> (cLinkable \<times> cTimeval) list \<Rightarrow> bool" where
  "listing s items \<longleftrightarrow> (\<exists>xs. data_ok (c_data s) xs \<and> contents (c_data s) xs = items)"

lemma new_raw_packet_run:
  assumes "whole_frame (t, len, bytes)"
  shows "\<exists>e. visible e = take (nat len) bytes
    \<and> (\<forall>a d. new_linkable (EthPacket e) (c_data s) = (a, d) \<longrightarrow>
         new_raw_packet len bytes s = (Inr a, s\<lparr>c_data := d\<rparr>))"
proof -
  have b: "14 \<le> nat len" "nat len < 2 ^ 62" "\<not> length bytes < nat len" "\<not> len < 0"
    using assms by (auto simp: whole_frame_def)
  obtain e f where e: "eth_new (junk_of s) (nat len) = Inr e" "packetMaxLength e = nat len"
    "holds e (f :: frame)"
    using eth_new_holds [OF b(1,2), of "junk_of s"] by blast
  obtain e' where "setRaw (take (nat len) bytes) e = Inr e'" "visible e' = take (nat len) bytes"
    using setRaw_visible [OF e(3), of "take (nat len) bytes"] e(2) by auto
  then show ?thesis using b e(1) by (intro exI [of _ e']) (auto simp: new_raw_packet_def bindM_def)
qed

lemma process_captured_run:
  assumes "listing s items" and "whole_frame (t, len, bytes)"
    and "tv_mul (pcapScalingFactor c) (tv_sub t currtime) = Inr d"
  shows "\<exists>s' x. process_captured c currtime (t, len, bytes) s = (Inr t, s') \<and> listing s' (items @ [(x, d)])
    \<and> map visible (frames_of x) = [take (nat len) bytes] \<and> env.truncate s' = env.truncate s
    \<and> hasUserTimestamps (c_data s') = hasUserTimestamps (c_data s)"
proof -
  obtain e where e: "visible e = take (nat len) bytes"
    "\<And>a d. new_linkable (EthPacket e) (c_data s) = (a, d) \<Longrightarrow> new_raw_packet len bytes s = (Inr a, s\<lparr>c_data := d\<rparr>)"
    using new_raw_packet_run [OF assms(2)] by blast
  obtain xs where xs: "data_ok (c_data s) xs" "contents (c_data s) xs = items"
    using assms(1) by (auto simp: listing_def)
  obtain a d1 where n: "new_linkable (EthPacket e) (c_data s) = (a, d1)" by fastforce
  obtain d2 d3 where d: "setTime a d d1 = Inr d2" "addPacket a d2 = Inr d3" "data_ok d3 (xs @ [a])"
    "contents d3 (xs @ [a]) = contents (c_data s) xs @ [(EthPacket e, d)]"
    "hasUserTimestamps d3 = hasUserTimestamps (c_data s)"
    using new_in_list [OF xs(1) n] by blast
  have "process_captured c currtime (t, len, bytes) s = (Inr t, s\<lparr>c_data := d3\<rparr>)"
    using e(2) [OF n] assms(3) d(1,2) by (simp add: process_captured_def bindM_def on_data_def)
  moreover have "listing (s\<lparr>c_data := d3\<rparr>) (items @ [(EthPacket e, d)])"
    using d(3,4) xs(2) by (auto simp: listing_def)
  ultimately show ?thesis using e(1) d(5)
    by (intro exI [of _ "s\<lparr>c_data := d3\<rparr>"] exI [of _ "EthPacket e"]) (simp add: frames_of_def)
qed

subsection \<open>A file\<close>

text \<open>The delays: the differences of the times, scaled.\<close>

fun replayed :: "double \<Rightarrow> cTimeval \<Rightarrow> (cTimeval \<times> int \<times> byte list) list \<Rightarrow> (byte list list \<times> cTimeval) list res" where
  "replayed scaling currtime [] = Inr []"
| "replayed scaling currtime ((t, len, bytes) # ps) =
     bindE (tv_mul scaling (tv_sub t currtime)) (\<lambda>d.
     bindE (replayed scaling t ps) (\<lambda>xs. Inr (([take (nat len) bytes], d) # xs)))"

lemma process_captured_step:
  assumes "pcap_read_packet f = Inr (Some p, f')" and "process_captured c currtime p s = (Inr t, s')"
  shows "pcap_loop c f currtime s = pcap_loop c f' t s'"
  using assms by (subst pcap_loop.simps) (simp add: bindM_def)

lemma as_frames_append: "as_frames (xs @ [(x, d)]) = as_frames xs @ [(map visible (frames_of x), d)]"
  by (simp add: as_frames_def)

text \<open>How the loop ends: as the end of the file says, without a file error.\<close>

definition ended :: "pcap_file \<Rightarrow> ('a \<times> cPcapFileIO) res \<Rightarrow> bool" where
  "ended h r \<longleftrightarrow> (case r of Inl x \<Rightarrow> end_of_file h = Inl x | Inr (t, f) \<Rightarrow> end_of_file h = Inr () \<and> \<not> m_fileError f)"

lemma ended_shorter [simp]: "ended (h\<lparr>pf_records := rs\<rparr>) r = ended h r"
  by (simp add: ended_def end_of_file_def split: sum.split)

lemma pcap_loop_end:
  assumes "reading f h" and "complete h" and "pf_records h = []"
  shows "\<exists>r. pcap_loop c f currtime s = (r, s) \<and> ended h r"
  using read_end [OF assms] by (auto simp: pcap_loop.simps [of c f] ended_def)

lemma pcap_rest_run:
  assumes "reading f h" and "complete h" and "\<not> m_firstRead f" and "listing s items"
    and "\<forall>r\<in>set (pf_records h). whole_frame (delivered (m_offset f) r)"
    and "replayed (pcapScalingFactor c) currtime (map (delivered (m_offset f)) (pf_records h)) = Inr ys"
  shows "\<exists>r s' items'. pcap_loop c f currtime s = (r, s') \<and> ended h r
    \<and> listing s' items' \<and> as_frames items' = as_frames items @ ys \<and> env.truncate s' = env.truncate s
    \<and> hasUserTimestamps (c_data s') = hasUserTimestamps (c_data s)"
  using assms
proof (induction "pf_records h" arbitrary: h f currtime s items ys)
  case Nil
  obtain r where "pcap_loop c f currtime s = (r, s)" "ended h r"
    using pcap_loop_end [OF Nil.prems(1,2)] Nil.hyps by metis
  moreover have "ys = []" using Nil.prems(6) unfolding Nil.hyps [symmetric] by simp
  ultimately show ?case using Nil.prems(4) by auto
next
  case (Cons r rs)
  note rec = Cons.hyps(2) [symmetric]
  let ?h = "h\<lparr>pf_records := rs\<rparr>" and ?f = "f\<lparr>m_fileHandle := Some (h\<lparr>pf_records := rs\<rparr>)\<rparr>"
  obtain t len bytes where p: "delivered (m_offset f) r = (t, len, bytes)" by (cases "delivered (m_offset f) r")
  obtain d ys' where d: "tv_mul (pcapScalingFactor c) (tv_sub t currtime) = Inr d"
    "replayed (pcapScalingFactor c) t (map (delivered (m_offset f)) rs) = Inr ys'"
    "ys = ([take (nat len) bytes], d) # ys'"
    using Cons.prems(6) unfolding rec by (auto simp: p bindE_Inr_iff)
  have w: "whole_frame (t, len, bytes)" using Cons.prems(5) p unfolding rec by auto
  obtain s1 x where s1: "process_captured c currtime (t, len, bytes) s = (Inr t, s1)"
    "listing s1 (items @ [(x, d)])" "map visible (frames_of x) = [take (nat len) bytes]"
    "env.truncate s1 = env.truncate s" "hasUserTimestamps (c_data s1) = hasUserTimestamps (c_data s)"
    using process_captured_run [OF Cons.prems(4) w d(1)] by (elim exE conjE) (rule that)
  have "pcap_read_packet f = Inr (Some (t, len, bytes), ?f)"
    using read_next [OF Cons.prems(1) rec] Cons.prems(3) p by simp
  note step = process_captured_step [OF this s1(1)]
  have "reading ?f ?h" "complete ?h" "\<not> m_firstRead ?f"
    using Cons.prems(1-3) by (simp_all add: reading_def complete_def)
  then have "\<exists>r s' items'. pcap_loop c ?f t s1 = (r, s') \<and> ended h r
      \<and> listing s' items' \<and> as_frames items' = as_frames (items @ [(x, d)]) @ ys' \<and> env.truncate s' = env.truncate s1
      \<and> hasUserTimestamps (c_data s') = hasUserTimestamps (c_data s1)"
    using Cons.hyps(1) [of ?h ?f s1 "items @ [(x, d)]" t ys'] s1(2) d(2) Cons.prems(5) unfolding rec by simp
  then show ?case using step s1(3-5) d(3) by (simp add: as_frames_append)
qed

lemma pcap_file_run:
  assumes "pcap_open_offline lib path = Some h" and "complete h" and "listing s items"
    and "\<forall>p\<in>set (delivered_all (pf_records h)). whole_frame p"
    and "replayed (pcapScalingFactor c) currtime (delivered_all (pf_records h)) = Inr ys"
  shows "\<exists>r s' items'. bindM (liftE (pcap_open lib path False new_cPcapFileIO)) (\<lambda>(ok, f). pcap_loop c f currtime) s
      = (r, s') \<and> ended h r \<and> listing s' items' \<and> as_frames items' = as_frames items @ ys
    \<and> env.truncate s' = env.truncate s \<and> hasUserTimestamps (c_data s') = hasUserTimestamps (c_data s)"
proof -
  obtain f where f: "pcap_open lib path False new_cPcapFileIO = Inr (True, f)" "reading f h" "m_firstRead f"
    using open_reading [OF assms(1)] by blast
  show ?thesis
  proof (cases "pf_records h")
    case Nil
    obtain r where "pcap_loop c f currtime s = (r, s)" "ended h r"
      using pcap_loop_end [OF f(2) assms(2) Nil] by metis
    then show ?thesis using assms(3,5) f(1) Nil by (auto simp: bindM_def)
  next
    case (Cons r rs)
    let ?t0 = "tv_set (ts (fst r))"
    let ?h = "h\<lparr>pf_records := rs\<rparr>"
    let ?f = "f\<lparr>m_fileHandle := Some ?h, m_offset := ?t0, m_firstRead := False\<rparr>"
    obtain t len bytes where p: "delivered ?t0 r = (t, len, bytes)" by (cases "delivered ?t0 r")
    obtain d ys' where d: "tv_mul (pcapScalingFactor c) (tv_sub t currtime) = Inr d"
      "replayed (pcapScalingFactor c) t (map (delivered ?t0) rs) = Inr ys'" "ys = ([take (nat len) bytes], d) # ys'"
      using assms(5) unfolding Cons by (auto simp: p bindE_Inr_iff)
    have w: "whole_frame (t, len, bytes)" using assms(4) p unfolding Cons by auto
    obtain s1 x where s1: "process_captured c currtime (t, len, bytes) s = (Inr t, s1)"
      "listing s1 (items @ [(x, d)])" "map visible (frames_of x) = [take (nat len) bytes]"
      "env.truncate s1 = env.truncate s" "hasUserTimestamps (c_data s1) = hasUserTimestamps (c_data s)"
      using process_captured_run [OF assms(3) w d(1)] by (elim exE conjE) (rule that)
    have "pcap_read_packet f = Inr (Some (t, len, bytes), ?f)"
      using read_next [OF f(2) Cons] f(3) p by simp
    note step = process_captured_step [OF this s1(1)]
    have "reading ?f ?h" "complete ?h" "\<not> m_firstRead ?f" using f(2) assms(2) by (simp_all add: reading_def complete_def)
    then show ?thesis using pcap_rest_run [of ?f ?h s1 "items @ [(x, d)]" c t ys'] s1 d(2,3) assms(4) step f(1)
      unfolding Cons by (auto simp: bindM_def as_frames_append)
  qed
qed

end
