(* ===== verification/OutputFacts.thy ===== *)
theory OutputFacts
  imports Output InterfaceFacts CaptureFacts
begin

section \<open>What is sent\<close>

text \<open>
  The specification of the output stage: the frames of the packet list, each at the sum of the delays
  before it, repeated; and the interface \<open>frame_sink\<close> of what takes the frames.
\<close>

subsection \<open>The schedule\<close>

fun timed :: "cTimeval \<Rightarrow> (byte list list \<times> cTimeval) list \<Rightarrow> (cTimeval \<times> byte list) list" where
  "timed t [] = []"
| "timed t ((bs, d) # xs) = map (Pair (t + d)) bs @ timed (t + d) xs"

definition duration :: "(byte list list \<times> cTimeval) list \<Rightarrow> nat" where
  "duration xs = sum_list (map (unat \<circ> snd) xs)"

fun rounds :: "nat \<Rightarrow> cTimeval \<Rightarrow> (byte list list \<times> cTimeval) list \<Rightarrow> (cTimeval \<times> byte list) list" where
  "rounds 0 t xs = []"
| "rounds (Suc n) t xs = timed t xs @ rounds n (t + of_nat (duration xs)) xs"

lemma duration_simps [simp]: "duration [] = 0" "duration ((bs, d) # xs) = unat d + duration xs"
  by (simp_all add: duration_def)

subsection \<open>The preprocessor changes addresses only\<close>

text \<open>The two addresses have room in the packet's buffer, whatever the length of the frame.\<close>

definition frame_ok :: "cEthernetPacket \<Rightarrow> bool" where
  "frame_ok e \<longleftrightarrow> 12 \<le> length (packet e) \<and> getLength e \<le> length (packet e) \<and> length (packet e) < 2 ^ 62"

definition emits :: "cPreprocessor \<Rightarrow> byte list \<Rightarrow> byte list \<Rightarrow> bool" where
  "emits pp b b' \<longleftrightarrow> length b' = length b \<and> drop 12 b' = drop 12 b
     \<and> (\<not> randomDstMac pp \<longrightarrow> take 6 b' = take 6 b) \<and> (\<not> randomSrcMac pp \<longrightarrow> take 6 (drop 6 b') = take 6 (drop 6 b))"

lemma emits_refl: "emits pp b b"
  by (simp add: emits_def)

lemma emits_trans: "emits pp a b \<Longrightarrow> emits pp b c \<Longrightarrow> emits pp a c"
  by (simp add: emits_def)

lemma emits_plain: "\<not> randomSrcMac pp \<Longrightarrow> \<not> randomDstMac pp \<Longrightarrow> emits pp b b' \<Longrightarrow> b' = b"
proof -
  assume h: "\<not> randomSrcMac pp" "\<not> randomDstMac pp" "emits pp b b'"
  have split: "x = take 6 x @ take 6 (drop 6 x) @ drop 12 x" for x :: "byte list"
    by (metis append_take_drop_id drop_drop numeral_Bit0 numeral_plus_numeral add.commute)
  show "b' = b" using h split [of b] split [of b'] by (simp add: emits_def)
qed

lemma mac_setRandom_run:
  "u \<or> m \<Longrightarrow> \<exists>a s'. mac_setRandom u m s = (Inr a, s') \<and> length a = 6"
proof -
  assume h: "u \<or> m"
  then obtain a s' where r: "mac_setRandom u m s = (Inr a, s')"
    using never_throws_setRandom [OF h] by (metis never_throwsE)
  moreover then have "length a = 6" using h by (auto simp: mac_setRandom_def bugOn_def)
  ultimately show ?thesis by blast
qed

lemma set_mac_emits:
  assumes "frame_ok e" and "length a = 6"
  shows "\<exists>e'. setSrcMac a e = Inr e' \<and> frame_ok e' \<and> length (visible e') = length (visible e)
      \<and> drop 12 (visible e') = drop 12 (visible e) \<and> take 6 (visible e') = take 6 (visible e)"
    and "\<exists>e'. setDestMac a e = Inr e' \<and> frame_ok e' \<and> length (visible e') = length (visible e)
      \<and> drop 12 (visible e') = drop 12 (visible e) \<and> take 6 (drop 6 (visible e')) = take 6 (drop 6 (visible e))"
proof -
  let ?n = "getLength e" and ?p = "packet e"
  have n: "12 \<le> length ?p" "?n \<le> length ?p" using assms(1) by (simp_all add: frame_ok_def)
  have len: "getLength (e\<lparr>packet := p\<rparr>) = ?n" "getLength (e\<lparr>packet := p, hasDMAC := True\<rparr>) = ?n" for p
    by (simp_all add: getLength_def)
  have src: "setSrcMac a e = Inr (e\<lparr>packet := take 6 ?p @ a @ drop 12 ?p\<rparr>)"
    using n assms(2) by (simp add: setSrcMac_def store_def memcpy_at_def)
  have dst: "setDestMac a e = Inr (e\<lparr>packet := a @ drop 6 ?p, hasDMAC := True\<rparr>)"
    using n assms(2) by (simp add: setDestMac_def store_def memcpy_at_def)
  show "\<exists>e'. setSrcMac a e = Inr e' \<and> frame_ok e' \<and> length (visible e') = length (visible e)
      \<and> drop 12 (visible e') = drop 12 (visible e) \<and> take 6 (visible e') = take 6 (visible e)"
    using n assms src by (simp add: frame_ok_def visible_def len drop_take min_def take_append)
  show "\<exists>e'. setDestMac a e = Inr e' \<and> frame_ok e' \<and> length (visible e') = length (visible e)
      \<and> drop 12 (visible e') = drop 12 (visible e) \<and> take 6 (drop 6 (visible e')) = take 6 (drop 6 (visible e))"
    using n assms dst by (simp add: frame_ok_def visible_def len drop_take min_def take_append)
qed

lemma set_random_runs:
  assumes "frame_ok e"
  shows "\<exists>e' s'. setRandomSrcMac True False e s = (Inr e', s') \<and> frame_ok e'
      \<and> (randomSrcMac pp \<longrightarrow> emits pp (visible e) (visible e'))"
    and "\<exists>e' s'. setRandomDestMac True False e s = (Inr e', s') \<and> frame_ok e'
      \<and> (randomDstMac pp \<longrightarrow> emits pp (visible e) (visible e'))"
proof -
  obtain a s' where r: "mac_setRandom True False s = (Inr a, s')" "length a = 6"
    using mac_setRandom_run [of True False s] by auto
  obtain e1 where e1: "setSrcMac a e = Inr e1" "frame_ok e1" "randomSrcMac pp \<longrightarrow> emits pp (visible e) (visible e1)"
    using set_mac_emits(1) [OF assms r(2)] by (auto simp: emits_def)
  obtain e2 where e2: "setDestMac a e = Inr e2" "frame_ok e2" "randomDstMac pp \<longrightarrow> emits pp (visible e) (visible e2)"
    using set_mac_emits(2) [OF assms r(2)] by (auto simp: emits_def)
  show "\<exists>e' s'. setRandomSrcMac True False e s = (Inr e', s') \<and> frame_ok e'
      \<and> (randomSrcMac pp \<longrightarrow> emits pp (visible e) (visible e'))"
    using r e1 by (simp add: setRandomSrcMac_def bindM_def)
  show "\<exists>e' s'. setRandomDestMac True False e s = (Inr e', s') \<and> frame_ok e'
      \<and> (randomDstMac pp \<longrightarrow> emits pp (visible e) (visible e'))"
    using r e2 by (simp add: setRandomDestMac_def bindM_def)
qed

lemma preprocess_runs:
  assumes "frame_ok e"
  shows "\<exists>e' s'. preprocess pp e s = (Inr e', s') \<and> frame_ok e' \<and> emits pp (visible e) (visible e')"
proof -
  obtain e1 s1 where 1: "(if randomSrcMac pp then setRandomSrcMac True False e else returnM e) s = (Inr e1, s1)"
    "frame_ok e1" "emits pp (visible e) (visible e1)"
    using set_random_runs(1) [OF assms, of s pp] assms by (cases "randomSrcMac pp") (auto simp: emits_refl)
  obtain e2 s2 where 2: "(if randomDstMac pp then setRandomDestMac True False e1 else returnM e1) s1 = (Inr e2, s2)"
    "frame_ok e2" "emits pp (visible e1) (visible e2)"
    using set_random_runs(2) [OF 1(2), of s1 pp] 1(2) by (cases "randomDstMac pp") (auto simp: emits_refl)
  show ?thesis using 1 2 by (auto simp: preprocess_def bindM_def intro: emits_trans)
qed

subsection \<open>What takes the frames\<close>

text \<open>What becomes of the frame \<open>b\<close> that is due at \<open>t\<close>; the preprocessor may have changed its addresses.\<close>

definition sent_as :: "(cTimeval \<Rightarrow> byte list \<Rightarrow> 'e \<Rightarrow> bool) \<Rightarrow> cPreprocessor \<Rightarrow> cTimeval \<times> byte list \<Rightarrow> 'e \<Rightarrow> bool" where
  "sent_as entry pp tb x \<longleftrightarrow> (\<exists>b'. emits pp (snd tb) b' \<and> entry (fst tb) b' x)"

definition all_fit :: "(cTimeval \<Rightarrow> byte list \<Rightarrow> bool) \<Rightarrow> cPreprocessor \<Rightarrow> (cTimeval \<times> byte list) list \<Rightarrow> bool" where
  "all_fit fits pp tbs \<longleftrightarrow> (\<forall>tb\<in>set tbs. \<forall>b'. emits pp (snd tb) b' \<longrightarrow> fits (fst tb) b')"

definition kept :: "'k run_state \<Rightarrow> 'k run_state \<Rightarrow> bool" where
  "kept s s' \<longleftrightarrow> r_data s' = r_data s \<and> r_polls s' = r_polls s \<and> r_time s' = r_time s \<and> r_repeat s' = r_repeat s"

definition processed :: "cPreprocessor \<Rightarrow> cEthernetPacket list \<Rightarrow> cEthernetPacket list \<Rightarrow> bool" where
  "processed pp es es' \<longleftrightarrow> list_all frame_ok es' \<and> list_all2 (emits pp) (map visible es) (map visible es')"

text \<open>
  \<open>ready t k\<close>: in state \<open>k\<close> a frame can be put for the time \<open>t\<close> or later; \<open>log k\<close> is what has become of the
  frames so far and \<open>entry\<close> relates a frame and its time to its trace.
\<close>

locale frame_sink =
  fixes put :: "'k putter"
    and ready :: "cTimeval \<Rightarrow> 'k \<Rightarrow> bool"
    and fits :: "cTimeval \<Rightarrow> byte list \<Rightarrow> bool"
    and log :: "'k \<Rightarrow> 'e list"
    and entry :: "cTimeval \<Rightarrow> byte list \<Rightarrow> 'e \<Rightarrow> bool"
  assumes put_ok: "ready t k \<Longrightarrow> fits t (visible e) \<Longrightarrow> frame_ok e \<Longrightarrow>
      \<exists>k' x. put t e k = Some (Inr (), k') \<and> log k' = log k @ [x] \<and> entry t (visible e) x \<and> ready t k'"
    and later: "ready t k \<Longrightarrow> t \<le> t' \<Longrightarrow> ready t' k"
begin

lemma processPacket_ok:
  assumes "ready (r_time s) (r_sink s)" and "frame_ok e" and "all_fit fits pp [(r_time s, visible e)]"
  shows "\<exists>e' x s'. processPacket pp put e s = Some (Inr e', s') \<and> frame_ok e' \<and> emits pp (visible e) (visible e')
    \<and> log (r_sink s') = log (r_sink s) @ [x] \<and> sent_as entry pp (r_time s, visible e) x
    \<and> ready (r_time s) (r_sink s') \<and> kept s s'"
proof -
  obtain e1 v where e1: "preprocess pp e (r_env s) = (Inr e1, v)" "frame_ok e1" "emits pp (visible e) (visible e1)"
    using preprocess_runs [OF assms(2)] by blast
  have "fits (r_time s) (visible e1)" using assms(3) e1(3) by (simp add: all_fit_def)
  then obtain k x where k: "put (r_time s) e1 (r_sink s) = Some (Inr (), k)" "log k = log (r_sink s) @ [x]"
    "entry (r_time s) (visible e1) x" "ready (r_time s) k"
    using put_ok [OF assms(1) _ e1(2)] by blast
  have "processPacket pp put e s = Some (Inr e1, s\<lparr>r_env := v, r_sink := k\<rparr>)"
    using e1(1) k(1) by (simp add: processPacket_def bindN_def on_env_def on_sink_def)
  moreover have "sent_as entry pp (r_time s, visible e) x" using e1(3) k(3) by (auto simp: sent_as_def)
  ultimately show ?thesis using e1 k
    by (intro exI [of _ e1] exI [of _ x] exI [of _ "s\<lparr>r_env := v, r_sink := k\<rparr>"]) (simp add: kept_def)
qed

lemma process_frames_ok:
  "ready (r_time s) (r_sink s) \<Longrightarrow> list_all frame_ok es \<Longrightarrow> all_fit fits pp (map (Pair (r_time s)) (map visible es)) \<Longrightarrow>
   \<exists>es' xs s'. process_frames pp put es s = Some (Inr es', s') \<and> processed pp es es'
     \<and> log (r_sink s') = log (r_sink s) @ xs \<and> list_all2 (sent_as entry pp) (map (Pair (r_time s)) (map visible es)) xs
     \<and> ready (r_time s) (r_sink s') \<and> kept s s'"
proof (induction es arbitrary: s)
  case (Cons e es)
  obtain e' x s1 where e: "processPacket pp put e s = Some (Inr e', s1)" "frame_ok e'" "emits pp (visible e) (visible e')"
    "log (r_sink s1) = log (r_sink s) @ [x]" "sent_as entry pp (r_time s, visible e) x"
    "ready (r_time s) (r_sink s1)" "kept s s1"
    using processPacket_ok [of s e pp] Cons.prems by (auto simp: all_fit_def)
  have t: "r_time s1 = r_time s" using e(7) by (simp add: kept_def)
  have "all_fit fits pp (map (Pair (r_time s1)) (map visible es))" using Cons.prems(3) t by (simp add: all_fit_def)
  then obtain es' xs s2 where es: "process_frames pp put es s1 = Some (Inr es', s2)" "processed pp es es'"
    "log (r_sink s2) = log (r_sink s1) @ xs" "list_all2 (sent_as entry pp) (map (Pair (r_time s)) (map visible es)) xs"
    "ready (r_time s) (r_sink s2)" "kept s1 s2"
    using Cons.IH [of s1] Cons.prems(2) e(6) t by auto
  have "process_frames pp put (e # es) s = Some (Inr (e' # es'), s2)" using e(1) es(1) by (simp add: bindN_def)
  then show ?case using e es by (auto simp: processed_def kept_def)
qed (auto simp: processed_def kept_def)

lemma output_item_ok:
  assumes "ready (r_time s) (r_sink s)" and "list_all frame_ok (frames_of x)"
    and "all_fit fits pp (map (Pair (r_time s)) (map visible (frames_of x)))"
  shows "\<exists>x' xs s'. output_item pp put x s = Some (Inr x', s') \<and> processed pp (frames_of x) (frames_of x')
     \<and> log (r_sink s') = log (r_sink s) @ xs \<and> list_all2 (sent_as entry pp) (map (Pair (r_time s)) (map visible (frames_of x))) xs
     \<and> ready (r_time s) (r_sink s') \<and> kept s s'"
proof (cases x)
  case (EthPacket e)
  then obtain e' y s' where e: "processPacket pp put e s = Some (Inr e', s')" "frame_ok e'" "emits pp (visible e) (visible e')"
    "log (r_sink s') = log (r_sink s) @ [y]" "sent_as entry pp (r_time s, visible e) y"
    "ready (r_time s) (r_sink s')" "kept s s'"
    using processPacket_ok [of s e pp] assms by (auto simp: frames_of_def)
  have "output_item pp put x s = Some (Inr (EthPacket e'), s')" using e(1) EthPacket by (simp add: output_item_def bindN_def)
  then show ?thesis using e EthPacket
    by (intro exI [of _ "EthPacket e'"] exI [of _ "[y]"] exI [of _ s']) (simp add: processed_def frames_of_def)
next
  case (IpPacket ip)
  then obtain es' xs s' where es: "process_frames pp put (m_packets ip) s = Some (Inr es', s')" "processed pp (m_packets ip) es'"
    "log (r_sink s') = log (r_sink s) @ xs" "list_all2 (sent_as entry pp) (map (Pair (r_time s)) (map visible (m_packets ip))) xs"
    "ready (r_time s) (r_sink s')" "kept s s'"
    using process_frames_ok [of s "m_packets ip" pp] assms by (auto simp: frames_of_def)
  have "output_item pp put x s = Some (Inr (IpPacket (ip\<lparr>m_packets := es'\<rparr>)), s')"
    using es(1) IpPacket by (simp add: output_item_def bindN_def)
  then show ?thesis using es IpPacket
    by (intro exI [of _ "IpPacket (ip\<lparr>m_packets := es'\<rparr>)"] exI [of _ xs] exI [of _ s']) (simp add: frames_of_def)
qed

text \<open>The packets of a list and their frames.\<close>

lemma output_node_ok:
  assumes "live (pd_heap (r_data s)) a" and "t = r_time s + m_t (pd_heap (r_data s) ! a)" and "ready t (r_sink s)"
    and "list_all frame_ok (frames_of (l_item (pd_heap (r_data s) ! a)))"
    and "all_fit fits pp (map (Pair t) (map visible (frames_of (l_item (pd_heap (r_data s) ! a)))))"
  shows "\<exists>x xs s'. output_node pp put a s = Some (Inr (m_next (pd_heap (r_data s) ! a)), s')
    \<and> processed pp (frames_of (l_item (pd_heap (r_data s) ! a))) (frames_of x)
    \<and> r_data s' = (r_data s)\<lparr>pd_heap := (pd_heap (r_data s))[a := (pd_heap (r_data s) ! a)\<lparr>l_item := x\<rparr>]\<rparr>
    \<and> log (r_sink s') = log (r_sink s) @ xs
    \<and> list_all2 (sent_as entry pp) (map (Pair t) (map visible (frames_of (l_item (pd_heap (r_data s) ! a))))) xs
    \<and> ready t (r_sink s') \<and> r_time s' = t \<and> r_polls s' = r_polls s \<and> r_repeat s' = r_repeat s"
proof -
  let ?n = "pd_heap (r_data s) ! a"
  let ?s = "s\<lparr>r_time := t\<rparr>"
  obtain x xs s1 where x: "output_item pp put (l_item ?n) ?s = Some (Inr x, s1)" "processed pp (frames_of (l_item ?n)) (frames_of x)"
    "log (r_sink s1) = log (r_sink s) @ xs" "list_all2 (sent_as entry pp) (map (Pair t) (map visible (frames_of (l_item ?n)))) xs"
    "ready t (r_sink s1)" "kept ?s s1"
    using output_item_ok [of ?s "l_item ?n" pp] assms(3-5) by auto
  let ?s2 = "s1\<lparr>r_data := (r_data s)\<lparr>pd_heap := (pd_heap (r_data s))[a := ?n\<lparr>l_item := x\<rparr>]\<rparr>\<rparr>"
  have "on_list (on_node a (\<lambda>n. n\<lparr>l_item := x\<rparr>)) s1 = (Inr (), ?s2)"
    using x(6) assms(1) by (simp add: on_list_def on_node_def at_node_def kept_def)
  then have "output_node pp put a s = Some (Inr (m_next ?n), ?s2)"
    using x(1) assms(1,2) by (simp add: output_node_def bindN_def at_node_def tv_add_def)
  then show ?thesis using x by (intro exI [of _ x] exI [of _ xs] exI [of _ ?s2]) (simp add: kept_def)
qed

end

definition frames_ok :: "cPacketData \<Rightarrow> nat list \<Rightarrow> bool" where
  "frames_ok d xs \<longleftrightarrow> (\<forall>a\<in>set xs. list_all frame_ok (frames_of (l_item (pd_heap d ! a))))"

definition emits_all :: "cPreprocessor \<Rightarrow> (byte list list \<times> cTimeval) list \<Rightarrow> (byte list list \<times> cTimeval) list \<Rightarrow> bool" where
  "emits_all pp = list_all2 (\<lambda>x y. snd y = snd x \<and> list_all2 (emits pp) (fst x) (fst y))"

lemma emits_all_refl: "emits_all pp xs xs"
  by (simp add: emits_all_def list_all2_refl emits_refl)

lemma emits_all_trans: "emits_all pp xs ys \<Longrightarrow> emits_all pp ys zs \<Longrightarrow> emits_all pp xs zs"
  unfolding emits_all_def
  by (rule list_all2_trans [of _ _ _ xs ys zs]) (auto intro: list_all2_trans [of _ _ _] emits_trans)

definition interrupted :: "world \<Rightarrow> nat \<Rightarrow> bool" where
  "interrupted w k = sigintSignalled (w_signals w k)"

definition in_list :: "cPacketData \<Rightarrow> nat option \<Rightarrow> nat list \<Rightarrow> (byte list list \<times> cTimeval) list \<Rightarrow> bool" where
  "in_list d p xs fs \<longleftrightarrow> linked (pd_heap d) p xs \<and> distinct xs \<and> frames_ok d xs \<and> as_frames (contents d xs) = fs"

lemma in_list_length: "in_list d p xs fs \<Longrightarrow> length fs = length xs"
  by (auto simp: in_list_def as_frames_def contents_def)

lemma in_list_Cons:
  assumes "in_list d p (a # as) fs"
  obtains fs' where "p = Some a" "live (pd_heap d) a" "a \<notin> set as"
    "list_all frame_ok (frames_of (l_item (pd_heap d ! a)))" "in_list d (m_next (pd_heap d ! a)) as fs'"
    "fs = (map visible (frames_of (l_item (pd_heap d ! a))), m_t (pd_heap d ! a)) # fs'"
  using assms by (auto simp: in_list_def frames_ok_def as_frames_def contents_def)

lemma in_list_update_outside:
  assumes "in_list d p xs fs" and "a \<notin> set xs"
  shows "in_list (d\<lparr>pd_heap := (pd_heap d)[a := n]\<rparr>) p xs fs"
proof -
  have "(pd_heap d)[a := n] ! b = pd_heap d ! b" if "b \<in> set xs" for b using assms(2) that by (metis nth_list_update_neq)
  then have "contents (d\<lparr>pd_heap := (pd_heap d)[a := n]\<rparr>) xs = contents d xs"
    "frames_ok (d\<lparr>pd_heap := (pd_heap d)[a := n]\<rparr>) xs = frames_ok d xs"
    by (auto simp: frames_ok_def contents_def)
  then show ?thesis using assms by (simp add: in_list_def linked_update)
qed

lemma in_list_put_first:
  assumes "in_list d p as fs" and "a \<notin> set as" and "live (pd_heap d) a" and "m_next (pd_heap d ! a) = p"
    and "list_all frame_ok (frames_of (l_item (pd_heap d ! a)))"
  shows "in_list d (Some a) (a # as) ((map visible (frames_of (l_item (pd_heap d ! a))), m_t (pd_heap d ! a)) # fs)"
  using assms by (auto simp: in_list_def frames_ok_def as_frames_def contents_def)

lemma timed_Cons_eq: "timed t (x # xs) = map (Pair (t + snd x)) (fst x) @ timed (t + snd x) xs"
  by (cases x) simp

lemma duration_Cons_eq: "duration (x # xs) = unat (snd x) + duration xs"
  by (cases x) simp

lemma all_fit_append: "all_fit fits pp (xs @ ys) \<longleftrightarrow> all_fit fits pp xs \<and> all_fit fits pp ys"
  by (auto simp: all_fit_def)

text \<open>The list after \<open>j\<close> packets were handed over.\<close>

definition pass_done :: "world \<Rightarrow> cPreprocessor \<Rightarrow> nat option \<Rightarrow> nat list \<Rightarrow> (byte list list \<times> cTimeval) list \<Rightarrow> nat
    \<Rightarrow> 'k run_state \<Rightarrow> 'k run_state \<Rightarrow> bool" where
  "pass_done w pp p xs fs j s s' \<longleftrightarrow>
     j \<le> length xs \<and> r_polls s' = r_polls s + j + 1 \<and> (j < length xs \<longrightarrow> interrupted w (r_polls s + j))
     \<and> (\<forall>i<j. \<not> interrupted w (r_polls s + i)) \<and> r_repeat s' = r_repeat s \<and> pd_head (r_data s') = pd_head (r_data s)
     \<and> length (pd_heap (r_data s')) = length (pd_heap (r_data s))
     \<and> (\<exists>fs'. in_list (r_data s') p xs fs' \<and> emits_all pp fs fs')
     \<and> (\<forall>b. b \<notin> set xs \<longrightarrow> pd_heap (r_data s') ! b = pd_heap (r_data s) ! b)
     \<and> (j = length xs \<longrightarrow> r_time s' = r_time s + of_nat (duration fs))"

context frame_sink
begin

lemma output_pass_ok:
  "in_list (r_data s) p xs fs \<Longrightarrow> ready (r_time s) (r_sink s) \<Longrightarrow> all_fit fits pp (timed (r_time s) fs) \<Longrightarrow>
   unat (r_time s) + duration fs < 2 ^ 64 \<Longrightarrow>
   \<exists>j s' es. output_pass w pp put p s = Some (Inr (), s') \<and> pass_done w pp p xs fs j s s'
     \<and> log (r_sink s') = log (r_sink s) @ es \<and> list_all2 (sent_as entry pp) (timed (r_time s) (take j fs)) es
     \<and> ready (r_time s') (r_sink s')"
proof (induction xs arbitrary: p s fs)
  case Nil
  then have "p = None" "fs = []" by (auto simp: in_list_def as_frames_def contents_def)
  moreover have "output_pass w pp put None s = Some (Inr (), s\<lparr>r_polls := r_polls s + 1\<rparr>)"
    by (subst output_pass.simps) (simp add: bindN_def poll_def)
  ultimately show ?case using Nil
    by (intro exI [of _ 0] exI [of _ "s\<lparr>r_polls := r_polls s + 1\<rparr>"] exI [of _ "[]"])
      (auto simp: pass_done_def emits_all_refl)
next
  case (Cons a as)
  let ?h = "pd_heap (r_data s)"
  let ?n = "?h ! a"
  let ?bs = "map visible (frames_of (l_item ?n))" and ?t = "r_time s + m_t ?n"
  obtain fs1 where a: "p = Some a" "live ?h a" "a \<notin> set as" "list_all frame_ok (frames_of (l_item ?n))"
    "in_list (r_data s) (m_next ?n) as fs1" "fs = (?bs, m_t ?n) # fs1"
    by (rule in_list_Cons [OF Cons.prems(1)]) 
  show ?case
  proof (cases "interrupted w (r_polls s)")
    case True
    then have "output_pass w pp put p s = Some (Inr (), s\<lparr>r_polls := r_polls s + 1\<rparr>)"
      by (subst output_pass.simps) (simp add: bindN_def poll_def interrupted_def)
    then show ?thesis using True Cons.prems(1,2)
      by (intro exI [of _ 0] exI [of _ "s\<lparr>r_polls := r_polls s + 1\<rparr>"] exI [of _ "[]"])
        (auto simp: pass_done_def emits_all_refl)
  next
    case False
    let ?s = "s\<lparr>r_polls := r_polls s + 1\<rparr>"
    have fs: "timed (r_time s) fs = map (Pair ?t) ?bs @ timed ?t fs1" "duration fs = unat (m_t ?n) + duration fs1"
      using a(6) by simp_all
    have sum: "unat ?t = unat (r_time s) + unat (m_t ?n)" using Cons.prems(4) fs(2) by (simp add: unat_word_ariths)
    then have "r_time s \<le> ?t" by (simp add: word_le_nat_alt)
    then have "ready ?t (r_sink ?s)" using later Cons.prems(2) by simp
    moreover have "all_fit fits pp (map (Pair ?t) ?bs)" "all_fit fits pp (timed ?t fs1)"
      using Cons.prems(3) fs(1) by (simp_all add: all_fit_append)
    ultimately obtain x ys s1 where s1: "output_node pp put a ?s = Some (Inr (m_next ?n), s1)"
      "processed pp (frames_of (l_item ?n)) (frames_of x)"
      "r_data s1 = (r_data s)\<lparr>pd_heap := ?h[a := ?n\<lparr>l_item := x\<rparr>]\<rparr>"
      "log (r_sink s1) = log (r_sink s) @ ys" "list_all2 (sent_as entry pp) (map (Pair ?t) ?bs) ys"
      "ready ?t (r_sink s1)" "r_time s1 = ?t" "r_polls s1 = r_polls s + 1" "r_repeat s1 = r_repeat s"
      using output_node_ok [of ?s a ?t pp] a(2,4) by auto
    have step: "output_pass w pp put p s = output_pass w pp put (m_next ?n) s1"
      using False a(1) s1(1) by (subst output_pass.simps) (simp add: bindN_def poll_def interrupted_def)
    have l1: "in_list (r_data s1) (m_next ?n) as fs1" using in_list_update_outside [OF a(5,3)] s1(3) by simp
    obtain j s' es where IH: "output_pass w pp put (m_next ?n) s1 = Some (Inr (), s')"
      "pass_done w pp (m_next ?n) as fs1 j s1 s'" "log (r_sink s') = log (r_sink s1) @ es"
      "list_all2 (sent_as entry pp) (timed ?t (take j fs1)) es" "ready (r_time s') (r_sink s')"
      using Cons.IH [OF l1] s1(6,7) \<open>all_fit fits pp (timed ?t fs1)\<close> sum Cons.prems(4) fs(2) by auto
    obtain fs2 where fs2: "in_list (r_data s') (m_next ?n) as fs2" "emits_all pp fs1 fs2"
      using IH(2) by (auto simp: pass_done_def)
    have node: "pd_heap (r_data s') ! a = ?n\<lparr>l_item := x\<rparr>" "live (pd_heap (r_data s')) a"
      using IH(2) a(2,3) s1(3) by (auto simp: pass_done_def live_def)
    have list: "in_list (r_data s') p (a # as) ((map visible (frames_of x), m_t ?n) # fs2)"
      using in_list_put_first [OF fs2(1) a(3) node(2)] node(1) s1(2) a(1) by (simp add: processed_def)
    have "emits_all pp fs ((map visible (frames_of x), m_t ?n) # fs2)"
      using fs2(2) s1(2) a(6) by (simp add: emits_all_def processed_def)
    moreover have "r_polls s + 1 + i = r_polls s + Suc i" for i by simp
    moreover have "\<not> interrupted w (r_polls s + i)" if "i < Suc j" for i
      using that False IH(2) s1(8) by (cases i) (auto simp: pass_done_def)
    moreover have "r_time s + m_t ?n + of_nat (duration fs1) = r_time s + of_nat (duration fs)" using fs(2) by simp
    ultimately have "pass_done w pp p (a # as) fs (Suc j) s s'"
      using IH(2) list s1(3,7-9) by (auto simp: pass_done_def)
    moreover have "list_all2 (sent_as entry pp) (timed (r_time s) (take (Suc j) fs)) (ys @ es)"
      using s1(5) IH(4) a(6) by (simp add: list_all2_appendI)
    ultimately show ?thesis using step IH(1,3,5) s1(4)
      by (intro exI [of _ "Suc j"] exI [of _ s'] exI [of _ "ys @ es"]) simp
  qed
qed

end

subsection \<open>Rounds\<close>

text \<open>A packet list that went through the preprocessor has the same schedule, up to the addresses.\<close>

definition emits_at :: "cPreprocessor \<Rightarrow> cTimeval \<times> byte list \<Rightarrow> cTimeval \<times> byte list \<Rightarrow> bool" where
  "emits_at pp x y \<longleftrightarrow> fst y = fst x \<and> emits pp (snd x) (snd y)"

lemma timed_emits: "emits_all pp fs fs' \<Longrightarrow> list_all2 (emits_at pp) (timed t fs) (timed t fs') \<and> duration fs' = duration fs"
proof (induction fs arbitrary: fs' t)
  case (Cons x xs)
  then obtain y ys where y: "fs' = y # ys" "snd y = snd x" "list_all2 (emits pp) (fst x) (fst y)" "emits_all pp xs ys"
    by (auto simp: emits_all_def list_all2_Cons1)
  have "list_all2 (emits_at pp) (map (Pair t) (fst x)) (map (Pair t) (fst y))" for t
    using y(3) by (simp add: list_all2_map1 list_all2_map2 emits_at_def)
  then show ?case using Cons.IH [OF y(4)] y(1,2) by (simp add: timed_Cons_eq duration_Cons_eq list_all2_appendI)
qed (simp add: emits_all_def)

lemma rounds_emits: "emits_all pp fs fs' \<Longrightarrow> list_all2 (emits_at pp) (rounds n t fs) (rounds n t fs')"
  by (induction n arbitrary: t) (simp_all add: timed_emits list_all2_appendI)

lemma sent_as_emits:
  assumes "list_all2 (emits_at pp) xs ys" and "list_all2 (sent_as entry pp) (take m ys) es"
  shows "list_all2 (sent_as entry pp) (take m xs) es"
proof (rule list_all2_trans)
  show "list_all2 (emits_at pp) (take m xs) (take m ys)" using assms(1) by (rule list_all2_takeI)
qed (use assms(2) in \<open>auto simp: emits_at_def sent_as_def intro: emits_trans\<close>)

lemma all_fit_emits:
  assumes "list_all2 (emits_at pp) xs ys" and "all_fit fits pp xs"
  shows "all_fit fits pp ys"
  unfolding all_fit_def
proof (intro ballI allI impI)
  fix y b' assume y: "y \<in> set ys" "emits pp (snd y) b'"
  then obtain i where "i < length ys" "y = ys ! i" by (auto simp: in_set_conv_nth)
  then have "xs ! i \<in> set xs" "emits_at pp (xs ! i) y" using assms(1) by (auto simp: list_all2_conv_all_nth)
  then show "fits (fst y) b'" using y(2) assms(2) by (auto simp: all_fit_def emits_at_def intro: emits_trans)
qed

lemma timed_take: "timed t (take j fs) = take (length (timed t (take j fs))) (timed t fs)"
proof (induction fs arbitrary: j t)
  case (Cons x xs)
  then show ?case by (cases j) (simp_all add: timed_Cons_eq)
qed simp

text \<open>The signal stays; \<open>budget\<close>: after \<open>n\<close> rounds at the latest the loop has a reason to stop.\<close>

definition stays :: "world \<Rightarrow> bool" where
  "stays w \<longleftrightarrow> (\<forall>k. interrupted w k \<longrightarrow> interrupted w (Suc k))"

lemma stays_later:
  assumes "stays w" and "interrupted w k" and "k \<le> k'"
  shows "interrupted w k'"
  using assms(3) by (induction rule: dec_induct) (use assms in \<open>auto simp: stays_def\<close>)

definition budget :: "world \<Rightarrow> bool \<Rightarrow> nat \<Rightarrow> 'k run_state \<Rightarrow> bool" where
  "budget w endless n s \<longleftrightarrow> (if endless then \<exists>k < r_polls s + n. interrupted w k else r_repeat s = int n)"

lemma output_rounds_interrupted:
  "interrupted w (r_polls s) \<Longrightarrow> output_rounds w pp put endless s = Some (Inr (), s\<lparr>r_polls := r_polls s + 1\<rparr>)"
  by (subst output_rounds.simps) (simp add: bindN_def poll_def interrupted_def)

context frame_sink
begin

lemma output_rounds_ok:
  "in_list (r_data s) (pd_head (r_data s)) xs fs \<Longrightarrow> ready (r_time s) (r_sink s) \<Longrightarrow> stays w \<Longrightarrow> budget w endless n s \<Longrightarrow>
   all_fit fits pp (rounds n (r_time s) fs) \<Longrightarrow> unat (r_time s) + n * duration fs < 2 ^ 64 \<Longrightarrow>
   \<exists>s' es m. output_rounds w pp put endless s = Some (Inr (), s') \<and> log (r_sink s') = log (r_sink s) @ es
     \<and> list_all2 (sent_as entry pp) (take m (rounds n (r_time s) fs)) es
     \<and> (m < length (rounds n (r_time s) fs) \<longrightarrow> interrupted w (r_polls s' - 1))
     \<and> ready (r_time s') (r_sink s')
     \<and> (\<exists>fs'. in_list (r_data s') (pd_head (r_data s')) xs fs')"
proof (induction n arbitrary: s fs)
  case 0
  have "\<exists>s'. output_rounds w pp put endless s = Some (Inr (), s') \<and> r_sink s' = r_sink s \<and> r_data s' = r_data s
      \<and> r_time s' = r_time s"
  proof (cases "interrupted w (r_polls s)")
    case False
    have "\<not> endless"
    proof
      assume endless
      then obtain k where "k < r_polls s" "interrupted w k" using "0.prems"(4) by (auto simp: budget_def)
      then show False using False stays_later [OF "0.prems"(3), of k "r_polls s"] by simp
    qed
    then have "\<not> endless \<and> r_repeat s = 0" using "0.prems"(4) by (simp add: budget_def)
    then show ?thesis using False
      by (subst output_rounds.simps) (simp add: bindN_def poll_def interrupted_def another_round_def)
  qed (simp add: output_rounds_interrupted)
  then show ?case using "0.prems"(1,2) by auto
next
  case (Suc n)
  show ?case
  proof (cases "interrupted w (r_polls s)")
    case True
    then show ?thesis using output_rounds_interrupted [OF True, of pp put endless] Suc.prems(1,2)
      by (intro exI [of _ "s\<lparr>r_polls := r_polls s + 1\<rparr>"] exI [of _ "[]"] exI [of _ 0]) auto
  next
    case False
    define s1 where "s1 = s\<lparr>r_polls := r_polls s + 1, r_repeat := (if endless then r_repeat s else r_repeat s - 1)\<rparr>"
    have s1: "r_data s1 = r_data s" "r_time s1 = r_time s" "r_sink s1 = r_sink s" "r_polls s1 = r_polls s + 1"
      by (simp_all add: s1_def)
    have step: "output_rounds w pp put endless s = bindN (\<lambda>s. output_pass w pp put (pd_head (r_data s)) s)
        (\<lambda>_ s. output_rounds w pp put endless s) s1"
      using False Suc.prems(4)
      by (cases endless; subst output_rounds.simps)
        (simp_all add: bindN_def poll_def interrupted_def another_round_def s1_def budget_def)
    have R: "rounds (Suc n) (r_time s) fs = timed (r_time s) fs @ rounds n (r_time s + of_nat (duration fs)) fs" by simp
    have fit: "all_fit fits pp (timed (r_time s) fs)" "all_fit fits pp (rounds n (r_time s + of_nat (duration fs)) fs)"
      using Suc.prems(5) by (simp_all add: all_fit_append)
    obtain j s2 es where p: "output_pass w pp put (pd_head (r_data s)) s1 = Some (Inr (), s2)"
      "pass_done w pp (pd_head (r_data s)) xs fs j s1 s2" "log (r_sink s2) = log (r_sink s) @ es"
      "list_all2 (sent_as entry pp) (timed (r_time s) (take j fs)) es" "ready (r_time s2) (r_sink s2)"
      using output_pass_ok [of s1 "pd_head (r_data s)" xs fs pp w] Suc.prems(1,2,6) fit(1) s1 by auto
    have cont: "output_rounds w pp put endless s = output_rounds w pp put endless s2"
      using step p(1) s1(1) by (simp add: bindN_def)
    obtain fs2 where fs2: "in_list (r_data s2) (pd_head (r_data s)) xs fs2" "emits_all pp fs fs2"
      using p(2) by (auto simp: pass_done_def)
    have head: "pd_head (r_data s2) = pd_head (r_data s)" using p(2) s1 by (simp add: pass_done_def)
    show ?thesis
    proof (cases "j = length xs")
      case False
      then have "interrupted w (r_polls s2)" using p(2) stays_later [OF Suc.prems(3), of "r_polls s1 + j" "r_polls s2"]
        by (simp add: pass_done_def)
      from output_rounds_interrupted [OF this, of pp put endless] \<open>interrupted w (r_polls s2)\<close>
      have "\<exists>s' es m. output_rounds w pp put endless s = Some (Inr (), s') \<and> s' = s2\<lparr>r_polls := r_polls s2 + 1\<rparr>
          \<and> log (r_sink s') = log (r_sink s) @ es \<and> list_all2 (sent_as entry pp) (take m (rounds (Suc n) (r_time s) fs)) es
          \<and> (m < length (rounds (Suc n) (r_time s) fs) \<longrightarrow> interrupted w (r_polls s' - 1))"
        using cont p(3,4) timed_take [of "r_time s" j fs] R
        by (intro exI [of _ "s2\<lparr>r_polls := r_polls s2 + 1\<rparr>"] exI [of _ es] exI [of _ "length (timed (r_time s) (take j fs))"])
          (simp, metis (no_types, lifting) append_Nil2 length_take min.cobounded1 take0 diff_is_0_eq)
      then show ?thesis using p(5) fs2(1) head by fastforce
    next
      case True
      let ?t = "r_time s + of_nat (duration fs)"
      have t: "r_time s2 = ?t" "r_repeat s2 = r_repeat s1" "r_polls s2 > r_polls s1" "pd_head (r_data s2) = pd_head (r_data s)"
        using p(2) True s1 by (simp_all add: pass_done_def)
      have dur: "duration fs2 = duration fs" using timed_emits [OF fs2(2)] by simp
      note em = rounds_emits [OF fs2(2), of n ?t]
      have "k < r_polls s + Suc n \<Longrightarrow> k < r_polls s2 + n" for k using t(3) s1(4) by simp
      then have "budget w endless n s2"
        using Suc.prems(4) t(2) unfolding budget_def s1_def by (cases endless) (simp_all, blast)
      moreover have "unat ?t + n * duration fs2 < 2 ^ 64"
      proof -
        have "unat (r_time s) + duration fs < 2 ^ 64" using Suc.prems(6) by simp
        then have "unat ?t = unat (r_time s) + duration fs" by (simp add: unat_word_ariths unat_of_nat)
        then show ?thesis using Suc.prems(6) dur by simp
      qed
      ultimately obtain s' es2 m where IH: "output_rounds w pp put endless s2 = Some (Inr (), s')"
        "log (r_sink s') = log (r_sink s2) @ es2" "list_all2 (sent_as entry pp) (take m (rounds n ?t fs2)) es2"
        "m < length (rounds n ?t fs2) \<longrightarrow> interrupted w (r_polls s' - 1)"
        "ready (r_time s') (r_sink s')" "\<exists>fs'. in_list (r_data s') (pd_head (r_data s')) xs fs'"
        using Suc.IH [of s2 fs2] fs2(1) t(1,4) p(5) True Suc.prems(3) all_fit_emits [OF em fit(2)] by auto
      have len: "length (rounds n ?t fs2) = length (rounds n ?t fs)" using em by (simp add: list_all2_lengthD)
      have "list_all2 (sent_as entry pp) (timed (r_time s) fs) es"
        using p(4) True in_list_length [OF Suc.prems(1)] by simp
      then have "list_all2 (sent_as entry pp) (take (length (timed (r_time s) fs) + m) (rounds (Suc n) (r_time s) fs)) (es @ es2)"
        using sent_as_emits [OF em IH(3)] R by (simp add: list_all2_appendI)
      then show ?thesis using cont IH(1,2,4-6) p(3) R len
        by (intro exI [of _ s'] exI [of _ "es @ es2"] exI [of _ "length (timed (r_time s) fs) + m"]) simp
    qed
  qed
qed

end

subsection \<open>The capture file takes frames\<close>

definition capture_ready :: "world \<Rightarrow> cTimeval \<Rightarrow> cOutput \<Rightarrow> bool" where
  "capture_ready w t o1 \<longleftrightarrow> m_netif o1 = None \<and> (\<forall>n. \<not> dump_ferror (w_libpcap w) n)
     \<and> (case m_outfile o1 of Some (PcapBackend b) \<Rightarrow>
          m_fileHandle (pb_outfile b) \<noteq> None \<and> m_dumper (pb_outfile b) \<noteq> None \<and> m_modeWrite (pb_outfile b)
          \<and> \<not> m_fileError (pb_outfile b) \<and> m_pcapWrittenPackets b = of_nat (length (the (m_dumper (pb_outfile b))))
        | _ \<Rightarrow> False)"

definition capture_log :: "cOutput \<Rightarrow> pcap_record list" where
  "capture_log o1 = (case m_outfile o1 of
     Some (PcapBackend b) \<Rightarrow> (case m_dumper (pb_outfile b) of Some rs \<Rightarrow> rs | None \<Rightarrow> []) | _ \<Rightarrow> [])"

definition captured :: "cTimeval \<Rightarrow> byte list \<Rightarrow> pcap_record \<Rightarrow> bool" where
  "captured t b r \<longleftrightarrow> r = (\<lparr>ts = timeval_of t, caplen = of_nat (length b), pkt_len = of_nat (length b)\<rparr>, b)"

definition small :: "cTimeval \<Rightarrow> byte list \<Rightarrow> bool" where
  "small t b \<longleftrightarrow> length b < 2 ^ 31"

lemma visible_length: "frame_ok e \<Longrightarrow> length (visible e) = getLength e"
  by (simp add: frame_ok_def visible_def)

lemma capture_put:
  assumes "capture_ready w t o1" and "small t (visible e)" and "frame_ok e"
  shows "\<exists>o2 x. output_put w t e o1 = Some (Inr (), o2) \<and> capture_log o2 = capture_log o1 @ [x]
    \<and> captured t (visible e) x \<and> capture_ready w t o2"
proof -
  obtain b h rs where b: "m_netif o1 = None" "m_outfile o1 = Some (PcapBackend b)" "m_fileHandle (pb_outfile b) = Some h"
    "m_dumper (pb_outfile b) = Some rs" "m_modeWrite (pb_outfile b)" "\<not> m_fileError (pb_outfile b)"
    "m_pcapWrittenPackets b = of_nat (length rs)"
    "\<And>n. \<not> dump_ferror (w_libpcap w) n"
    using assms(1) by (fastforce simp: capture_ready_def split: option.splits cFileBackend.splits)
  let ?n = "getLength e"
  have n: "?n < 2 ^ 31" "?n \<le> length (packet e)"
    using assms(2,3) visible_length [OF assms(3)] by (simp_all add: small_def frame_ok_def)
  have sint: "sint (of_nat ?n :: u32) = int ?n"
    using n(1) by (simp add: signed_of_nat signed_take_bit_int_eq_self)
  have unat: "unat (of_nat ?n :: u32) = ?n" using n(1) by (simp add: unat_of_nat)
  let ?f = "(pb_outfile b)\<lparr>m_offset := t, m_dumper := Some (rs @ [(\<lparr>ts = timeval_of t, caplen = of_nat ?n, pkt_len = of_nat ?n\<rparr>,
    visible e)]), m_fileError := False\<rparr>"
  have "pcap_write (w_libpcap w) t (packet e) (int ?n) True (pb_outfile b) = Inr (True, ?f)"
    using b n(2) unat by (simp add: pcap_write_def Let_def visible_def)
  then have "output_put w t e o1 = Some (Inr (), o1\<lparr>m_outfile := Some (PcapBackend (b\<lparr>pb_outfile := ?f,
      m_pcapWrittenPackets := m_pcapWrittenPackets b + 1, m_pcapWrittenBytes := m_pcapWrittenBytes b + of_nat ?n\<rparr>))\<rparr>)"
    using b(1,2) by (simp add: output_put_def file_write_def pb_write_def sint Let_def)
  then show ?thesis using b visible_length [OF assms(3)] by (simp add: capture_log_def captured_def capture_ready_def)
qed

interpretation capture_sink: frame_sink "output_put w" "capture_ready w" small capture_log captured
  by unfold_locales (rule capture_put, auto simp: capture_ready_def split: option.splits cFileBackend.splits)

subsection \<open>The network takes frames\<close>

text \<open>\<open>sync\<close>: the interface was prepared for sending at given times.\<close>

definition wire_ready :: "world \<Rightarrow> nat \<Rightarrow> bool \<Rightarrow> cTimeval \<Rightarrow> cOutput \<Rightarrow> bool" where
  "wire_ready w k0 sync t o1 \<longleftrightarrow> (case m_netif o1 of None \<Rightarrow> False
     | Some i \<Rightarrow> can_send (w_os w) k0 (lastSentPacket i) i \<and> lastSentPacket i \<le> t
         \<and> (if sync then sleep_resolution i \<noteq> 0 else lastSentPacket i = 0))"

definition wire_log :: "cOutput \<Rightarrow> (nat \<times> byte list) list" where
  "wire_log o1 = (case m_netif o1 of Some i \<Rightarrow> wire i | None \<Rightarrow> [])"

definition soon :: "bool \<Rightarrow> cTimeval \<Rightarrow> byte list \<Rightarrow> bool" where
  "soon sync t b \<longleftrightarrow> unat t \<le> 2 ^ 63 \<and> (sync \<or> t = 0)"

lemma wire_put:
  assumes "wire_ready w k0 sync t o1" and "soon sync t (visible e)"
  shows "\<exists>o2 x. output_put w t e o1 = Some (Inr (), o2) \<and> wire_log o2 = wire_log o1 @ [x]
    \<and> on_time (w_os w) k0 t (visible e) x \<and> wire_ready w k0 sync t o2"
proof -
  obtain i where i: "m_netif o1 = Some i" "can_send (w_os w) k0 (lastSentPacket i) i" "lastSentPacket i \<le> t"
    "if sync then sleep_resolution i \<noteq> 0 else lastSentPacket i = 0"
    using assms(1) by (auto simp: wire_ready_def split: option.splits)
  have t: "unat t \<le> 2 ^ 63" "sync \<or> t = 0" using assms(2) by (simp_all add: soon_def)
  have "can_send (w_os w) k0 t i" using i(2-4) t by (auto simp: can_send_def split: if_splits)
  from sendPacket_runs [OF this, of "visible e"] obtain i' x where
    s: "sendPacket (w_os w) (visible e) t i = Some (Inr True, i')" "wire i' = wire i @ [x]"
    "on_time (w_os w) k0 t (visible e) x" "lastSentPacket i' = t" "sleep_resolution i' = sleep_resolution i"
    "\<forall>t'. t \<le> t' \<and> unat t' \<le> 2 ^ 63 \<and> (sleep_resolution i = 0 \<longrightarrow> t' = t) \<longrightarrow> can_send (w_os w) k0 t' i'"
    by (elim exE conjE) (rule that)
  then have "can_send (w_os w) k0 t i'" using t(1) by simp
  have "output_put w t e o1 = Some (Inr (), o1\<lparr>m_netif := Some i'\<rparr>)"
    using i(1) s(1) by (simp add: output_put_def netif_put_def bindN_def)
  then show ?thesis using i s(2-5) t(2) \<open>can_send (w_os w) k0 t i'\<close>
    by (cases x) (auto simp: wire_log_def wire_ready_def split: if_splits)
qed

interpretation wire_sink: frame_sink "output_put w" "wire_ready w k0 sync" "soon sync" wire_log "on_time (w_os w) k0"
proof unfold_locales
  fix t t' k
  assume "wire_ready w k0 sync t k" "t \<le> t'"
  then show "wire_ready w k0 sync t' k" by (auto simp: wire_ready_def split: option.splits)
qed (rule wire_put)

subsection \<open>The text file takes frames\<close>

text \<open>With the format \<open>hexstream\<close> every frame is one line, which \<open>hexStringToBin\<close> reads.\<close>

fun whole_lines :: "string \<Rightarrow> string \<Rightarrow> string list" where
  "whole_lines cur [] = []"
| "whole_lines cur (c # cs) = (if c = CHR 0x0A then cur # whole_lines [] cs else whole_lines (cur @ [c]) cs)"

fun open_line :: "string \<Rightarrow> string \<Rightarrow> string" where
  "open_line cur [] = cur"
| "open_line cur (c # cs) = (if c = CHR 0x0A then open_line [] cs else open_line (cur @ [c]) cs)"

lemma whole_lines_append: "whole_lines cur (a @ b) = whole_lines cur a @ whole_lines (open_line cur a) b"
  by (induction a arbitrary: cur) auto

lemma open_line_append: "open_line cur (a @ b) = open_line (open_line cur a) b"
  by (induction a arbitrary: cur) auto

lemma whole_lines_one: "CHR 0x0A \<notin> set a \<Longrightarrow> whole_lines cur (a @ [CHR 0x0A]) = [cur @ a] \<and> open_line cur (a @ [CHR 0x0A]) = []"
  by (induction a arbitrary: cur) auto

definition hex_ready :: "world \<Rightarrow> cTimeval \<Rightarrow> cOutput \<Rightarrow> bool" where
  "hex_ready w t o1 \<longleftrightarrow> m_netif o1 = None \<and> (\<forall>n. \<not> printf_fails (w_stdio w) n)
     \<and> (case m_outfile o1 of Some (AsciiBackend a) \<Rightarrow>
          \<not> m_printPacketNumber a \<and> \<not> m_printPacketTime a \<and> \<not> m_hexdump a \<and> m_byteSeparator a = []
          \<and> open_line [] (ab_text a) = []
        | _ \<Rightarrow> False)"

definition hex_log :: "cOutput \<Rightarrow> string list" where
  "hex_log o1 = (case m_outfile o1 of Some (AsciiBackend a) \<Rightarrow> whole_lines [] (ab_text a) | _ \<Rightarrow> [])"

definition hex_line :: "cTimeval \<Rightarrow> byte list \<Rightarrow> string \<Rightarrow> bool" where
  "hex_line t b line \<longleftrightarrow> hexStringToBin line 0 = Some b"

definition nonempty :: "cTimeval \<Rightarrow> byte list \<Rightarrow> bool" where
  "nonempty t b \<longleftrightarrow> b \<noteq> []"

lemma hex_byte_not_Nil: "hex_byte b \<noteq> []"
  by (simp add: hex_byte_def)

lemma print_bytes_run:
  assumes "\<forall>n. \<not> printf_fails io n" and "m_byteSeparator a = []"
  shows "\<exists>n k. print_bytes io bs a = (Inr (), a\<lparr>ab_calls := k, m_writtenBytes := n, ab_text := ab_text a @ concat (map hex_byte bs)\<rparr>)"
  using assms(2)
proof (induction bs arbitrary: a)
  case Nil
  then show ?case by (auto intro!: exI cAsciiBackend.equality)
next
  case (Cons b bs)
  let ?a = "a\<lparr>ab_calls := ab_calls a + 1, m_writtenBytes := m_writtenBytes a + of_nat (length (hex_byte b)),
    ab_text := ab_text a @ hex_byte b\<rparr>"
  obtain n k where r: "print_bytes io bs ?a = (Inr (), ?a\<lparr>ab_calls := k, m_writtenBytes := n,
      ab_text := ab_text ?a @ concat (map hex_byte bs)\<rparr>)" using Cons.IH [of ?a] Cons.prems by auto
  have "ab_printf io (hex_byte b @ []) a = (Inr (), ?a)"
    using assms(1) by (simp add: ab_printf_def Let_def hex_byte_not_Nil)
  then show ?case using r Cons.prems by (intro exI [of _ n] exI [of _ k]) (simp add: bindM_def)
qed

lemma hex_bytes_no_newline: "CHR 0x0A \<notin> set (concat (map hex_byte bs))"
proof -
  have "hex_digit n \<noteq> CHR 0x0A" if "n < 16" for n
    using digit_val_hex_digit [OF that] by (auto simp: digit_val_def isdigit_def code_of_def)
  then have "CHR 0x0A \<notin> set (hex_byte b)" for b using nibbles [of b] by (simp add: hex_byte_def) metis
  then show ?thesis by simp
qed

lemma hex_put:
  assumes "hex_ready w t o1" and "nonempty t (visible e)" and "frame_ok e"
  shows "\<exists>o2 x. output_put w t e o1 = Some (Inr (), o2) \<and> hex_log o2 = hex_log o1 @ [x]
    \<and> hex_line t (visible e) x \<and> hex_ready w t o2"
proof -
  obtain a where a: "m_netif o1 = None" "m_outfile o1 = Some (AsciiBackend a)" "\<forall>n. \<not> printf_fails (w_stdio w) n"
    "\<not> m_printPacketNumber a" "\<not> m_printPacketTime a" "\<not> m_hexdump a" "m_byteSeparator a = []"
    "open_line [] (ab_text a) = []"
    using assms(1) by (auto simp: hex_ready_def split: option.splits cFileBackend.splits)
  let ?x = "concat (map hex_byte (visible e))"
  obtain n k where p: "print_bytes (w_stdio w) (visible e) a = (Inr (), a\<lparr>ab_calls := k, m_writtenBytes := n,
      ab_text := ab_text a @ ?x\<rparr>)" using print_bytes_run [OF a(3,7)] by blast
  obtain a2 where a2: "ab_write (w_stdio w) t e a = (Inr (), a2)" "ab_text a2 = ab_text a @ (?x @ [CHR 0x0A])"
    "m_printPacketNumber a2 = m_printPacketNumber a" "m_printPacketTime a2 = m_printPacketTime a"
    "m_hexdump a2 = m_hexdump a" "m_byteSeparator a2 = m_byteSeparator a"
    using p a(3-6) by (simp add: ab_write_def bindM_def Let_def ab_printf_def newline_def count_packet_def)
  have len: "visible e \<noteq> []" using assms(2) by (simp add: nonempty_def)
  then have "?x \<noteq> []" by (metis length_hex_bytes length_0_conv mult_is_0 zero_neq_numeral)
  then have "hexStringToBin ?x 0 = hexStringToBin (?x @ []) (2 * length (visible e))"
    using length_hex_bytes [of "visible e"] len by (simp add: hexStringToBin_def)
  then have "hex_line t (visible e) ?x" using hexStringToBin_hex_bytes [OF len, of "[]"] by (simp add: hex_line_def)
  moreover have "output_put w t e o1 = Some (Inr (), o1\<lparr>m_outfile := Some (AsciiBackend a2)\<rparr>)"
    using a(1,2) a2(1) by (simp add: output_put_def file_write_def)
  moreover have "whole_lines [] (ab_text a2) = whole_lines [] (ab_text a) @ [?x]" "open_line [] (ab_text a2) = []"
    using whole_lines_one [OF hex_bytes_no_newline [of "visible e"], of "[]"] a(8) unfolding a2(2)
    by (simp_all add: whole_lines_append open_line_append)
  ultimately show ?thesis using a a2(3-6) by (simp add: hex_log_def hex_ready_def)
qed

interpretation hex_sink: frame_sink "output_put w" "hex_ready w" nonempty hex_log hex_line
  by unfold_locales (rule hex_put, auto simp: hex_ready_def split: option.splits cFileBackend.splits)

subsection \<open>The whole stage\<close>

lemma timed_members: "tb \<in> set (timed t fs) \<Longrightarrow> unat t + duration fs < 2 ^ 64 \<Longrightarrow>
    unat (fst tb) \<le> unat t + duration fs \<and> (\<exists>x\<in>set fs. snd tb \<in> set (fst x))"
proof (induction fs arbitrary: t)
  case (Cons x xs)
  have "unat (t + snd x) = unat t + unat (snd x)" using Cons.prems(2) by (simp add: duration_Cons_eq unat_word_ariths)
  then show ?case using Cons.prems Cons.IH [of "t + snd x"] by (auto simp: timed_Cons_eq duration_Cons_eq)
qed simp

lemma rounds_members: "tb \<in> set (rounds n t fs) \<Longrightarrow> unat t + n * duration fs < 2 ^ 64 \<Longrightarrow>
    unat (fst tb) \<le> unat t + n * duration fs \<and> (\<exists>x\<in>set fs. snd tb \<in> set (fst x))"
proof (induction n arbitrary: t)
  case (Suc n)
  have "unat (t + of_nat (duration fs)) = unat t + duration fs"
    using Suc.prems(2) by (simp add: unat_word_ariths unat_of_nat)
  then show ?case using Suc.prems Suc.IH [of "t + of_nat (duration fs)"] timed_members [of tb t fs]
    by (auto simp: add.assoc)
qed simp

lemma all_fit_small:
  assumes "\<forall>x\<in>set fs. \<forall>b\<in>set (fst x). length b < 2 ^ 31" and "n * duration fs < 2 ^ 64"
  shows "all_fit small pp (rounds n 0 fs)"
  unfolding all_fit_def
proof (intro ballI allI impI)
  fix tb b' assume tb: "tb \<in> set (rounds n 0 fs)" "emits pp (snd tb) b'"
  then have "length (snd tb) < 2 ^ 31" using rounds_members [OF tb(1)] assms by auto
  then show "small (fst tb) b'" using tb(2) by (simp add: small_def emits_def)
qed

lemma all_fit_soon:
  assumes "n * duration fs \<le> 2 ^ 63" and "sync \<or> duration fs = 0"
  shows "all_fit (soon sync) pp (rounds n 0 fs)"
  unfolding all_fit_def
proof (intro ballI allI impI)
  fix tb b' assume "tb \<in> set (rounds n 0 fs)"
  then have t: "unat (fst tb) \<le> n * duration fs" using rounds_members [of tb n 0 fs] assms(1) by simp
  then have "fst tb = 0" if "duration fs = 0" using that by (simp add: unat_eq_zero)
  then show "soon sync (fst tb) b'" using t assms by (auto simp: soon_def)
qed

lemma all_fit_nonempty:
  assumes "\<forall>x\<in>set fs. \<forall>b\<in>set (fst x). b \<noteq> []" and "n * duration fs < 2 ^ 64"
  shows "all_fit nonempty pp (rounds n 0 fs)"
  unfolding all_fit_def
proof (intro ballI allI impI)
  fix tb b' assume tb: "tb \<in> set (rounds n 0 fs)" "emits pp (snd tb) b'"
  then have "snd tb \<noteq> []" using rounds_members [OF tb(1)] assms by auto
  then show "nonempty (fst tb) b'" using tb(2) by (auto simp: nonempty_def emits_def)
qed

definition output_start :: "cOutput run_state \<Rightarrow> cOutput run_state" where
  "output_start s = s\<lparr>r_time := 0, r_repeat := m_repeat (r_sink s)\<rparr>"

lemma output_start_simps [simp]:
  "r_data (output_start s) = r_data s" "r_sink (output_start s) = r_sink s" "r_time (output_start s) = 0"
  "r_polls (output_start s) = r_polls s" "r_repeat (output_start s) = m_repeat (r_sink s)"
  by (simp_all add: output_start_def)

lemma run_output_file:
  "m_netif (r_sink s) = None \<Longrightarrow> run_output w pp s =
     output_rounds w pp (output_put w) (m_repeat (r_sink s) = 0) (output_start s)"
  by (simp add: run_output_def bindN_def on_sink_def output_prepare_def output_start_def)

definition prepared_netif :: "world \<Rightarrow> bool \<Rightarrow> cInterface \<Rightarrow> cInterface \<Rightarrow> bool" where
  "prepared_netif w sync i i' \<longleftrightarrow> (if sync
     then \<exists>res k. SleepInit (os_clock (w_os w)) (k_clock i) = (Inr res, k) \<and> res \<noteq> 0
        \<and> i' = i\<lparr>k_clock := k, sleep_resolution := res\<rparr>
     else i' = i)"

lemma run_output_netif:
  assumes "m_netif (r_sink s) = Some i" and "prepared_netif w (m_realtimeMode (r_sink s)) i i'"
  shows "run_output w pp s = output_rounds w pp (output_put w) (m_repeat (r_sink s) = 0)
    (output_start (s\<lparr>r_sink := (r_sink s)\<lparr>m_netif := Some i'\<rparr>\<rparr>))"
proof -
  have "\<exists>a b. queue_sizes (m_repeat (r_sink s)) (r_data s) = (a, b)" by (simp add: queue_sizes_def)
  then have "output_prepare w (r_data s) (r_sink s) = (Inr (), (r_sink s)\<lparr>m_netif := Some i'\<rparr>)"
    using assms by (auto simp: output_prepare_def prepareSendQueue_def prepared_netif_def bindM_def split: if_splits)
  then show ?thesis by (simp add: run_output_def bindN_def on_sink_def output_start_def)
qed

text \<open>A loop without end: nothing stops it when no signal comes.\<close>

lemma duration_0: "duration fs = 0 \<Longrightarrow> emits_all pp fs fs' \<Longrightarrow> duration fs' = 0"
  using timed_emits by metis

context frame_sink
begin

definition idle :: "cPreprocessor \<Rightarrow> cTimeval \<Rightarrow> nat list \<Rightarrow> (byte list list \<times> cTimeval) list \<Rightarrow> 'k run_state \<Rightarrow> bool" where
  "idle pp t xs fs0 s \<longleftrightarrow> r_time s = t \<and> ready t (r_sink s)
     \<and> (\<exists>fs. in_list (r_data s) (pd_head (r_data s)) xs fs \<and> emits_all pp fs0 fs)"

lemma endless_pass:
  assumes "idle pp t xs fs0 s" and "\<forall>k. \<not> interrupted w k" and "duration fs0 = 0" and "all_fit fits pp (timed t fs0)"
  shows "\<exists>s'. output_pass w pp put (pd_head (r_data s)) s = Some (Inr (), s') \<and> idle pp t xs fs0 s'"
proof -
  obtain fs where fs: "in_list (r_data s) (pd_head (r_data s)) xs fs" "emits_all pp fs0 fs" and t: "r_time s = t" "ready t (r_sink s)"
    using assms(1) by (auto simp: idle_def)
  have d: "duration fs = 0" by (rule duration_0 [OF assms(3) fs(2)])
  have fit: "all_fit fits pp (timed t fs)" using all_fit_emits [OF conjunct1 [OF timed_emits [OF fs(2)]] assms(4)] .
  obtain j s' where p: "output_pass w pp put (pd_head (r_data s)) s = Some (Inr (), s')"
    "pass_done w pp (pd_head (r_data s)) xs fs j s s'" "ready (r_time s') (r_sink s')"
    using output_pass_ok [of s "pd_head (r_data s)" xs fs pp w] fs(1) t fit d unsigned_less [of "r_time s", where 'a = nat]
    by auto
  have j: "j = length xs" using p(2) assms(2) by (auto simp: pass_done_def)
  then have "idle pp t xs fs0 s'" using p(2,3) d t(1) emits_all_trans [OF fs(2)] by (auto simp: pass_done_def idle_def)
  then show ?thesis using p(1) by blast
qed

lemma endless_never_returns:
  assumes "\<forall>k. \<not> interrupted w k" and "duration fs0 = 0" and "all_fit fits pp (timed t fs0)" and "idle pp t xs fs0 s"
  shows "output_rounds w pp put True s = None"
proof -
  have "output_rounds w' pp' put' endless' s' = Some r \<Longrightarrow>
      w' = w \<and> pp' = pp \<and> put' = put \<and> endless' \<and> idle pp t xs fs0 s' \<longrightarrow> False" for w' pp' put' endless' s' r
  proof (rule output_rounds.raw_induct [where P = "\<lambda>w' pp' put' endless' s' r.
      w' = w \<and> pp' = pp \<and> put' = put \<and> endless' \<and> idle pp t xs fs0 s' \<longrightarrow> False"])
    fix again and w' :: world and pp' put' endless' s' r
    assume IH: "\<And>w' pp' put' endless' s' r. again w' pp' put' endless' s' = Some r
        \<Longrightarrow> w' = w \<and> pp' = pp \<and> put' = put \<and> endless' \<and> idle pp t xs fs0 s' \<longrightarrow> False"
      and h: "bindN (poll w') (\<lambda>signalled s.
         if signalled then Some (Inr (), s)
         else bindN (liftN (another_round endless')) (\<lambda>more s.
           if \<not> more then Some (Inr (), s)
           else bindN (\<lambda>s. output_pass w' pp' put' (pd_head (r_data s)) s) (\<lambda>_ s. again w' pp' put' endless' s) s) s) s' = Some r"
    show "w' = w \<and> pp' = pp \<and> put' = put \<and> endless' \<and> idle pp t xs fs0 s' \<longrightarrow> False"
    proof
      assume a: "w' = w \<and> pp' = pp \<and> put' = put \<and> endless' \<and> idle pp t xs fs0 s'"
      let ?s = "s'\<lparr>r_polls := r_polls s' + 1\<rparr>"
      have "idle pp t xs fs0 ?s" using a by (simp add: idle_def)
      then obtain s2 where s2: "output_pass w pp put (pd_head (r_data ?s)) ?s = Some (Inr (), s2)" "idle pp t xs fs0 s2"
        using endless_pass [OF _ assms(1-3)] by blast
      then have "again w pp put endless' s2 = Some r" using h a assms(1)
        by (simp add: bindN_def poll_def interrupted_def another_round_def)
      from IH [OF this] show False using s2(2) a by simp
    qed
  qed
  then show ?thesis using assms(4) by (cases "output_rounds w pp put True s") auto
qed

end

end
