(* ===== verification/TcpPump.thy ===== *)
theory TcpPump
  imports Output CaptureFacts
begin

section \<open>The program\<close>

text \<open>
  src/tcppump.cpp: what \<open>cTcpPump::execute\<close> does with the options and arguments, which its base class has
  read. The library of that base class (\<open>libcmdline\<close>) is a git submodule without files here. Messages are
  left out, but for the text of a parse error; the C library's \<open>stod\<close> is that of theory Double.

  An early \<open>return\<close> of \<open>execute\<close> is \<open>Inl\<close> of its exit code inside of the result; exceptions are \<open>Inl\<close> of the
  result as everywhere.
\<close>

record appOptions =
  opt_ifc :: "string option"
  opt_repeat :: int
  opt_delay :: "32 word"
  opt_timeRes :: string
  opt_script :: bool
  opt_pcap :: bool
  opt_pcapScaling :: "string option"
  opt_outfile :: "string option"
  opt_myIP :: "string option"
  opt_myIPv6 :: "string option"
  opt_myMAC :: "string option"
  opt_randSrcMac :: bool
  opt_randDstMac :: bool
  opt_arp :: bool
  opt_overwriteDMAC :: "string option"
  opt_predictableRandom :: bool
  opt_mtu :: u32
  opt_outFormat :: string

text \<open>The defaults of the constructor: all zero but three.\<close>

definition default_options :: appOptions where
  "default_options = \<lparr>opt_ifc = None, opt_repeat = 1, opt_delay = 0, opt_timeRes = ''m'', opt_script = False,
     opt_pcap = False, opt_pcapScaling = None, opt_outfile = None, opt_myIP = None, opt_myIPv6 = None,
     opt_myMAC = None, opt_randSrcMac = False, opt_randDstMac = False, opt_arp = False,
     opt_overwriteDMAC = None, opt_predictableRandom = False, opt_mtu = 0, opt_outFormat = ''pcap''\<rparr>"

record pump = env +
  ifc :: "cInterface option"

type_synonym ('s, 'a) step = "('s, int + 'a) M"

definition exit_code :: "int \<Rightarrow> ('s, 'a) step" where
  "exit_code c = returnM (Inl c)"

definition go_on :: "'a \<Rightarrow> ('s, 'a) step" where
  "go_on x = returnM (Inr x)"

definition and_then :: "('s, 'a) step \<Rightarrow> ('a \<Rightarrow> ('s, 'b) step) \<Rightarrow> ('s, 'b) step" where
  "and_then m f = bindM m (\<lambda>r. case r of Inl c \<Rightarrow> exit_code c | Inr x \<Rightarrow> f x)"

subsection \<open>Checking the command line\<close>

definition check_arguments :: "appOptions \<Rightarrow> string list \<Rightarrow> (pump, unit) step" where
  "check_arguments opt args =
     (if args \<noteq> [] \<and> hd args = ''help'' then exit_code 0
      else if opt_ifc opt = None \<and> (opt_outfile opt = None \<or> opt_arp opt) then exit_code (-1)
      else if args = [] then exit_code (-2)
      else go_on ())"

definition time_scale :: "string \<Rightarrow> u32 option" where
  "time_scale res =
     (if char_at res 0 = CHR ''u'' then Some 1
      else if char_at res 0 = CHR ''m'' then Some 1000
      else if char_at res 0 = CHR ''c'' then Some 10000
      else if char_at res 0 = CHR ''s'' then Some 1000000
      else None)"

definition read_scales :: "appOptions \<Rightarrow> (pump, u32 \<times> double) step" where
  "read_scales opt = (case time_scale (opt_timeRes opt) of
     None \<Rightarrow> exit_code (-2)
   | Some timeScale \<Rightarrow> (case opt_pcapScaling opt of
       Some text \<Rightarrow>
         if opt_pcap opt then (case stod text of Inl e \<Rightarrow> exit_code (-2) | Inr (d, r) \<Rightarrow> go_on (timeScale, d))
         else go_on (timeScale, dbl 1 1)
     | None \<Rightarrow> go_on (timeScale, dbl 1 1)))"

definition apply_option :: "string option \<Rightarrow> (string \<Rightarrow> (pump, bool) M) \<Rightarrow> (pump, unit) step" where
  "apply_option value setter = (case value of
     None \<Rightarrow> go_on ()
   | Some text \<Rightarrow> bindM (setter text) (\<lambda>ok. if ok then go_on () else exit_code (-1)))"

definition read_overwriteDMAC :: "appOptions \<Rightarrow> (pump, byte list option) step" where
  "read_overwriteDMAC opt = (case opt_overwriteDMAC opt of
     None \<Rightarrow> go_on None
   | Some text \<Rightarrow> bindM (mac_set text 0) (\<lambda>r. case r of None \<Rightarrow> exit_code (-1) | Some m \<Rightarrow> go_on (Some m)))"

subsection \<open>The interface and its addresses\<close>

definition create_interface :: "world \<Rightarrow> appOptions \<Rightarrow> (pump, unit) step" where
  "create_interface w opt = (case opt_ifc opt of
     None \<Rightarrow> go_on ()
   | Some name \<Rightarrow>
       (let i = new_cInterface (w_os w) name (opt_outfile opt = None)
        in bindM (modifyM (\<lambda>s. s\<lparr>ifc := Some i\<rparr>)) (\<lambda>_. if isReady i then go_on () else exit_code (-1))))"

text \<open>\<open>ifc && ifc->get... (...)\<close>\<close>

definition ask_interface :: "(env \<Rightarrow> (cInterface, 'a option) M) \<Rightarrow> (pump, 'a option) M" where
  "ask_interface get s = (case ifc s of
     None \<Rightarrow> (Inr None, s)
   | Some i \<Rightarrow> (case get (env.truncate s) i of (r, i) \<Rightarrow> (r, s\<lparr>ifc := Some i\<rparr>)))"

definition default_address :: "(pump \<Rightarrow> bool) \<Rightarrow> (env \<Rightarrow> (cInterface, byte list option) M)
    \<Rightarrow> (byte list \<Rightarrow> (pump, unit) M) \<Rightarrow> (pump, unit) M" where
  "default_address isSet get setter =
     bindM (getM isSet) (\<lambda>known.
     if known then returnM ()
     else bindM (ask_interface get) (\<lambda>r. case r of Some a \<Rightarrow> setter a | None \<Rightarrow> returnM ()))"

definition default_addresses :: "world \<Rightarrow> (pump, unit) M" where
  "default_addresses w =
     bindM (default_address m_hasMAC (\<lambda>_. getMAC (w_os w)) setMyMAC) (\<lambda>_.
     bindM (default_address m_hasIPv4 (\<lambda>_. getIPv4 (w_os w)) setMyIPv4) (\<lambda>_.
     default_address m_hasIPv6 (\<lambda>e. getIPv6 (w_os w) e (replicate 16 0)) setMyIPv6))"

definition configure_mtu :: "world \<Rightarrow> appOptions \<Rightarrow> (pump, unit) step" where
  "configure_mtu w opt =
     (if opt_mtu opt \<noteq> 0 then
        if opt_mtu opt < 68 \<or> opt_mtu opt > 1024 * 1024 then exit_code (-1)
        else bindM (setMyMTU (opt_mtu opt)) (\<lambda>_. go_on ())
      else bindM (ask_interface (\<lambda>_. bindM (getMTU (w_os w)) (\<lambda>m. returnM (Some m)))) (\<lambda>r. case r of
             Some m \<Rightarrow> if m \<noteq> 0 then bindM (setMyMTU m) (\<lambda>_. go_on ()) else go_on ()
           | None \<Rightarrow> go_on ()))"

record settings =
  set_timeScale :: u32
  set_pcapScale :: double
  set_overwriteDMAC :: "byte list option"
  set_activeDelay :: cTimeval

definition configure :: "world \<Rightarrow> appOptions \<Rightarrow> string list \<Rightarrow> (pump, settings) step" where
  "configure w opt args =
     and_then (check_arguments opt args) (\<lambda>_.
     bindM (if opt_predictableRandom opt then setCounterMode 0 else returnM ()) (\<lambda>_.
     and_then (read_scales opt) (\<lambda>(timeScale, pcapScale).
     and_then (apply_option (opt_myIP opt) setMyIPv4_text) (\<lambda>_.
     and_then (apply_option (opt_myIPv6 opt) setMyIPv6_text) (\<lambda>_.
     and_then (apply_option (opt_myMAC opt) setMyMAC_text) (\<lambda>_.
     and_then (read_overwriteDMAC opt) (\<lambda>overwriteDMAC.
     and_then (if opt_script opt \<and> opt_pcap opt then exit_code (-1) else go_on ()) (\<lambda>_.
     and_then (create_interface w opt) (\<lambda>_.
     bindM (default_addresses w) (\<lambda>_.
     and_then (configure_mtu w opt) (\<lambda>_.
     go_on \<lparr>set_timeScale = timeScale, set_pcapScale = pcapScale, set_overwriteDMAC = overwriteDMAC,
            set_activeDelay = scast (opt_delay opt) * ucast timeScale\<rparr>)))))))))))"

subsection \<open>The packets' way through the program\<close>

definition compiler_type :: "appOptions \<Rightarrow> inputType" where
  "compiler_type opt = (if opt_script opt then SCRIPT else if opt_pcap opt then PCAP else PACKET)"

record flow = pump +
  packetData :: cPacketData
  fl_polls :: nat

definition on_packets :: "(cPacketData, 'a) N \<Rightarrow> (flow, 'a) N" where
  "on_packets m s = map_option (\<lambda>(r, d). (r, s\<lparr>packetData := d\<rparr>)) (m (packetData s))"

definition open_interface :: "world \<Rightarrow> appOptions \<Rightarrow> (flow, unit) step" where
  "open_interface w opt s =
     (if opt_outfile opt = None then (case ifc s of
        None \<Rightarrow> (Inl nullPointer, s)
      | Some i \<Rightarrow> (case if_open (w_os w) i of (r, i) \<Rightarrow>
          (bindE r (\<lambda>ok. Inr (if ok then Inr () else Inl (-1))), s\<lparr>ifc := Some i\<rparr>)))
      else (Inr (Inr ()), s))"

definition resolve_hosts :: "world \<Rightarrow> (flow, unit) N" where
  "resolve_hosts w s = (case ifc s of
     None \<Rightarrow> Some (Inr (), s)
   | Some i \<Rightarrow> map_option (\<lambda>(r, i, d). (r, s\<lparr>ifc := Some i, packetData := d\<rparr>))
       (run_resolver (arp_resolve (w_os w) (env.truncate s)) (i, packetData s)))"

definition prepare_output :: "world \<Rightarrow> appOptions \<Rightarrow> bool \<Rightarrow> flow \<Rightarrow> cOutput res" where
  "prepare_output w opt realtimeMode s = (case opt_outfile opt of
     Some file \<Rightarrow> prepare_file w file (opt_outFormat opt) (opt_repeat opt) new_cOutput
   | None \<Rightarrow> (case ifc s of
       None \<Rightarrow> Inl nullPointer
     | Some i \<Rightarrow> Inr (prepare_netif i realtimeMode (opt_repeat opt) new_cOutput)))"

text \<open>\<open>backend << packetData\<close> and its statistic; the exit code is 1 when nothing was sent.\<close>

definition send_all :: "world \<Rightarrow> appOptions \<Rightarrow> cOutput \<Rightarrow> flow \<Rightarrow> (int res \<times> cOutput \<times> flow) option" where
  "send_all w opt backend s =
     map_option (\<lambda>(r, t). case r of
         Inl e \<Rightarrow> (Inl e, r_sink t, s\<lparr>packetData := r_data t\<rparr>)
       | Inr _ \<Rightarrow> (case output_statistic w (r_sink t) of (st, o1) \<Rightarrow>
           (bindE st (\<lambda>(sentPackets, sentBytes, duration). Inr (if sentPackets = 0 then 1 else 0)), o1,
            s\<lparr>packetData := r_data t, fl_polls := r_polls t\<rparr>)))
       (run_output w \<lparr>randomSrcMac = opt_randSrcMac opt, randomDstMac = opt_randDstMac opt\<rparr>
         \<lparr>r_env = env.truncate s, r_sink = backend, r_data = packetData s, r_polls = fl_polls s, r_time = 0, r_repeat = 0\<rparr>)"

definition packet_flow :: "world \<Rightarrow> appOptions \<Rightarrow> settings \<Rightarrow> flow \<Rightarrow> (int res \<times> cOutput option \<times> flow) option" where
  "packet_flow w opt cfg s =
     (case bindN (liftN (open_interface w opt)) (\<lambda>r. case r of
          Inl c \<Rightarrow> liftN (returnM (Inl c))
        | Inr _ \<Rightarrow>
            bindN (on_packets (run_filter \<lparr>forcedDMAC = set_overwriteDMAC cfg, dropDMAC = None, dropSMAC = None\<rparr>)) (\<lambda>_.
            bindN (resolve_hosts w) (\<lambda>_.
            bindN (liftN (modifyM (\<lambda>s. s\<lparr>packetData := run_scheduler (packetData s)\<rparr>))) (\<lambda>_.
            liftN (returnM (Inr ())))))) s of
        None \<Rightarrow> None
      | Some (Inl e, s) \<Rightarrow> Some (Inl e, None, s)
      | Some (Inr (Inl c), s) \<Rightarrow> Some (Inr c, None, s)
      | Some (Inr (Inr _), s) \<Rightarrow>
          (let realtimeMode = (\<not> tv_isNull (set_activeDelay cfg) \<or> hasUserTimestamps (packetData s))
           in case prepare_output w opt realtimeMode s of
                Inl e \<Rightarrow> Some (Inl e, None, s)
              | Inr backend \<Rightarrow> map_option (\<lambda>(r, o1, s). (r, Some o1, s)) (send_all w opt backend s)))"

subsection \<open>Errors\<close>

text \<open>The text of \<open>printParseError\<close>; \<open>begin\<close> points into \<open>instruction\<close>.\<close>

definition parse_error_text :: "string \<Rightarrow> string \<Rightarrow> string option \<Rightarrow> nat \<Rightarrow> string option \<Rightarrow> string res" where
  "parse_error_text instruction msg begin len details =
     bindE (case begin of
         None \<Rightarrow> Inr []
       | Some b \<Rightarrow> bindE (bugOn (length b > length instruction) ''(e.errorBegin() - e.instruction()) < 0'') (\<lambda>_.
           Inr (replicate (length instruction - length b) CHR '' ''))) (\<lambda>s.
     let b = (if len \<noteq> 0 then replicate (len - 1) CHR ''~'' else [])
     in Inr (''error: '' @ msg @ (case details of Some d \<Rightarrow> '' '' @ [CHR 0x27] @ d @ [CHR 0x27] | None \<Rightarrow> [])
          @ newline @ ''  '' @ instruction @ newline @ ''  '' @ s @ ''^'' @ b @ newline))"

text \<open>The handlers at the end of \<open>execute\<close>: the exit code, or a BUG.\<close>

definition handle_error :: "error \<Rightarrow> int res" where
  "handle_error e = (case e of
     FileParseException path line (Some instruction) msg begin len details \<Rightarrow>
       bindE (parse_error_text instruction msg begin len details) (\<lambda>_. Inr (-2))
   | FileParseException path line None msg begin len details \<Rightarrow> Inr (-2)
   | ParseException instruction msg begin len details \<Rightarrow>
       bindE (parse_error_text instruction msg begin len details) (\<lambda>_. Inr (-2))
   | FileIOException what name \<Rightarrow> Inr (-2)
   | RuntimeError what \<Rightarrow> Inr (-2)
   | Bug msg \<Rightarrow> Inl (Bug msg)
   | Undefined what \<Rightarrow> Inl (Undefined what)
   | _ \<Rightarrow> Inl (Bug ''unexpected exception''))"

definition catch_all :: "int res \<Rightarrow> int res" where
  "catch_all r = (case r of Inl e \<Rightarrow> handle_error e | Inr c \<Rightarrow> Inr c)"

text \<open>At the end the packet list is destroyed.\<close>

definition destroy_list :: "cPacketData \<Rightarrow> int res \<Rightarrow> int res option" where
  "destroy_list d r = (case r of
     Inl e \<Rightarrow> Some (Inl e)
   | Inr c \<Rightarrow> map_option (\<lambda>x. bindE x (\<lambda>_. Inr c)) (destroy d (pd_head d)))"

subsection \<open>execute\<close>

definition run_packets :: "world \<Rightarrow> appOptions \<Rightarrow> string list \<Rightarrow> settings \<Rightarrow> pump \<Rightarrow> (int res \<times> cOutput option) option" where
  "run_packets w opt args cfg s =
     (case new_cCompiler (compiler_type opt) (set_activeDelay cfg) (set_timeScale cfg) (opt_arp opt) (set_pcapScale cfg)
         (env.truncate s) of
        Inl e \<Rightarrow> Some (Inl e, None)
      | Inr (c, t) \<Rightarrow> (case compile_input c (w_files w) (w_libpcap w) args t of
            (Inl e, t) \<Rightarrow> map_option (\<lambda>r. (r, None)) (destroy_list (c_data t) (catch_all (Inl e)))
          | (Inr _, t) \<Rightarrow>
              (let s = pump.extend (env.extend (env.truncate t) (pump.fields (ifc s))) (flow.fields (c_data t) 0)
               in Option.bind (packet_flow w opt cfg s) (\<lambda>(r, o1, s).
                  map_option (\<lambda>r. (r, o1)) (destroy_list (packetData s) (catch_all r))))))"

definition execute :: "world \<Rightarrow> appOptions \<Rightarrow> string list \<Rightarrow> env \<Rightarrow> (int res \<times> cOutput option) option" where
  "execute w opt args e =
     (case configure w opt args (env.extend e (pump.fields None)) of
        (Inl x, s) \<Rightarrow> Some (Inl x, None)
      | (Inr (Inl c), s) \<Rightarrow> Some (Inr c, None)
      | (Inr (Inr cfg), s) \<Rightarrow> run_packets w opt args cfg s)"

end
