(* ===== verification/Examples.thy ===== *)
theory Examples
  imports CompilerFacts
begin

section \<open>Two instructions, compiled step by step\<close>

text \<open>
  The witnesses of the properties of the compiler need an instruction that compiles and one that fails
  while its packet is built: \<open>raw()\<close> and \<open>raw(byte=x)\<close>.
\<close>

lemma raw_parameters:
  "parseParameters ''()'' False = Inr ([], None)"
  "parseParameters ''(byte=x)'' False = Inr ([\<lparr>parameter = ''byte=x)'', parLen = 4, par_value = ''x)'',
     valLen = 1, par_index = 0, par_data = None\<rparr>], None)"
  by code_simp+

lemma select_raw: "select_protocol (protocol_table rec b) (''raw'' @ t) 3 = Some (compileRAW b)"
  unfolding protocol_table_def select_protocol.simps by (simp add: PR_RAW_def strncmp_eq_def)

lemma no_timestamp:
  assumes "\<not> isspace c" and "\<not> isdigit c" and "c \<noteq> CHR ''+''"
  shows "parseTimestamp (c # t) res = returnM (c # t, res\<lparr>hasTimestamp := False\<rparr>)"
  using assms by (simp add: parseTimestamp_def Let_def skipWhitespaces_def char_at_def)

lemma raw_timestamp: "parseTimestamp (''raw'' @ t) res = returnM (''raw'' @ t, res\<lparr>hasTimestamp := False\<rparr>)"
proof -
  have "\<not> isspace CHR ''r''" "\<not> isdigit CHR ''r''" by code_simp+
  from no_timestamp [OF this] show ?thesis by simp
qed

lemma raw_identifier:
   "parseProtocollIdentifier ''raw()'' = returnM (''()'', ''raw()'', 3)"
   "parseProtocollIdentifier ''raw(byte=x)'' = returnM (''(byte=x)'', ''raw(byte=x)'', 3)"
proof -
  have "nextKeyStart ''raw()'' = Some ''raw()''" "nextKeyEnd ''raw()'' = ''()''"
   "nextCharIgnoreWhitspaces ''()'' CHR ''('' = Some ''()''" 
   "nextKeyStart ''raw(byte=x)'' = Some ''raw(byte=x)''" "nextKeyEnd ''raw(byte=x)'' = ''(byte=x)''"
   "nextCharIgnoreWhitspaces ''(byte=x)'' CHR ''('' = Some ''(byte=x)''"  by code_simp+
  then show "parseProtocollIdentifier ''raw()'' = returnM (''()'', ''raw()'', 3)"
   "parseProtocollIdentifier ''raw(byte=x)'' = returnM (''(byte=x)'', ''raw(byte=x)'', 3)"
   by (simp_all add: parseProtocollIdentifier_def Let_def eval_nat_numeral)
qed

lemmas raw_steps = parse_step_def raw_timestamp [where t = "''()''", simplified]
  raw_timestamp [where t = "''(byte=x)''", simplified] raw_identifier
  select_raw [where t = "''()''", simplified] select_raw [where t = "''(byte=x)''", simplified]
  new_cParameterList_def raw_parameters withParams_def bindM_def compile_with_def catchM_def

definition empty_frame :: "cEthernetPacket \<Rightarrow> bool" where
  "empty_frame e \<longleftrightarrow> getLength e = 0 \<and> length (packet e) = 16"

lemma empty_raw_packet: "\<exists>e. eth_new jk 14 = Inr e \<and> (\<exists>e'. setRaw [] e = Inr e' \<and> empty_frame e')"
  by (simp add: empty_frame_def getLength_def szsub_def sz_def eth_new_def setRaw_def eth_reset_def store_def memcpy_at_def fresh_def Let_def)

lemma parse_raw_empty:
  assumes "m_recursionDepth s = 0"
  shows "\<exists>e p. parse ''raw()'' res False False s
      = (Inr (res\<lparr>hasTimestamp := False, packets := Some (EthPacket e)\<rparr>), p) \<and> env.truncate p = env.truncate s
    \<and> empty_frame e"
proof -
  obtain e e' where e: "eth_new (junk_of s) 14 = Inr e" "setRaw [] e = Inr e'" "empty_frame e'"
    using empty_raw_packet by blast
  let ?res = "\<lambda>e. res\<lparr>hasTimestamp := False, packets := Some (EthPacket e)\<rparr>"
  have "\<exists>p. parse ''raw()'' res False False s = (Inr (?res e'), p) \<and> env.truncate p = env.truncate s"
    using assms e(1,2) unfolding parse_is_step
    by (simp add: raw_steps compileRAW_def new_cByteArray_def bytes_of_def checkForUnusedParameters_def env.defs)
  then show ?thesis using e(3) by blast
qed

lemma parse_raw_bad:
  assumes "m_recursionDepth s = 0"
  shows "\<exists>p. parse ''raw(byte=x)'' res False False s
      = (Inl (ParseException ''raw(byte=x)'' ''Invalid parameter value'' (Some ''x)'') 1 None), p)
    \<and> (packets res \<noteq> None \<longrightarrow> m_deleted p)"
proof -
  have x: "strtoull ''x)'' 0 = (0, ''x)'', False)" by code_simp
  show ?thesis using assms unfolding parse_is_step
    by (simp add: raw_steps compileRAW_def new_cByteArray_def Let_def the_param_def setUsed_def raw_value_def
        isNamed_def PAR_RAW_BYTE_def strncmp_eq_def asInt8_def onParam_def par_asInt8_def par_asInt32_def asInt_def
        isRandomInteger_def char_at_def x set_errno_def endOf_def formatError_def handler_def
        isFormatException_def onFormatException_def throwParseException_def)
qed

lemma new_parser_depth [simp]: "m_recursionDepth (new_cInstructionParser e b) = 0"
  "env.truncate (new_cInstructionParser e b) = e"
  by (simp_all add: new_cInstructionParser_def env.defs pstate.defs)

lemma c_str_raw [simp]: "c_str ''raw()'' = ''raw()''" "c_str ''raw(byte=x)'' = ''raw(byte=x)''"
  by code_simp+

text \<open>\<open>raw()\<close> has no timestamp and changes nothing.\<close>

lemma compile_raw:
  "\<exists>x. compile_instruction c ''raw()'' e = (Inr (EthPacket x, False, False,
     defaultDelay c div ucast (defaultDelayScale c) * ucast (defaultDelayScale c)), e) \<and> empty_frame x"
proof -
  obtain x p where "parse ''raw()'' new_cResult False False (new_cInstructionParser e (c_ipOptionalDestMAC c))
      = (Inr (new_cResult\<lparr>hasTimestamp := False, packets := Some (EthPacket x)\<rparr>), p)" "env.truncate p = e" "empty_frame x"
    using parse_raw_empty [of "new_cInstructionParser e (c_ipOptionalDestMAC c)" new_cResult] by auto
  then show ?thesis by (auto simp: compile_instruction_def new_cResult_def)
qed

lemma compile_two_raw:
  assumes "defaultDelayScale c = 1" and "defaultDelay c = 7"
  shows "\<exists>x. compile_all c start [''raw()'', ''raw()''] 0 e
    = (Inr ([(EthPacket x, 7, False), (EthPacket x, 7, False)], 14), e)
    \<and> empty_frame x"
proof -
  obtain x where "compile_instruction c ''raw()'' e = (Inr (EthPacket x, False, False, 7), e)" "empty_frame x"
    using compile_raw [of c e] assms by auto
  then show ?thesis by (simp add: bindM_def next_delay_def)
qed

end
