(* ===== verification/Delivery.thy ===== *)
theory Delivery
  imports OutputFacts TcpPump Examples
begin

section \<open>What the program delivers\<close>

text \<open>
  The claims about the way from the packet list to a capture file, a text file or the network, and about
  the program as a whole. Every claim rests on the locale \<open>frame_sink\<close> or \<open>list_stage\<close> through one of
  their interpretations.
\<close>

subsection \<open>How far the loop gets\<close>

text \<open>
  Rounds of the outer loop that have been run to their end: the look at the signal sees none, the inner loop
  over the list returns without an exception, and so on from the state it leaves.
\<close>

inductive rounds_done :: "world \<Rightarrow> cPreprocessor \<Rightarrow> 'k putter \<Rightarrow> nat \<Rightarrow> 'k run_state \<Rightarrow> 'k run_state \<Rightarrow> bool"
  for w pp put where
  no_round: "rounds_done w pp put 0 s s"
| one_round: "poll w s = Some (Inr False, s1) \<Longrightarrow>
     output_pass w pp put (pd_head (r_data s1)) s1 = Some (Inr (), s2) \<Longrightarrow>
     rounds_done w pp put n s2 s' \<Longrightarrow> rounds_done w pp put (Suc n) s s'"

lemma rounds_done_loop: "rounds_done w pp put n s s' \<Longrightarrow> output_rounds w pp put True s = output_rounds w pp put True s'"
proof (induction rule: rounds_done.induct)
  case (one_round s s1 s2 n s')
  then show ?case by (subst output_rounds.simps) (simp add: bindN_def another_round_def)
qed simp

text \<open>The call of \<open>operator<<\<close>: the queue is prepared, then \<open>n\<close> rounds are run to their end.\<close>

definition rounds_run :: "world \<Rightarrow> cPreprocessor \<Rightarrow> nat \<Rightarrow> cOutput run_state \<Rightarrow> cOutput run_state \<Rightarrow> bool" where
  "rounds_run w pp n s s' \<longleftrightarrow> (\<exists>s1. on_sink (liftN (output_prepare w (r_data s))) s = Some (Inr (), s1)
     \<and> rounds_done w pp (output_put w) n (s1\<lparr>r_time := 0, r_repeat := m_repeat (r_sink s1)\<rparr>) s')"

lemma run_output_netif_reach:
  assumes "m_netif (r_sink s) = Some i" and "prepared_netif w (m_realtimeMode (r_sink s)) i i'"
    and "rounds_done w pp (output_put w) n (output_start (s\<lparr>r_sink := (r_sink s)\<lparr>m_netif := Some i'\<rparr>\<rparr>)) s'"
  shows "rounds_run w pp n s s'"
proof -
  have "\<exists>a b. queue_sizes (m_repeat (r_sink s)) (r_data s) = (a, b)" by (simp add: queue_sizes_def)
  then have "output_prepare w (r_data s) (r_sink s) = (Inr (), (r_sink s)\<lparr>m_netif := Some i'\<rparr>)"
    using assms(1,2) by (auto simp: output_prepare_def prepareSendQueue_def prepared_netif_def bindM_def split: if_splits)
  then show ?thesis using assms(3) by (simp add: rounds_run_def on_sink_def output_start_def)
qed

subsection \<open>Everything is delivered\<close>

text \<open>The loop from its start: with a number of rounds and no signal, and without end but for a signal.\<close>

context frame_sink
begin

lemma delivers_all:
  assumes "in_list (r_data s) (pd_head (r_data s)) xs fs" and "ready 0 (r_sink s)" and "r_time s = 0"
    and "r_repeat s = int n" and "\<forall>k. \<not> interrupted w k" and "all_fit fits pp (rounds n 0 fs)"
    and "n * duration fs < 2 ^ 64"
  shows "\<exists>s' es. output_rounds w pp put False s = Some (Inr (), s') \<and> log (r_sink s') = log (r_sink s) @ es
    \<and> list_all2 (sent_as entry pp) (rounds n 0 fs) es
    \<and> ready (r_time s') (r_sink s') \<and> (\<exists>fs'. in_list (r_data s') (pd_head (r_data s')) xs fs')"
proof -
  have "stays w" "budget w False n s" using assms(4,5) by (simp_all add: stays_def budget_def)
  from output_rounds_ok [where pp = pp, OF assms(1) _ this] show ?thesis using assms(2-7)
    by (simp add: not_less) fastforce
qed

lemma delivers:
  assumes "in_list (r_data s) (pd_head (r_data s)) xs fs" and "ready 0 (r_sink s)" and "r_time s = 0"
    and "r_repeat s = int n" and "\<forall>k. \<not> interrupted w k" and "all_fit fits pp (rounds n 0 fs)"
    and "n * duration fs < 2 ^ 64"
  shows "\<exists>s' es. output_rounds w pp put False s = Some (Inr (), s') \<and> log (r_sink s') = log (r_sink s) @ es
    \<and> list_all2 (sent_as entry pp) (rounds n 0 fs) es"
  using delivers_all [OF assms] by blast

lemma stops_at_signal:
  assumes "in_list (r_data s) (pd_head (r_data s)) xs fs" and "ready 0 (r_sink s)" and "r_time s = 0"
    and "stays w" and "interrupted w (r_polls s + j)" and "all_fit fits pp (rounds (Suc j) 0 fs)"
    and "Suc j * duration fs < 2 ^ 64"
  shows "\<exists>s' es m. output_rounds w pp put True s = Some (Inr (), s') \<and> log (r_sink s') = log (r_sink s) @ es
    \<and> list_all2 (sent_as entry pp) (take m (rounds (Suc j) 0 fs)) es
    \<and> (m < length (rounds (Suc j) 0 fs) \<longrightarrow> interrupted w (r_polls s' - 1))"
proof -
  have "r_polls s + j < r_polls s + Suc j" by simp
  then have "budget w True (Suc j) s" using assms(5) unfolding budget_def if_True by blast
  then show ?thesis
    using output_rounds_ok [where s = s and xs = xs and fs = fs and w = w and endless = True and n = "Suc j" and pp = pp] assms
    by (simp del: rounds.simps) blast
qed

text \<open>\<open>n\<close> rounds take \<open>n * (length xs + 2)\<close> looks at the signal.\<close>

lemma endless_rounds:
  "in_list (r_data s) (pd_head (r_data s)) xs fs \<Longrightarrow> ready (r_time s) (r_sink s) \<Longrightarrow>
   \<forall>k < r_polls s + n * (length xs + 2). \<not> interrupted w k \<Longrightarrow> all_fit fits pp (rounds n (r_time s) fs) \<Longrightarrow>
   unat (r_time s) + n * duration fs < 2 ^ 64 \<Longrightarrow>
   \<exists>s' es. rounds_done w pp put n s s' \<and> log (r_sink s') = log (r_sink s) @ es
     \<and> list_all2 (sent_as entry pp) (rounds n (r_time s) fs) es \<and> r_polls s' = r_polls s + n * (length xs + 2)"
proof (induction n arbitrary: s fs)
  case 0
  then show ?case by (intro exI [of _ s] exI [of _ "[]"]) (simp add: no_round)
next
  case (Suc n)
  let ?s = "s\<lparr>r_polls := r_polls s + 1\<rparr>" and ?t = "r_time s + of_nat (duration fs)"
  have quiet: "\<not> interrupted w k" if "k < r_polls s + (length xs + 2) + n * (length xs + 2)" for k
    using Suc.prems(3) that by simp
  have fit: "all_fit fits pp (timed (r_time s) fs)" "all_fit fits pp (rounds n ?t fs)"
    using Suc.prems(4) by (simp_all add: all_fit_append)
  obtain j s2 es where p: "output_pass w pp put (pd_head (r_data s)) ?s = Some (Inr (), s2)"
    "pass_done w pp (pd_head (r_data s)) xs fs j ?s s2" "log (r_sink s2) = log (r_sink s) @ es"
    "list_all2 (sent_as entry pp) (timed (r_time s) (take j fs)) es" "ready (r_time s2) (r_sink s2)"
    using output_pass_ok [of ?s "pd_head (r_data s)" xs fs pp w] Suc.prems(1,2,5) fit(1) by auto
  have j: "j = length xs"
  proof (rule ccontr)
    assume "j \<noteq> length xs"
    then have "interrupted w (r_polls s + 1 + j)" "j < length xs" using p(2) by (auto simp: pass_done_def)
    then show False using quiet [of "r_polls s + 1 + j"] by simp
  qed
  have t: "r_time s2 = ?t" "r_polls s2 = r_polls s + (length xs + 2)" "pd_head (r_data s2) = pd_head (r_data s)"
    using p(2) j by (simp_all add: pass_done_def)
  obtain fs2 where fs2: "in_list (r_data s2) (pd_head (r_data s)) xs fs2" "emits_all pp fs fs2"
    using p(2) by (auto simp: pass_done_def)
  note em = rounds_emits [OF fs2(2), of n ?t]
  have "\<not> interrupted w (r_polls s)" using quiet [of "r_polls s"] by simp
  then have look: "poll w s = Some (Inr False, ?s)" by (simp add: poll_def interrupted_def)
  have step: "rounds_done w pp put (Suc n) s s'" if "rounds_done w pp put n s2 s'" for s'
    using one_round [OF look _ that] p(1) by simp
  have "unat ?t + n * duration fs2 < 2 ^ 64"
  proof -
    have "unat (r_time s) + duration fs < 2 ^ 64" using Suc.prems(5) by simp
    then have "unat ?t = unat (r_time s) + duration fs" by (simp add: unat_word_ariths unat_of_nat)
    then show ?thesis using Suc.prems(5) timed_emits [OF fs2(2)] by simp
  qed
  then obtain s' es2 where IH: "rounds_done w pp put n s2 s'"
    "log (r_sink s') = log (r_sink s2) @ es2" "list_all2 (sent_as entry pp) (rounds n ?t fs2) es2"
    "r_polls s' = r_polls s2 + n * (length xs + 2)"
    using Suc.IH [of s2 fs2] fs2(1) t quiet p(5) j all_fit_emits [OF em fit(2)] by auto
  have "list_all2 (sent_as entry pp) (rounds n ?t fs) es2"
    using sent_as_emits [OF em, of entry "length (rounds n ?t fs2)" es2] IH(3) list_all2_lengthD [OF em] by simp
  moreover have "list_all2 (sent_as entry pp) (timed (r_time s) fs) es"
    using p(4) j in_list_length [OF Suc.prems(1)] by simp
  ultimately show ?case using step [OF IH(1)] IH(2,4) p(3) t(2)
    by (intro exI [of _ s'] exI [of _ "es @ es2"]) (simp add: list_all2_appendI)
qed

end

subsection \<open>A world for the examples\<close>

text \<open>Everything works; a reading of the clock takes a microsecond.\<close>

definition calm_os :: os where
  "calm_os = \<lparr>os_clock = \<lambda>k. 1000 * k, os_nametoindex = \<lambda>_. 2, os_socket = \<lambda>_. 3,
     os_hwaddr = \<lambda>_. Some (ARPHRD_ETHER, [2, 0, 0, 0, 0, 1]), os_ifaddr = \<lambda>_. Some [10, 0, 0, 1],
     os_ifmtu = \<lambda>_. Some 1500, os_getifaddrs = Some [], os_file = \<lambda>_. None,
     os_sendto = \<lambda>_ _ b. int (length b), os_setsockopt = \<lambda>_. False, os_recv = \<lambda>_. None\<rparr>"

definition signals_from :: "nat option \<Rightarrow> nat \<Rightarrow> cSignal" where
  "signals_from k0 k = \<lparr>gSigIntStatus = (case k0 of Some n \<Rightarrow> if n \<le> k then 1 else 0 | None \<Rightarrow> 0), sig_callback = None\<rparr>"

definition calm_world :: "nat option \<Rightarrow> world" where
  "calm_world k0 = \<lparr>w_os = calm_os, w_stdio = \<lparr>fopen_w = \<lambda>_. True, printf_fails = \<lambda>_. False\<rparr>,
     w_libpcap = \<lparr>pcap_open_offline = \<lambda>_. None, pcap_open_dead = True, pcap_dump_open = \<lambda>_. True, dump_ferror = \<lambda>_. False\<rparr>,
     w_files = \<lambda>_. None, w_signals = signals_from k0\<rparr>"

lemma calm_world_simps [simp]:
  "w_os (calm_world k0) = calm_os" "printf_fails (w_stdio (calm_world k0)) = (\<lambda>_. False)"
  "dump_ferror (w_libpcap (calm_world k0)) = (\<lambda>_. False)" "fopen_w (w_stdio (calm_world k0)) = (\<lambda>_. True)"
  "interrupted (calm_world k0) k \<longleftrightarrow> (\<exists>n. k0 = Some n \<and> n \<le> k)"
  by (auto simp: calm_world_def interrupted_def signals_from_def sigintSignalled_def split: option.splits)

lemma calm_stays: "stays (calm_world k0)"
  by (auto simp: stays_def)

lemma calm_reliable: "reliable calm_os"
proof -
  have "mono (\<lambda>k. 1000 * k :: nat)" by (simp add: mono_def)
  moreover have "\<exists>k. t \<le> 1000 * (k :: nat)" for t by (rule exI [of _ t]) simp
  ultimately show ?thesis by (simp add: reliable_def ticking_def calm_os_def)
qed

text \<open>A packet list with one frame, due after \<open>t\<close>.\<close>

definition one_packet :: "cEthernetPacket \<Rightarrow> cTimeval \<Rightarrow> cPacketData" where
  "one_packet e t = \<lparr>pd_heap = [\<lparr>l_item = EthPacket e, m_next = None, m_t = t, m_freed = False\<rparr>], hasUserTimestamps = True,
     pd_head = Some 0, pd_tail = Some 0, elements = 1, ethPackets = 1, ipv4Packets = 0, totalBytes = getLength e\<rparr>"

lemma one_packet_in_list:
  "frame_ok e \<Longrightarrow> in_list (one_packet e t) (pd_head (one_packet e t)) [0] [([visible e], t)]"
  by (simp add: in_list_def one_packet_def live_def frames_ok_def as_frames_def contents_def frames_of_def)

lemma blank_frame:
  obtains e where "frame_ok e" "visible e = replicate 14 0" "getLength e = 14"
proof -
  obtain e where e: "eth_new (\<lambda>_. 0) 14 = Inr e" "packetMaxLength e = 14" and
    h: "holds e \<lparr>f_dest = replicate 6 0, f_src = replicate 6 0, f_tags = [], f_type = [0, 0], f_llc = [], f_payload = []\<rparr>"
    using eth_new_holds [of 14 "\<lambda>_. 0"] by auto
  have l: "getLength e = 14" using holds_length [OF h] by (simp add: frame_bytes_def)
  have "visible e = replicate 6 0 @ replicate 6 0 @ [0, 0]" using holds_visible [OF h] by (simp add: frame_bytes_def)
  then have v: "visible e = replicate 14 0" by (simp add: numeral_eq_Suc)
  have "length (packet e) = 16"
    using e(1) by (auto simp: eth_new_def eth_reset_def store_def memcpy_at_def Let_def bugOn_def split: if_splits)
  then show thesis using that [of e] l v by (simp add: frame_ok_def)
qed

definition first_env :: env where
  "first_env = initial_env (\<lambda>_. 0) (\<lambda>_. 0) (\<lambda>_. None)"

lemma rounds_twice: "rounds 2 t fs = timed t fs @ timed (t + of_nat (duration fs)) fs"
  by (simp add: eval_nat_numeral)

definition file_run :: "string \<Rightarrow> int \<Rightarrow> cPacketData \<Rightarrow> cOutput run_state" where
  "file_run format repeat d = \<lparr>r_env = first_env,
     r_sink = projr (prepare_file (calm_world None) ''f'' format repeat new_cOutput),
     r_data = d, r_polls = 0, r_time = 0, r_repeat = 0\<rparr>"

definition as_it_is :: cPreprocessor where
  "as_it_is = \<lparr>randomSrcMac = False, randomDstMac = False\<rparr>"

text \<open>A list with one frame of 14 zero bytes that is due after 5 microseconds, twice.\<close>

lemma blank_list:
  obtains e where "in_list (one_packet e 5) (pd_head (one_packet e 5)) [0] [([replicate 14 0], 5)]"
proof -
  obtain e where "frame_ok e" "visible e = replicate 14 0" by (rule blank_frame)
  then show thesis using that [of e] one_packet_in_list [of e 5] by simp
qed

lemma blank_twice: "rounds 2 0 [([replicate 14 0], 5)] = [(5, replicate 14 0), (10, replicate 14 0)]"
  by (simp add: rounds_twice)

subsection \<open>Capture files\<close>

lemma fresh_capture:
  assumes "prepare_file w path ''pcap'' repeat new_cOutput = Inr o1" and "\<forall>k. \<not> dump_ferror (w_libpcap w) k"
  shows "capture_ready w 0 o1" and "capture_log o1 = []" and "m_repeat o1 = repeat" and "m_netif o1 = None"
  using assms
  by (auto simp: prepare_file_def new_cPcapBackend_def pcap_open_def new_cPcapFileIO_def new_cOutput_def capture_ready_def
      capture_log_def bugOn_def Let_def split: if_splits)

lemma run_output_capture:
  assumes "in_list (r_data s) (pd_head (r_data s)) xs fs" and "m_repeat (r_sink s) = int n" and "0 < n"
    and "capture_ready w 0 (r_sink s)" and "capture_log (r_sink s) = []" and "m_netif (r_sink s) = None"
    and "\<forall>k. \<not> interrupted w k" and "\<forall>x\<in>set fs. \<forall>b\<in>set (fst x). length b < 2 ^ 31" and "n * duration fs < 2 ^ 64"
  shows "\<exists>s'. run_output w pp s = Some (Inr (), s')
    \<and> list_all2 (sent_as captured pp) (rounds n 0 fs) (capture_log (r_sink s'))
    \<and> capture_ready w (r_time s') (r_sink s') \<and> (\<exists>fs'. in_list (r_data s') (pd_head (r_data s')) xs fs')"
  using run_output_file [OF assms(6), of w pp] all_fit_small [OF assms(8,9), of pp] assms
    capture_sink.delivers_all [where s = "output_start s" and w = w and wa = w and pp = pp and fs = fs and xs = xs
      and n = n, OF _ _ _ _ assms(7)]
  by auto

text \<open>
  C6: with \<open>-w\<close> and the format pcap, the file gets the frames of the packet list in order, each with the
  sum of the delays up to it as its time, and the whole list as often as \<open>-l\<close> says, the times going on;
  the preprocessor may only have changed addresses it was told to change.
\<close>

theorem capture_written:
  assumes "in_list (r_data s) (pd_head (r_data s)) xs fs"
    and "prepare_file w path ''pcap'' (int n) new_cOutput = Inr (r_sink s)" and "0 < n"
    and "\<forall>k. \<not> dump_ferror (w_libpcap w) k" and "\<forall>k. \<not> interrupted w k"
    and "\<forall>x\<in>set fs. \<forall>b\<in>set (fst x). length b < 2 ^ 31" and "n * duration fs < 2 ^ 64"
  shows "\<exists>s'. run_output w pp s = Some (Inr (), s')
    \<and> list_all2 (sent_as captured pp) (rounds n 0 fs) (capture_log (r_sink s'))"
  using run_output_capture [OF assms(1) _ assms(3) _ _ _ assms(5-7)] fresh_capture [OF assms(2,4)] by blast

lemma file_run_data: "r_data (file_run format repeat d) = d"
  by (simp add: file_run_def)

lemma file_run_capture:
  "prepare_file (calm_world None) ''f'' ''pcap'' repeat new_cOutput = Inr (r_sink (file_run ''pcap'' repeat d))"
  by (simp add: file_run_def prepare_file_def new_cPcapBackend_def pcap_open_def new_cPcapFileIO_def calm_world_def)

theorem capture_written_witness:
  "\<exists>e s'. run_output (calm_world None) as_it_is (file_run ''pcap'' 2 (one_packet e 5)) = Some (Inr (), s')
    \<and> list_all2 (sent_as captured as_it_is) [(5, replicate 14 0), (10, replicate 14 0)] (capture_log (r_sink s'))"
proof -
  obtain e where l: "in_list (one_packet e 5) (pd_head (one_packet e 5)) [0] [([replicate 14 0], 5)]" by (rule blank_list)
  let ?s = "file_run ''pcap'' 2 (one_packet e 5)"
  have l': "in_list (r_data ?s) (pd_head (r_data ?s)) [0] [([replicate 14 0], 5)]" unfolding file_run_data by (rule l)
  have "prepare_file (calm_world None) ''f'' ''pcap'' (int 2) new_cOutput = Inr (r_sink ?s)" by (simp add: file_run_capture)
  from capture_written [OF l' this, of as_it_is]
  have "\<exists>s'. run_output (calm_world None) as_it_is ?s = Some (Inr (), s')
    \<and> list_all2 (sent_as captured as_it_is) (rounds 2 0 [([replicate 14 0], 5)]) (capture_log (r_sink s'))" by simp
  then show ?thesis unfolding blank_twice by blast
qed

subsection \<open>Text files\<close>

lemma fresh_hexstream:
  assumes "prepare_file w path ''hexstream'' repeat new_cOutput = Inr o1" and "\<forall>k. \<not> printf_fails (w_stdio w) k"
  shows "hex_ready w 0 o1" and "hex_log o1 = []" and "m_repeat o1 = repeat" and "m_netif o1 = None"
  using assms
  by (auto simp: prepare_file_def new_cAsciiBackend_def new_cOutput_def hex_ready_def hex_log_def Let_def split: if_splits)

text \<open>
  C23: with the format hexstream, the file gets one line per frame, in the order of the list and as often as
  \<open>-l\<close> says, and \<open>hexStringToBin\<close> of the instruction parser reads each line as the bytes of the frame.
\<close>

theorem hexstream_written:
  assumes "in_list (r_data s) (pd_head (r_data s)) xs fs"
    and "prepare_file w path ''hexstream'' (int n) new_cOutput = Inr (r_sink s)" and "0 < n"
    and "\<forall>k. \<not> printf_fails (w_stdio w) k" and "\<forall>k. \<not> interrupted w k"
    and "\<forall>x\<in>set fs. \<forall>b\<in>set (fst x). b \<noteq> []" and "n * duration fs < 2 ^ 64"
  shows "\<exists>s'. run_output w pp s = Some (Inr (), s')
    \<and> list_all2 (sent_as hex_line pp) (rounds n 0 fs) (hex_log (r_sink s'))"
proof -
  note fresh = fresh_hexstream [OF assms(2,4)]
  show ?thesis using run_output_file [OF fresh(4), of w pp] all_fit_nonempty [OF assms(6,7), of pp] assms fresh(1-3)
      hex_sink.delivers [where s = "output_start s" and w = w and wa = w and pp = pp and fs = fs and xs = xs
        and n = n, OF _ _ _ _ assms(5)]
    by auto
qed

theorem hexstream_written_witness:
  "\<exists>e s'. run_output (calm_world None) as_it_is (file_run ''hexstream'' 2 (one_packet e 5)) = Some (Inr (), s')
    \<and> list_all2 (sent_as hex_line as_it_is) [(5, replicate 14 0), (10, replicate 14 0)] (hex_log (r_sink s'))"
proof -
  obtain e where l: "in_list (one_packet e 5) (pd_head (one_packet e 5)) [0] [([replicate 14 0], 5)]" by (rule blank_list)
  let ?s = "file_run ''hexstream'' 2 (one_packet e 5)"
  have l': "in_list (r_data ?s) (pd_head (r_data ?s)) [0] [([replicate 14 0], 5)]" unfolding file_run_data by (rule l)
  have "prepare_file (calm_world None) ''f'' ''hexstream'' (int 2) new_cOutput = Inr (r_sink ?s)"
    by (simp add: file_run_def prepare_file_def new_cAsciiBackend_def)
  from hexstream_written [OF l' this, of as_it_is]
  have "\<exists>s'. run_output (calm_world None) as_it_is ?s = Some (Inr (), s')
    \<and> list_all2 (sent_as hex_line as_it_is) (rounds 2 0 [([replicate 14 0], 5)]) (hex_log (r_sink s'))" by simp
  then show ?thesis unfolding blank_twice by blast
qed

subsection \<open>The network\<close>

text \<open>
  An interface nothing was sent on yet; \<open>prepared_netif\<close> says what \<open>prepareSendQueue\<close> makes of it: in
  real-time mode it measures how long the operating system sleeps.
\<close>

definition unused :: "cInterface \<Rightarrow> bool" where
  "unused i \<longleftrightarrow> firstPacket i \<and> lastSentPacket i = 0"

lemma unused_ready:
  assumes "reliable (w_os w)" and "unused i" and "prepared_netif w sync i i'"
  shows "wire_ready w (k_clock i') sync 0 (o1\<lparr>m_netif := Some i'\<rparr>)" and "wire i' = wire i"
  using assms by (auto simp: wire_ready_def can_send_def unused_def prepared_netif_def split: if_splits)

abbreviation on_wire :: "world \<Rightarrow> nat \<Rightarrow> cPreprocessor \<Rightarrow> cTimeval \<times> byte list \<Rightarrow> nat \<times> byte list \<Rightarrow> bool" where
  "on_wire w k0 pp \<equiv> sent_as (on_time (w_os w) k0) pp"

text \<open>
  C5: on the network every frame is sent in the order of the list, as often as \<open>-l\<close> says, and none before its
  time: when it is handed over, the clock shows at least the delays up to it after the first frame.
\<close>

theorem frames_on_time:
  assumes "in_list (r_data s) (pd_head (r_data s)) xs fs" and "m_netif (r_sink s) = Some i" and "unused i"
    and "reliable (w_os w)" and "prepared_netif w (m_realtimeMode (r_sink s)) i i'"
    and "m_repeat (r_sink s) = int n" and "0 < n" and "\<forall>k. \<not> interrupted w k"
    and "n * duration fs \<le> 2 ^ 63" and "m_realtimeMode (r_sink s) \<or> duration fs = 0"
  shows "\<exists>s' es. run_output w pp s = Some (Inr (), s') \<and> wire_log (r_sink s') = wire i @ es
    \<and> list_all2 (on_wire w (k_clock i') pp) (rounds n 0 fs) es"
proof -
  let ?s = "s\<lparr>r_sink := (r_sink s)\<lparr>m_netif := Some i'\<rparr>\<rparr>"
  note ready = unused_ready [OF assms(4,3,5)]
  have "wire_log (r_sink ?s) = wire i" using ready(2) by (simp add: wire_log_def)
  then show ?thesis using run_output_netif [OF assms(2,5), of pp] all_fit_soon [OF assms(9,10), of pp] assms(1,6,7,9) ready(1) [of "r_sink s"]
      wire_sink.delivers [where s = "output_start ?s" and w = w and pp = pp and n = n and fs = fs and xs = xs
        and ?k0.0 = "k_clock i'" and ?sync = "m_realtimeMode (r_sink s)", OF _ _ _ _ assms(8)]
    by simp
qed

lemma calm_doubles:
  "dbl 1000000 1 = Fin (1000000 * 2 ^ 33) (-33)" "dbl 1000 1 = Fin (1000 * 2 ^ 43) (-43)"
  "ddiv (Fin (1000000 * 2 ^ 33) (-33)) (Fin (1000 * 2 ^ 43) (-43)) = Fin (1000 * 2 ^ 43) (-43)"
  "ddiv (Fin (1000 * 2 ^ 43) (-43)) (Fin (1000 * 2 ^ 43) (-43)) = Fin (2 ^ 52) (-52)"
  by (simp_all add: dbl_def ddiv_def to_double_def round_nearest_def Let_def bits.simps)

lemma calm_SleepInit: "SleepInit (os_clock calm_os) k = (Inr 1, k + 2000)"
proof -
  have "(\<lambda>n. os_clock calm_os (k + 2 * n + 1) - os_clock calm_os (k + 2 * n)) = (\<lambda>n. 1000)"
    by (simp add: calm_os_def)
  then have total: "sum_list (map (\<lambda>n. os_clock calm_os (k + 2 * n + 1) - os_clock calm_os (k + 2 * n)) [0..<1000]) = 1000000"
    by (simp add: sum_list_triv)
  have "dto_unsigned 64 (ddiv (ddiv (dbl 1000000 1) (dbl 1000 1)) (dbl 1000 1)) = Inr 1"
    unfolding calm_doubles by (simp add: dto_unsigned_def dtrunc_def)
  then show ?thesis unfolding SleepInit_def total Let_def by simp
qed

definition network_run :: "bool \<Rightarrow> int \<Rightarrow> cPacketData \<Rightarrow> cOutput run_state" where
  "network_run sync repeat d = \<lparr>r_env = first_env,
     r_sink = prepare_netif (new_cInterface calm_os ''eth0'' True) sync repeat new_cOutput,
     r_data = d, r_polls = 0, r_time = 0, r_repeat = 0\<rparr>"

lemma network_run_simps:
  "m_netif (r_sink (network_run sync repeat d)) = Some (new_cInterface calm_os ''eth0'' True)"
  "m_realtimeMode (r_sink (network_run sync repeat d)) = sync" "m_repeat (r_sink (network_run sync repeat d)) = repeat"
  "r_data (network_run sync repeat d) = d" "r_polls (network_run sync repeat d) = 0"
  "unused (new_cInterface calm_os ''eth0'' True)" "wire (new_cInterface calm_os ''eth0'' True) = []"
  by (simp_all add: network_run_def prepare_netif_def new_cOutput_def unused_def new_cInterface_def if_init_def calm_os_def
      bindM_def sys_socket_def sys_close_def Let_def)

lemma network_prepared: "\<exists>i'. prepared_netif (calm_world k0) sync (new_cInterface calm_os ''eth0'' True) i'"
  by (auto simp: prepared_netif_def calm_SleepInit)

theorem frames_on_time_witness:
  "\<exists>e k s' es. run_output (calm_world None) as_it_is (network_run True 2 (one_packet e 5)) = Some (Inr (), s')
    \<and> wire_log (r_sink s') = es
    \<and> list_all2 (on_wire (calm_world None) k as_it_is) [(5, replicate 14 0), (10, replicate 14 0)] es"
proof -
  obtain e where l0: "in_list (one_packet e 5) (pd_head (one_packet e 5)) [0] [([replicate 14 0], 5)]" by (rule blank_list)
  obtain i' where i': "prepared_netif (calm_world None) True (new_cInterface calm_os ''eth0'' True) i'"
    using network_prepared by blast
  let ?s = "network_run True 2 (one_packet e 5)"
  have l: "in_list (r_data ?s) (pd_head (r_data ?s)) [0] [(replicate 14 0 # [], 5)]"
    unfolding network_run_simps by (rule l0)
  have "reliable (w_os (calm_world None))" "\<forall>k. \<not> interrupted (calm_world None) k" by (simp_all add: calm_reliable)
  then have "\<exists>s' es. run_output (calm_world None) as_it_is ?s = Some (Inr (), s') \<and> wire_log (r_sink s') = [] @ es
    \<and> list_all2 (on_wire (calm_world None) (k_clock i') as_it_is) (rounds 2 0 [([replicate 14 0], 5)]) es"
    using frames_on_time [OF l, of _ "calm_world None" i' 2 as_it_is] i' by (simp add: network_run_simps)
  then show ?thesis unfolding blank_twice append_Nil by blast
qed

subsection \<open>Without end\<close>

text \<open>
  C13: with \<open>-l 0\<close> the call returns once the signal was counted: before the round in which it shows at the
  latest. What was sent is an initial part of the unlimited repetition, nothing is sent twice or left out, and
  the look at the signal that ended the loops saw it.
\<close>

theorem signal_ends_output:
  assumes "in_list (r_data s) (pd_head (r_data s)) xs fs" and "m_netif (r_sink s) = Some i" and "unused i"
    and "reliable (w_os w)" and "prepared_netif w (m_realtimeMode (r_sink s)) i i'"
    and "m_repeat (r_sink s) = 0" and "stays w" and "interrupted w (r_polls s + j)"
    and "Suc j * duration fs \<le> 2 ^ 63" and "m_realtimeMode (r_sink s) \<or> duration fs = 0"
  shows "\<exists>s' es m. run_output w pp s = Some (Inr (), s') \<and> wire_log (r_sink s') = wire i @ es
    \<and> list_all2 (on_wire w (k_clock i') pp) (take m (rounds (Suc j) 0 fs)) es
    \<and> (m < length (rounds (Suc j) 0 fs) \<longrightarrow> interrupted w (r_polls s' - 1))"
proof -
  let ?s = "s\<lparr>r_sink := (r_sink s)\<lparr>m_netif := Some i'\<rparr>\<rparr>"
  note ready = unused_ready [OF assms(4,3,5)]
  have "wire_log (r_sink ?s) = wire i" using ready(2) by (simp add: wire_log_def)
  then show ?thesis using run_output_netif [OF assms(2,5), of pp] all_fit_soon [OF assms(9,10), of pp] assms(1,6,8,9)
      ready(1) [of "r_sink s"] wire_sink.stops_at_signal [where s = "output_start ?s" and w = w and pp = pp and j = j
        and fs = fs and xs = xs and ?k0.0 = "k_clock i'" and ?sync = "m_realtimeMode (r_sink s)", OF _ _ _ assms(7)]
    by simp
qed

theorem signal_ends_output_witness:
  "\<exists>e k s' es m. run_output (calm_world (Some 1)) as_it_is (network_run True 0 (one_packet e 5)) = Some (Inr (), s')
    \<and> wire_log (r_sink s') = es \<and> list_all2 (on_wire (calm_world (Some 1)) k as_it_is)
        (take m [(5, replicate 14 0), (10, replicate 14 0)]) es
    \<and> (m < 2 \<longrightarrow> interrupted (calm_world (Some 1)) (r_polls s' - 1))"
proof -
  obtain e where l0: "in_list (one_packet e 5) (pd_head (one_packet e 5)) [0] [([replicate 14 0], 5)]" by (rule blank_list)
  obtain i' where i': "prepared_netif (calm_world (Some 1)) True (new_cInterface calm_os ''eth0'' True) i'"
    using network_prepared by blast
  let ?s = "network_run True 0 (one_packet e 5)"
  have l: "in_list (r_data ?s) (pd_head (r_data ?s)) [0] [(replicate 14 0 # [], 5)]"
    unfolding network_run_simps by (rule l0)
  have r: "rounds (Suc 1) 0 [([replicate 14 0], 5)] = [(5, replicate 14 0), (10, replicate 14 0)]" by simp
  have w: "reliable (w_os (calm_world (Some 1)))" "interrupted (calm_world (Some 1)) (r_polls ?s + 1)"
    by (simp_all add: calm_reliable network_run_simps)
  have "\<exists>s' es m. run_output (calm_world (Some 1)) as_it_is ?s = Some (Inr (), s') \<and> wire_log (r_sink s') = [] @ es
    \<and> list_all2 (on_wire (calm_world (Some 1)) (k_clock i') as_it_is) (take m (rounds (Suc 1) 0 [([replicate 14 0], 5)])) es
    \<and> (m < length (rounds (Suc 1) 0 [([replicate 14 0], 5 :: cTimeval)]) \<longrightarrow> interrupted (calm_world (Some 1)) (r_polls s' - 1))"
    using signal_ends_output [OF l _ _ w(1) _ _ calm_stays w(2), of "new_cInterface calm_os ''eth0'' True" i' as_it_is] i'
    by (simp add: network_run_simps)
  then show ?thesis unfolding r append_Nil by (auto simp: numeral_2_eq_2)
qed

text \<open>
  C14: with \<open>-l 0\<close> the program keeps sending as long as no signal comes: for every number of rounds \<open>n\<close>, if
  the looks at the signal in the first \<open>n\<close> rounds see none, then the call gets so far: the preparation
  returns, each of the \<open>n\<close> rounds is run to its end without an exception, every frame of each round was handed
  to the network, in order and not before its time, and the loop goes on from the state reached.
\<close>

theorem endless_keeps_sending:
  assumes "in_list (r_data s) (pd_head (r_data s)) xs fs" and "m_netif (r_sink s) = Some i" and "unused i"
    and "reliable (w_os w)" and "prepared_netif w (m_realtimeMode (r_sink s)) i i'"
    and "m_repeat (r_sink s) = 0" and "\<forall>k < r_polls s + n * (length xs + 2). \<not> interrupted w k"
    and "n * duration fs \<le> 2 ^ 63" and "m_realtimeMode (r_sink s) \<or> duration fs = 0"
  shows "\<exists>s' es. rounds_run w pp n s s' \<and> run_output w pp s = output_rounds w pp (output_put w) True s'
    \<and> wire_log (r_sink s') = wire i @ es \<and> list_all2 (on_wire w (k_clock i') pp) (rounds n 0 fs) es"
proof -
  let ?s = "s\<lparr>r_sink := (r_sink s)\<lparr>m_netif := Some i'\<rparr>\<rparr>"
  note ready = unused_ready [OF assms(4,3,5)]
  have log: "wire_log (r_sink ?s) = wire i" using ready(2) by (simp add: wire_log_def)
  have "n * duration fs < 2 ^ 64" using assms(8) by simp
  then obtain s' es where s': "rounds_done w pp (output_put w) n (output_start ?s) s'"
    "wire_log (r_sink s') = wire i @ es" "list_all2 (on_wire w (k_clock i') pp) (rounds n 0 fs) es"
    using log all_fit_soon [OF assms(8,9), of pp] assms(1,7)
      ready(1) [of "r_sink s"] wire_sink.endless_rounds [where s = "output_start ?s" and w = w and pp = pp and n = n
        and fs = fs and xs = xs and ?k0.0 = "k_clock i'" and ?sync = "m_realtimeMode (r_sink s)"]
    by fastforce
  from run_output_netif_reach [OF assms(2,5) s'(1)] rounds_done_loop [OF s'(1)] show ?thesis
    using run_output_netif [OF assms(2,5), of pp] assms(6) s'(2,3) by auto
qed

theorem endless_keeps_sending_witness:
  "\<exists>e k s' es. rounds_run (calm_world (Some 6)) as_it_is 2 (network_run True 0 (one_packet e 5)) s'
    \<and> wire_log (r_sink s') = es
    \<and> list_all2 (on_wire (calm_world (Some 6)) k as_it_is) [(5, replicate 14 0), (10, replicate 14 0)] es"
proof -
  obtain e where l0: "in_list (one_packet e 5) (pd_head (one_packet e 5)) [0] [([replicate 14 0], 5)]" by (rule blank_list)
  let ?w = "calm_world (Some 6)"
  obtain i' where i': "prepared_netif ?w True (new_cInterface calm_os ''eth0'' True) i'" using network_prepared by blast
  let ?s = "network_run True 0 (one_packet e 5)"
  have l: "in_list (r_data ?s) (pd_head (r_data ?s)) [0] [(replicate 14 0 # [], 5)]"
    unfolding network_run_simps by (rule l0)
  have w: "reliable (w_os ?w)" by (simp add: calm_reliable)
  have "\<exists>s' es. rounds_run ?w as_it_is 2 ?s s' \<and> run_output ?w as_it_is ?s = output_rounds ?w as_it_is (output_put ?w) True s'
    \<and> wire_log (r_sink s') = [] @ es
    \<and> list_all2 (on_wire ?w (k_clock i') as_it_is) (rounds 2 0 [([replicate 14 0], 5)]) es"
    using endless_keeps_sending [OF l _ _ w, of "new_cInterface calm_os ''eth0'' True" i' 2 as_it_is] i'
    by (simp add: network_run_simps)
  then show ?thesis unfolding blank_twice append_Nil by blast
qed

subsection \<open>A capture file is sent again\<close>

text \<open>The delays between the frames of a schedule.\<close>

fun since :: "cTimeval \<Rightarrow> (cTimeval \<times> byte list) list \<Rightarrow> (byte list list \<times> cTimeval) list" where
  "since t [] = []"
| "since t ((t', b) # xs) = ([b], t' - t) # since t' xs"

definition in_time :: "nat \<Rightarrow> nat \<Rightarrow> (cTimeval \<times> byte list) list \<Rightarrow> bool" where
  "in_time lo hi xs \<longleftrightarrow> sorted_wrt (\<lambda>x y. fst x \<le> fst y) xs \<and> (\<forall>x\<in>set xs. lo \<le> unat (fst x) \<and> unat (fst x) \<le> hi)"

lemma in_time_append: "in_time lo mid xs \<Longrightarrow> in_time mid hi ys \<Longrightarrow> lo \<le> mid \<Longrightarrow> mid \<le> hi \<Longrightarrow> in_time lo hi (xs @ ys)"
  by (fastforce simp: in_time_def sorted_wrt_append word_le_nat_alt)

lemma timed_in_time: "unat t + duration fs < 2 ^ 64 \<Longrightarrow> in_time (unat t) (unat t + duration fs) (timed t fs)"
proof (induction fs arbitrary: t)
  case (Cons x xs)
  have t: "unat (t + snd x) = unat t + unat (snd x)" using Cons.prems by (simp add: duration_Cons_eq unat_word_ariths)
  have "sorted_wrt (\<lambda>x y. fst x \<le> fst y) (map (Pair u) bs)" for u :: cTimeval and bs :: "byte list list"
    by (simp add: sorted_wrt_map)
  then have "in_time (unat t) (unat (t + snd x)) (map (Pair (t + snd x)) (fst x))" using t by (auto simp: in_time_def)
  from in_time_append [OF this Cons.IH [of "t + snd x"]] show ?case using t Cons.prems
    by (simp add: timed_Cons_eq duration_Cons_eq add.assoc)
qed (simp add: in_time_def)

lemma rounds_in_time: "unat t + n * duration fs < 2 ^ 64 \<Longrightarrow> in_time (unat t) (unat t + n * duration fs) (rounds n t fs)"
proof (induction n arbitrary: t)
  case (Suc n)
  have t: "unat (t + of_nat (duration fs)) = unat t + duration fs"
    using Suc.prems by (simp add: unat_word_ariths unat_of_nat)
  have "in_time (unat t) (unat t + duration fs) (timed t fs)" using timed_in_time [of t fs] Suc.prems by simp
  from in_time_append [OF this Suc.IH [of "t + of_nat (duration fs)", unfolded t]] show ?case using Suc.prems
    by (simp add: add.assoc)
qed (simp add: in_time_def)

text \<open>What the compiler makes of the captured frames, with the factor 1.\<close>

lemma replayed_captured:
  "list_all2 (\<lambda>x r. captured (fst x) (snd x) r) xs rs \<Longrightarrow> in_time (unat t) hi xs \<Longrightarrow> hi < 2 ^ 53 \<Longrightarrow>
   \<forall>x\<in>set xs. length (snd x) < 2 ^ 31 \<Longrightarrow> replayed (dbl 1 1) (t - t0) (map (delivered t0) rs) = Inr (since t xs)"
proof (induction xs arbitrary: rs t)
  case (Cons x xs)
  obtain t' b where x: "x = (t', b)" by fastforce
  obtain r rs' where r: "rs = r # rs'" "captured t' b r" "list_all2 (\<lambda>x r. captured (fst x) (snd x) r) xs rs'"
    using Cons.prems(1) x by (auto simp: list_all2_Cons1)
  have n: "length b < 2 ^ 31" using Cons.prems(4) x by simp
  then have len: "sint (of_nat (length b) :: u32) = int (length b)"
    by (simp add: signed_of_nat signed_take_bit_int_eq_self)
  have d: "delivered t0 r = (t' - t0, int (length b), b)"
    using r(2) len by (simp add: captured_def delivered_def timeval_roundtrip tv_sub_def)
  have t: "unat t \<le> unat t'" "unat t' \<le> hi" using Cons.prems(2) x by (simp_all add: in_time_def)
  then have "unat (t' - t) < 2 ^ 53" using Cons.prems(3) by (simp add: unat_sub word_le_nat_alt)
  then have m: "tv_mul (dbl 1 1) (tv_sub (t' - t0) (t - t0)) = Inr (t' - t)" using tv_mul_one by (simp add: tv_sub_def)
  have "in_time (unat t') hi xs" using Cons.prems(2) x by (auto simp: in_time_def word_le_nat_alt)
  then have "replayed (dbl 1 1) (t' - t0) (map (delivered t0) rs') = Inr (since t' xs)"
    using Cons.IH [OF r(3)] Cons.prems(3,4) by simp
  then show ?case using r(1) d m x by (simp add: bindE_def)
qed simp

definition first_time :: "(cTimeval \<times> byte list) list \<Rightarrow> cTimeval" where
  "first_time xs = (case xs of [] \<Rightarrow> 0 | x # _ \<Rightarrow> fst x)"

lemma replayed_file:
  assumes "list_all2 (\<lambda>x r. captured (fst x) (snd x) r) xs rs" and "in_time lo hi xs" and "hi < 2 ^ 53"
    and "\<forall>x\<in>set xs. length (snd x) < 2 ^ 31"
  shows "replayed (dbl 1 1) 0 (delivered_all rs) = Inr (since (first_time xs) xs)"
proof (cases xs)
  case (Cons x ys)
  then obtain r rs' where r: "rs = r # rs'" "captured (fst x) (snd x) r" using assms(1) by (auto simp: list_all2_Cons1)
  have t0: "tv_set (ts (fst r)) = fst x" using r(2) by (simp add: captured_def timeval_roundtrip)
  have "in_time (unat (fst x)) hi xs" using assms(2) Cons by (auto simp: in_time_def word_le_nat_alt)
  from replayed_captured [OF assms(1) this assms(3,4), of "fst x"] show ?thesis using r(1) t0 Cons
    by (simp add: first_time_def)
qed (use assms(1) in \<open>simp add: first_time_def\<close>)

lemma compile_capture:
  assumes "new_cCompiler PCAP delay sc opt (dbl 1 1) e = Inr (c, t)" and "pcap_open_offline lib path = Some h"
    and "complete h" and "\<forall>p\<in>set (delivered_all (pf_records h)). whole_frame p"
    and "replayed (dbl 1 1) 0 (delivered_all (pf_records h)) = Inr ys"
  shows "\<exists>t' items. compile_input c files lib [path] t = (end_of_file h, t') \<and> listing t' items \<and> as_frames items = ys
    \<and> hasUserTimestamps (c_data t')"
proof -
  have c: "c_type c = PCAP" "pcapScalingFactor c = dbl 1 1" by (simp_all add: fresh_compiler(1) [OF assms(1)])
  have "dbl 1 1 = Fin (2 ^ 52) (- 52)" using to_double_exact [of 1 0] by (simp add: dbl_def)
  then have z: "\<not> dis_zero (dbl 1 1)" by (simp add: dis_zero_def)
  let ?t = "t\<lparr>c_data := (c_data t)\<lparr>hasUserTimestamps := True\<rparr>\<rparr>"
  have "data_ok (c_data ?t) []" "contents (c_data ?t) [] = []"
    unfolding fresh_compiler(7) [OF assms(1)] using data_ok_new by (simp_all add: data_ok_def contents_def)
  then have "listing ?t []" by (auto simp: listing_def)
  from pcap_file_run [OF assms(2,3) this assms(4) assms(5) [folded c(2)]] obtain r t' items where
    r: "bindM (liftE (pcap_open lib path False new_cPcapFileIO)) (\<lambda>(ok, f). pcap_loop c f 0) ?t = (r, t')"
    "ended h r" "listing t' items" "as_frames items = as_frames [] @ ys"
    "hasUserTimestamps (c_data t') = hasUserTimestamps (c_data ?t)"
    by (elim exE conjE) (rule that)
  obtain f where f: "pcap_open lib path False new_cPcapFileIO = Inr (True, f)"
    using open_reading [OF assms(2)] by blast
  have "compile_input c files lib [path] t = (end_of_file h, t')"
    using r(1,2) f c z
    by (auto simp: compile_input_def processPcapFiles_def bindM_def user_timestamps_def ended_def split: sum.splits prod.splits)
  then show ?thesis using r(3-5) by (intro exI [of _ t'] exI [of _ items]) (simp add: as_frames_def)
qed

text \<open>
  C2: what the output writes to a capture file, the compiler reads back: with the scaling factor 1 and no
  random addresses the new packet list has the same frames in the same order, and the same time between
  each two; only the delay before the first one is gone. The frames have at most 65535 bytes, the length the
  file is opened with. The reading of the file reports its end with \<open>-2\<close>, as documented; what it leaves in the
  header pointer then is not, so the theorem has both cases: the compiler returns if the pointer was set, and
  otherwise it has read every frame and then reads through an uninitialised pointer.
\<close>

theorem capture_replayed:
  assumes "in_list (r_data s) (pd_head (r_data s)) xs fs"
    and "prepare_file w path ''pcap'' (int n) new_cOutput = Inr (r_sink s)" and "0 < n"
    and "\<forall>k. \<not> dump_ferror (w_libpcap w) k" and "\<forall>k. \<not> interrupted w k"
    and "\<not> randomSrcMac pp" and "\<not> randomDstMac pp"
    and "\<forall>x\<in>set fs. \<forall>b\<in>set (fst x). 14 \<le> length b \<and> length b \<le> 65535" and "n * duration fs < 2 ^ 53"
    and "run_output w pp s = Some (Inr (), s')"
    and "pcap_open_offline lib path = Some \<lparr>pf_records = capture_log (r_sink s'), pf_end = -2, pf_endHeader = hdr\<rparr>"
    and "new_cCompiler PCAP delay sc opt (dbl 1 1) e = Inr (c, t)"
  shows "\<exists>t' items. compile_input c files lib [path] t
      = (case hdr of Some _ \<Rightarrow> Inr () | None \<Rightarrow> Inl (Undefined ''uninitialised pointer''), t') \<and> listing t' items
    \<and> as_frames items = since (first_time (rounds n 0 fs)) (rounds n 0 fs) \<and> hasUserTimestamps (c_data t')"
proof -
  let ?xs = "rounds n 0 fs" and ?rs = "capture_log (r_sink s')"
  note fresh = fresh_capture [OF assms(2,4)]
  have d: "n * duration fs < 2 ^ 64" using assms(9) by simp
  have short: "14 \<le> length b \<and> length b < 2 ^ 31" if "x \<in> set fs" "b \<in> set (fst x)" for x b
    using assms(8) that by fastforce
  then have "\<forall>x\<in>set fs. \<forall>b\<in>set (fst x). length b < 2 ^ 31" by blast
  from run_output_capture [OF assms(1) fresh(3) assms(3) fresh(1,2,4) assms(5) this d, of pp]
  have "list_all2 (sent_as captured pp) ?xs ?rs" using assms(10) by simp
  moreover have "captured (fst x) (snd x) r" if "sent_as captured pp x r" for x r
    using that emits_plain [OF assms(6,7)] by (auto simp: sent_as_def)
  ultimately have cap: "list_all2 (\<lambda>x r. captured (fst x) (snd x) r) ?xs ?rs" by (auto elim: list_all2_mono)
  have frames: "14 \<le> length (snd x) \<and> length (snd x) < 2 ^ 31" if "x \<in> set ?xs" for x
    using rounds_members [OF that] short d by auto
  have time: "in_time 0 (n * duration fs) ?xs" using rounds_in_time [of 0 n fs] d by simp
  have whole: "whole_frame (delivered t0 r)" if r: "r \<in> set ?rs" for t0 r
  proof -
    obtain i where "i < length ?rs" "?rs ! i = r" using r by (auto simp: in_set_conv_nth)
    then have x: "?xs ! i \<in> set ?xs" "captured (fst (?xs ! i)) (snd (?xs ! i)) r"
      using cap by (auto simp: list_all2_conv_all_nth)
    then show ?thesis using frames [OF x(1)]
      by (simp add: captured_def delivered_def whole_frame_def signed_of_nat signed_take_bit_int_eq_self)
  qed
  then have "\<forall>p\<in>set (delivered_all ?rs). whole_frame p" by (cases ?rs) auto
  moreover have "replayed (dbl 1 1) 0 (delivered_all ?rs) = Inr (since (first_time ?xs) ?xs)"
    using replayed_file [OF cap time assms(9)] frames by blast
  ultimately show ?thesis using compile_capture [OF assms(12,11)]
    by (cases hdr) (simp_all add: complete_def end_of_file_def)
qed

definition with_capture :: "cOutput \<Rightarrow> libpcap" where
  "with_capture o1 = (w_libpcap (calm_world None))\<lparr>pcap_open_offline := \<lambda>_. Some \<lparr>pf_records = capture_log o1, pf_end = -2,
     pf_endHeader = Some \<lparr>ts = \<lparr>tv_sec = 0, tv_usec = 0\<rparr>, caplen = 0, pkt_len = 0\<rparr>\<rparr>\<rparr>"

theorem capture_replayed_witness:
  "\<exists>e s' c t t' items. run_output (calm_world None) as_it_is (file_run ''pcap'' 2 (one_packet e 5)) = Some (Inr (), s')
    \<and> new_cCompiler PCAP 0 1 False (dbl 1 1) (first_env) = Inr (c, t)
    \<and> compile_input c (\<lambda>_. None) (with_capture (r_sink s')) [''f''] t = (Inr (), t') \<and> listing t' items
    \<and> as_frames items = [([replicate 14 0], 0), ([replicate 14 0], 5)]"
proof -
  let ?w = "calm_world None" and ?z = "replicate 14 (0 :: byte)"
  obtain e where l: "in_list (one_packet e 5) (pd_head (one_packet e 5)) [0] [([?z], 5)]" by (rule blank_list)
  let ?s = "file_run ''pcap'' 2 (one_packet e 5)"
  have l': "in_list (r_data ?s) (pd_head (r_data ?s)) [0] [([?z], 5)]" unfolding file_run_data by (rule l)
  have p: "prepare_file ?w ''f'' ''pcap'' (int 2) new_cOutput = Inr (r_sink ?s)" by (simp add: file_run_capture)
  have pp: "\<not> randomSrcMac as_it_is" "\<not> randomDstMac as_it_is" by (simp_all add: as_it_is_def)
  have w: "\<forall>k. \<not> dump_ferror (w_libpcap ?w) k" "\<forall>k. \<not> interrupted ?w k" by simp_all
  obtain s' where r: "run_output ?w as_it_is ?s = Some (Inr (), s')"
    using run_output_capture [OF l' fresh_capture(3) [OF p w(1)] _ fresh_capture(1,2,4) [OF p w(1)] w(2), of as_it_is] by auto
  obtain c t where n: "new_cCompiler PCAP 0 1 False (dbl 1 1) (first_env) = Inr (c, t)"
    by (auto simp: new_cCompiler_def)
  have "\<exists>t' items. compile_input c (\<lambda>_. None) (with_capture (r_sink s')) [''f''] t = (Inr (), t') \<and> listing t' items
      \<and> as_frames items = since (first_time (rounds 2 0 [([?z], 5)])) (rounds 2 0 [([?z], 5)])"
    using capture_replayed [OF l' p _ w pp _ _ r _ n, where lib = "with_capture (r_sink s')" and files = "\<lambda>_. None"]
    by (simp add: with_capture_def) blast
  moreover have "since (first_time [(5, ?z), (10, ?z)]) [(5, ?z), (10, ?z)] = [([?z], 0), ([?z], 5)]"
    by (simp add: first_time_def)
  ultimately show ?thesis using r n unfolding blank_twice by auto
qed

end
