(* ===== verification/ConfigureFacts.thy ===== *)
theory ConfigureFacts
  imports Delivery
begin

section \<open>What the options set up\<close>

text \<open>
  The state \<open>cTcpPump::execute\<close> has reached when it starts to compile: every address has its size, the
  numbers are in their ranges, and the interface that the packets need is there.
\<close>

subsection \<open>Steps with a condition before and after\<close>

text \<open>\<open>settles P m Q\<close>: from a state with \<open>P\<close>, a step that goes on ends with \<open>Q\<close>.\<close>

definition settles :: "('s \<Rightarrow> bool) \<Rightarrow> ('s, 'a) step \<Rightarrow> ('a \<Rightarrow> 's \<Rightarrow> bool) \<Rightarrow> bool" where
  "settles P m Q \<longleftrightarrow> (\<forall>s x s'. P s \<longrightarrow> m s = (Inr (Inr x), s') \<longrightarrow> Q x s')"

definition ends_with :: "('s \<Rightarrow> bool) \<Rightarrow> ('s, 'a) M \<Rightarrow> ('a \<Rightarrow> 's \<Rightarrow> bool) \<Rightarrow> bool" where
  "ends_with P m Q \<longleftrightarrow> (\<forall>s x s'. P s \<longrightarrow> m s = (Inr x, s') \<longrightarrow> Q x s')"

lemma settles_and_then:
  "settles P m Q \<Longrightarrow> (\<And>x. settles (Q x) (f x) R) \<Longrightarrow> settles P (and_then m f) R"
  by (fastforce simp: settles_def and_then_def bindM_def exit_code_def split: prod.splits sum.splits)

lemma settles_bind:
  "ends_with P m Q \<Longrightarrow> (\<And>x. settles (Q x) (f x) R) \<Longrightarrow> settles P (bindM m f) R"
  by (fastforce simp: settles_def ends_with_def bindM_def split: prod.splits sum.splits)

lemma ends_with_bind:
  "ends_with P m Q \<Longrightarrow> (\<And>x. ends_with (Q x) (f x) R) \<Longrightarrow> ends_with P (bindM m f) R"
  by (fastforce simp: ends_with_def bindM_def split: prod.splits sum.splits)

lemma settles_if: "(b \<Longrightarrow> settles P m Q) \<Longrightarrow> (\<not> b \<Longrightarrow> settles P m' Q) \<Longrightarrow> settles P (if b then m else m') Q"
  by simp

lemma settles_go_on: "(\<And>s. P s \<Longrightarrow> Q x s) \<Longrightarrow> settles P (go_on x) Q"
  by (simp add: settles_def go_on_def)

lemma settles_exit: "settles P (exit_code c) Q"
  by (simp add: settles_def exit_code_def)

subsection \<open>The invariant\<close>

definition sane_os :: "os \<Rightarrow> bool" where
  "sane_os os \<longleftrightarrow> (\<forall>n family a. os_hwaddr os n = Some (family, a) \<longrightarrow> 6 \<le> length a)
     \<and> (\<forall>n a. os_ifaddr os n = Some a \<longrightarrow> length a = 4)"

definition sane_env :: "'z env_scheme \<Rightarrow> bool" where
  "sane_env s \<longleftrightarrow> length (m_myMAC s) = 6 \<and> length (m_myIP s) = 4 \<and> length (m_myIPv6 s) = 16
     \<and> (\<forall>t a. inet_pton6 s t = Some a \<longrightarrow> length a = 16)"

definition sane_interface :: "cInterface \<Rightarrow> bool" where
  "sane_interface i \<longleftrightarrow> length (myMac i) = 6 \<and> length (myIP i) = 4 \<and> length (myIPv6 i) = 16 \<and> isReady i"

definition sane :: "bool \<Rightarrow> pump \<Rightarrow> bool" where
  "sane created s \<longleftrightarrow> sane_env s \<and> (case ifc s of None \<Rightarrow> \<not> created | Some i \<Rightarrow> created \<and> sane_interface i)"

lemma random_keeps_sane: "rng_neutral (\<lambda>s. (sane b s, m_mtu s))"
  by (simp add: rng_neutral_def sane_def sane_env_def)

text \<open>The addresses that are read from options.\<close>

lemma length_mac_set: "mac_set t n s = (Inr (Some m), s') \<Longrightarrow> length m = 6"
proof -
  assume h: "mac_set t n s = (Inr (Some m), s')"
  have "length m = 6" if "mac_setRandom True False s = (Inr m, s')" for m
    using that by (auto simp: mac_setRandom_def bugOn_def)
  then show ?thesis using h
    by (fastforce simp: mac_set_def Let_def dest!: parse_tokens_length split: if_splits)
qed

lemma length_mem32_word [simp]: "length (mem32 v) = 4"
  by (simp add: mem32_def)

lemma length_ipv4_set: "ipv4_set t n s = (Inr (Some a), s') \<Longrightarrow> length a = 4"
proof -
  assume h: "ipv4_set t n s = (Inr (Some a), s')"
  have "length a = 4" if "ipv4_setRandom s = (Inr a, s')" for a
    using that by (auto simp: ipv4_setRandom_def Let_def)
  then show ?thesis using h
    by (fastforce simp: ipv4_set_def Let_def dest!: parse_tokens_length split: if_splits)
qed

lemma ends_with_preserves:
  assumes "preserves (\<lambda>s. (sane b s, m_mtu s)) m" and "\<And>s x s'. m s = (Inr x, s') \<Longrightarrow> R x"
  shows "ends_with (sane b) m (\<lambda>x s. sane b s \<and> R x)"
  unfolding ends_with_def
proof (intro allI impI)
  fix s x s' assume "sane b s" "m s = (Inr x, s')"
  then show "sane b s' \<and> R x" using preservesD [OF assms(1), of s] assms(2) by simp
qed

lemma mac_set_ends: "ends_with (sane b) (mac_set t n) (\<lambda>r s. sane b s \<and> (\<forall>m. r = Some m \<longrightarrow> length m = 6))"
  by (rule ends_with_preserves) (auto intro: preserves_intros random_keeps_sane dest: length_mac_set)

lemma ipv4_set_ends: "ends_with (sane b) (ipv4_set t n) (\<lambda>r s. sane b s \<and> (\<forall>m. r = Some m \<longrightarrow> length m = 4))"
  by (rule ends_with_preserves) (auto intro: preserves_intros random_keeps_sane dest: length_ipv4_set)

lemma set_text_ends:
  "ends_with (sane b) (setMyMAC_text t) (\<lambda>_. sane b)"
  "ends_with (sane b) (setMyIPv4_text t) (\<lambda>_. sane b)"
  "ends_with (sane b) (setMyIPv6_text t) (\<lambda>_. sane b)"
proof -
  show "ends_with (sane b) (setMyMAC_text t) (\<lambda>_. sane b)" unfolding setMyMAC_text_def
    by (rule ends_with_bind [OF mac_set_ends]) (auto simp: ends_with_def bindM_def sane_def sane_env_def split: option.splits)
  show "ends_with (sane b) (setMyIPv4_text t) (\<lambda>_. sane b)" unfolding setMyIPv4_text_def
    by (rule ends_with_bind [OF ipv4_set_ends]) (auto simp: ends_with_def bindM_def sane_def sane_env_def split: option.splits)
  show "ends_with (sane b) (setMyIPv6_text t) (\<lambda>_. sane b)" unfolding setMyIPv6_text_def ipv6_set_text_def
    by (auto simp: ends_with_def bindM_def sane_def sane_env_def split: option.splits)
qed

lemma apply_option_settles:
  assumes "\<And>t. ends_with P (setter t) (\<lambda>_. P)"
  shows "settles P (apply_option v setter) (\<lambda>_. P)"
proof (cases v)
  case (Some t)
  have "settles P (bindM (setter t) (\<lambda>ok. if ok then go_on () else exit_code (- 1))) (\<lambda>_. P)"
    by (rule settles_bind [OF assms]) (intro settles_if settles_go_on settles_exit)
  then show ?thesis using Some by (simp add: apply_option_def)
qed (simp add: apply_option_def settles_go_on)

lemma overwriteDMAC_settles:
  "settles (sane b) (read_overwriteDMAC opt) (\<lambda>m s. sane b s \<and> (m = None \<longleftrightarrow> opt_overwriteDMAC opt = None)
     \<and> (\<forall>a. m = Some a \<longrightarrow> length a = 6))"
proof (cases "opt_overwriteDMAC opt")
  case (Some t)
  show ?thesis unfolding read_overwriteDMAC_def Some option.case
    by (rule settles_bind [OF mac_set_ends]) (auto simp: settles_def go_on_def exit_code_def split: option.splits)
qed (simp add: read_overwriteDMAC_def settles_go_on)

lemma scales_settle:
  "settles P (read_scales opt) (\<lambda>x s. P s \<and> fst x \<in> {1, 1000, 10000, 1000000} \<and> time_scale (opt_timeRes opt) = Some (fst x))"
  by (auto simp: settles_def read_scales_def time_scale_def go_on_def exit_code_def split: option.splits sum.splits if_splits)

subsection \<open>The interface\<close>

lemma getMAC_sane:
  "sane_os os \<Longrightarrow> sane_interface i \<Longrightarrow> getMAC os i = (r, i') \<Longrightarrow>
   sane_interface i' \<and> (\<forall>m. r = Inr (Some m) \<longrightarrow> length m = 6)"
  by (auto simp: sane_os_def sane_interface_def isReady_def getMAC_def bindM_def sys_socket_def sys_close_def Let_def
      split: if_splits option.splits prod.splits)

lemma getIPv4_sane:
  "sane_os os \<Longrightarrow> sane_interface i \<Longrightarrow> getIPv4 os i = (r, i') \<Longrightarrow>
   sane_interface i' \<and> (\<forall>a. r = Inr (Some a) \<longrightarrow> length a = 4)"
  by (auto simp: sane_os_def sane_interface_def isReady_def getIPv4_def bindM_def sys_socket_def sys_close_def Let_def
      split: if_splits option.splits)

lemma getIPv6_sane:
  "sane_env e \<Longrightarrow> sane_interface i \<Longrightarrow> getIPv6 os e (replicate 16 0) i = (r, i') \<Longrightarrow>
   sane_interface i' \<and> (\<forall>a. r = Inr (Some a) \<longrightarrow> length a = 16)"
  by (auto simp: sane_env_def sane_interface_def isReady_def getIPv6_def ipv6_set_text_def bindM_def Let_def
      split: if_splits option.splits)

lemma getMTU_sane: "sane_interface i \<Longrightarrow> getMTU os i = (r, i') \<Longrightarrow> sane_interface i'"
  by (auto simp: sane_interface_def isReady_def getMTU_def bindM_def sys_socket_def sys_close_def Let_def
      split: if_splits option.splits)

lemma sane_truncate: "sane b s \<Longrightarrow> sane_env (env.truncate s)"
  by (simp add: sane_def sane_env_def env.defs)

lemma ask_interface_ends:
  assumes "\<And>e i r i'. sane_env e \<Longrightarrow> sane_interface i \<Longrightarrow> get e i = (r, i') \<Longrightarrow> sane_interface i' \<and> (\<forall>a. r = Inr (Some a) \<longrightarrow> R a)"
  shows "ends_with (sane b) (ask_interface get) (\<lambda>r s. sane b s \<and> (\<forall>a. r = Some a \<longrightarrow> R a))"
  unfolding ends_with_def
proof (intro allI impI)
  fix s x s' assume s: "sane b s" "ask_interface get s = (Inr x, s')"
  show "sane b s' \<and> (\<forall>a. x = Some a \<longrightarrow> R a)"
  proof (cases "ifc s")
    case (Some i)
    then obtain i' where i': "get (env.truncate s) i = (Inr x, i')" "s' = s\<lparr>ifc := Some i'\<rparr>"
      using s(2) by (auto simp: ask_interface_def split: prod.splits)
    have i: "sane_interface i" using s(1) Some by (simp add: sane_def)
    have "sane_interface i' \<and> (\<forall>a. x = Some a \<longrightarrow> R a)" using assms [OF sane_truncate [OF s(1)] i i'(1)] by simp
    then show ?thesis using s(1) Some i'(2) by (auto simp: sane_def sane_env_def)
  qed (use s in \<open>simp add: ask_interface_def\<close>)
qed

lemma default_address_ends:
  assumes "\<And>e i r i'. sane_env e \<Longrightarrow> sane_interface i \<Longrightarrow> get e i = (r, i') \<Longrightarrow> sane_interface i' \<and> (\<forall>a. r = Inr (Some a) \<longrightarrow> R a)"
    and "\<And>a s. sane b s \<Longrightarrow> R a \<Longrightarrow> sane b (snd (setter a s))"
  shows "ends_with (sane b) (default_address isSet get setter) (\<lambda>_. sane b)"
proof -
  have "ends_with (sane b) (bindM (ask_interface get) (\<lambda>r. case r of Some a \<Rightarrow> setter a | None \<Rightarrow> returnM ())) (\<lambda>_. sane b)"
  proof (rule ends_with_bind [OF ask_interface_ends [OF assms(1)]], simp_all)
    fix r show "ends_with (\<lambda>s. sane b s \<and> (\<forall>a. r = Some a \<longrightarrow> R a))
        (case r of None \<Rightarrow> returnM () | Some a \<Rightarrow> setter a) (\<lambda>_. sane b)"
      using assms(2) by (cases r) (auto simp: ends_with_def, metis snd_conv)
  qed
  then show ?thesis by (auto simp: default_address_def ends_with_def bindM_def [of "getM isSet"])
qed

lemma setters_sane:
  "sane b s \<Longrightarrow> length m = 6 \<Longrightarrow> sane b (snd (setMyMAC m s))"
  "sane b s \<Longrightarrow> length a = 4 \<Longrightarrow> sane b (snd (setMyIPv4 a s))"
  "sane b s \<Longrightarrow> length c = 16 \<Longrightarrow> sane b (snd (setMyIPv6 c s))"
  by (simp_all add: setMyMAC_def setMyIPv4_def setMyIPv6_def sane_def sane_env_def)

lemma default_addresses_ends:
  assumes "sane_os (w_os w)"
  shows "ends_with (sane b) (default_addresses w) (\<lambda>_. sane b)"
  unfolding default_addresses_def
  by (intro ends_with_bind [where Q = "\<lambda>_. sane b"] default_address_ends [where R = "\<lambda>a. length a = 6"]
      default_address_ends [where R = "\<lambda>a. length a = 4"] default_address_ends [where R = "\<lambda>a. length a = 16"] setters_sane
      getMAC_sane [OF assms] getIPv4_sane [OF assms] getIPv6_sane)

lemma create_interface_settles:
  "settles (sane False) (create_interface w opt) (\<lambda>_. sane (opt_ifc opt \<noteq> None))"
proof (cases "opt_ifc opt")
  case (Some name)
  let ?i = "new_cInterface (w_os w) name (opt_outfile opt = None)"
  have "isReady ?i \<Longrightarrow> sane_interface ?i"
    by (auto simp: new_cInterface_def if_init_def sane_interface_def bindM_def sys_socket_def sys_close_def Let_def split: if_splits)
  then show ?thesis using Some
    by (auto simp: settles_def create_interface_def bindM_def sane_def sane_env_def go_on_def exit_code_def Let_def)
qed (simp add: create_interface_def settles_go_on)

lemma configure_mtu_settles:
  "settles (sane b) (configure_mtu w opt) (\<lambda>_ s. sane b s
     \<and> (opt_mtu opt \<noteq> 0 \<longrightarrow> m_mtu s = opt_mtu opt \<and> 68 \<le> opt_mtu opt \<and> opt_mtu opt \<le> 1024 * 1024))"
proof (cases "opt_mtu opt = 0")
  case True
  have ask: "ends_with (sane b) (ask_interface (\<lambda>_. bindM (getMTU (w_os w)) (\<lambda>m. returnM (Some m))))
      (\<lambda>r s. sane b s \<and> (\<forall>a. r = Some a \<longrightarrow> True))"
    by (rule ask_interface_ends) (auto simp: bindM_def dest: getMTU_sane split: prod.splits sum.splits)
  have set: "sane b s \<Longrightarrow> sane b (s\<lparr>m_mtu := m\<rparr>)" for s m by (simp add: sane_def sane_env_def)
  have "settles (sane b) (bindM (ask_interface (\<lambda>_. bindM (getMTU (w_os w)) (\<lambda>m. returnM (Some m)))) (\<lambda>r. case r of
             Some m \<Rightarrow> if m \<noteq> 0 then bindM (setMyMTU m) (\<lambda>_. go_on ()) else go_on ()
           | None \<Rightarrow> go_on ())) (\<lambda>_. sane b)"
    by (rule settles_bind [OF ask]) (auto simp: settles_def bindM_def setMyMTU_def go_on_def set split: option.splits if_splits)
  then show ?thesis using True by (simp add: configure_mtu_def)
next
  case False
  then show ?thesis
    by (auto simp: configure_mtu_def settles_def exit_code_def bindM_def setMyMTU_def go_on_def sane_def sane_env_def not_less
        split: option.splits)
qed

subsection \<open>The whole configuration\<close>

lemma and_then_iff:
  "and_then m f s = (Inr (Inr y), t) \<longleftrightarrow> (\<exists>x s'. m s = (Inr (Inr x), s') \<and> f x s' = (Inr (Inr y), t))"
  by (auto simp: and_then_def bindM_def exit_code_def split: prod.splits sum.splits)

lemma settlesD: "settles P m Q \<Longrightarrow> m s = (Inr (Inr x), s') \<Longrightarrow> P s \<Longrightarrow> Q x s'"
  by (auto simp: settles_def)

lemma ends_withD: "ends_with P m Q \<Longrightarrow> m s = (Inr x, s') \<Longrightarrow> P s \<Longrightarrow> Q x s'"
  by (auto simp: ends_with_def)

definition configured :: "appOptions \<Rightarrow> string list \<Rightarrow> settings \<Rightarrow> pump \<Rightarrow> bool" where
  "configured opt args cfg s \<longleftrightarrow>
     sane (opt_ifc opt \<noteq> None) s \<and> args \<noteq> [] \<and> \<not> (opt_script opt \<and> opt_pcap opt)
     \<and> (opt_ifc opt = None \<longrightarrow> opt_outfile opt \<noteq> None \<and> \<not> opt_arp opt)
     \<and> set_timeScale cfg \<in> {1, 1000, 10000, 1000000}
     \<and> set_activeDelay cfg = scast (opt_delay opt) * ucast (set_timeScale cfg)
     \<and> (set_overwriteDMAC cfg = None \<longleftrightarrow> opt_overwriteDMAC opt = None)
     \<and> (\<forall>m. set_overwriteDMAC cfg = Some m \<longrightarrow> length m = 6)
     \<and> (opt_mtu opt \<noteq> 0 \<longrightarrow> m_mtu s = opt_mtu opt \<and> 68 \<le> opt_mtu opt \<and> opt_mtu opt \<le> 1024 * 1024)"

lemma configure_settles:
  assumes "sane_os (w_os w)" and "sane_env e"
    and "configure w opt args (env.extend e (pump.fields None)) = (Inr (Inr cfg), s)"
  shows "configured opt args cfg s"
proof -
  let ?s = "env.extend e (pump.fields None)"
  obtain s1 s2 timeScale pcapScale s3 s4 s5 s6 dmac s7 s8 s9 s10 where
    c: "check_arguments opt args ?s = (Inr (Inr ()), s1)"
    "(if opt_predictableRandom opt then setCounterMode 0 else returnM ()) s1 = (Inr (), s2)"
    "read_scales opt s2 = (Inr (Inr (timeScale, pcapScale)), s3)"
    "apply_option (opt_myIP opt) setMyIPv4_text s3 = (Inr (Inr ()), s4)"
    "apply_option (opt_myIPv6 opt) setMyIPv6_text s4 = (Inr (Inr ()), s5)"
    "apply_option (opt_myMAC opt) setMyMAC_text s5 = (Inr (Inr ()), s6)"
    "read_overwriteDMAC opt s6 = (Inr (Inr dmac), s7)"
    "(if opt_script opt \<and> opt_pcap opt then exit_code (-1) else go_on ()) s7 = (Inr (Inr ()), s8)"
    "create_interface w opt s8 = (Inr (Inr ()), s9)" "default_addresses w s9 = (Inr (), s10)"
    "configure_mtu w opt s10 = (Inr (Inr ()), s)"
    and cfg: "cfg = \<lparr>set_timeScale = timeScale, set_pcapScale = pcapScale, set_overwriteDMAC = dmac,
      set_activeDelay = scast (opt_delay opt) * ucast timeScale\<rparr>"
    using assms(3) unfolding configure_def and_then_iff bindM_Inr_iff
    by (auto simp: and_then_iff bindM_Inr_iff go_on_def split: prod.splits)
  have "sane False ?s" using assms(2) by (simp add: sane_def sane_env_def env.defs pump.defs)
  then have 1: "sane False s1" "args \<noteq> []" "opt_ifc opt = None \<longrightarrow> opt_outfile opt \<noteq> None \<and> \<not> opt_arp opt"
    using c(1) by (auto simp: check_arguments_def exit_code_def go_on_def split: if_splits)
  then have "sane False s2" using c(2)
    by (auto simp: setCounterMode_def sane_def sane_env_def split: if_splits)
  from settlesD [OF scales_settle c(3), of "sane False"] this
  have 3: "sane False s3" "timeScale \<in> {1, 1000, 10000, 1000000}" by simp_all
  have 4: "sane False s4" by (rule settlesD [OF apply_option_settles [OF set_text_ends(2)] c(4) 3(1)])
  have 5: "sane False s5" by (rule settlesD [OF apply_option_settles [OF set_text_ends(3)] c(5) 4])
  have 6: "sane False s6" by (rule settlesD [OF apply_option_settles [OF set_text_ends(1)] c(6) 5])
  have 7: "sane False s7" "dmac = None \<longleftrightarrow> opt_overwriteDMAC opt = None" "\<forall>a. dmac = Some a \<longrightarrow> length a = 6"
    using settlesD [OF overwriteDMAC_settles c(7) 6] by simp_all
  have 8: "sane False s8" "\<not> (opt_script opt \<and> opt_pcap opt)"
    using c(8) 7(1) by (auto simp: exit_code_def go_on_def split: if_splits)
  note 9 = settlesD [OF create_interface_settles c(9) 8(1)]
  note 10 = ends_withD [OF default_addresses_ends [OF assms(1)] c(10) 9]
  from settlesD [OF configure_mtu_settles c(11) 10] show ?thesis
    using 1 3(2) 7(2,3) 8(2) cfg by (simp add: configured_def)
qed

lemma calm_sane: "sane_os calm_os" "sane_env first_env"
  by (simp_all add: sane_os_def calm_os_def sane_env_def first_env_def initial_env_def)

subsection \<open>Exit codes\<close>

definition exits :: "(int \<Rightarrow> bool) \<Rightarrow> ('s, 'a) step \<Rightarrow> bool" where
  "exits C m \<longleftrightarrow> (\<forall>s c s'. m s = (Inr (Inl c), s') \<longrightarrow> C c)"

lemma exits_intros:
  "C c \<Longrightarrow> exits C (exit_code c)" "exits C (go_on x)"
  "exits C m \<Longrightarrow> (\<And>x. exits C (f x)) \<Longrightarrow> exits C (and_then m f)"
  "(\<And>x. exits C (g x)) \<Longrightarrow> exits C (bindM n g)"
  "exits C m1 \<Longrightarrow> exits C m2 \<Longrightarrow> exits C (if b then m1 else m2)"
  "exits C m1 \<Longrightarrow> (\<And>y. exits C (h y)) \<Longrightarrow> exits C (case v of None \<Rightarrow> m1 | Some y \<Rightarrow> h y)"
  "(\<And>y. exits C (l y)) \<Longrightarrow> (\<And>y. exits C (r y)) \<Longrightarrow> exits C (case z of Inl y \<Rightarrow> l y | Inr y \<Rightarrow> r y)"
  "(\<And>a b. exits C (q a b)) \<Longrightarrow> exits C (case p of (a, b) \<Rightarrow> q a b)"
proof -
  show "exits C m \<Longrightarrow> (\<And>x. exits C (f x)) \<Longrightarrow> exits C (and_then m f)"
    by (fastforce simp: exits_def and_then_def bindM_def exit_code_def split: prod.splits sum.splits)
  show "(\<And>x. exits C (g x)) \<Longrightarrow> exits C (bindM n g)"
    by (fastforce simp: exits_def bindM_def split: prod.splits sum.splits)
qed (auto simp: exits_def exit_code_def go_on_def split: option.splits sum.splits prod.splits)

definition early_exit :: "string list \<Rightarrow> int \<Rightarrow> bool" where
  "early_exit args c \<longleftrightarrow> c = -1 \<or> c = -2 \<or> (c = 0 \<and> args \<noteq> [] \<and> hd args = ''help'')"

lemma configure_exits: "exits (early_exit args) (configure w opt args)"
proof -
  have check: "exits (early_exit args) (check_arguments opt args)"
    by (auto simp: check_arguments_def early_exit_def exits_def exit_code_def go_on_def split: if_splits)
  have e: "early_exit args (-1)" "early_exit args (-2)" by (simp_all add: early_exit_def)
  show ?thesis unfolding configure_def read_scales_def apply_option_def read_overwriteDMAC_def create_interface_def
      configure_mtu_def Let_def
    by (intro exits_intros check e)
qed

lemma handle_error_code: "handle_error x = Inr c \<Longrightarrow> c = -2"
  by (auto simp: handle_error_def bindE_Inr_iff split: error.splits option.splits)

lemma open_interface_code: "open_interface w opt s = (Inr (Inl c), s') \<Longrightarrow> c = -1"
  by (auto simp: open_interface_def bindE_Inr_iff split: if_splits option.splits prod.splits)

lemma destroy_list_code: "destroy_list d r = Some (Inr c) \<Longrightarrow> r = Inr c"
  by (auto simp: destroy_list_def bindE_Inr_iff split: sum.splits)

lemma catch_all_code: "catch_all r = Inr c \<Longrightarrow> c = -2 \<or> r = Inr c"
  by (auto simp: catch_all_def dest: handle_error_code split: sum.splits)

subsection \<open>What was sent\<close>

text \<open>What every write to the backend keeps, a successful run keeps.\<close>

lemma process_frames_keeps:
  assumes "\<And>t p k k'. put t p k = Some (Inr (), k') \<Longrightarrow> P k \<Longrightarrow> P k'"
    and "process_frames pp put es s = Some (Inr r, s')" and "P (r_sink s)"
  shows "P (r_sink s')"
  using assms(2,3)
proof (induction es arbitrary: s r)
  case (Cons p ps)
  then show ?case using assms(1)
    by (fastforce simp: bindN_Inr_iff processPacket_def on_env_def on_sink_def liftN_def split: prod.splits option.splits)
qed (simp add: liftN_def)

lemma output_node_keeps:
  assumes "\<And>t p k k'. put t p k = Some (Inr (), k') \<Longrightarrow> P k \<Longrightarrow> P k'"
    and "output_node pp put a s = Some (Inr r, s')" and "P (r_sink s)"
  shows "P (r_sink s')"
proof -
  have item: "P (r_sink s2)" if "output_item pp put x s1 = Some (Inr y, s2)" "P (r_sink s1)" for x y s1 s2
  proof (cases x)
    case (EthPacket e)
    then show ?thesis using that assms(1)
      by (fastforce simp: output_item_def bindN_Inr_iff processPacket_def on_env_def on_sink_def liftN_def
          split: prod.splits option.splits)
  next
    case (IpPacket ip)
    then show ?thesis using that process_frames_keeps [where P = P, OF assms(1)]
      by (auto simp: output_item_def bindN_Inr_iff liftN_def)
  qed
  have same: "r_sink s2 = r_sink s1" if "on_list f s1 = (Inr u, s2)" for f u and s1 s2 :: "'a run_state"
    using that by (auto simp: on_list_def split: sum.splits)
  obtain n s1 x s2 where "output_item pp put x s1 = Some (Inr n, s2)" "P (r_sink s1)" "r_sink s' = r_sink s2"
    using assms(2,3)
    by (fastforce simp: output_node_def bindN_Inr_iff liftN_def liftE_def modifyM_def dest!: same)
  then show ?thesis using item by simp
qed

abbreviation passes_on :: "'k putter \<Rightarrow> ('k \<Rightarrow> bool) \<Rightarrow> bool" where
  "passes_on put P \<equiv> \<forall>t p k k'. put t p k = Some (Inr (), k') \<longrightarrow> P k \<longrightarrow> P k'"

lemma output_pass_keeps:
  "output_pass w pp put p s = Some r \<Longrightarrow> passes_on put P \<longrightarrow> P (r_sink s) \<longrightarrow> fst r = Inr () \<longrightarrow> P (r_sink (snd r))"
proof (rule output_pass.raw_induct [where P = "\<lambda>w pp put p s r. passes_on put P \<longrightarrow> P (r_sink s) \<longrightarrow> fst r = Inr () \<longrightarrow> P (r_sink (snd r))"])
  fix again w pp put p and s :: "'a run_state" and r
  assume IH: "\<And>w pp put p s r. again w pp put p s = Some r \<Longrightarrow>
      passes_on put P \<longrightarrow> P (r_sink s) \<longrightarrow> fst r = Inr () \<longrightarrow> P (r_sink (snd r))"
    and h: "bindN (poll w) (\<lambda>signalled s.
     if signalled then Some (Inr (), s)
     else case p of
         None \<Rightarrow> Some (Inr (), s)
       | Some a \<Rightarrow> bindN (output_node pp put a) (\<lambda>next s. again w pp put next s) s) s = Some r"
  show "passes_on put P \<longrightarrow> P (r_sink s) \<longrightarrow> fst r = Inr () \<longrightarrow> P (r_sink (snd r))"
  proof (intro impI)
    assume p: "passes_on put P" "P (r_sink s)" "fst r = Inr ()"
    obtain s' where r: "r = (Inr (), s')" using p(3) by (cases r) simp
    let ?s = "s\<lparr>r_polls := r_polls s + 1\<rparr>"
    consider "s' = ?s" | a n s1 where "output_node pp put a ?s = Some (Inr n, s1)" "again w pp put n s1 = Some (Inr (), s')"
      using h unfolding r by (auto simp: bindN_Inr_iff poll_def split: if_splits option.splits)
    then show "P (r_sink (snd r))"
    proof cases
      case 2
      have "P (r_sink s1)" using output_node_keeps [OF _ 2(1), of P] p(1,2) by simp
      then show ?thesis using IH [OF 2(2)] p(1) r by simp
    qed (use p(2) r in simp)
  qed
qed

lemma output_rounds_keeps:
  "output_rounds w pp put b s = Some r \<Longrightarrow> passes_on put P \<longrightarrow> P (r_sink s) \<longrightarrow> fst r = Inr () \<longrightarrow> P (r_sink (snd r))"
proof (rule output_rounds.raw_induct [where P = "\<lambda>w pp put b s r. passes_on put P \<longrightarrow> P (r_sink s) \<longrightarrow> fst r = Inr () \<longrightarrow> P (r_sink (snd r))"])
  fix again w pp put b and s :: "'a run_state" and r
  assume IH: "\<And>w pp put b s r. again w pp put b s = Some r \<Longrightarrow>
      passes_on put P \<longrightarrow> P (r_sink s) \<longrightarrow> fst r = Inr () \<longrightarrow> P (r_sink (snd r))"
    and h: "bindN (poll w) (\<lambda>signalled s.
     if signalled then Some (Inr (), s)
     else bindN (liftN (another_round b)) (\<lambda>more s.
       if \<not> more then Some (Inr (), s)
       else bindN (\<lambda>s. output_pass w pp put (pd_head (r_data s)) s) (\<lambda>_ s. again w pp put b s) s) s) s = Some r"
  show "passes_on put P \<longrightarrow> P (r_sink s) \<longrightarrow> fst r = Inr () \<longrightarrow> P (r_sink (snd r))"
  proof (intro impI)
    assume p: "passes_on put P" "P (r_sink s)" "fst r = Inr ()"
    obtain s' where r: "r = (Inr (), s')" using p(3) by (cases r) simp
    have same: "r_sink s2 = r_sink s1" if "another_round b s1 = (Inr x, s2)" for x s1 s2
      using that by (auto simp: another_round_def split: if_splits)
    consider "r_sink s' = r_sink s" | q s1 s2 where "r_sink s1 = r_sink s" "output_pass w pp put q s1 = Some (Inr (), s2)"
        "again w pp put b s2 = Some (Inr (), s')"
      using h unfolding r by (auto simp: bindN_Inr_iff poll_def liftN_def dest!: same split: if_splits)
    then show "P (r_sink (snd r))"
    proof cases
      case 2
      have "P (r_sink s2)" using output_pass_keeps [OF 2(2), of P] p(1,2) 2(1) by simp
      then show ?thesis using IH [OF 2(3)] p(1) r by simp
    qed (use p(2) r in simp)
  qed
qed

text \<open>Every line of a text file ends with a newline, and there is none inside; a dump has its own format.\<close>

definition lines_count :: "cAsciiBackend \<Rightarrow> bool" where
  "lines_count a \<longleftrightarrow> m_hexdump a \<or> NL \<notin> set (m_colSeparator a) \<and> NL \<notin> set (m_byteSeparator a)
     \<and> m_writtenPackets a = of_nat (count_list (ab_text a) NL)"

lemma no_newline: "NL \<notin> set (show_nat n)" "NL \<notin> set (hex_byte b)"
proof -
  have nl: "code_of NL = 10" by (simp add: code_of_def)
  then have "\<not> isdigit NL" by (simp add: isdigit_def)
  then show "NL \<notin> set (show_nat n)" using show_nat_digits [of n] by blast
  have "hex_digit n \<noteq> NL" if "n < 16" for n
  proof
    assume "hex_digit n = NL"
    then have "code_of (hex_digit n) = 10" using nl by simp
    then show False using that by (auto simp: hex_digit_def code_of_char_of split: if_splits)
  qed
  then have "hex_digit (unat (drop_bit 4 b)) \<noteq> NL" "hex_digit (unat (b AND 15)) \<noteq> NL" using nibbles [of b] by blast+
  then show "NL \<notin> set (hex_byte b)" by (simp add: hex_byte_def)
qed

lemma ab_printf_text:
  "ab_printf io text a = (Inr (), a') \<Longrightarrow> ab_text a' = ab_text a @ text \<and> m_writtenPackets a' = m_writtenPackets a
    \<and> m_colSeparator a' = m_colSeparator a \<and> m_byteSeparator a' = m_byteSeparator a \<and> m_hexdump a' = m_hexdump a"
  by (auto simp: ab_printf_def Let_def split: if_splits)

lemma print_bytes_text:
  "print_bytes io bs a = (Inr (), a') \<Longrightarrow> NL \<notin> set (m_byteSeparator a) \<Longrightarrow>
   count_list (ab_text a') NL = count_list (ab_text a) NL \<and> m_writtenPackets a' = m_writtenPackets a
    \<and> m_colSeparator a' = m_colSeparator a \<and> m_byteSeparator a' = m_byteSeparator a \<and> m_hexdump a' = m_hexdump a"
proof (induction bs arbitrary: a)
  case (Cons b bs)
  then show ?case
    by (fastforce simp: bindM_def getM_def no_newline dest!: ab_printf_text split: prod.splits sum.splits)
qed (simp add: returnM_def)

definition accounted :: "cOutput \<Rightarrow> bool" where
  "accounted o1 \<longleftrightarrow> (case m_outfile o1 of
     Some (PcapBackend b) \<Rightarrow> (\<exists>written. m_dumper (pb_outfile b) = Some written \<and> m_pcapWrittenPackets b = of_nat (length written))
   | Some (AsciiBackend a) \<Rightarrow> lines_count a
   | None \<Rightarrow> True)"

lemma pb_write_accounted:
  "pb_write lib t p b = (Inr (), b') \<Longrightarrow> m_dumper (pb_outfile b) = Some written \<Longrightarrow> m_pcapWrittenPackets b = of_nat (length written)
   \<Longrightarrow> \<exists>written. m_dumper (pb_outfile b') = Some written \<and> m_pcapWrittenPackets b' = of_nat (length written)"
  by (auto simp: pb_write_def pcap_write_def bindE_def bugOn_def Let_def split: sum.splits prod.splits if_splits option.splits)

lemma hexdump_stays:
  "ab_printf io text a = (r1, a') \<Longrightarrow> m_hexdump a' = m_hexdump a"
  "dump_loop io i buff bs a = (r2, a') \<Longrightarrow> m_hexdump a' = m_hexdump a"
  "dump_pad io n a = (r1, a') \<Longrightarrow> m_hexdump a' = m_hexdump a"
  "ab_write io t p a = (r1, a') \<Longrightarrow> m_hexdump a' = m_hexdump a"
proof -
  show printf: "m_hexdump a' = m_hexdump a" if "ab_printf io line a = (r, a')" for r line a a'
    using that by (auto simp: ab_printf_def Let_def split: if_splits)
  show loop: "m_hexdump a' = m_hexdump a" if "dump_loop io i buff bs a = (r, a')" for r i buff bs a a'
    using that
    by (induction bs arbitrary: i buff a)
      (fastforce simp: bindM_def returnM_def Let_def dest: printf split: prod.splits sum.splits if_splits)+
  show pad: "m_hexdump a' = m_hexdump a" if "dump_pad io n a = (r, a')" for r n a a'
    using that
    by (induction n arbitrary: a) (fastforce simp: bindM_def returnM_def dest: printf split: prod.splits sum.splits)+
  have bytes: "m_hexdump a' = m_hexdump a" if "print_bytes io bs a = (r, a')" for r bs a a'
    using that
    by (induction bs arbitrary: a) (fastforce simp: bindM_def returnM_def getM_def dest: printf split: prod.splits sum.splits)+
  have dump: "m_hexdump a' = m_hexdump a" if "dump io bs a = (r, a')" for r bs a a'
    using that
    by (fastforce simp: dump_def bindM_def returnM_def dest: printf loop pad split: prod.splits sum.splits if_splits)
  show "ab_write io t p a = (r1, a') \<Longrightarrow> m_hexdump a' = m_hexdump a"
    by (fastforce simp: ab_write_def Let_def bindM_def returnM_def getM_def count_packet_def modifyM_def
        dest: printf bytes dump split: prod.splits sum.splits if_splits)
qed

lemma ab_write_accounted:
  assumes "ab_write io t p a = (Inr (), a')" and "lines_count a"
  shows "lines_count a'"
proof (cases "m_hexdump a")
  case True
  then show ?thesis using hexdump_stays(4) [OF assms(1)] by (simp add: lines_count_def)
next
  case False
  obtain a1 where a1: "m_colSeparator a1 = m_colSeparator a" "m_byteSeparator a1 = m_byteSeparator a" "m_hexdump a1 = m_hexdump a"
    "count_list (ab_text a1) NL = count_list (ab_text a) NL" "m_writtenPackets a1 = m_writtenPackets a"
    "bindM (print_bytes io (visible p)) (\<lambda>_. bindM (ab_printf io newline) (\<lambda>_. count_packet)) a1 = (Inr (), a')"
    using assms False unfolding ab_write_def Let_def lines_count_def
    by (fastforce simp: bindM_def getM_def returnM_def pad_left_def no_newline dest!: ab_printf_text split: prod.splits sum.splits if_splits)
  then show ?thesis using assms(2) False
    by (fastforce simp: lines_count_def bindM_def count_packet_def modifyM_def newline_def dest!: ab_printf_text print_bytes_text
        split: prod.splits sum.splits)
qed

lemma output_put_accounted: "passes_on (output_put w) accounted"
proof (intro allI impI)
  fix t p o1 o2
  assume h: "output_put w t p o1 = Some (Inr (), o2)" "accounted o1"
  consider i where "m_netif o1 = Some i" | "m_netif o1 = None" "m_outfile o1 = None"
    | b where "m_netif o1 = None" "m_outfile o1 = Some b" by (cases "m_netif o1"; cases "m_outfile o1") auto
  then show "accounted o2"
  proof cases
    case 1
    then have "m_outfile o2 = m_outfile o1" using h(1) by (auto simp: output_put_def split: prod.splits)
    then show ?thesis using h(2) by (simp add: accounted_def)
  next
    case 2
    then show ?thesis using h(1) by (simp add: output_put_def)
  next
    case 3
    then obtain b' where b': "file_write w t p b = (Inr (), b')" "o2 = o1\<lparr>m_outfile := Some b'\<rparr>"
      using h(1) by (auto simp: output_put_def split: prod.splits)
    show ?thesis
    proof (cases b)
      case (PcapBackend c)
      then obtain c' where c': "pb_write (w_libpcap w) t p c = (Inr (), c')" "b' = PcapBackend c'"
        using b'(1) by (auto simp: file_write_def split: prod.splits)
      show ?thesis using pb_write_accounted [OF c'(1)] h(2) 3 PcapBackend b'(2) c'(2) by (auto simp: accounted_def)
    next
      case (AsciiBackend a)
      then obtain a' where a': "ab_write (w_stdio w) t p a = (Inr (), a')" "b' = AsciiBackend a'"
        using b'(1) by (auto simp: file_write_def split: prod.splits)
      show ?thesis using ab_write_accounted [OF a'(1)] h(2) 3 AsciiBackend b'(2) a'(2) by (auto simp: accounted_def)
    qed
  qed
qed

lemma output_put_netif: "passes_on (output_put w) (\<lambda>o1. (m_netif o1 = None) = b)"
  by (auto simp: output_put_def split: option.splits prod.splits)

lemma run_output_accounted:
  assumes "run_output w pp s = Some (Inr (), s')" and "accounted (r_sink s)"
  shows "accounted (r_sink s')" and "m_netif (r_sink s') = None \<longleftrightarrow> m_netif (r_sink s) = None"
proof -
  obtain r o1 where p: "output_prepare w (r_data s) (r_sink s) = (r, o1)" by fastforce
  have r: "r = Inr ()" using assms(1) p by (cases r) (auto simp: run_output_def bindN_def on_sink_def liftN_def)
  let ?s = "s\<lparr>r_sink := o1, r_time := 0, r_repeat := m_repeat o1\<rparr>"
  have o1: "output_rounds w pp (output_put w) (m_repeat o1 = 0) ?s = Some (Inr (), s')"
    using assms(1) p r by (simp add: run_output_def bindN_def on_sink_def liftN_def modifyM_def)
  have same: "m_outfile o1 = m_outfile (r_sink s)" "m_netif o1 = None \<longleftrightarrow> m_netif (r_sink s) = None"
    using p r by (auto simp: output_prepare_def split: option.splits prod.splits)
  show "accounted (r_sink s')" "m_netif (r_sink s') = None \<longleftrightarrow> m_netif (r_sink s) = None"
    using output_rounds_keeps [OF o1, of accounted] output_rounds_keeps [OF o1, of "\<lambda>o2. (m_netif o2 = None) = (m_netif o1 = None)"]
      output_put_accounted output_put_netif [of w "m_netif o1 = None"] same assms(2) by (simp_all add: accounted_def)
qed

text \<open>
  The number of packets that are in the output, modulo \<open>2^64\<close>: the records of a capture file, the lines of a text or
  hexstream file; for a hexdump and the network what was counted, which is each packet that was written or that
  \<open>sendto\<close> took.
\<close>

definition frames_out :: "cOutput \<Rightarrow> u64" where
  "frames_out o1 = (case m_netif o1 of
     Some i \<Rightarrow> if_sentPackets i
   | None \<Rightarrow> (case m_outfile o1 of
       None \<Rightarrow> 0
     | Some (PcapBackend b) \<Rightarrow> (case m_dumper (pb_outfile b) of None \<Rightarrow> 0 | Some written \<Rightarrow> of_nat (length written))
     | Some (AsciiBackend a) \<Rightarrow> if m_hexdump a then m_writtenPackets a else of_nat (count_list (ab_text a) NL)))"

lemma statistic_frames:
  assumes "output_statistic w o1 = (Inr (n, bytes, d), o2)" and "accounted o1"
  shows "n = frames_out o2"
  using assms
  by (auto simp: output_statistic_def frames_out_def accounted_def lines_count_def pb_statistic_def ab_statistic_def
      getSendStatistic_def bindM_def sys_now_def getM_def split: option.splits cFileBackend.splits prod.splits)

lemma send_all_frames:
  assumes "send_all w opt k s = Some (Inr c, o1, s')" and "accounted k"
  shows "c = (if frames_out o1 = 0 then 1 else 0)"
proof -
  obtain t st where t: "run_output w \<lparr>randomSrcMac = opt_randSrcMac opt, randomDstMac = opt_randDstMac opt\<rparr>
      \<lparr>r_env = env.truncate s, r_sink = k, r_data = packetData s, r_polls = fl_polls s, r_time = 0, r_repeat = 0\<rparr> = Some (Inr (), t)"
    "output_statistic w (r_sink t) = (st, o1)" "bindE st (\<lambda>(n, bytes, d). Inr (if n = 0 then 1 else 0)) = Inr c"
  proof -
    obtain r t where rt: "run_output w \<lparr>randomSrcMac = opt_randSrcMac opt, randomDstMac = opt_randDstMac opt\<rparr>
      \<lparr>r_env = env.truncate s, r_sink = k, r_data = packetData s, r_polls = fl_polls s, r_time = 0, r_repeat = 0\<rparr> = Some (r, t)"
      using assms(1) by (auto simp: send_all_def)
    obtain st o2 where "output_statistic w (r_sink t) = (st, o2)" by fastforce
    then show thesis using that [of t st] rt assms(1) by (cases r) (auto simp: send_all_def)
  qed
  obtain n bytes d where n: "st = Inr (n, bytes, d)" "c = (if n = 0 then 1 else 0)"
    using t(3) by (cases st) (auto split: prod.splits)
  have "accounted (r_sink t)" using run_output_accounted(1) [OF t(1)] assms(2) by simp
  then show ?thesis using statistic_frames t(2) n by blast
qed

lemma new_backend_accounted: "prepare_output w opt realtime s = Inr k \<Longrightarrow> accounted k"
  by (auto simp: prepare_output_def prepare_file_def prepare_netif_def new_cOutput_def accounted_def lines_count_def
      new_cAsciiBackend_def new_cPcapBackend_def pcap_open_def bindE_Inr_iff tab_def Let_def
      split: option.splits if_splits)

lemma packet_flow_frames:
  "packet_flow w opt cfg s = Some (Inr c, o1, s') \<Longrightarrow>
   (case o1 of None \<Rightarrow> c = -1 | Some o2 \<Rightarrow> c = (if frames_out o2 = 0 then 1 else 0))"
  by (auto simp: packet_flow_def bindN_def liftN_def Let_def dest!: open_interface_code new_backend_accounted
      dest: send_all_frames split: option.splits sum.splits prod.splits)

lemma run_packets_frames:
  "run_packets w opt args cfg s = Some (Inr c, o1) \<Longrightarrow>
   (case o1 of None \<Rightarrow> c = -1 \<or> c = -2 | Some o2 \<Rightarrow> c = -2 \<or> c = (if frames_out o2 = 0 then 1 else 0))"
  by (auto simp: run_packets_def Let_def bind_eq_Some_conv
      dest!: destroy_list_code catch_all_code packet_flow_frames split: sum.splits prod.splits option.splits)

lemma execute_code:
  assumes "execute w opt args e = Some (Inr c, o1)"
  shows "case o1 of None \<Rightarrow> early_exit args c | Some o2 \<Rightarrow> c = -2 \<or> c = (if frames_out o2 = 0 then 1 else 0)"
proof -
  obtain r s where r: "configure w opt args (env.extend e (pump.fields None)) = (r, s)" by fastforce
  consider x where "r = Inl x" | d where "r = Inr (Inl d)" | cfg where "r = Inr (Inr cfg)" by (metis sum.exhaust)
  then show ?thesis
  proof cases
    case 2
    then have "early_exit args d" using configure_exits [of args w opt] r by (auto simp: exits_def)
    then show ?thesis using assms r 2 by (auto simp: execute_def)
  next
    case 3
    then have "run_packets w opt args cfg s = Some (Inr c, o1)" using assms r by (simp add: execute_def)
    from run_packets_frames [OF this] show ?thesis by (auto simp: early_exit_def split: option.splits)
  qed (use assms r in \<open>simp add: execute_def\<close>)
qed

end
