(* ===== verification/ProgramFacts.thy ===== *)
theory ProgramFacts
  imports ConfigureFacts Examples
begin

section \<open>The stages and the program\<close>

text \<open>
  The claims about the filter, the resolver and the address resolution on the network, about what
  \<open>cTcpPump::execute\<close> sets up from the options, and about the whole way of the packets of the command line.
\<close>

subsection \<open>The filter\<close>

text \<open>The bytes of a frame for another destination; a frame of less than six bytes has the start of it.\<close>

definition to_dest :: "byte list \<Rightarrow> byte list \<Rightarrow> byte list" where
  "to_dest mac b = take (length b) (mac @ drop 6 b)"

lemma setDestMac_run:
  assumes "frame_ok e" and "length mac = 6"
  shows "\<exists>e'. setDestMac mac e = Inr e' \<and> frame_ok e' \<and> visible e' = to_dest mac (visible e)"
proof -
  let ?e = "e\<lparr>packet := mac @ drop 6 (packet e), hasDMAC := True\<rparr>"
  have n: "12 \<le> length (packet e)" "getLength e \<le> length (packet e)" using assms(1) by (simp_all add: frame_ok_def)
  have "setDestMac mac e = Inr ?e" using n assms(2) by (simp add: setDestMac_def store_def memcpy_at_def)
  moreover have "getLength ?e = getLength e" by (simp add: getLength_def)
  moreover have "visible ?e = to_dest mac (visible e)" using n assms(2) calculation(2)
    by (simp add: visible_def drop_take min_def take_append to_dest_def)
  ultimately show ?thesis using assms n by (intro exI [of _ ?e]) (simp add: frame_ok_def)
qed

lemma setDestMac_all:
  assumes "list_all frame_ok es" and "length mac = 6"
  shows "\<exists>es'. mapE (setDestMac mac) es = Inr es' \<and> list_all frame_ok es'
    \<and> map visible es' = map (to_dest mac) (map visible es)"
  using assms(1)
proof (induction es)
  case (Cons e es)
  then show ?case using setDestMac_run [OF _ assms(2), of e] by auto
qed simp

definition bytes_in :: "cLinkable \<Rightarrow> byte list list" where
  "bytes_in x = map visible (frames_of x)"

lemma redirected_run:
  assumes "list_all frame_ok (frames_of x)" and "length mac = 6"
  shows "\<exists>y. redirected mac x = Inr y \<and> list_all frame_ok (frames_of y)
    \<and> bytes_in y = map (to_dest mac) (bytes_in x)"
proof (cases x)
  case (EthPacket e)
  then show ?thesis using setDestMac_run [of e mac] assms by (auto simp: redirected_def frames_of_def bytes_in_def)
next
  case (IpPacket ip)
  then show ?thesis using setDestMac_all [of "m_packets ip" mac] assms
    by (auto simp: redirected_def frames_of_def ip_setDestMac_def bytes_in_def)
qed

lemma redirected_all:
  "\<forall>x\<in>set xs. list_all frame_ok (frames_of x) \<Longrightarrow> length mac = 6 \<Longrightarrow>
   \<exists>ys. mapE (redirected mac) xs = Inr ys \<and> (\<forall>y\<in>set ys. list_all frame_ok (frames_of y))
     \<and> map bytes_in ys = map (\<lambda>x. map (to_dest mac) (bytes_in x)) xs"
proof (induction xs)
  case (Cons x xs)
  obtain y where "redirected mac x = Inr y" "list_all frame_ok (frames_of y)"
    "bytes_in y = map (to_dest mac) (bytes_in x)"
    using redirected_run [of x mac] Cons.prems by auto
  moreover obtain ys where "mapE (redirected mac) xs = Inr ys" "\<forall>y\<in>set ys. list_all frame_ok (frames_of y)"
    "map bytes_in ys = map (\<lambda>x. map (to_dest mac) (bytes_in x)) xs"
    using Cons.IH Cons.prems by auto
  ultimately show ?case by (intro exI [of _ "y # ys"]) simp
qed simp

definition to_mac :: "byte list \<Rightarrow> byte list list \<times> cTimeval \<Rightarrow> byte list list \<times> cTimeval" where
  "to_mac mac x = (map (to_dest mac) (fst x), snd x)"

lemma as_frames_zip:
  "length ys = length ds \<Longrightarrow> as_frames (zip ys ds) = zip (map bytes_in ys) ds"
  by (simp add: as_frames_def bytes_in_def zip_map1 split_def)

lemma contents_frames_ok: "frames_ok d xs \<longleftrightarrow> (\<forall>x\<in>set (map fst (contents d xs)). list_all frame_ok (frames_of x))"
  by (auto simp: frames_ok_def contents_def)

lemma filter_overwrites:
  assumes "data_ok d xs" and "frames_ok d xs" and "forcedDMAC flt = Some mac" and "length mac = 6"
  shows "\<exists>d'. run_filter flt d = Some (Inr (), d') \<and> data_ok d' xs \<and> frames_ok d' xs
    \<and> as_frames (contents d' xs) = map (to_mac mac) (as_frames (contents d xs))
    \<and> hasUserTimestamps d' = hasUserTimestamps d"
proof -
  let ?xs = "map fst (contents d xs)" and ?ts = "map snd (contents d xs)"
  obtain ys where ys: "mapE (redirected mac) ?xs = Inr ys" "\<forall>y\<in>set ys. list_all frame_ok (frames_of y)"
    "map bytes_in ys = map (\<lambda>x. map (to_dest mac) (bytes_in x)) ?xs"
    using redirected_all [of ?xs mac] assms(2,4) unfolding contents_frames_ok by auto
  have len: "length ys = length ?ts" using arg_cong [OF ys(3), of length] by simp
  obtain d' where d': "run_filter flt d = Some (Inr (), d')" "data_ok d' xs" "contents d' xs = zip ys ?ts"
    "hasUserTimestamps d' = hasUserTimestamps d"
    using run_filter_ok [OF assms(1,3)] ys(1) by auto
  have "as_frames (contents d' xs) = zip (map (\<lambda>x. map (to_dest mac) (bytes_in x)) ?xs) ?ts"
    unfolding d'(3) as_frames_zip [OF len] ys(3) ..
  also have "\<dots> = map (to_mac mac) (as_frames (contents d xs))"
    by (simp add: as_frames_def to_mac_def bytes_in_def zip_map_map zip_same_conv_map split_def)
  finally show ?thesis using d' ys(2) len by (auto simp: contents_frames_ok dest: set_zip_leftD)
qed

text \<open>
  C17: with an overwritten destination (\<open>--overwrite-dmac\<close>) every frame of the packet list, each fragment
  included, goes to the given address; no other byte, no delay and no counter of the list changes.
\<close>

theorem destination_overwritten:
  assumes "data_ok d xs" and "frames_ok d xs" and "forcedDMAC flt = Some mac" and "length mac = 6"
  shows "\<exists>d'. run_filter flt d = Some (Inr (), d') \<and> data_ok d' xs \<and> frames_ok d' xs
    \<and> as_frames (contents d' xs) = map (to_mac mac) (as_frames (contents d xs))
    \<and> hasUserTimestamps d' = hasUserTimestamps d"
  by (rule filter_overwrites [OF assms])

lemma blank_to_dest: "to_dest [2, 0, 0, 0, 0, 9] (replicate 14 0) = [2, 0, 0, 0, 0, 9] @ replicate 8 0"
  by (simp add: to_dest_def)

lemma one_packet_ok: "getLength e = 14 \<Longrightarrow> data_ok (one_packet e t) [0]"
  by (simp add: data_ok_def one_packet_def live_def frames_in_def frames_of_def sz_def)

theorem destination_overwritten_witness:
  "\<exists>e d'. visible e = replicate 14 0
    \<and> run_filter \<lparr>forcedDMAC = Some [2, 0, 0, 0, 0, 9], dropDMAC = None, dropSMAC = None\<rparr> (one_packet e 5) = Some (Inr (), d')
    \<and> as_frames (contents d' [0]) = [([[2, 0, 0, 0, 0, 9] @ replicate 8 0], 5)]"
proof -
  obtain e where e: "frame_ok e" "visible e = replicate 14 0" "getLength e = 14" by (rule blank_frame)
  have "frames_ok (one_packet e 5) [0]" "as_frames (contents (one_packet e 5) [0]) = [([replicate 14 0], 5)]"
    using one_packet_in_list [OF e(1), of 5] e(2) by (simp_all add: in_list_def)
  from destination_overwritten [OF one_packet_ok [OF e(3)] this(1), where mac = "[2, 0, 0, 0, 0, 9]"
      and flt = "\<lparr>forcedDMAC = Some [2, 0, 0, 0, 0, 9], dropDMAC = None, dropSMAC = None\<rparr>"] this(2)
  have "\<exists>d'. run_filter \<lparr>forcedDMAC = Some [2, 0, 0, 0, 0, 9], dropDMAC = None, dropSMAC = None\<rparr> (one_packet e 5)
      = Some (Inr (), d') \<and> as_frames (contents d' [0]) = map (to_mac [2, 0, 0, 0, 0, 9]) [([replicate 14 0], 5)]" by auto
  moreover have "map (to_mac [2, 0, 0, 0, 0, 9]) [([replicate 14 0], 5)] = [([[2, 0, 0, 0, 0, 9] @ replicate 8 0], 5)]"
    by (simp add: to_mac_def blank_to_dest)
  ultimately show ?thesis using e(2) by metis
qed

subsection \<open>The resolver\<close>

text \<open>
  C16: the resolver with its cache does what asking for the host of every packet would do, on a network whose
  answers stay the same: the same packets get the same destinations, or the same exception is thrown. But
  no host is asked for twice.
\<close>

theorem hosts_resolved_once:
  assumes "data_ok d xs"
  shows "case mapE (resolved host) (map fst (contents d xs)) of
      Inl e \<Rightarrow> \<exists>asked d'. run_resolver (logging host) ([], d) = Some (Inl e, asked, d')
    | Inr ys \<Rightarrow> \<exists>asked d'. run_resolver (logging host) ([], d) = Some (Inr (), asked, d') \<and> distinct asked
        \<and> data_ok d' xs \<and> contents d' xs = zip ys (map snd (contents d xs))
        \<and> hasUserTimestamps d' = hasUserTimestamps d"
  by (rule run_resolver_ok [OF assms])

text \<open>Two packets to the same host, and one without an address to resolve.\<close>

definition ip_to :: "byte list \<Rightarrow> cEthernetPacket \<Rightarrow> cLinkable" where
  "ip_to dip e = IpPacket \<lparr>m_isIPv6 = False, ip_mtu = 1500, m_packets = [e], m_dscp = 0, m_ecn = 0, m_ttl = 64,
     v4_srcIP = [10, 0, 0, 1], v4_dstIP = dip, dontFragment = False, identification = 0, hasId = False,
     hasRouterAlertOption = False, hasChksum = False, v4_chksum = 0, v6_srcIP = replicate 16 0, v6_dstIP = replicate 16 0,
     flowlabel = 0\<rparr>"

definition items_list :: "cLinkable list \<Rightarrow> cPacketData" where
  "items_list xs = \<lparr>pd_heap = map (\<lambda>i. \<lparr>l_item = xs ! i, m_next = (if Suc i < length xs then Some (Suc i) else None),
       m_t = 0, m_freed = False\<rparr>) [0..<length xs], hasUserTimestamps = False,
     pd_head = (if xs = [] then None else Some 0), pd_tail = (if xs = [] then None else Some (length xs - 1)),
     elements = sz (length xs), ethPackets = sz (length (concat (map frames_of xs))), ipv4Packets = 0,
     totalBytes = sz (sum_list (map getLength (concat (map frames_of xs))))\<rparr>"

lemma items_linked: "i \<le> length xs \<Longrightarrow>
    linked (pd_heap (items_list xs)) (if i < length xs then Some i else None) [i..<length xs]"
proof (induction "length xs - i" arbitrary: i)
  case (Suc n)
  then have i: "i < length xs" "[i..<length xs] = i # [Suc i..<length xs]" by (simp_all add: upt_conv_Cons)
  have "linked (pd_heap (items_list xs)) (if Suc i < length xs then Some (Suc i) else None) [Suc i..<length xs]"
    using Suc.hyps(2) i(1) by (intro Suc.hyps(1)) auto
  then show ?case using i by (cases "Suc i < length xs") (simp_all add: items_list_def live_def)
qed simp

lemma items_list_ok: "data_ok (items_list xs) [0..<length xs]" "map fst (contents (items_list xs) [0..<length xs]) = xs"
proof -
  have items: "map (\<lambda>i. l_item (pd_heap (items_list xs) ! i)) [0..<length xs] = xs"
    by (rule nth_equalityI) (simp_all add: items_list_def)
  then show "map fst (contents (items_list xs) [0..<length xs]) = xs" by (simp add: contents_def comp_def)
  have "frames_in (pd_heap (items_list xs)) [0..<length xs] = concat (map frames_of (map (\<lambda>i. l_item (pd_heap (items_list xs) ! i)) [0..<length xs]))"
    by (simp add: frames_in_def comp_def)
  then have "frames_in (pd_heap (items_list xs)) [0..<length xs] = concat (map frames_of xs)" unfolding items .
  then show "data_ok (items_list xs) [0..<length xs]" using items_linked [of 0 xs]
    by (auto simp: data_ok_def) (simp_all add: items_list_def last_upt)
qed

theorem hosts_resolved_once_witness:
  "\<exists>e e' asked d'. visible e = replicate 14 0 \<and> visible e' = [2, 0, 0, 0, 0, 9] @ replicate 8 0
    \<and> run_resolver (logging [[10, 0, 0, 2] \<mapsto> [2, 0, 0, 0, 0, 9]]) ([], items_list [ip_to [10, 0, 0, 2] e, ip_to [10, 0, 0, 2] e])
      = Some (Inr (), asked, d') \<and> distinct asked
    \<and> map fst (contents d' [0..<2]) = [ip_to [10, 0, 0, 2] e', ip_to [10, 0, 0, 2] e']"
proof -
  obtain e0 where e0: "frame_ok e0" "visible e0 = replicate 14 0" by (rule blank_frame)
  let ?e = "e0\<lparr>hasDMAC := False\<rparr>" and ?mac = "[2, 0, 0, 0, 0, 9] :: byte list" and ?ip = "[10, 0, 0, 2] :: byte list"
  have e: "frame_ok ?e" "visible ?e = replicate 14 0" using e0 by (simp_all add: frame_ok_def visible_def getLength_def)
  obtain e' where e': "setDestMac ?mac ?e = Inr e'" "visible e' = ?mac @ replicate 8 0"
    using setDestMac_run [OF e(1), of ?mac] e(2) blank_to_dest by auto
  have r: "mapE (resolved [?ip \<mapsto> ?mac]) [ip_to ?ip ?e, ip_to ?ip ?e] = Inr [ip_to ?ip e', ip_to ?ip e']"
    using e'(1) by (simp add: resolved_def ip_to_def getFirstEthernetPacket_def getDestination4_def ip_setDestMac_def)
  have two: "length [ip_to ?ip ?e, ip_to ?ip ?e] = 2" by simp
  note ok = items_list_ok [of "[ip_to ?ip ?e, ip_to ?ip ?e]", unfolded two]
  have "\<exists>asked d'. run_resolver (logging [?ip \<mapsto> ?mac]) ([], items_list [ip_to ?ip ?e, ip_to ?ip ?e]) = Some (Inr (), asked, d')
      \<and> distinct asked \<and> contents d' [0..<2] = zip [ip_to ?ip e', ip_to ?ip e'] (map snd (contents (items_list [ip_to ?ip ?e, ip_to ?ip ?e]) [0..<2]))"
    using hosts_resolved_once [OF ok(1), of "[?ip \<mapsto> ?mac]"] unfolding ok(2) r by auto
  then obtain asked d' where d': "run_resolver (logging [?ip \<mapsto> ?mac]) ([], items_list [ip_to ?ip ?e, ip_to ?ip ?e]) = Some (Inr (), asked, d')"
    "distinct asked" "contents d' [0..<2] = zip [ip_to ?ip e', ip_to ?ip e'] (map snd (contents (items_list [ip_to ?ip ?e, ip_to ?ip ?e]) [0..<2]))"
    by blast
  have "map fst (contents d' [0..<2]) = [ip_to ?ip e', ip_to ?ip e']" unfolding d'(3)
    by (simp add: contents_def numeral_2_eq_2)
  then show ?thesis using d'(1,2) e(2) e'(2)
    by (intro exI [of _ ?e] exI [of _ e'] exI [of _ asked] exI [of _ d'] conjI)
qed

subsection \<open>Address resolution on the network\<close>

text \<open>Every step returns.\<close>

definition returns :: "('s, 'a) N \<Rightarrow> bool" where
  "returns m \<longleftrightarrow> (\<forall>s. m s \<noteq> None)"

lemma returns_intros:
  "returns (liftN l)" "returns m \<Longrightarrow> (\<And>x. returns (f x)) \<Longrightarrow> returns (bindN m f)"
  "returns n \<Longrightarrow> returns n' \<Longrightarrow> returns (if b then n else n')"
  for m :: "('s, 'a) N" and f :: "'a \<Rightarrow> ('s, 'b) N" and n n' :: "('s, 'b) N" and l :: "('s, 'b) M"
proof -
  show "returns m \<Longrightarrow> (\<And>x. returns (f x)) \<Longrightarrow> returns (bindN m f)"
    by (auto simp: returns_def bindN_def split: option.splits sum.splits)
qed (simp_all add: returns_def)

lemma arp_resolve_returns: "ticking (os_clock os) \<Longrightarrow> returns (arp_resolve os e ip)"
proof -
  assume "ticking (os_clock os)"
  then have tries: "returns (arp_tries os device request ip 2)" for device request
    using arp_tries_returns by (fastforce simp: returns_def)
  show ?thesis unfolding arp_resolve_def by (intro returns_intros tries)
qed

text \<open>
  C15: \<open>cArp::resolve\<close> returns on every network. An address it delivers is the sender's hardware address of a
  frame that was received during the call and that is a reply in the layout of RFC 826 (EtherType 0x0806, opcode
  2) with the host that was asked as its sender; at most two requests were sent for it, both the same.
\<close>

theorem arp_resolution:
  assumes "ticking (os_clock os)"
  shows "\<exists>r i'. arp_resolve os e ip i = Some (r, i') \<and> (\<forall>mac. r = Inr (Some mac) \<longrightarrow> answered os ip (k_recv i) (k_recv i') mac
    \<and> (\<exists>m myip request sent. arp_request e m myip ip = Inr request \<and> wire i' = wire i @ sent
        \<and> length sent \<le> 2 \<and> set (map snd sent) \<subseteq> {visible request}))"
proof -
  obtain r i' where r: "arp_resolve os e ip i = Some (r, i')"
    using arp_resolve_returns [OF assms, of e ip] by (fastforce simp: returns_def)
  then show ?thesis using arp_resolve_sound [of os e ip i _ i'] by blast
qed

lemma arp_first_reply:
  assumes "if_isOpen i" and "getMAC os i = (Inr (Some m), i1)" and "getIPv4 os i1 = (Inr (Some a), i2)"
    and "0 \<le> os_socket os (k_sockets i2)" and "arp_request e m a ip = Inr request"
    and "\<forall>n. \<not> os_setsockopt os n" and "\<forall>n d b. os_sendto os n d b = int (length b)"
    and "os_recv os (k_recv i) = Some buf" and "arp_reply_from ip (take 64 buf) = Some mac"
  shows "\<exists>i'. arp_resolve os e ip i = Some (Inr (Some mac), i')"
proof -
  have k: "k_recv i2 = k_recv i" using getMAC_keeps [OF assms(2)] getIPv4_keeps [OF assms(3)] by simp
  have loop: "\<exists>j'. recv_loop os ip k j = Some (Inr (Some mac), j')" if "k_recv j = k_recv i" for k j
    using assms(8,9) that by (subst recv_loop.simps) (simp add: bindN_def sys_recv_def)
  have tries: "\<exists>j'. arp_tries os device (visible request) ip 2 j = Some (Inr (Some mac), j')" if "k_recv j = k_recv i" for device j
  proof -
    let ?j = "j\<lparr>k_setsockopt := k_setsockopt j + 1, k_clock := k_clock j + 1, k_sendto := k_sendto j + 1,
      wire := wire j @ [(k_clock j, visible request)]\<rparr>"
    have "k_recv ?j = k_recv i" using that by simp
    from loop [OF this, of "k_clock j"] show ?thesis using assms(6,7) unfolding numeral_2_eq_2
      by (auto simp: bindN_def sys_setsockopt_def sys_now_def sys_sendto_def Let_def)
  qed
  let ?i = "i2\<lparr>k_sockets := k_sockets i2 + 1, k_open := os_socket os (k_sockets i2) # k_open i2\<rparr>"
  have "k_recv ?i = k_recv i" using k by simp
  from tries [OF this, of "device_of (sint (os_nametoindex os (if_name ?i))) m"] show ?thesis
    using assms(1-5) by (auto simp: arp_resolve_def bindN_def bugOn_def sys_socket_def sys_close_def Let_def)
qed

definition replying_os :: os where
  "replying_os = calm_os\<lparr>os_recv := \<lambda>_. Some (replicate 12 0 @ [0x08, 0x06]
     @ arp_bytes (arp_fields 2 [2, 0, 0, 0, 0, 9] [10, 0, 0, 2] [2, 0, 0, 0, 0, 1] [10, 0, 0, 1]) @ [])\<rparr>"

definition opened_interface :: cInterface where
  "opened_interface = (if_init ''eth0'')\<lparr>ifcHandle := 3, ifIndex := 2, myMac := [2, 0, 0, 0, 0, 1], myIP := [10, 0, 0, 1]\<rparr>"

lemma first_request: "\<exists>request. arp_request first_env [2, 0, 0, 0, 0, 1] [10, 0, 0, 1] [10, 0, 0, 2] = Inr request"
proof -
  obtain e f where e: "eth_new (\<lambda>_. 0) 1518 = Inr e" "packetMaxLength e = 1518"
    "holds e (f :: frame)" "f_tags f = []" "f_llc f = []"
    using eth_new_holds [of 1518 "\<lambda>_. 0"] by auto
  have "fst (eth_default first_env) = Inr e" using e(1)
    by (simp add: eth_default_def first_env_def initial_env_def bindM_def getMyMTU_def)
  moreover have "\<exists>e'. arp_whoHas [2, 0, 0, 0, 0, 1] [10, 0, 0, 1] [10, 0, 0, 2] e = Inr e'"
    using arp_setAll_frame [OF e(3,5), of "[2, 0, 0, 0, 0, 1]" "[10, 0, 0, 1]" "mac_set_all 0" "[10, 0, 0, 2]" 1] e(2,4)
    by (auto simp: arp_whoHas_def mac_set_all_def)
  ultimately show ?thesis by (simp add: arp_request_def)
qed

theorem arp_resolution_witness:
  "\<exists>i'. arp_resolve replying_os first_env [10, 0, 0, 2] opened_interface = Some (Inr (Some [2, 0, 0, 0, 0, 9]), i')
    \<and> answered replying_os [10, 0, 0, 2] 0 (k_recv i') [2, 0, 0, 0, 0, 9]
    \<and> (\<exists>sent. wire i' = sent \<and> length sent \<le> 2)"
proof -
  let ?i = opened_interface
  have t: "ticking (os_clock replying_os)" using calm_reliable by (simp add: reliable_def replying_os_def)
  have "\<not> mac_isNull [2, 0, 0, 0, 0, 1]" "\<not> ipv4_isNull [10, 0, 0, 1]"
    by (simp add: mac_isNull_def, code_simp)
  then have a: "if_isOpen ?i" "getMAC replying_os ?i = (Inr (Some [2, 0, 0, 0, 0, 1]), ?i)"
    "getIPv4 replying_os ?i = (Inr (Some [10, 0, 0, 1]), ?i)"
    by (simp_all add: opened_interface_def if_isOpen_def getMAC_def getIPv4_def bindM_def)
  obtain request where r: "arp_request first_env [2, 0, 0, 0, 0, 1] [10, 0, 0, 1] [10, 0, 0, 2] = Inr request"
    using first_request by blast
  have os: "0 \<le> os_socket replying_os (k_sockets ?i)" "\<forall>n. \<not> os_setsockopt replying_os n"
    "\<forall>n d b. os_sendto replying_os n d b = int (length b)"
    by (simp_all add: replying_os_def calm_os_def)
  let ?buf = "replicate 12 0 @ [0x08, 0x06]
     @ arp_bytes (arp_fields 2 [2, 0, 0, 0, 0, 9] [10, 0, 0, 2] [2, 0, 0, 0, 0, 1] [10, 0, 0, 1]) @ []"
  have buf: "os_recv replying_os (k_recv ?i) = Some ?buf" by (simp add: replying_os_def)
  have "arp_reply_from [10, 0, 0, 2] (take 64 ?buf) = Some [2, 0, 0, 0, 0, 9]"
    by (subst arp_reply_understood) simp_all
  from arp_first_reply [OF a(1,2,3) os(1) r os(2,3) buf this] obtain i' where
    i': "arp_resolve replying_os first_env [10, 0, 0, 2] ?i = Some (Inr (Some [2, 0, 0, 0, 0, 9]), i')" by blast
  have "k_recv ?i = 0" "wire ?i = []" by (simp_all add: opened_interface_def if_init_def)
  with arp_resolution [OF t, of first_env "[10, 0, 0, 2]" ?i] i' show ?thesis by auto
qed

subsection \<open>From the command line to the capture file\<close>

definition filtered :: "settings \<Rightarrow> (byte list list \<times> cTimeval) list \<Rightarrow> (byte list list \<times> cTimeval) list" where
  "filtered cfg fs = (case set_overwriteDMAC cfg of None \<Rightarrow> fs | Some mac \<Rightarrow> map (to_mac mac) fs)"

definition preprocessor_of :: "appOptions \<Rightarrow> cPreprocessor" where
  "preprocessor_of opt = \<lparr>randomSrcMac = opt_randSrcMac opt, randomDstMac = opt_randDstMac opt\<rparr>"

lemma filter_stage_runs:
  assumes "data_ok d xs" and "frames_ok d xs" and "\<forall>m. set_overwriteDMAC cfg = Some m \<longrightarrow> length m = 6"
  shows "\<exists>d'. run_filter \<lparr>forcedDMAC = set_overwriteDMAC cfg, dropDMAC = None, dropSMAC = None\<rparr> d = Some (Inr (), d')
    \<and> in_list d' (pd_head d') xs (filtered cfg (as_frames (contents d xs)))"
proof (cases "set_overwriteDMAC cfg")
  case None
  then show ?thesis using assms(1,2) by (simp add: run_filter_def filtered_def in_list_def data_ok_def)
next
  case (Some mac)
  then show ?thesis using filter_overwrites [OF assms(1,2), of "\<lparr>forcedDMAC = Some mac, dropDMAC = None, dropSMAC = None\<rparr>" mac]
      assms(3) by (auto simp: filtered_def in_list_def data_ok_def)
qed

text \<open>The packets of a list that was compiled reach the file.\<close>

lemma packet_flow_writes:
  assumes "opt_outfile opt = Some path" and "opt_outFormat opt = ''pcap''" and "ifc s = None"
    and "data_ok (packetData s) xs" and "frames_ok (packetData s) xs"
    and "\<forall>m. set_overwriteDMAC cfg = Some m \<longrightarrow> length m = 6" and "fs = filtered cfg (as_frames (contents (packetData s) xs))"
    and "prepare_file w path ''pcap'' (opt_repeat opt) new_cOutput = Inr k0" and "opt_repeat opt = int n" and "0 < n"
    and "\<forall>k. \<not> dump_ferror (w_libpcap w) k" and "\<forall>k. \<not> interrupted w k"
    and "\<forall>x\<in>set fs. \<forall>b\<in>set (fst x). length b < 2 ^ 31" and "n * duration fs < 2 ^ 64"
  shows "\<exists>k s'. packet_flow w opt cfg s = Some (Inr (if (of_nat (length (rounds n 0 fs)) :: u64) = 0 then 1 else 0), Some k, s')
    \<and> list_all2 (sent_as captured (preprocessor_of opt)) (rounds n 0 fs) (capture_log k)
    \<and> (\<exists>fs'. in_list (packetData s') (pd_head (packetData s')) xs fs')"
proof -
  obtain d where d: "run_filter \<lparr>forcedDMAC = set_overwriteDMAC cfg, dropDMAC = None, dropSMAC = None\<rparr> (packetData s) = Some (Inr (), d)"
    "in_list d (pd_head d) xs fs"
    using filter_stage_runs [OF assms(4-6)] assms(7) by blast
  let ?t = "\<lparr>r_env = env.truncate s, r_sink = k0, r_data = d, r_polls = fl_polls s, r_time = 0, r_repeat = 0\<rparr>"
  have k0: "prepare_file w path ''pcap'' (int n) new_cOutput = Inr (r_sink ?t)" using assms(8,9) by simp
  note fresh = fresh_capture [OF k0 assms(11)]
  have "in_list (r_data ?t) (pd_head (r_data ?t)) xs fs" using d(2) by simp
  from run_output_capture [OF this fresh(3) assms(10) fresh(1,2,4) assms(12-14), of "preprocessor_of opt"] obtain t' where
    t': "run_output w (preprocessor_of opt) ?t = Some (Inr (), t')"
    "list_all2 (sent_as captured (preprocessor_of opt)) (rounds n 0 fs) (capture_log (r_sink t'))"
    "capture_ready w (r_time t') (r_sink t')" "\<exists>fs'. in_list (r_data t') (pd_head (r_data t')) xs fs'"
    by blast
  have "length (capture_log (r_sink t')) = length (rounds n 0 fs)" using list_all2_lengthD [OF t'(2)] by simp
  then obtain bytes where st: "output_statistic w (r_sink t') = (Inr (of_nat (length (rounds n 0 fs)), bytes, 0), r_sink t')"
    using t'(3) by (auto simp: output_statistic_def capture_ready_def capture_log_def pb_statistic_def
        split: option.splits cFileBackend.splits)
  let ?s = "s\<lparr>packetData := d\<rparr>"
  have "env.truncate ?s = env.truncate s" by (simp add: env.defs)
  then have "send_all w opt k0 ?s = Some (Inr (if (of_nat (length (rounds n 0 fs)) :: u64) = 0 then 1 else 0), r_sink t',
      ?s\<lparr>packetData := r_data t', fl_polls := r_polls t'\<rparr>)"
    using t'(1) st by (simp add: send_all_def preprocessor_of_def)
  moreover have "prepare_output w opt b ?s = Inr k0" for b using assms(1,2,8) by (simp add: prepare_output_def)
  ultimately have "packet_flow w opt cfg s = Some (Inr (if (of_nat (length (rounds n 0 fs)) :: u64) = 0 then 1 else 0),
      Some (r_sink t'), ?s\<lparr>packetData := r_data t', fl_polls := r_polls t'\<rparr>)"
    using d(1) assms(1,3) by (simp add: packet_flow_def bindN_def open_interface_def on_packets_def resolve_hosts_def
        run_scheduler_def Let_def)
  then show ?thesis using t'(2,4)
    by (intro exI [of _ "r_sink t'"] exI [of _ "?s\<lparr>packetData := r_data t', fl_polls := r_polls t'\<rparr>"]) simp
qed

lemma queued_contents:
  assumes "queued t items" and "\<forall>x\<in>set items. list_all frame_ok (frames_of (fst x))"
  obtains xs where "data_ok (c_data t) xs" "contents (c_data t) xs = items" "frames_ok (c_data t) xs"
proof -
  obtain xs where xs: "data_ok (c_data t) xs" "contents (c_data t) xs = items" using assms(1) by (auto simp: queued_def)
  then have "frames_ok (c_data t) xs" using assms(2) by (simp add: contents_frames_ok)
  then show thesis using that xs by blast
qed

text \<open>The program from the command line to the capture file.\<close>

lemma execute_writes:
  assumes "sane_os (w_os w)" and "sane_env e"
    and "configure w opt args (env.extend e (pump.fields None)) = (Inr (Inr cfg), s)"
    and "opt_ifc opt = None" and "opt_outfile opt = Some path" and "opt_outFormat opt = ''pcap''"
    and "\<not> opt_script opt" and "\<not> opt_pcap opt"
    and "new_cCompiler PACKET (set_activeDelay cfg) (set_timeScale cfg) (opt_arp opt) (set_pcapScale cfg) (env.truncate s) = Inr (c, t)"
    and "compile_all c 0 (map c_str args) 0 (env.truncate s) = (Inr (ys, currtime), e1)"
    and "fs = filtered cfg (as_frames (listed ys))" and "\<forall>y\<in>set ys. list_all frame_ok (frames_of (fst y))"
    and "prepare_file w path ''pcap'' (opt_repeat opt) new_cOutput = Inr k0" and "opt_repeat opt = int n" and "0 < n"
    and "\<forall>k. \<not> dump_ferror (w_libpcap w) k" and "\<forall>k. \<not> interrupted w k"
    and "\<forall>x\<in>set fs. \<forall>b\<in>set (fst x). length b < 2 ^ 31" and "n * duration fs < 2 ^ 64"
  shows "\<exists>k. execute w opt args e = Some (Inr (if (of_nat (length (rounds n 0 fs)) :: u64) = 0 then 1 else 0), Some k)
    \<and> list_all2 (sent_as captured (preprocessor_of opt)) (rounds n 0 fs) (capture_log k)"
proof -
  have conf: "configured opt args cfg s" by (rule configure_settles [OF assms(1-3)])
  then have ifc: "ifc s = None" and dmac: "\<forall>m. set_overwriteDMAC cfg = Some m \<longrightarrow> length m = 6"
    using assms(4) by (auto simp: configured_def sane_def split: option.splits)
  note f = fresh_compiler [OF assms(9)]
  obtain t' where t': "processPackets c args t = (Inr (), t')" "queued t' (listed ys)"
    using processPackets_refines [OF f(3), of c args] f(2) assms(10) by auto
  have input: "compile_input c (w_files w) (w_libpcap w) args t = (Inr (), t')"
    using t'(1) f(1) by (simp add: compile_input_def)
  have "\<forall>x\<in>set (listed ys). list_all frame_ok (frames_of (fst x))" using assms(12) by (force simp: listed_def)
  then obtain xs where xs: "data_ok (c_data t') xs" "contents (c_data t') xs = listed ys" "frames_ok (c_data t') xs"
    by (rule queued_contents [OF t'(2)])
  define s1 where "s1 = pump.extend (env.extend (env.truncate t') (pump.fields (ifc s))) (flow.fields (c_data t') 0)"
  have s1: "ifc s1 = None" "packetData s1 = c_data t'"
    using ifc by (simp_all add: s1_def env.defs pump.defs flow.defs)
  have "fs = filtered cfg (as_frames (contents (packetData s1) xs))" "data_ok (packetData s1) xs" "frames_ok (packetData s1) xs"
    using xs assms(11) s1(2) by simp_all
  from packet_flow_writes [OF assms(5,6) s1(1) this(2,3) dmac this(1) assms(13-19)] obtain k s' where
    k: "packet_flow w opt cfg s1 = Some (Inr (if (of_nat (length (rounds n 0 fs)) :: u64) = 0 then 1 else 0), Some k, s')"
    "list_all2 (sent_as captured (preprocessor_of opt)) (rounds n 0 fs) (capture_log k)"
    "\<exists>fs'. in_list (packetData s') (pd_head (packetData s')) xs fs'"
    by blast
  obtain d where "destroy (packetData s') (pd_head (packetData s')) = Some (Inr d)"
    using k(3) destroy_linked [of "packetData s'" "pd_head (packetData s')" xs] by (auto simp: in_list_def)
  then have "run_packets w opt args cfg s
      = Some (Inr (if (of_nat (length (rounds n 0 fs)) :: u64) = 0 then 1 else 0), Some k)"
    using assms(7-9) input k(1)
    by (simp add: run_packets_def compiler_type_def s1_def [symmetric] catch_all_def destroy_list_def Let_def)
  then show ?thesis using assms(3) k(2) by (simp add: execute_def)
qed

text \<open>
  C1: the whole program for packets on the command line with \<open>-w\<close> and the format pcap: when the specification
  of the compiler gives packets for the instructions, the program ends with exit code 0 (1 when there is no
  frame at all), its packet list is destroyed without touching freed memory, and the file has the frames of the
  instructions, redirected when the destination is overwritten, at the times their delays add up to, as often
  as \<open>-l\<close> says.
\<close>

theorem command_line_to_capture:
  assumes "sane_os (w_os w)" and "sane_env e"
    and "configure w opt args (env.extend e (pump.fields None)) = (Inr (Inr cfg), s)"
    and "opt_ifc opt = None" and "opt_outfile opt = Some path" and "opt_outFormat opt = ''pcap''"
    and "\<not> opt_script opt" and "\<not> opt_pcap opt"
    and "new_cCompiler PACKET (set_activeDelay cfg) (set_timeScale cfg) (opt_arp opt) (set_pcapScale cfg) (env.truncate s) = Inr (c, t)"
    and "compile_all c 0 (map c_str args) 0 (env.truncate s) = (Inr (ys, currtime), e1)"
    and "fs = filtered cfg (as_frames (listed ys))" and "\<forall>y\<in>set ys. list_all frame_ok (frames_of (fst y))"
    and "prepare_file w path ''pcap'' (opt_repeat opt) new_cOutput = Inr k0" and "opt_repeat opt = int n" and "0 < n"
    and "\<forall>k. \<not> dump_ferror (w_libpcap w) k" and "\<forall>k. \<not> interrupted w k"
    and "\<forall>x\<in>set fs. \<forall>b\<in>set (fst x). length b < 2 ^ 31" and "n * duration fs < 2 ^ 64"
  shows "\<exists>k. execute w opt args e = Some (Inr (if (of_nat (length (rounds n 0 fs)) :: u64) = 0 then 1 else 0), Some k)
    \<and> list_all2 (sent_as captured (preprocessor_of opt)) (rounds n 0 fs) (capture_log k)"
  by (rule execute_writes [OF assms])

definition file_options :: appOptions where
  "file_options = default_options\<lparr>opt_outfile := Some ''f'', opt_repeat := 2, opt_delay := 7, opt_timeRes := ''u''\<rparr>"

lemma file_options_configure:
  "\<exists>s. configure (calm_world None) file_options [''raw()'', ''raw()''] (env.extend first_env (pump.fields None))
      = (Inr (Inr \<lparr>set_timeScale = 1, set_pcapScale = dbl 1 1, set_overwriteDMAC = None, set_activeDelay = 7\<rparr>), s)
    \<and> env.truncate s = first_env"
  unfolding configure_def
  by (simp add: file_options_def default_options_def check_arguments_def and_then_def bindM_def go_on_def exit_code_def
      read_scales_def time_scale_def char_at_def apply_option_def read_overwriteDMAC_def create_interface_def
      default_addresses_def default_address_def ask_interface_def configure_mtu_def first_env_def initial_env_def Let_def
      env.defs pump.defs)

text \<open>Two empty instructions: what the theorems need of them.\<close>

lemma two_raw_example:
  obtains s c t x where
    "configure (calm_world None) file_options [''raw()'', ''raw()''] (env.extend first_env (pump.fields None))
      = (Inr (Inr \<lparr>set_timeScale = 1, set_pcapScale = dbl 1 1, set_overwriteDMAC = None, set_activeDelay = 7\<rparr>), s)"
    "new_cCompiler PACKET 7 1 (opt_arp file_options) (dbl 1 1) (env.truncate s) = Inr (c, t)"
    "compile_all c 0 (map c_str [''raw()'', ''raw()'']) 0 (env.truncate s)
      = (Inr ([(EthPacket x, 7, False), (EthPacket x, 7, False)], 14), first_env)"
    "frame_ok x" "visible x = []"
proof -
  let ?w = "calm_world None" and ?args = "[''raw()'', ''raw()'']"
  let ?cfg = "\<lparr>set_timeScale = 1, set_pcapScale = dbl 1 1, set_overwriteDMAC = None, set_activeDelay = 7\<rparr>"
  obtain s where s: "configure ?w file_options ?args (env.extend first_env (pump.fields None)) = (Inr (Inr ?cfg), s)"
    "env.truncate s = first_env" using file_options_configure by blast
  obtain c t where n: "new_cCompiler PACKET 7 1 (opt_arp file_options) (dbl 1 1) (env.truncate s) = Inr (c, t)"
    by (auto simp: new_cCompiler_def)
  then have c: "defaultDelayScale c = 1" "defaultDelay c = 7" by (simp_all add: fresh_compiler(1) [OF n])
  obtain x where x: "compile_all c 0 (map c_str ?args) 0 (env.truncate s)
      = (Inr ([(EthPacket x, 7, False), (EthPacket x, 7, False)], 14), first_env)" "empty_frame x"
    using compile_two_raw [OF c, of 0 first_env] s(2) by (auto simp del: compile_all.simps)
  have "visible x = []" "frame_ok x" using x(2) by (simp_all add: empty_frame_def visible_def frame_ok_def)
  then show thesis using that s(1) n x(1) by blast
qed

lemma two_raw_facts:
  "opt_ifc file_options = None" "opt_outfile file_options = Some ''f''" "opt_outFormat file_options = ''pcap''"
  "\<not> opt_script file_options" "\<not> opt_pcap file_options" "opt_repeat file_options = int 2"
  "preprocessor_of file_options = as_it_is" "sane_os (w_os (calm_world None))"
  by (simp_all add: file_options_def default_options_def preprocessor_of_def as_it_is_def calm_sane)

lemma two_raw_frames:
  "visible x = [] \<Longrightarrow> set_overwriteDMAC cfg = None \<Longrightarrow>
   [([[]], 7), ([[]], 7)] = filtered cfg (as_frames (listed [(EthPacket x, 7, False), (EthPacket x, 7, False)]))"
  "frame_ok x \<Longrightarrow> \<forall>y\<in>set [(EthPacket x, 7 :: cTimeval, False), (EthPacket x, 7, False)]. list_all frame_ok (frames_of (fst y))"
  by (simp_all add: filtered_def as_frames_def listed_def frames_of_def)

theorem command_line_to_capture_witness:
  "\<exists>k. execute (calm_world None) file_options [''raw()'', ''raw()''] first_env = Some (Inr 0, Some k)
    \<and> list_all2 (sent_as captured as_it_is) [(7, []), (14, []), (21, []), (28, [])] (capture_log k)"
proof -
  obtain s c t x where x:
    "configure (calm_world None) file_options [''raw()'', ''raw()''] (env.extend first_env (pump.fields None))
      = (Inr (Inr \<lparr>set_timeScale = 1, set_pcapScale = dbl 1 1, set_overwriteDMAC = None, set_activeDelay = 7\<rparr>), s)"
    "new_cCompiler PACKET 7 1 (opt_arp file_options) (dbl 1 1) (env.truncate s) = Inr (c, t)"
    "compile_all c 0 (map c_str [''raw()'', ''raw()'']) 0 (env.truncate s)
      = (Inr ([(EthPacket x, 7, False), (EthPacket x, 7, False)], 14), first_env)"
    "frame_ok x" "visible x = []"
    by (rule two_raw_example)
  let ?fs = "[([[]], 7), ([[]], 7)] :: (byte list list \<times> cTimeval) list"
  have "\<exists>k. execute (calm_world None) file_options [''raw()'', ''raw()''] first_env
      = Some (Inr (if (of_nat (length (rounds 2 0 ?fs)) :: u64) = 0 then 1 else 0), Some k)
    \<and> list_all2 (sent_as captured (preprocessor_of file_options)) (rounds 2 0 ?fs) (capture_log k)"
    by (rule command_line_to_capture [OF two_raw_facts(8) calm_sane(2) x(1) two_raw_facts(1-5) _ x(3) two_raw_frames(1) [OF x(5)]
          two_raw_frames(2) [OF x(4)] file_run_capture two_raw_facts(6)]) (use x(2) in simp_all)
  then show ?thesis unfolding rounds_twice [of 0 ?fs, simplified] two_raw_facts(7) by simp
qed



end
