(* ===== verification/AddressFacts.thy ===== *)
theory AddressFacts
  imports Address
begin

section \<open>Dotted addresses\<close>

text \<open>
  What the text of an IPv4 address means, without the functions of the code: the parts between the dots, each a
  decimal number of at most three digits, a star for any byte, or a star with a range. The lemmas say that
  \<open>cIPv4::set\<close> accepts such texts and no others, and delivers bytes that fit.
\<close>

subsection \<open>The specification\<close>

fun parts :: "char \<Rightarrow> string \<Rightarrow> string list" where
  "parts sep [] = [[]]"
| "parts sep (c # cs) = (if c = sep then [] # parts sep cs else (c # hd (parts sep cs)) # tl (parts sep cs))"

definition numeral_text :: "string \<Rightarrow> bool" where
  "numeral_text t \<longleftrightarrow> t \<noteq> [] \<and> set t \<subseteq> set ''0123456789''"

fun number_of :: "nat \<Rightarrow> string \<Rightarrow> nat" where
  "number_of acc [] = acc"
| "number_of acc (c # cs) = number_of (10 * acc + (of_char c - 48)) cs"

definition range_text :: "string \<Rightarrow> string \<Rightarrow> string" where
  "range_text lo hi = ''*['' @ lo @ ''-'' @ hi @ '']''"

definition octet_text :: "string \<Rightarrow> byte \<Rightarrow> bool" where
  "octet_text t b \<longleftrightarrow> t = ''*'' \<or> numeral_text t \<and> length t \<le> 3 \<and> number_of 0 t = unat b
     \<or> (\<exists>lo hi. numeral_text lo \<and> numeral_text hi \<and> t = range_text lo hi
          \<and> number_of 0 lo \<le> unat b \<and> unat b \<le> number_of 0 hi \<and> number_of 0 hi \<le> 255)"

definition address_text :: "string \<Rightarrow> byte list \<Rightarrow> bool" where
  "address_text t bs \<longleftrightarrow> length bs = 4 \<and> list_all2 octet_text (parts CHR ''.'' t) bs"

text \<open>A bracket only as part of a range of two numbers.\<close>

definition brackets_ok :: "string \<Rightarrow> bool" where
  "brackets_ok t \<longleftrightarrow> CHR ''['' \<notin> set t \<or> (\<exists>lo hi. numeral_text lo \<and> numeral_text hi \<and> t = range_text lo hi)"

subsection \<open>Digits\<close>

lemma isdigit_set: "isdigit c \<longleftrightarrow> c \<in> set ''0123456789''"
proof
  assume "isdigit c"
  then have "48 \<le> code_of c" "code_of c \<le> 57" by (simp_all add: isdigit_def)
  then have "code_of c = 48 \<or> code_of c = 49 \<or> code_of c = 50 \<or> code_of c = 51 \<or> code_of c = 52 \<or> code_of c = 53
    \<or> code_of c = 54 \<or> code_of c = 55 \<or> code_of c = 56 \<or> code_of c = 57" by presburger
  moreover have "code_of CHR ''0'' = 48" "code_of CHR ''1'' = 49" "code_of CHR ''2'' = 50" "code_of CHR ''3'' = 51"
    "code_of CHR ''4'' = 52" "code_of CHR ''5'' = 53" "code_of CHR ''6'' = 54" "code_of CHR ''7'' = 55"
    "code_of CHR ''8'' = 56" "code_of CHR ''9'' = 57" by (simp_all add: code_of_def)
  moreover have "code_of x = code_of y \<longleftrightarrow> x = y" for x y by (simp add: code_of_def)
  ultimately have "c = CHR ''0'' \<or> c = CHR ''1'' \<or> c = CHR ''2'' \<or> c = CHR ''3'' \<or> c = CHR ''4'' \<or> c = CHR ''5''
    \<or> c = CHR ''6'' \<or> c = CHR ''7'' \<or> c = CHR ''8'' \<or> c = CHR ''9''" by metis
  then show "c \<in> set ''0123456789''" by auto
qed (auto simp: isdigit_def code_of_def)

lemma numeral_text_digits: "numeral_text t \<longleftrightarrow> t \<noteq> [] \<and> (\<forall>c\<in>set t. isdigit c)"
  unfolding numeral_text_def isdigit_set by blast

lemma number_of_digits: "\<forall>c\<in>set t. isdigit c \<Longrightarrow> digits_value 10 acc t = number_of acc t"
  by (induction t arbitrary: acc) (simp_all add: digit_val_def code_of_def mult.commute)

lemma strtoull_numeral:
  assumes "numeral_text t" and "\<not> isdigit (char_at rest 0)"
  shows "strtoull (t @ rest) 10 = (if number_of 0 t < 2 ^ 64 then (number_of 0 t, rest, False) else (2 ^ 64 - 1, rest, True))"
proof -
  obtain c cs where s: "t = c # cs" and dig: "\<forall>c\<in>set t. isdigit c" using assms(1) by (cases t) (auto simp: numeral_text_digits)
  then have c: "isdigit c" by simp
  have tw: "takeWhile (is_digit_of 10) (t @ rest) = t"
    using dig assms(2) by (cases rest) (auto simp: isdigit_digit_of_10 takeWhile_append2 takeWhile_tail)
  have dw: "dropWhile isspace (t @ rest) = t @ rest" using s isdigit_not [OF c] by simp
  show ?thesis
    using s isdigit_not [OF c] tw number_of_digits [OF dig, of 0]
    by (simp add: strtoull_def dw number_base_def Let_def not_less flip: s) (simp add: s)
qed

text \<open>A number of the text.\<close>

lemma strToUint8_text:
  assumes "0 < length t" and "length t \<le> 3" and "\<forall>c\<in>set t. isdigit c"
  shows "strToUint8 (t @ rest) (length t) 10 = (if number_of 0 t \<le> 255 then Inr (of_nat (number_of 0 t)) else Inl (OutOfRange ''value > 255''))"
proof -
  consider a where "t = [a]" | a b where "t = [a, b]" | a b c where "t = [a, b, c]"
    using assms(1,2) by (cases t; cases "tl t"; cases "tl (tl t)") auto
  then show ?thesis using assms(3)
    by cases (auto simp: strToUint8_def decCharToInt_def code_of_def numeral_2_eq_2 numeral_3_eq_3 algebra_simps not_le)
qed

lemma strToUint8_accepts: "strToUint8 (t @ rest) (length t) 10 = Inr b \<Longrightarrow> 0 < length t \<Longrightarrow> length t \<le> 3 \<and> (\<forall>c\<in>set t. isdigit c)"
proof -
  assume h: "strToUint8 (t @ rest) (length t) 10 = Inr b" "0 < length t"
  then have "length t \<le> 3" by (auto simp: strToUint8_def split: if_splits)
  then consider a where "t = [a]" | a b where "t = [a, b]" | a b c where "t = [a, b, c]"
    using h(2) by (cases t; cases "tl t"; cases "tl (tl t)") auto
  then show ?thesis using h(1)
    by cases (auto simp: strToUint8_def decCharToInt_def bindE_Inr_iff numeral_2_eq_2 numeral_3_eq_3 split: if_splits)
qed

lemma range_numerals:
  assumes "numeral_text lo" and "numeral_text hi"
  shows "range False (''['' @ lo @ ''-'' @ hi @ '']'' @ rest) (length lo + length hi + 3) 10
    = (if number_of 0 lo < 2 ^ 64 \<and> number_of 0 hi < 2 ^ 64 \<and> number_of 0 lo \<le> number_of 0 hi
       then (Some (number_of 0 lo, number_of 0 hi), False)
       else (None, 2 ^ 64 \<le> number_of 0 lo \<or> 2 ^ 64 \<le> number_of 0 hi))"
proof -
  obtain c cs d ds where s: "lo = c # cs" "isdigit c" "hi = d # ds" "isdigit d"
    using assms by (cases lo; cases hi) (auto simp: numeral_text_digits)
  have p: "\<not> isdigit CHR ''-''" "\<not> isdigit CHR '']''" by (simp_all add: isdigit_def code_of_def)
  let ?h = "hi @ '']'' @ rest"
  have l: "strtoull (lo @ ''-'' @ ?h) 10 = (if number_of 0 lo < 2 ^ 64 then (number_of 0 lo, ''-'' @ ?h, False) else (2 ^ 64 - 1, ''-'' @ ?h, True))"
    using strtoull_numeral [OF assms(1), of "''-'' @ ?h"] p by simp
  have r: "strtoull ?h 10 = (if number_of 0 hi < 2 ^ 64 then (number_of 0 hi, '']'' @ rest, False) else (2 ^ 64 - 1, '']'' @ rest, True))"
    using strtoull_numeral [OF assms(2), of "'']'' @ rest"] p by simp
  have last: "char_at (''['' @ lo @ ''-'' @ ?h) (length lo + length hi + 3 - 1) = CHR '']''"
    by (simp add: char_at_def nth_append)
  have "char_at (lo @ x) 0 = c" "char_at (hi @ x) 0 = d" for x using s by simp_all
  then have space: "\<not> isspace (char_at (''['' @ lo @ x) 1)" "\<not> isspace (char_at (''-'' @ hi @ x) 1)" for x
    using isdigit_not(1) s(2,4) by simp_all
  show ?thesis unfolding range_def last using l r space s
    by (simp add: Let_def)
qed


subsection \<open>One part\<close>

text \<open>The random source keeps the flag that \<open>range\<close> looks at.\<close>

lemma rand8_errno: "rand8 lo hi s = (r, s') \<Longrightarrow> errno_range s' = errno_range s"
  by (auto simp: rand8_def rand_def sequence_next_def pseudoRandom_def bindM_def getM_def modifyM_def returnM_def Let_def
      split: if_splits sum.splits prod.splits)

text \<open>The result of a part: a byte that fits, or none when none fits.\<close>

definition part_read :: "string \<Rightarrow> bool \<Rightarrow> byte option res \<Rightarrow> bool" where
  "part_read t er r \<longleftrightarrow> (case r of Inr (Some b) \<Rightarrow> octet_text t b \<and> \<not> er | Inr None \<Rightarrow> (\<forall>b. \<not> octet_text t b) | Inl x \<Rightarrow> False)"

lemma not_range: "CHR ''['' \<notin> set t \<Longrightarrow> t \<noteq> range_text lo hi"
  by (auto simp: range_text_def)

lemma no_digit_range: "numeral_text t \<Longrightarrow> t \<noteq> range_text lo hi" "\<not> numeral_text (range_text lo hi)" "\<not> numeral_text ''*''"
  by (auto simp: range_text_def numeral_text_def)

lemma range_text_inject:
  assumes "numeral_text lo" and "numeral_text hi" and "numeral_text lo'" and "numeral_text hi'"
    and "range_text lo hi = range_text lo' hi'"
  shows "lo = lo' \<and> hi = hi'"
proof -
  have free: "CHR ''-'' \<notin> set t" if "numeral_text t" for t using that by (auto simp: numeral_text_def)
  have cut: "takeWhile (\<lambda>c. c \<noteq> CHR ''-'') (a @ CHR ''-'' # x) = a" "dropWhile (\<lambda>c. c \<noteq> CHR ''-'') (a @ CHR ''-'' # x) = CHR ''-'' # x"
    if "numeral_text a" for a x using free [OF that] by (induction a) auto
  have e: "lo @ CHR ''-'' # hi @ '']'' = lo' @ CHR ''-'' # hi' @ '']''" using assms(5) by (simp add: range_text_def)
  then have "lo = lo'" using cut(1) [OF assms(1)] cut(1) [OF assms(3)] by metis
  then show ?thesis using e by simp
qed

lemma parse_token_read:
  assumes "brackets_ok t" and "parse_token 10 (t @ rest) (length t) s = (r, s')" and "\<not> errno_range s"
  shows "part_read t (errno_range s') r"
proof -
  consider "t = []" | "t = ''*''" | lo hi where "numeral_text lo" "numeral_text hi" "t = range_text lo hi"
    | cs where "CHR ''['' \<notin> set t" "t = CHR ''*'' # cs" "cs \<noteq> []"
    | c cs where "CHR ''['' \<notin> set t" "t = c # cs" "c \<noteq> CHR ''*''"
  proof (cases "CHR ''['' \<in> set t")
    case True
    then show thesis using assms(1) that(3) by (auto simp: brackets_ok_def)
  next
    case False
    then show thesis using that(1,2,4,5) by (cases t; cases "tl t") auto
  qed
  then show ?thesis
  proof cases
    case 1
    then show ?thesis using assms(2)
      by (auto simp: parse_token_def part_read_def octet_text_def numeral_text_def range_text_def)
  next
    case 2
    obtain b s1 where b: "rand8 0 0xff s = (Inr b, s1)" using rand8_total by blast
    then show ?thesis using assms(2,3) 2 rand8_errno [OF b]
      by (auto simp: parse_token_def part_read_def octet_text_def bindM_def)
  next
    case 3
    let ?p = "''['' @ lo @ ''-'' @ hi @ '']'' @ rest" and ?n = "length lo + length hi + 3"
    have tok: "t @ rest = CHR ''*'' # ?p" "length t = Suc ?n" using 3(3) by (simp_all add: range_text_def)
    obtain v er where v: "range False ?p ?n 10 = (v, er)" by fastforce
    note v' = v [unfolded range_numerals [OF 3(1,2)]]
    have h: "(bindM (modifyM (\<lambda>s. s\<lparr>errno_range := er\<rparr>)) (\<lambda>_. case v of None \<Rightarrow> returnM None
        | Some (lo, hi) \<Rightarrow> if lo > 255 \<or> hi > 255 then returnM None
            else bindM (rand8 (of_nat lo) (of_nat hi)) (\<lambda>b. returnM (Some b)))) s = (r, s')"
      using assms(2,3) v unfolding parse_token_def tok by (simp add: bindM_def getM_def ac_simps)
    show ?thesis
    proof (cases "number_of 0 lo \<le> number_of 0 hi \<and> number_of 0 hi \<le> 255")
      case True
      then have ve: "v = Some (number_of 0 lo, number_of 0 hi)" "\<not> er" using v' by (auto split: if_splits)
      obtain b s1 where b: "rand8 (of_nat (number_of 0 lo)) (of_nat (number_of 0 hi)) (s\<lparr>errno_range := er\<rparr>) = (Inr b, s1)"
        using rand8_total by blast
      have u: "unat (of_nat (number_of 0 lo) :: byte) = number_of 0 lo" "unat (of_nat (number_of 0 hi) :: byte) = number_of 0 hi"
        using True by (simp_all add: unat_of_nat)
      have "(of_nat (number_of 0 lo) :: byte) \<le> of_nat (number_of 0 hi)" using True u by (simp add: word_le_nat_alt)
      from rand8_bounds [OF this b] have "number_of 0 lo \<le> unat b \<and> unat b \<le> number_of 0 hi"
        using u by (simp add: word_le_nat_alt)
      then have "octet_text t b" using 3 True by (auto simp: octet_text_def)
      then show ?thesis using h b ve True rand8_errno [OF b] by (auto simp: bindM_def modifyM_def part_read_def)
    next
      case False
      then have "v = None \<or> (\<exists>lo hi. v = Some (lo, hi) \<and> (255 < lo \<or> 255 < hi))" using v' by (auto split: if_splits)
      then have "r = Inr None" using h by (auto simp: bindM_def modifyM_def)
      moreover have "\<not> octet_text t b" for b
      proof
        assume "octet_text t b"
        then obtain lo' hi' where o: "numeral_text lo'" "numeral_text hi'" "t = range_text lo' hi'"
          "number_of 0 lo' \<le> unat b" "unat b \<le> number_of 0 hi'" "number_of 0 hi' \<le> 255"
          using 3(3) no_digit_range(2) [of lo hi] by (auto simp: octet_text_def range_text_def)
        have "lo' = lo \<and> hi' = hi" using range_text_inject [OF o(1,2) 3(1,2)] o(3) 3(3) by simp
        then show False using o(4-6) False by simp
      qed
      ultimately show ?thesis by (simp add: part_read_def)
    qed
  next
    case 4
    have "\<not> octet_text t b" for b using 4 not_range [OF 4(1)] by (auto simp: octet_text_def numeral_text_def)
    moreover have "char_at (cs @ rest) 0 \<noteq> CHR ''[''" using 4 by (cases cs) auto
    then have "range er (cs @ rest) (length cs) 10 = (None, er)" for er by (auto simp: range_def)
    then have "r = Inr None" using assms(2) 4 by (auto simp: parse_token_def bindM_def getM_def modifyM_def)
    ultimately show ?thesis by (simp add: part_read_def)
  next
    case 5
    note range5 = not_range [OF 5(1)]
    show ?thesis
    proof (cases "strToUint8 (t @ rest) (length t) 10")
      case (Inl x)
      have "\<not> octet_text t b" for b
      proof
        assume "octet_text t b"
        then have n: "numeral_text t" "length t \<le> 3" "number_of 0 t = unat b" using 5 range5 by (auto simp: octet_text_def)
        have "unat b < 2 ^ 8" using unsigned_less [of b, where 'a = nat] by simp
        then show False using strToUint8_text [of t rest] n Inl 5(2) by (auto simp: numeral_text_digits)
      qed
      moreover have "r = Inr None" using assms(2) 5(2,3) Inl by (simp add: parse_token_def)
      ultimately show ?thesis by (simp add: part_read_def)
    next
      case (Inr b)
      have "0 < length t" using 5 by simp
      from strToUint8_accepts [OF Inr this] have d: "length t \<le> 3" "\<forall>c\<in>set t. isdigit c" by simp_all
      have "number_of 0 t \<le> 255" "b = of_nat (number_of 0 t)"
        using strToUint8_text [of t rest] d 5(2) Inr by (auto split: if_splits)
      then have "octet_text t b" using d 5(2) by (auto simp: octet_text_def numeral_text_digits unat_of_nat)
      moreover have "r = Inr (Some b)" "s' = s" using assms(2) 5(2,3) Inr by (simp_all add: parse_token_def)
      ultimately show ?thesis using assms(3) by (simp add: part_read_def)
    qed
  qed
qed

subsection \<open>The whole text\<close>

definition piece :: "string \<Rightarrow> nat \<times> nat \<Rightarrow> string" where
  "piece t be = take (snd be - fst be) (drop (fst be) t)"

lemma parse_tokens_read:
  assumes "\<forall>be\<in>set bs. fst be \<le> snd be \<and> snd be \<le> length t \<and> brackets_ok (piece t be)"
    and "parse_tokens 10 (t @ rest) bs s = (r, s')" and "\<not> errno_range s"
  shows "(case r of Inr (Some xs) \<Rightarrow> list_all2 octet_text (map (piece t) bs) xs
    | Inr None \<Rightarrow> (\<exists>p\<in>set (map (piece t) bs). \<forall>b. \<not> octet_text p b) | Inl x \<Rightarrow> False)"
  using assms
proof (induction bs arbitrary: s r s')
  case (Cons be bs)
  obtain b e where be: "be = (b, e)" by fastforce
  have le: "b \<le> length t" "e \<le> length t" using Cons.prems(1) be by auto
  then have len: "length (piece t be) = e - b" using be by (simp add: piece_def)
  have "drop b t = piece t be @ drop (e - b) (drop b t)" using be by (simp add: piece_def del: drop_drop)
  then have split: "drop b (t @ rest) = piece t be @ drop (e - b) (drop b t) @ rest"
    using le by (metis append_assoc drop_append diff_is_0_eq drop_0)
  obtain r1 s1 where p: "parse_token 10 (drop b (t @ rest)) (e - b) s = (r1, s1)" by fastforce
  have "part_read (piece t be) (errno_range s1) r1"
    using parse_token_read [of "piece t be" "drop (e - b) (drop b t) @ rest" s r1 s1] p Cons.prems(1,3) split len by simp
  then consider x where "r1 = Inr (Some x)" "octet_text (piece t be) x" "\<not> errno_range s1"
    | "r1 = Inr None" "\<forall>x. \<not> octet_text (piece t be) x"
    by (auto simp: part_read_def split: sum.splits option.splits)
  then show ?case
  proof cases
    case 1
    obtain r2 s2 where q: "parse_tokens 10 (t @ rest) bs s1 = (r2, s2)" by fastforce
    have "case r2 of Inr (Some xs) \<Rightarrow> list_all2 octet_text (map (piece t) bs) xs
      | Inr None \<Rightarrow> (\<exists>p\<in>set (map (piece t) bs). \<forall>b. \<not> octet_text p b) | Inl x \<Rightarrow> False"
      using Cons.IH [OF _ q 1(3)] Cons.prems(1) by simp
    moreover have "(r, s') = (case r2 of Inl x \<Rightarrow> (Inl x, s2) | Inr xs \<Rightarrow> (Inr (map_option ((#) x) xs), s2))"
      using Cons.prems(2) be p q 1(1) by (auto simp: bindM_def split: sum.splits)
    ultimately show ?thesis using 1(2) by (auto split: sum.splits option.splits)
  next
    case 2
    then show ?thesis using Cons.prems(2) be p by (auto simp: bindM_def)
  qed
qed simp

lemma parts_not_Nil [simp]: "parts sep t \<noteq> []"
  by (cases t) simp_all

lemma token_bounds_Cons: "token_bounds (b # x # xs) n = (b, x - 1) # token_bounds (x # xs) n"
  by (simp add: token_bounds_def)

lemma pieces_parts:
  assumes "0 < length a" and "b \<le> length a"
  shows "map (piece (a @ t)) (token_bounds (b # token_starts sep (length a) t) (length a + length t))
    = (drop b a @ hd (parts sep t)) # tl (parts sep t)"
  using assms
proof (induction t arbitrary: a b)
  case Nil
  then show ?case by (simp add: token_bounds_def piece_def)
next
  case (Cons c t)
  have a: "(a @ [c]) @ t = a @ c # t" "length (a @ [c]) = Suc (length a)" by simp_all
  show ?case
  proof (cases "c = sep")
    case True
    have "map (piece ((a @ [c]) @ t)) (token_bounds (Suc (length a) # token_starts sep (length (a @ [c])) t) (length (a @ [c]) + length t))
      = parts sep t" using Cons.IH [of "a @ [c]" "Suc (length a)"] by simp
    moreover have "piece (a @ c # t) (b, length a) = drop b a" using Cons.prems by (simp add: piece_def)
    ultimately show ?thesis using True Cons.prems by (simp add: token_bounds_Cons)
  next
    case False
    then show ?thesis using Cons.IH [of "a @ [c]" b] Cons.prems by simp
  qed
qed

lemma bounds_ordered:
  assumes "b \<le> k"
  shows "be \<in> set (token_bounds (b # token_starts sep k t) (k + length t)) \<Longrightarrow> fst be \<le> snd be \<and> snd be \<le> k + length t"
  using assms
proof (induction t arbitrary: k b)
  case (Cons c t)
  then show ?case using Cons.IH [of b "Suc k"] Cons.IH [of "Suc k" "Suc k"]
    by (auto simp: token_bounds_Cons split: if_splits)
qed (simp add: token_bounds_def)

lemma token_pieces:
  assumes "t = c # cs" and "c \<noteq> sep"
  shows "map (piece t) (token_bounds (0 # token_starts sep 0 t) (length t)) = parts sep t"
  using pieces_parts [of "[c]" 0 cs sep] assms by simp

lemma parts_dot_first: "\<not> address_text (CHR ''.'' # t) bs"
  by (auto simp: address_text_def list_all2_Cons1 octet_text_def numeral_text_def range_text_def)

lemma parts_length: "length t + 1 = length (concat (parts sep t)) + length (parts sep t)"
proof (induction t)
  case (Cons c t)
  then show ?case by (cases "parts sep t") auto
qed simp

lemma address_text_length: "address_text t bs \<Longrightarrow> 7 \<le> length t"
proof -
  assume a: "address_text t bs"
  have ne: "p \<noteq> []" if "octet_text p b" for p b using that by (auto simp: octet_text_def numeral_text_def range_text_def)
  obtain p q r u where p: "parts CHR ''.'' t = [p, q, r, u]"
    using a by (auto simp: address_text_def list_all2_conv_all_nth numeral_eq_Suc length_Suc_conv)
  then have "p \<noteq> []" "q \<noteq> []" "r \<noteq> []" "u \<noteq> []" using a ne by (auto simp: address_text_def list_all2_Cons1)
  then have "4 \<le> length (concat (parts CHR ''.'' t))" unfolding p
    by (cases p; cases q; cases r; cases u) auto
  then show ?thesis using parts_length [of t "CHR ''.''"] p by simp
qed

lemma fits_all: "list_all2 octet_text ps bs \<Longrightarrow> p \<in> set ps \<Longrightarrow> \<exists>b. octet_text p b"
  by (induction rule: list_all2_induct) auto

text \<open>What \<open>cIPv4::set\<close> does with a text of more than one character.\<close>

lemma ipv4_set_reads:
  assumes "length t \<noteq> 1" and "\<forall>p\<in>set (parts CHR ''.'' t). brackets_ok p" and "\<not> errno_range s"
    and "ipv4_set (t @ rest) (length t) s = (r, s')"
  shows "case r of Inr (Some bs) \<Rightarrow> address_text t bs | Inr None \<Rightarrow> (\<forall>bs. \<not> address_text t bs) | Inl x \<Rightarrow> False"
proof (cases "length t < 7")
  case True
  then have "r = Inr None" using assms(1,4) by (auto simp: ipv4_set_def)
  then show ?thesis using True address_text_length by fastforce
next
  case False
  then obtain c cs where t: "t = c # cs" by (cases t) auto
  let ?starts = "0 # token_starts CHR ''.'' 0 t"
  show ?thesis
  proof (cases "c = CHR ''.''")
    case True
    have d: "\<not> isdigit CHR ''.''" by (simp add: isdigit_def code_of_def)
    have none: "parse_token 10 (t @ rest) n s = (Inr None, s)" for n
      using True t d by (auto simp: parse_token_def strToUint8_def decCharToInt_def)
    obtain e bs where b: "token_bounds ?starts (length t) = (0, e) # bs" by (simp add: token_bounds_def) (cases "tl ?starts"; simp)
    then have "parse_tokens 10 (t @ rest) (token_bounds ?starts (length t)) s = (Inr None, s)"
      using none by (simp add: bindM_def)
    then have "r = Inr None" using assms(1,4) by (auto simp: ipv4_set_def Let_def split: if_splits)
    then show ?thesis using True t parts_dot_first by auto
  next
    case dot: False
    note p = token_pieces [OF t dot]
    have n: "length ?starts = length (parts CHR ''.'' t)" using arg_cong [OF p, of length] by simp
    show ?thesis
    proof (cases "length ?starts = 4")
      case True
      have h: "parse_tokens 10 (t @ rest) (token_bounds ?starts (length t)) s = (r, s')"
        using assms(1,4) True False by (simp add: ipv4_set_def Let_def)
      have "\<forall>be\<in>set (token_bounds ?starts (length t)). fst be \<le> snd be \<and> snd be \<le> length t \<and> brackets_ok (piece t be)"
      proof
        fix be assume be: "be \<in> set (token_bounds ?starts (length t))"
        then have "piece t be \<in> set (parts CHR ''.'' t)" unfolding p [symmetric] by simp
        then show "fst be \<le> snd be \<and> snd be \<le> length t \<and> brackets_ok (piece t be)"
          using bounds_ordered [of 0 0 be "CHR ''.''" t] be assms(2) by simp
      qed
      note read = parse_tokens_read [OF this h assms(3), unfolded p]
      show ?thesis
      proof (cases r)
        case (Inr x)
        show ?thesis
        proof (cases x)
          case None
          then obtain q where "q \<in> set (parts CHR ''.'' t)" "\<forall>b. \<not> octet_text q b" using read Inr by auto
          then have "\<not> address_text t bs" for bs using fits_all unfolding address_text_def by blast
          then show ?thesis using Inr None by simp
        next
          case (Some xs)
          then have "list_all2 octet_text (parts CHR ''.'' t) xs" using read Inr by simp
          then have "address_text t xs" using n True list_all2_lengthD by (fastforce simp: address_text_def)
          then show ?thesis using Inr Some by simp
        qed
      qed (use read in simp)
    next
      case no: False
      then have "length ?starts > 4 \<or> length ?starts < 4" by linarith
      then have "r = Inr None" using assms(1,4) False by (auto simp: ipv4_set_def Let_def split: if_splits)
      moreover have "\<not> address_text t bs" for bs using no n by (auto simp: address_text_def dest: list_all2_lengthD)
      ultimately show ?thesis by simp
    qed
  qed
qed
end
