(* ===== verification/IpFacts.thy ===== *)
theory IpFacts
  imports IpPacket
begin

section \<open>What a receiver gets from cIPPacket\<close>

text \<open>
  Lemmas on src/packets/ippacket.cpp from the receiver's side: the payload put together from the
  fragments, their headers' checksums, the IPv6 packet, and the effect of \<open>updateL4Header\<close>.
\<close>

lemma list_all2_map_eq: "list_all2 (\<lambda>x y. f y = g x) xs ys \<Longrightarrow> map f ys = map g xs"
  by (induction rule: list_all2_induct) simp_all

lemma holds_getPayload: "holds e f \<Longrightarrow> getPayload e = f_payload f"
  by (erule holdsE) (simp add: getPayload_def)

text \<open>The packets put together in their order, without their IP headers.\<close>

definition reassembled :: "cIPPacket \<Rightarrow> byte list" where
  "reassembled ip = concat (map (\<lambda>q. drop (getHeaderLength ip) (getPayload q)) (m_packets ip))"

definition v4_frames :: "cIPPacket \<Rightarrow> byte \<Rightarrow> u16 \<Rightarrow> nat \<Rightarrow> nat \<Rightarrow> byte list \<Rightarrow> frame \<Rightarrow> cEthernetPacket list \<Rightarrow> bool" where
  "v4_frames ip proto ipId M cnt data f qs \<longleftrightarrow>
     list_all2 (\<lambda>k q. holds q (v4_fragment_frame ip proto ipId M cnt data k f)) [0..<cnt] qs"

lemma setup_header_length:
  assumes "frag_setup ip l4 data M cnt"
  shows "length (v4_header ip proto ipId mf (i * (M div 8 * 8)) n) = getHeaderLength ip"
  using assms v4_header_ok [of ip "i * (M div 8 * 8)" proto mf n ipId]
  by (auto simp: frag_setup_def mod_mult_right_eq)

lemma frames_payload:
  assumes "frag_setup ip l4 data M cnt" and "holds q (v4_fragment_frame ip proto ipId M cnt data' k f)"
  shows "drop (getHeaderLength ip) (getPayload q) = chunk M cnt k data'"
  using setup_header_length [OF assms(1)] holds_getPayload [OF assms(2)]
  by (simp add: v4_fragment_frame_def Let_def)

lemma v4_frames_reassembled:
  assumes "frag_setup ip l4 data M cnt" and "v4_frames ip proto ipId M cnt data' f qs"
  shows "reassembled (ip\<lparr>m_packets := qs\<rparr>) = take ((cnt - 1) * (M div 8 * 8) + M) data'"
proof -
  have "list_all2 (\<lambda>k q. drop (getHeaderLength ip) (getPayload q) = chunk M cnt k data') [0..<cnt] qs"
    using assms(2) unfolding v4_frames_def by (rule list_all2_mono) (rule frames_payload [OF assms(1)])
  then have "map (\<lambda>q. drop (getHeaderLength ip) (getPayload q)) qs = map (\<lambda>k. chunk M cnt k data') [0..<cnt]"
    by (rule list_all2_map_eq)
  moreover have "0 < cnt" using assms(1) by (simp add: frag_setup_def)
  ultimately show ?thesis
    by (simp add: reassembled_def getHeaderLength_def chunks_concat cong: if_cong)
qed

text \<open>Nothing is lost if a full fragment is a multiple of eight bytes.\<close>

lemma setup_covers:
  assumes "frag_setup ip l4 data M cnt" and "M mod 8 = 0 \<or> cnt = 1"
  shows "length data \<le> (cnt - 1) * (M div 8 * 8) + M"
proof -
  have M: "0 < M" and cnt: "cnt = (length data - 1) div M + 1" using assms(1) by (auto simp: frag_setup_def)
  have "length data - 1 < ((length data - 1) div M + 1) * M"
    using M by (metis Suc_eq_plus1 dividend_less_div_times mult.commute mult_Suc add.commute)
  then have "length data \<le> (cnt - 1) * M + M" using cnt by (simp add: algebra_simps)
  moreover have "M mod 8 = 0 \<Longrightarrow> M div 8 * 8 = M" by presburger
  ultimately show ?thesis using assms(2) by auto
qed

lemma v4_frames_complete:
  assumes "frag_setup ip l4 data M cnt" and "M mod 8 = 0 \<or> cnt = 1"
    and "v4_frames ip proto ipId M cnt data' f qs" and "length data' = length data"
  shows "reassembled (ip\<lparr>m_packets := qs\<rparr>) = data'"
  using v4_frames_reassembled [OF assms(1,3)] setup_covers [OF assms(1,2)] assms(4) by simp

lemma v4_frames_checksums:
  assumes "frag_setup ip l4 data M cnt" and "v4_frames ip proto ipId M cnt data' f qs"
    and "\<not> hasChksum ip" and "q \<in> set qs"
  shows "csum_at (take (getHeaderLength ip) (getPayload q)) = Inr 0"
proof -
  obtain k where k: "k < cnt" "holds q (v4_fragment_frame ip proto ipId M cnt data' k f)"
    using assms(2,4) unfolding v4_frames_def list_all2_conv_all_nth in_set_conv_nth by auto
  let ?n = "length (chunk M cnt k data')" and ?off = "k * (M div 8 * 8)"
  have su: "\<not> m_isIPv6 ip" "length (v4_srcIP ip) = 4" "length (v4_dstIP ip) = 4"
    using assms(1) by (auto simp: frag_setup_def)
  have manual: "hasChksum ip = False" using assms(3) by simp
  have "?off mod 8 = 0" by (simp add: mod_mult_right_eq)
  from v4_header_ok [OF su this, of proto "k + 1 \<noteq> cnt" ?n ipId] obtain h where
    h: "ipv4_header_compile (v4_srcIP ip) (v4_dstIP ip) (ucast (m_ttl ip)) proto (m_dscp ip)
         (m_ecn ip) (dontFragment ip) (k + 1 \<noteq> cnt) ?off (getHeaderLength ip)
         (of_nat (getHeaderLength ip + ?n)) ipId (hasRouterAlertOption ip) (hasChksum ip) (v4_chksum ip) = Inr h"
    by blast
  have "csum_at (ipv4_header_bytes h) = Inr 0"
    by (rule ipv4_header_checksum [OF h [unfolded manual] su(2,3)]) (simp add: getHeaderLength_def su(1))
  moreover have "ipv4_header_bytes h = v4_header ip proto ipId (k + 1 \<noteq> cnt) ?off ?n"
    using h by (simp add: v4_header_def)
  moreover have "take (getHeaderLength ip) (getPayload q) = v4_header ip proto ipId (k + 1 \<noteq> cnt) ?off ?n"
    using holds_getPayload [OF k(2)] setup_header_length [OF assms(1)]
    by (simp add: v4_fragment_frame_def Let_def)
  ultimately show ?thesis by simp
qed

subsection \<open>The lengths, and the L4 header written again\<close>

lemma setup_facts:
  assumes "frag_setup ip l4 data M cnt"
  shows "0 < length data" "8 \<le> M" "cnt = (length data - 1) div M + 1" "0 < cnt"
    "null_length l4 \<le> M div 8 * 8" "null_length l4 \<le> length data"
    "length data + getHeaderLength ip \<le> 65535" "getHeaderLength ip \<le> 24"
  using assms by (auto simp: frag_setup_def getHeaderLength_def)

lemma setup_packets [simp]:
  "frag_setup (ip\<lparr>m_packets := qs\<rparr>) l4 data M cnt = frag_setup ip l4 data M cnt"
  "v4_frames (ip\<lparr>m_packets := qs\<rparr>) proto ipId M cnt data f ps = v4_frames ip proto ipId M cnt data f ps"
  by (simp_all add: frag_setup_def getHeaderLength_def v4_frames_def v4_fragment_frame_def v4_header_def
      cong: if_cong)

lemma setup_length:
  "length data' = length data \<Longrightarrow> frag_setup ip l4 data' M cnt = frag_setup ip l4 data M cnt"
  by (simp add: frag_setup_def)

lemma chunk_nonempty:
  assumes "frag_setup ip l4 data M cnt" and "k < cnt"
  shows "chunk M cnt k data \<noteq> []"
proof -
  note su = setup_facts [OF assms(1)]
  note c = chunk_facts [OF su(1-3) assms(2)]
  have "8 \<le> M div 8 * 8" using su(2) by presburger
  then have "0 < length (chunk M cnt k data)" using c(1,3) su(2) by auto
  then show ?thesis by simp
qed

lemma v4_payload_lengths:
  assumes "frag_setup ip l4 data M cnt" and "v4_frames ip proto ipId M cnt data f qs" and "q \<in> set qs"
  shows "payloadLength q = length (drop (getHeaderLength ip) (getPayload q)) + getHeaderLength ip"
    and "getHeaderLength ip < payloadLength q"
proof -
  obtain k where k: "k < cnt" "holds q (v4_fragment_frame ip proto ipId M cnt data k f)"
    using assms(2,3) unfolding v4_frames_def list_all2_conv_all_nth in_set_conv_nth by auto
  have c: "drop (getHeaderLength ip) (getPayload q) = chunk M cnt k data"
    by (rule frames_payload [OF assms(1) k(2)])
  have "payloadLength q = length (getPayload q)"
    using holds_getPayload [OF k(2)] k(2) by (simp add: holds_def)
  moreover have "getHeaderLength ip < length (getPayload q)"
    using chunk_nonempty [OF assms(1) k(1)] c by (metis drop_all not_less)
  ultimately show "payloadLength q = length (drop (getHeaderLength ip) (getPayload q)) + getHeaderLength ip"
    "getHeaderLength ip < payloadLength q" by simp_all
qed

lemma mapE_map: "\<forall>x\<in>set xs. f x = Inr (g x) \<Longrightarrow> mapE f xs = Inr (map g xs)"
  by (induction xs) simp_all

lemma v4_getPayloadLength:
  assumes "frag_setup ip l4 data M cnt" and "M mod 8 = 0 \<or> cnt = 1"
    and "v4_frames ip proto ipId M cnt data f (m_packets ip)"
  shows "ip_getPayloadLength ip = Inr (length data)"
proof -
  let ?h = "getHeaderLength ip"
  have d: "concat (map (\<lambda>q. drop ?h (getPayload q)) (m_packets ip)) = data"
    using v4_frames_complete [OF assms refl] by (simp add: reassembled_def)
  have "\<forall>q\<in>set (m_packets ip). bindE (bugOn (payloadLength q \<le> ?h) ''p.getPayloadLength () <= ipHeaderLen'')
      (\<lambda>_. Inr (payloadLength q - ?h)) = Inr (length (drop ?h (getPayload q)))"
  proof
    fix q assume "q \<in> set (m_packets ip)"
    note l = v4_payload_lengths [OF assms(1,3) this]
    then show "bindE (bugOn (payloadLength q \<le> ?h) ''p.getPayloadLength () <= ipHeaderLen'')
      (\<lambda>_. Inr (payloadLength q - ?h)) = Inr (length (drop ?h (getPayload q)))"
      using l(2) by (simp add: bugOn_def)
  qed
  from mapE_map [OF this] d
  have "bindE (mapE (\<lambda>p. bindE (bugOn (payloadLength p \<le> ?h) ''p.getPayloadLength () <= ipHeaderLen'')
       (\<lambda>_. Inr (payloadLength p - ?h))) (m_packets ip)) (\<lambda>ls. Inr (sum_list ls)) = Inr (length data)"
    by (simp add: length_concat comp_def flip: d)
  moreover have "length data < 2 ^ 64" using setup_facts(7) [OF assms(1)] by simp
  ultimately show ?thesis
    unfolding ip_getPayloadLength_def Let_def by (auto simp: bindE_Inr_iff)
qed

lemma chunk_update:
  assumes "frag_setup ip l4h (l4 @ rest) M cnt" and "length l4' = length l4"
    and "null_length l4h = length l4" and "k < cnt"
  shows "chunk M cnt k (l4' @ rest) =
    (if k = 0 then l4' @ drop (length l4) (chunk M cnt 0 (l4 @ rest)) else chunk M cnt k (l4 @ rest))"
    and "length l4 \<le> length (chunk M cnt 0 (l4 @ rest))"
proof -
  note su = setup_facts [OF assms(1)]
  have n: "length l4 \<le> M div 8 * 8" using su(5) assms(3) by simp
  have "M div 8 * 8 \<le> M" by simp
  with n have n': "length l4 \<le> (if 0 + 1 = cnt then M else M div 8 * 8)" by (auto intro: order_trans)
  then show "length l4 \<le> length (chunk M cnt 0 (l4 @ rest))" by (simp add: chunk_def)
  have "M div 8 * 8 \<le> k * (M div 8 * 8)" if "0 < k" using that by (cases k) simp_all
  then have "length l4 \<le> k * (M div 8 * 8)" if "0 < k" using that n by (meson order_trans)
  then show "chunk M cnt k (l4' @ rest) =
    (if k = 0 then l4' @ drop (length l4) (chunk M cnt 0 (l4 @ rest)) else chunk M cnt k (l4 @ rest))"
    using n' assms(2) by (auto simp: chunk_def)
qed

lemma v4_update:
  assumes su: "frag_setup ip l4h (l4 @ rest) M cnt" and len: "length l4' = length l4" "null_length l4h = length l4"
    and fr: "v4_frames ip proto ipId M cnt (l4 @ rest) f (m_packets ip)"
  shows "\<exists>qs. updateL4Header l4' ip = Inr (ip\<lparr>m_packets := qs\<rparr>)
    \<and> v4_frames ip proto ipId M cnt (l4' @ rest) f qs"
proof -
  let ?h = "getHeaderLength ip" and ?F = "v4_fragment_frame ip proto ipId M cnt"
  note fa = setup_facts [OF su]
  obtain q qs where ps: "m_packets ip = q # qs" and q: "holds q (?F (l4 @ rest) 0 f)"
    and qs: "list_all2 (\<lambda>k q. holds q (?F (l4 @ rest) k f)) [1..<cnt] qs"
    using fr fa(4) unfolding v4_frames_def
    by (auto simp: upt_rec [of 0 cnt] list_all2_Cons1)
  have hd: "length (v4_header ip proto ipId mf 0 n) = ?h" for mf n
    using setup_header_length [OF su, of proto ipId mf 0] by simp
  note cu = chunk_update [OF su len]
  have c0: "chunk M cnt 0 (l4' @ rest) = l4' @ drop (length l4) (chunk M cnt 0 (l4 @ rest))"
    using cu(1) [OF fa(4)] by simp
  have n: "length l4 \<le> length (chunk M cnt 0 (l4 @ rest))" by (rule cu(2) [OF fa(4)])
  let ?P = "f_payload (?F (l4 @ rest) 0 f)"
  have P: "?P = v4_header ip proto ipId (1 \<noteq> cnt) 0 (length (chunk M cnt 0 (l4 @ rest))) @ chunk M cnt 0 (l4 @ rest)"
    by (simp add: v4_fragment_frame_def Let_def)
  have new: "(?F (l4 @ rest) 0 f)\<lparr>f_payload := take ?h ?P @ l4' @ drop (?h + length l4') ?P\<rparr> = ?F (l4' @ rest) 0 f"
    unfolding P using hd len(1) n by (simp add: v4_fragment_frame_def Let_def c0)
  have fits: "?h + length l4' \<le> length ?P" unfolding P using hd n len(1) by simp
  have "length l4' < 2 ^ 62" "?h < 2 ^ 32" using fa(6-8) len by auto
  from updatePayloadAt_holds [OF q this] fits
  obtain q' where q': "updatePayloadAt ?h l4' q = Inr q'" "holds q' (?F (l4' @ rest) 0 f)"
    unfolding new by auto
  have "?h < payloadLength q" using v4_payload_lengths(2) [OF su fr] ps by simp
  then have "updateL4Header l4' ip = Inr (ip\<lparr>m_packets := q' # qs\<rparr>)"
    using q'(1) ps by (simp add: updateL4Header_def)
  moreover have "list_all2 (\<lambda>k q. holds q (?F (l4' @ rest) k f)) [1..<cnt] qs"
    using qs unfolding list_all2_conv_all_nth
    by (auto simp: v4_fragment_frame_def cu(1))
  then have "v4_frames ip proto ipId M cnt (l4' @ rest) f (q' # qs)"
    using q'(2) fa(4) by (simp add: v4_frames_def upt_rec [of 0 cnt])
  ultimately show ?thesis by blast
qed

subsection \<open>The IPv6 packet\<close>

definition v6_header :: "cIPPacket \<Rightarrow> byte \<Rightarrow> nat \<Rightarrow> byte list" where
  "v6_header ip proto len = ipv6_header_bytes (ipv6_header_compile (v6_srcIP ip) (v6_dstIP ip)
     (ucast (m_ttl ip)) proto (m_dscp ip) (m_ecn ip) (flowlabel ip) (of_nat len))"

lemma ipv6_header_layout:
  "ipv6_header_bytes (ipv6_header_compile src dst hop proto dscp ecn label len) =
     be32 (push_bit 28 6 OR push_bit 22 (dscp AND 0x3f) OR push_bit 20 (ecn AND 3) OR (label AND 0xfffff))
     @ be16 len @ [proto, ucast hop] @ src @ dst"
proof -
  have m: "(0x3f :: u32) = mask 6" "(3 :: u32) = mask 2" "(0xfffff :: u32) = mask 20"
    "(0xffff :: u32) = mask 16" "(0x0f0000 :: u32) = push_bit 16 (mask 4)" "(6 :: u32) = push_bit 1 (mask 2)"
    by (simp_all add: mask_eq_exp_minus_1)
  have s: "(push_bit 4 6 :: u32) = push_bit 5 (mask 2)" "(push_bit 28 6 :: u32) = push_bit 29 (mask 2)"
    by (simp_all add: mask_eq_exp_minus_1)
  let ?w = "push_bit 29 (mask 2) OR push_bit 22 (dscp AND mask 6) OR push_bit 20 (ecn AND mask 2) OR (label AND mask 20)"
  have a: "(ucast (push_bit 5 (mask 2) OR drop_bit 2 (dscp AND mask 6)) :: byte) = ucast (drop_bit 24 ?w)"
    by (rule bit_word_eqI) (auto simp: bit_simps)
  have b: "(ucast (push_bit 6 (dscp AND mask 2) OR push_bit 4 (ecn AND mask 2) OR
      ucast (ucast (drop_bit 16 (label AND push_bit 16 (mask 4))) :: byte)) :: byte) = ucast (drop_bit 16 ?w)"
    by (rule bit_word_eqI) (auto simp: bit_simps)
  have c: "be16 (ucast (label AND mask 16)) = [ucast (drop_bit 8 ?w), ucast ?w]"
    by (auto simp: be16_def bit_simps intro!: bit_word_eqI)
  show ?thesis
    unfolding ipv6_header_bytes_def ipv6_header_compile_def ipv6_header_t.simps mem16_htons m(1-5) s a b c
    by (simp add: be32_def)
qed

lemma length_v6_header [simp]:
  "length (v6_srcIP ip) = 16 \<Longrightarrow> length (v6_dstIP ip) = 16 \<Longrightarrow> length (v6_header ip proto n) = 40"
  by (simp add: v6_header_def ipv6_header_layout)

definition v6_setup :: "cIPPacket \<Rightarrow> nat \<Rightarrow> byte list \<Rightarrow> bool" where
  "v6_setup ip n d \<longleftrightarrow> m_isIPv6 ip \<and> length (v6_srcIP ip) = 16 \<and> length (v6_dstIP ip) = 16
     \<and> 0 < length d \<and> length d + 40 \<le> 65535 \<and> length d + 40 \<le> ip_mtu ip \<and> ip_mtu ip < 2 ^ 32
     \<and> n \<le> length d"

lemma v6compile_frame:
  assumes su: "v6_setup ip (null_length l4header) (opt_bytes l4header @ opt_bytes payload)"
    and mp: "m_packets ip = [p]" and p: "holds p f"
    and room: "14 + length (f_tags f) + length (f_llc f) + ip_mtu ip \<le> packetMaxLength p"
  shows "\<exists>q. v6compile proto l4header payload ip s = (Inr (ip\<lparr>m_packets := [q]\<rparr>), s)
    \<and> holds q (f\<lparr>f_payload := v6_header ip proto (length (opt_bytes l4header @ opt_bytes payload))
        @ opt_bytes l4header @ opt_bytes payload\<rparr>)"
proof -
  let ?l = "null_length l4header" and ?pl = "null_length payload"
  let ?n = "length (opt_bytes l4header @ opt_bytes payload)"
  have n: "?l + ?pl = ?n" by (simp add: opt_bytes_length)
  note su' = su [unfolded v6_setup_def]
  have hl: "getHeaderLength ip = 40" using su' by (simp add: getHeaderLength_def)
  have M: "szsub (ip_mtu ip) 40 = ip_mtu ip - 40" using su' by (intro szsub_id) auto
  have n1: "0 < ?n" "?n + 40 \<le> ip_mtu ip" "?n + 40 \<le> 65535" using su' by blast+
  then have "1 \<le> ?n" "?n < 2 ^ 64" by (linarith, simp)
  then have "szsub ?n 1 = ?n - 1" by (rule szsub_id)
  moreover have "(?n - 1) div (ip_mtu ip - 40) = 0" using n1 by (intro div_less) linarith
  moreover have big: "40 < ip_mtu ip" using n1 by linarith
  ultimately have fc: "frag_count (ip_mtu ip) 40 (?l + ?pl) = Inr 1"
    using M big unfolding n by (simp add: frag_count_def Let_def)
  have fl: "frag_len (ip_mtu ip) 40 0 1 ?l ?pl = ?n"
    using su' M n by (simp add: frag_len_def Let_def)
  have hd: "take 40 (v6_header ip proto ?n) = v6_header ip proto ?n" "length (v6_header ip proto ?n) = 40"
    using su' by simp_all
  have fb: "length (frame_bytes (f\<lparr>f_payload := v6_header ip proto ?n\<rparr>)) \<le> packetMaxLength p"
    using hd room su' p by (auto simp: frame_bytes_def holds_def frame_shape_def)
  obtain q1 where q1: "setPayload (v6_header ip proto ?n) p = Inr q1"
    "holds q1 (f\<lparr>f_payload := v6_header ip proto ?n\<rparr>)" "packetMaxLength q1 = packetMaxLength p"
    using setPayload_holds [OF p, of "v6_header ip proto ?n"] hd fb by auto
  have le: "?n < 2 ^ 64" "?l \<le> ?n" "?n - ?l = ?pl" using su' n by auto
  obtain q where q: "frag_body 0 l4header payload ?pl ?n q1 = Inr (q, ?pl)"
    "holds q (f\<lparr>f_payload := v6_header ip proto ?n @ opt_bytes l4header @ opt_bytes payload\<rparr>)"
    by (rule frag_body_holds [OF q1(2), of ?n ?pl payload ?pl 0 l4header "opt_bytes l4header @ opt_bytes payload"])
      (use le room su' hd q1(3) in \<open>auto simp: opt_bytes_length\<close>)
  have sub: "szsub ?pl ?pl = 0" using n1 n by (subst szsub_id) auto
  have "v6_fragment ip proto l4header 1 1 0 payload ?pl p = Inr (q, map_option (drop ?pl) payload, 0)"
    unfolding v6_fragment_def hl fl Let_def v6_header_def [symmetric] hd(1) q1(1) bindE_simps
    using q(1) sub by simp
  then have "v6_loop ip proto l4header 1 (Suc 0) 0 payload ?pl [p] = Inr [q]" by simp
  moreover have "\<not> sz (?l + ?pl + 40) > 65535" "\<not> ?l > szsub (ip_mtu ip) 40"
    using su' n M le(2) by auto
  ultimately have "v6compile proto l4header payload ip s = (Inr (ip\<lparr>m_packets := [q]\<rparr>), s)"
    unfolding v6compile_def Let_def hl fc bindM_def liftE_def
    using mp by (simp del: v6_loop.simps One_nat_def)
  with q(2) show ?thesis by blast
qed

subsection \<open>A new object\<close>

lemma getMyMTU_eq: "getMyMTU s = (Inr (m_mtu s), s)"
  by (simp add: getMyMTU_def)

text \<open>Its only packet has a buffer for the MTU, the MAC header and one VLAN tag.\<close>

lemma ip_new_object:
  "\<exists>ip p f. ip_new isIPv6 s = (Inr ip, s) \<and> m_packets ip = [p] \<and> holds p f \<and> f_tags f = [] \<and> f_llc f = []
     \<and> packetMaxLength p = unat (m_mtu s) + 18 \<and> ip_mtu ip = unat (m_mtu s) \<and> m_isIPv6 ip = isIPv6
     \<and> length (v4_srcIP ip) = 4 \<and> length (v4_dstIP ip) = 4 \<and> length (v6_srcIP ip) = 16
     \<and> length (v6_dstIP ip) = 16 \<and> \<not> hasRouterAlertOption ip \<and> \<not> hasChksum ip \<and> \<not> hasDMAC p"
proof -
  let ?n = "unat (m_mtu s) + 14 + 4" and ?t = "if isIPv6 then ETHERTYPE_IPV6 else ETHERTYPE_IPV4"
  have "unat (m_mtu s) < 2 ^ 32" using unsigned_less [of "m_mtu s"] by simp
  then obtain p where p: "eth_new (junk_of s) ?n = Inr p" "packetMaxLength p = ?n" "\<not> hasDMAC p"
    "holds p \<lparr>f_dest = replicate 6 0, f_src = replicate 6 0, f_tags = [], f_type = [0, 0], f_llc = [], f_payload = []\<rparr>"
    using eth_new_holds [of ?n "junk_of s"] by auto
  obtain q where q: "setTypeLength ?t p = Inr q" "packetMaxLength q = ?n" "\<not> hasDMAC q"
    "holds q \<lparr>f_dest = replicate 6 0, f_src = replicate 6 0, f_tags = [], f_type = be16 ?t, f_llc = [], f_payload = []\<rparr>"
    using setTypeLength_holds [OF p(4), of ?t] p(2,3) by auto
  show ?thesis
    using p(1) q by (auto simp: ip_new_def eth_default_def getMyMTU_eq bindM_def getM_def liftE_def returnM_def
        split del: if_split)
qed

subsection \<open>The offset and more-fragments fields\<close>

definition fragment_offset :: "byte list \<Rightarrow> nat" where
  "fragment_offset h = 8 * unat (rd16 (h ! 6) (h ! 7) AND 0x1fff)"

definition more_fragments :: "byte list \<Rightarrow> bool" where
  "more_fragments h = bit (rd16 (h ! 6) (h ! 7)) 13"

lemma rd16_at: "length a = 6 \<Longrightarrow> rd16 ((a @ be16 w @ b) ! 6) ((a @ be16 w @ b) ! 7) = w"
  by (simp add: nth_append be16_def rd16_be16)

lemma header_fragment_fields:
  assumes "\<not> m_isIPv6 ip" "length (v4_srcIP ip) = 4" "length (v4_dstIP ip) = 4"
    and "offset mod 8 = 0" and "offset < 65536"
  shows "fragment_offset (v4_header ip proto ipId mf offset n @ c) = offset"
    and "more_fragments (v4_header ip proto ipId mf offset n @ c) = mf"
proof -
  let ?w = "(if dontFragment ip then 0x4000 else 0) OR (if mf then 0x2000 else 0)
    OR (of_nat (offset div 8) AND 0x1fff) :: u16"
  have hl: "getHeaderLength ip = (if hasRouterAlertOption ip then 24 else 20)"
    using assms(1) by (simp add: getHeaderLength_def)
  obtain h where h: "ipv4_header_compile (v4_srcIP ip) (v4_dstIP ip) (ucast (m_ttl ip)) proto (m_dscp ip)
         (m_ecn ip) (dontFragment ip) mf offset (getHeaderLength ip)
         (of_nat (getHeaderLength ip + n)) ipId (hasRouterAlertOption ip) (hasChksum ip) (v4_chksum ip) = Inr h"
    using v4_header_ok [OF assms(1-4)] by blast
  then have "v4_header ip proto ipId mf offset n = ipv4_header_bytes h" by (simp add: v4_header_def)
  then have w: "rd16 ((v4_header ip proto ipId mf offset n @ c) ! 6) ((v4_header ip proto ipId mf offset n @ c) ! 7) = ?w"
    unfolding ipv4_header_layout [OF h hl]
    using rd16_at [of "[if hasRouterAlertOption ip then 0x46 else 0x45, ucast (push_bit 2 (m_dscp ip AND 0x3F) OR (m_ecn ip AND 0x03))]
      @ be16 (of_nat (getHeaderLength ip + n)) @ be16 ipId" ?w] by (simp only: append_assoc append.simps) simp
  have m: "(0x1fff :: u16) = mask 13" by (simp add: mask_eq_exp_minus_1)
  have "(0x4000 :: int) = 2 ^ 14" "(0x2000 :: int) = 2 ^ 13" by simp_all
  then have b: "bit (0x4000 :: int) k \<longleftrightarrow> k = 14" "bit (0x2000 :: int) k \<longleftrightarrow> k = 13" for k
    by (simp_all only: bit_exp_iff) auto
  have "?w AND 0x1fff = of_nat (offset div 8)"
  proof (rule bit_word_eqI)
    fix k assume "k < LENGTH(16)"
    have "offset div 8 < 2 ^ 13" using assms(5) by simp
    then have "bit (offset div 8) k \<Longrightarrow> k < 13"
      by (metis bit_take_bit_iff take_bit_nat_eq_self)
    then show "bit (?w AND 0x1fff) k = bit (of_nat (offset div 8) :: u16) k"
      unfolding m by (auto simp: bit_simps b)
  qed
  then show "fragment_offset (v4_header ip proto ipId mf offset n @ c) = offset"
    unfolding fragment_offset_def w using assms(5) mult_div_mod_eq [of 8 offset] assms(4)
    by (simp add: unat_of_nat del: mult_div_mod_eq)
  show "more_fragments (v4_header ip proto ipId mf offset n @ c) = mf"
    unfolding more_fragments_def w m by (auto simp: bit_simps b)
qed

text \<open>Each fragment names the length of what the fragments before it carry, and the last one says so.\<close>

lemma v4_frames_offsets:
  assumes "frag_setup ip l4 data M cnt" and "v4_frames ip proto ipId M cnt data f qs" and "k < cnt"
  shows "fragment_offset (getPayload (qs ! k)) = k * (M div 8 * 8)"
    and "more_fragments (getPayload (qs ! k)) = (k + 1 \<noteq> cnt)"
proof -
  note su = setup_facts [OF assms(1)]
  have q: "holds (qs ! k) (v4_fragment_frame ip proto ipId M cnt data k f)"
    using assms(2,3) unfolding v4_frames_def list_all2_conv_all_nth by (elim conjE) simp
  have "k * (M div 8 * 8) < length data" by (rule chunk_facts(1) [OF su(1-3) assms(3)])
  then have b: "k * (M div 8 * 8) < 65536" using su(7) by linarith
  have a: "\<not> m_isIPv6 ip" "length (v4_srcIP ip) = 4" "length (v4_dstIP ip) = 4"
    using assms(1) by (auto simp: frag_setup_def)
  have z: "k * (M div 8 * 8) mod 8 = 0" by (simp add: mod_mult_right_eq)
  show "fragment_offset (getPayload (qs ! k)) = k * (M div 8 * 8)"
    "more_fragments (getPayload (qs ! k)) = (k + 1 \<noteq> cnt)"
    using header_fragment_fields [OF a z b] holds_getPayload [OF q]
    by (simp_all add: v4_fragment_frame_def Let_def)
qed

lemma v4_frames_sizes:
  assumes "frag_setup ip l4 data M cnt" and "v4_frames ip proto ipId M cnt data f qs" and "k < cnt"
  shows "length (getPayload (qs ! k)) \<le> ip_mtu ip"
    and "k * (M div 8 * 8) = length (concat (map (\<lambda>q. drop (getHeaderLength ip) (getPayload q)) (take k qs)))"
proof -
  note su = setup_facts [OF assms(1)]
  have q: "holds (qs ! i) (v4_fragment_frame ip proto ipId M cnt data i f)" if "i < cnt" for i
    using assms(2) that unfolding v4_frames_def list_all2_conv_all_nth by (elim conjE) simp
  note c = chunk_facts [OF su(1-3)]
  have "length (chunk M cnt k data) \<le> M" using c(3) [OF assms(3)] by auto
  then show "length (getPayload (qs ! k)) \<le> ip_mtu ip"
    using setup_header_length [OF assms(1)] holds_getPayload [OF q [OF assms(3)]] assms(1)
    by (simp add: v4_fragment_frame_def frag_setup_def Let_def)
  have lq: "length qs = cnt" using assms(2) by (simp add: v4_frames_def list_all2_conv_all_nth)
  have "map (\<lambda>q. drop (getHeaderLength ip) (getPayload q)) (take k qs) = map (\<lambda>i. chunk M cnt i data) [0..<k]"
    using lq assms(3) frames_payload [OF assms(1) q] by (intro nth_equalityI) simp_all
  then have "length (concat (map (\<lambda>q. drop (getHeaderLength ip) (getPayload q)) (take k qs))) = length (take (k * (M div 8 * 8)) data)"
    using chunks_prefix [OF assms(3)] by simp
  moreover have "k * (M div 8 * 8) < length data" by (rule c(1) [OF assms(3)])
  ultimately show "k * (M div 8 * 8) = length (concat (map (\<lambda>q. drop (getHeaderLength ip) (getPayload q)) (take k qs)))"
    by simp
qed

end
