(* ===== verification/TransportFacts.thy ===== *)
theory TransportFacts
  imports Transport IpFacts
begin

section \<open>Transport checksums at the receiver\<close>

text \<open>
  Lemmas on src/packets/udppacket.cpp, tcppacket.cpp and the other subclasses of \<open>cIPPacket\<close>. UDP
  and TCP rely on the IP layer through the interface \<open>datagram\<close>, which both IP versions provide.
\<close>

subsection \<open>A stored checksum of zero\<close>

text \<open>Zero is sent as 0xffff, which is the other zero of one's complement.\<close>

lemma rfc1071_stores_ones:
  assumes "even (length a)" and "length (a @ [0, 0] @ b) \<le> 2 ^ 17" and "csum_at (a @ [0, 0] @ b) = Inr 0"
  shows "csum_at (a @ mem16 0xffff @ b) = Inr 0"
proof -
  let ?m = "a @ [0, 0] @ b" and ?m' = "a @ mem16 0xffff @ b"
  have len: "length ?m' \<le> 2 ^ 17" using assms(2) by simp
  have "word_sum ?m' = word_sum ?m + unat (0xffff :: u16)"
    using assms(1) by (simp add: word_sum_append word_sum_mem16)
  then have s: "word_sum ?m' = word_sum ?m + 65535" by simp
  have "ocsum ?m = 65535"
    using rfc1071_one_value [OF assms(2), of 0] assms(3) ocsum_bound [OF assms(2)]
    unfolding csum_at_def by auto
  then have "word_sum ?m mod 65535 = 0" using ocsum_mod [of ?m] by simp
  then have "ocsum ?m' mod 65535 = 0" using ocsum_mod [of ?m'] s by simp
  moreover have "ocsum ?m' \<noteq> 0" using s by (simp add: ocsum_zero)
  ultimately have "ocsum ?m' = 65535"
    using ocsum_bound [OF len] by (metis le_neq_implies_less mod_less)
  then show ?thesis
    using rfc1071_one_value [OF len, of 0] unfolding csum_at_def by (auto simp: unat_eq_zero)
qed

interpretation l4: self_checking csum_at "\<lambda>v. mem16 (nonzero_chksum v)" "\<lambda>m. length m \<le> 2 ^ 17"
proof (unfold_locales, goal_cases)
  case (1 m)
  then show ?case using inet.total by blast
next
  case (2 a b v)
  then show ?case
    using inet.verifies rfc1071_stores_ones unfolding nonzero_chksum_def by (cases "v = 0") auto
qed simp

lemma rfc1071_three:
  assumes "even (length a)" and "even (length b)"
  shows "rfc1071 (Some (x, a)) (Some (y, b)) (map_option (Pair 0) p) = csum_at (a @ b @ opt_bytes p)"
proof (cases p)
  case None
  then show ?thesis using rfc1071_concat2 [OF assms(1)] by (simp add: csum_at_def opt_bytes_def)
next
  case (Some q)
  then show ?thesis using rfc1071_concat [OF assms] by (simp add: csum_at_def opt_bytes_def)
qed

subsection \<open>What UDP and TCP rely on\<close>

text \<open>
  \<open>ready n ip d\<close>: the packet can take a datagram of the length of \<open>d\<close> whose first \<open>n\<close> bytes are the L4
  header. \<open>sent proto n ip d\<close>: the packet holds the datagram \<open>d\<close>, however it is cut into fragments.
\<close>

locale datagram =
  fixes compile :: "byte \<Rightarrow> byte list option \<Rightarrow> byte list option \<Rightarrow> cIPPacket \<Rightarrow> ('s, cIPPacket) M"
    and ready :: "nat \<Rightarrow> cIPPacket \<Rightarrow> nat \<Rightarrow> bool"
    and sent :: "byte \<Rightarrow> nat \<Rightarrow> cIPPacket \<Rightarrow> byte list \<Rightarrow> bool"
    and pseudo :: "cIPPacket \<Rightarrow> byte \<Rightarrow> nat \<Rightarrow> byte list"
  assumes compile_law: "ready (length l4) ip (length (l4 @ opt_bytes payload)) \<Longrightarrow>
      \<exists>qs s'. compile proto (Some l4) payload ip s = (Inr (ip\<lparr>m_packets := qs\<rparr>), s')
        \<and> sent proto (length l4) (ip\<lparr>m_packets := qs\<rparr>) (l4 @ opt_bytes payload)"
    and update_law: "sent proto (length l4) ip (l4 @ rest) \<Longrightarrow> length l4' = length l4 \<Longrightarrow>
      \<exists>qs. updateL4Header l4' ip = Inr (ip\<lparr>m_packets := qs\<rparr>)
        \<and> sent proto (length l4) (ip\<lparr>m_packets := qs\<rparr>) (l4' @ rest)"
    and checksum_law: "sent proto n ip d \<Longrightarrow> calcChecksum proto ip header payload =
      bindE (rfc1071 (Some (0, pseudo ip proto (length d))) (Some (0, header)) (map_option (Pair 0) payload))
        (\<lambda>c. Inr (nonzero_chksum c))"
    and pseudo_law: "sent proto n ip d \<Longrightarrow> even (length (pseudo ip proto k)) \<and> length (pseudo ip proto k) \<le> 40"
      "pseudo (ip\<lparr>m_packets := qs\<rparr>) proto k = pseudo ip proto k"
    and short: "sent proto n ip d \<Longrightarrow> length d \<le> 65535"
    and delivered: "sent proto n ip d \<Longrightarrow> reassembled ip = d"
begin

lemma seal:
  assumes "sent proto (length a + 2 + length b) ip (a @ [0, 0] @ b @ opt_bytes payload)"
    and "even (length a)" and "even (length b)"
  shows "\<exists>c qs. calcChecksum proto ip (a @ [0, 0] @ b) payload = Inr c
    \<and> updateL4Header (a @ mem16 c @ b) ip = Inr (ip\<lparr>m_packets := qs\<rparr>)
    \<and> reassembled (ip\<lparr>m_packets := qs\<rparr>) = a @ mem16 c @ b @ opt_bytes payload
    \<and> csum_at (pseudo ip proto (length (a @ mem16 c @ b @ opt_bytes payload))
        @ a @ mem16 c @ b @ opt_bytes payload) = Inr 0"
proof -
  let ?d = "a @ [0, 0] @ b @ opt_bytes payload" and ?h = "pseudo ip proto (length (a @ [0, 0] @ b @ opt_bytes payload))"
  have ev: "even (length ?h)" "length ?h \<le> 40" "length ?d \<le> 65535"
    using pseudo_law(1) [OF assms(1)] short [OF assms(1)] by auto
  have msg: "rfc1071 (Some (0, ?h)) (Some (0, a @ [0, 0] @ b)) (map_option (Pair 0) payload)
      = csum_at ((?h @ a) @ [0, 0] @ b @ opt_bytes payload)"
    using rfc1071_three [OF ev(1), of "a @ [0, 0] @ b" 0 0 payload] assms(2,3) by simp
  have fits: "length ((?h @ a) @ [0, 0] @ b @ opt_bytes payload) \<le> 2 ^ 17" using ev(2,3) by simp
  obtain v where v: "csum_at ((?h @ a) @ [0, 0] @ b @ opt_bytes payload) = Inr v"
    using l4.total [OF fits] by blast
  let ?c = "nonzero_chksum v"
  have calc: "calcChecksum proto ip (a @ [0, 0] @ b) payload = Inr ?c"
    unfolding checksum_law [OF assms(1)] msg v by simp
  have "even (length (?h @ a))" using ev(1) assms(2) by simp
  then have zero: "csum_at ((?h @ a) @ mem16 ?c @ b @ opt_bytes payload) = Inr 0"
    using fits v by (rule l4.verifies)
  have "sent proto (length (a @ [0, 0] @ b)) ip ((a @ [0, 0] @ b) @ opt_bytes payload)"
    using assms(1) by simp
  from update_law [OF this, of "a @ mem16 ?c @ b"] obtain qs where
    qs: "updateL4Header (a @ mem16 ?c @ b) ip = Inr (ip\<lparr>m_packets := qs\<rparr>)"
      "sent proto (length a + 2 + length b) (ip\<lparr>m_packets := qs\<rparr>) (a @ mem16 ?c @ b @ opt_bytes payload)"
    by auto
  have "reassembled (ip\<lparr>m_packets := qs\<rparr>) = a @ mem16 ?c @ b @ opt_bytes payload"
    by (rule delivered [OF qs(2)])
  moreover have "length (a @ mem16 ?c @ b @ opt_bytes payload) = length ?d" by simp
  ultimately show ?thesis using calc qs(1) zero by (intro exI [of _ ?c] exI [of _ qs]) simp
qed

lemma send_sealed:
  assumes "ready (length a + 2 + length b) ip (length a + 2 + length b + null_length payload)"
    and "even (length a)" and "even (length b)"
  shows "\<exists>ps s' c qs. compile proto (Some (a @ [0, 0] @ b)) payload ip s = (Inr (ip\<lparr>m_packets := ps\<rparr>), s')
    \<and> calcChecksum proto (ip\<lparr>m_packets := ps\<rparr>) (a @ [0, 0] @ b) payload = Inr c
    \<and> updateL4Header (a @ mem16 c @ b) (ip\<lparr>m_packets := ps\<rparr>) = Inr (ip\<lparr>m_packets := qs\<rparr>)
    \<and> reassembled (ip\<lparr>m_packets := qs\<rparr>) = a @ mem16 c @ b @ opt_bytes payload
    \<and> csum_at (pseudo ip proto (length a + 2 + length b + null_length payload)
        @ a @ mem16 c @ b @ opt_bytes payload) = Inr 0"
proof -
  have "ready (length (a @ [0, 0] @ b)) ip (length ((a @ [0, 0] @ b) @ opt_bytes payload))"
    using assms(1) by (simp add: opt_bytes_length add.assoc)
  from compile_law [OF this] obtain ps s' where
    ps: "compile proto (Some (a @ [0, 0] @ b)) payload ip s = (Inr (ip\<lparr>m_packets := ps\<rparr>), s')"
      "sent proto (length (a @ [0, 0] @ b)) (ip\<lparr>m_packets := ps\<rparr>) ((a @ [0, 0] @ b) @ opt_bytes payload)"
    by blast
  then have "sent proto (length a + 2 + length b) (ip\<lparr>m_packets := ps\<rparr>) (a @ [0, 0] @ b @ opt_bytes payload)"
    by simp
  from seal [OF this assms(2,3)] ps(1) show ?thesis
    by (fastforce simp: pseudo_law(2) opt_bytes_length add.assoc)
qed

end

subsection \<open>IPv4 provides it\<close>

definition v4_ready :: "nat \<Rightarrow> cIPPacket \<Rightarrow> nat \<Rightarrow> bool" where
  "v4_ready n ip len \<longleftrightarrow> (\<exists>M cnt p f. frag_setup ip (Some (replicate n 0)) (replicate len 0) M cnt
     \<and> (M mod 8 = 0 \<or> cnt = 1) \<and> m_packets ip = [p] \<and> holds p f
     \<and> 14 + length (f_tags f) + length (f_llc f) + ip_mtu ip \<le> packetMaxLength p \<and> packetMaxLength p < 2 ^ 62)"

definition v4_sent :: "byte \<Rightarrow> nat \<Rightarrow> cIPPacket \<Rightarrow> byte list \<Rightarrow> bool" where
  "v4_sent proto n ip d \<longleftrightarrow> (\<exists>M cnt ipId f. frag_setup ip (Some (replicate n 0)) d M cnt
     \<and> (M mod 8 = 0 \<or> cnt = 1) \<and> v4_frames ip proto ipId M cnt d f (m_packets ip))"

definition v4_pseudo :: "cIPPacket \<Rightarrow> byte \<Rightarrow> nat \<Rightarrow> byte list" where
  "v4_pseudo ip proto len = ipv4_pseudo_header (v4_srcIP ip) (v4_dstIP ip) proto (of_nat len)"

lemma v4_sentI:
  assumes "frag_setup ip (Some (replicate n 0)) d M cnt" and "M mod 8 = 0 \<or> cnt = 1"
    and "v4_frames ip proto ipId M cnt d f qs"
  shows "v4_sent proto n (ip\<lparr>m_packets := qs\<rparr>) d"
  unfolding v4_sent_def setup_packets
  by (rule exI [of _ M], rule exI [of _ cnt], rule exI [of _ ipId], rule exI [of _ f])
    (use assms in simp)

lemma setup_l4: "null_length l4 = null_length l4' \<Longrightarrow> frag_setup ip l4 d M cnt = frag_setup ip l4' d M cnt"
  by (simp add: frag_setup_def)

lemma v4_compile_sent:
  assumes "v4_ready (length l4) ip (length (l4 @ opt_bytes payload))"
  shows "\<exists>qs s'. ip_compile proto (Some l4) payload ip s = (Inr (ip\<lparr>m_packets := qs\<rparr>), s')
    \<and> v4_sent proto (length l4) (ip\<lparr>m_packets := qs\<rparr>) (l4 @ opt_bytes payload)"
proof -
  let ?d = "l4 @ opt_bytes payload"
  obtain M cnt p f where r: "frag_setup ip (Some (replicate (length l4) 0)) (replicate (length ?d) 0) M cnt"
    "M mod 8 = 0 \<or> cnt = 1" "m_packets ip = [p]" "holds p f"
    "14 + length (f_tags f) + length (f_llc f) + ip_mtu ip \<le> packetMaxLength p" "packetMaxLength p < 2 ^ 62"
    using assms unfolding v4_ready_def by (elim exE conjE) (rule that)
  have su: "frag_setup ip (Some (replicate (length l4) 0)) ?d M cnt"
    using r(1) setup_length [of ?d "replicate (length ?d) 0"] by simp
  then have "frag_setup ip (Some l4) (opt_bytes (Some l4) @ opt_bytes payload) M cnt"
    using setup_l4 [of "Some l4" "Some (replicate (length l4) 0)"] by (simp add: opt_bytes_def null_length_def)
  from v4compile_frames [OF this r(3-6)] obtain qs s' ipId f' where
    "v4compile proto (Some l4) payload ip s = (Inr (ip\<lparr>m_packets := qs\<rparr>), s')"
    "v4_frames ip proto ipId M cnt ?d f' qs"
    unfolding v4_frames_def by (fastforce simp: opt_bytes_def)
  moreover have "\<not> m_isIPv6 ip" using su by (simp add: frag_setup_def)
  ultimately show ?thesis
    using v4_sentI [OF su r(2)] by (intro exI [of _ qs] exI [of _ s']) (simp add: ip_compile_def)
qed

lemma v4_update_sent:
  assumes "v4_sent proto (length l4) ip (l4 @ rest)" and "length l4' = length l4"
  shows "\<exists>qs. updateL4Header l4' ip = Inr (ip\<lparr>m_packets := qs\<rparr>)
    \<and> v4_sent proto (length l4) (ip\<lparr>m_packets := qs\<rparr>) (l4' @ rest)"
proof -
  obtain M cnt ipId f where r: "frag_setup ip (Some (replicate (length l4) 0)) (l4 @ rest) M cnt"
    "M mod 8 = 0 \<or> cnt = 1" "v4_frames ip proto ipId M cnt (l4 @ rest) f (m_packets ip)"
    using assms(1) unfolding v4_sent_def by (elim exE conjE) (rule that)
  from v4_update [OF r(1) assms(2) _ r(3)] obtain qs where
    "updateL4Header l4' ip = Inr (ip\<lparr>m_packets := qs\<rparr>)" "v4_frames ip proto ipId M cnt (l4' @ rest) f qs"
    by (auto simp: null_length_def)
  moreover have "frag_setup ip (Some (replicate (length l4) 0)) (l4' @ rest) M cnt"
    using r(1) setup_length [of "l4' @ rest" "l4 @ rest"] assms(2) by simp
  ultimately show ?thesis using v4_sentI [OF _ r(2)] by blast
qed

lemma v4_sentE:
  assumes "v4_sent proto n ip d"
  shows "\<not> m_isIPv6 ip" "length (v4_srcIP ip) = 4" "length (v4_dstIP ip) = 4"
    "ip_getPayloadLength ip = Inr (length d)" "length d \<le> 65535" "reassembled ip = d"
proof -
  obtain M cnt ipId f where r: "frag_setup ip (Some (replicate n 0)) d M cnt"
    "M mod 8 = 0 \<or> cnt = 1" "v4_frames ip proto ipId M cnt d f (m_packets ip)"
    using assms unfolding v4_sent_def by (elim exE conjE) (rule that)
  then show "\<not> m_isIPv6 ip" "length (v4_srcIP ip) = 4" "length (v4_dstIP ip) = 4" "length d \<le> 65535"
    by (auto simp: frag_setup_def)
  show "ip_getPayloadLength ip = Inr (length d)" using r by (rule v4_getPayloadLength)
  show "reassembled ip = d" using v4_frames_complete [OF r refl] by simp
qed

interpretation v4dg: datagram ip_compile v4_ready v4_sent v4_pseudo
proof (unfold_locales, goal_cases)
  case (1 l4 ip payload proto s)
  then show ?case by (rule v4_compile_sent)
next
  case (2 proto l4 ip rest l4')
  then show ?case by (rule v4_update_sent)
next
  case (3 proto n ip d header payload)
  then show ?case using v4_sentE [of proto n ip d]
    by (simp add: calcChecksum_def getSource4_def getDestination4_def v4_pseudo_def)
next
  case (4 proto n ip d k)
  then show ?case using v4_sentE [of proto n ip d] by (simp add: v4_pseudo_def ipv4_pseudo_header_def)
next
  case (5 ip qs proto k)
  then show ?case by (simp add: v4_pseudo_def)
next
  case (6 proto n ip d)
  then show ?case by (rule v4_sentE)
next
  case (7 proto n ip d)
  then show ?case by (rule v4_sentE)
qed

subsection \<open>IPv6 provides it\<close>

definition v6_ready :: "nat \<Rightarrow> cIPPacket \<Rightarrow> nat \<Rightarrow> bool" where
  "v6_ready n ip len \<longleftrightarrow> v6_setup ip n (replicate len 0) \<and> (\<exists>p f. m_packets ip = [p] \<and> holds p f
     \<and> 14 + length (f_tags f) + length (f_llc f) + ip_mtu ip \<le> packetMaxLength p)"

definition v6_sent :: "byte \<Rightarrow> nat \<Rightarrow> cIPPacket \<Rightarrow> byte list \<Rightarrow> bool" where
  "v6_sent proto n ip d \<longleftrightarrow> v6_setup ip n d \<and> (\<exists>q f. m_packets ip = [q]
     \<and> holds q (f\<lparr>f_payload := v6_header ip proto (length d) @ d\<rparr>))"

definition v6_pseudo :: "cIPPacket \<Rightarrow> byte \<Rightarrow> nat \<Rightarrow> byte list" where
  "v6_pseudo ip proto len = ipv6_pseudo_header (v6_srcIP ip) (v6_dstIP ip) proto (of_nat len)"

lemma v6_setup_length: "length d' = length d \<Longrightarrow> v6_setup ip n d' = v6_setup ip n d"
  by (simp add: v6_setup_def)

lemma v6_packets [simp]:
  "v6_setup (ip\<lparr>m_packets := qs\<rparr>) n d = v6_setup ip n d"
  "v6_header (ip\<lparr>m_packets := qs\<rparr>) proto k = v6_header ip proto k"
  by (simp_all add: v6_setup_def v6_header_def)

lemma v6_compile_sent:
  assumes "v6_ready (length l4) ip (length (l4 @ opt_bytes payload))"
  shows "\<exists>qs s'. ip_compile proto (Some l4) payload ip s = (Inr (ip\<lparr>m_packets := qs\<rparr>), s')
    \<and> v6_sent proto (length l4) (ip\<lparr>m_packets := qs\<rparr>) (l4 @ opt_bytes payload)"
proof -
  let ?d = "opt_bytes (Some l4) @ opt_bytes payload"
  obtain p f where r: "m_packets ip = [p]" "holds p f"
    "14 + length (f_tags f) + length (f_llc f) + ip_mtu ip \<le> packetMaxLength p"
    using assms unfolding v6_ready_def by blast
  have su: "v6_setup ip (null_length (Some l4)) ?d"
    using assms v6_setup_length [of ?d "replicate (length ?d) 0"]
    by (simp add: v6_ready_def opt_bytes_def null_length_def)
  from v6compile_frame [OF su r, of proto s] su show ?thesis
    by (auto simp: v6_sent_def ip_compile_def opt_bytes_def null_length_def v6_setup_def)
qed

lemma v6_sentE:
  assumes "v6_sent proto n ip d"
  shows "m_isIPv6 ip" "length (v6_srcIP ip) = 16" "length (v6_dstIP ip) = 16"
    "ip_getPayloadLength ip = Inr (length d)" "length d \<le> 65535" "reassembled ip = d"
proof -
  obtain q f where r: "m_packets ip = [q]" "holds q (f\<lparr>f_payload := v6_header ip proto (length d) @ d\<rparr>)"
    using assms unfolding v6_sent_def by blast
  show su: "m_isIPv6 ip" "length (v6_srcIP ip) = 16" "length (v6_dstIP ip) = 16" "length d \<le> 65535"
    using assms by (auto simp: v6_sent_def v6_setup_def)
  have ne: "0 < length d" using assms by (simp add: v6_sent_def v6_setup_def)
  show "reassembled ip = d"
    using r holds_getPayload [OF r(2)] su by (simp add: reassembled_def getHeaderLength_def)
  have "payloadLength q = 40 + length d" using r(2) su(2,3) by (simp add: holds_def)
  then show "ip_getPayloadLength ip = Inr (length d)"
    using r(1) su ne by (simp add: ip_getPayloadLength_def getHeaderLength_def)
qed

lemma v6_update_sent:
  assumes "v6_sent proto (length l4) ip (l4 @ rest)" and "length l4' = length l4"
  shows "\<exists>qs. updateL4Header l4' ip = Inr (ip\<lparr>m_packets := qs\<rparr>)
    \<and> v6_sent proto (length l4) (ip\<lparr>m_packets := qs\<rparr>) (l4' @ rest)"
proof -
  let ?H = "v6_header ip proto (length (l4 @ rest))"
  obtain q f where r: "m_packets ip = [q]" "holds q (f\<lparr>f_payload := ?H @ l4 @ rest\<rparr>)"
    using assms unfolding v6_sent_def by blast
  have su: "v6_setup ip (length l4) (l4 @ rest)" using assms(1) by (simp add: v6_sent_def)
  note fa = v6_sentE [OF assms(1)]
  have h: "length ?H = 40" using fa(2,3) by simp
  have ne: "0 < length (l4 @ rest)" using su unfolding v6_setup_def by blast
  have pl: "payloadLength q = 40 + length (l4 @ rest)" using r(2) h by (simp add: holds_def)
  have hl: "getHeaderLength ip = 40" using fa(1) by (simp add: getHeaderLength_def)
  have "length l4' < 2 ^ 62" using fa(5) assms(2) by simp
  from updatePayloadAt_holds [OF r(2) this, of 40] obtain q' where
    q': "updatePayloadAt 40 l4' q = Inr q'" "holds q' (f\<lparr>f_payload := ?H @ l4' @ rest\<rparr>)"
    using h assms(2) by auto
  have "updateL4Header l4' ip = Inr (ip\<lparr>m_packets := [q']\<rparr>)"
    using r(1) q'(1) pl ne by (auto simp: updateL4Header_def hl)
  moreover have "v6_setup ip (length l4) (l4' @ rest)"
    using su v6_setup_length [of "l4' @ rest" "l4 @ rest"] assms(2) by simp
  ultimately show ?thesis using q'(2) assms(2) by (auto simp: v6_sent_def)
qed

interpretation v6dg: datagram ip_compile v6_ready v6_sent v6_pseudo
proof (unfold_locales, goal_cases)
  case (1 l4 ip payload proto s)
  then show ?case by (rule v6_compile_sent)
next
  case (2 proto l4 ip rest l4')
  then show ?case by (rule v6_update_sent)
next
  case (3 proto n ip d header payload)
  then show ?case using v6_sentE [of proto n ip d]
    by (simp add: calcChecksum_def getSource6_def getDestination6_def v6_pseudo_def)
next
  case (4 proto n ip d k)
  then show ?case using v6_sentE [of proto n ip d] by (simp add: v6_pseudo_def ipv6_pseudo_header_def)
next
  case (5 ip qs proto k)
  then show ?case by (simp add: v6_pseudo_def)
next
  case (6 proto n ip d)
  then show ?case by (rule v6_sentE)
next
  case (7 proto n ip d)
  then show ?case by (rule v6_sentE)
qed

subsection \<open>UDP and TCP\<close>

text \<open>
  What the two layers agree on, for a header that is \<open>a\<close>, the checksum and \<open>b\<close>: the conclusion of
  \<open>send_sealed\<close>, with \<open>h\<close> the pseudo header.
\<close>

definition seals :: "byte \<Rightarrow> cIPPacket \<Rightarrow> byte list option \<Rightarrow> byte list \<Rightarrow> byte list \<Rightarrow> byte list \<Rightarrow> 'z env_scheme \<Rightarrow> bool" where
  "seals proto ip payload h a b s \<longleftrightarrow>
    (\<exists>ps s' c qs. ip_compile proto (Some (a @ [0, 0] @ b)) payload ip s = (Inr (ip\<lparr>m_packets := ps\<rparr>), s')
      \<and> calcChecksum proto (ip\<lparr>m_packets := ps\<rparr>) (a @ [0, 0] @ b) payload = Inr c
      \<and> updateL4Header (a @ mem16 c @ b) (ip\<lparr>m_packets := ps\<rparr>) = Inr (ip\<lparr>m_packets := qs\<rparr>)
      \<and> reassembled (ip\<lparr>m_packets := qs\<rparr>) = a @ mem16 c @ b @ opt_bytes payload
      \<and> csum_at (h @ a @ mem16 c @ b @ opt_bytes payload) = Inr 0)"

lemma v4_seals:
  assumes "v4_ready (length a + 2 + length b) ip (length a + 2 + length b + null_length payload)"
    and "even (length a)" and "even (length b)"
  shows "seals proto ip payload (v4_pseudo ip proto (length a + 2 + length b + null_length payload)) a b s"
  unfolding seals_def by (rule v4dg.send_sealed [OF assms])

lemma v6_seals:
  assumes "v6_ready (length a + 2 + length b) ip (length a + 2 + length b + null_length payload)"
    and "even (length a)" and "even (length b)"
  shows "seals proto ip payload (v6_pseudo ip proto (length a + 2 + length b + null_length payload)) a b s"
  unfolding seals_def by (rule v6dg.send_sealed [OF assms])

definition udp_prefix :: "udp_header_t \<Rightarrow> nat \<Rightarrow> byte list" where
  "udp_prefix h n = mem16 (udp_srcPort h) @ mem16 (udp_dstPort h) @ be16 (of_nat (8 + n))"

lemma length_udp_prefix [simp]: "length (udp_prefix h n) = 6"
  by (simp add: udp_prefix_def)

lemma udp_bytes_split:
  "udp_bytes (h\<lparr>udp_length := htons (of_nat (8 + n)), udp_checksum := c\<rparr>) = udp_prefix h n @ mem16 c @ []"
  by (simp add: udp_bytes_def udp_prefix_def mem16_htons)

lemma mem16_zero [simp]: "mem16 0 = [0, 0]"
  by (simp add: mem16_def)

lemma checksum_sent: "calcChecksum proto ip header payload = Inr c \<Longrightarrow> c \<noteq> 0"
  by (auto simp: calcChecksum_def nonzero_chksum_def bindE_Inr_iff split: if_splits)

lemma udp_compile_sealed:
  assumes "udp_checksum (udp_header u) = 0"
    and "seals PROTO_UDP (udp_ip u) payload h (udp_prefix (udp_header u) (null_length payload)) [] s"
  shows "\<exists>u' s' c. udp_compile payload u s = (Inr u', s') \<and> c \<noteq> 0
    \<and> reassembled (udp_ip u') = udp_prefix (udp_header u) (null_length payload) @ mem16 c @ opt_bytes payload
    \<and> csum_at (h @ reassembled (udp_ip u')) = Inr 0"
proof -
  let ?n = "null_length payload"
  let ?p = "udp_prefix (udp_header u) ?n" and ?h = "udp_header u\<lparr>udp_length := htons (of_nat (8 + ?n))\<rparr>"
  have b0: "udp_bytes ?h = ?p @ [0, 0] @ []"
    using udp_bytes_split [where h = "udp_header u" and n = ?n and c = 0] assms(1) by (cases u; cases "udp_header u") simp
  have bc: "udp_bytes (?h\<lparr>udp_checksum := c\<rparr>) = ?p @ mem16 c @ []" for c
    using udp_bytes_split [where h = "udp_header u" and n = ?n and c = c] by simp
  from assms(2) obtain ps s' c qs where
    "ip_compile PROTO_UDP (Some (?p @ [0, 0] @ [])) payload (udp_ip u) s = (Inr (udp_ip u\<lparr>m_packets := ps\<rparr>), s')"
    "calcChecksum PROTO_UDP (udp_ip u\<lparr>m_packets := ps\<rparr>) (?p @ [0, 0] @ []) payload = Inr c"
    "updateL4Header (?p @ mem16 c @ []) (udp_ip u\<lparr>m_packets := ps\<rparr>) = Inr (udp_ip u\<lparr>m_packets := qs\<rparr>)"
    and r: "reassembled (udp_ip u\<lparr>m_packets := qs\<rparr>) = ?p @ mem16 c @ [] @ opt_bytes payload"
    "csum_at (h @ ?p @ mem16 c @ [] @ opt_bytes payload) = Inr 0"
    unfolding seals_def by blast
  moreover from this(2) have "c \<noteq> 0" by (rule checksum_sent)
  moreover from calculation have "udp_compile payload u s = (Inr \<lparr>udp_ip = udp_ip u\<lparr>m_packets := qs\<rparr>,
      udp_header = ?h\<lparr>udp_checksum := c\<rparr>\<rparr>, s')"
    unfolding udp_compile_def Let_def b0 bc by (simp add: bindM_def)
  ultimately show ?thesis using r by auto
qed

definition tcp_prefix :: "tcp_header_t \<Rightarrow> byte list" where
  "tcp_prefix h = mem16 (tcp_srcPort h) @ mem16 (tcp_dstPort h) @ mem32 (seqNumber h)
     @ mem32 (ackNumber h) @ [dataOffset h, tcp_flags h] @ mem16 (window h)"

lemma length_tcp_prefix [simp]: "length (tcp_prefix h) = 16"
  by (simp add: tcp_prefix_def)

lemma tcp_bytes_split: "tcp_bytes (h\<lparr>tcp_checksum := c\<rparr>) = tcp_prefix h @ mem16 c @ mem16 (urgentPtr h)"
  by (simp add: tcp_bytes_def tcp_prefix_def)

lemma ip_compile_sequence: "preserves tcp_sequence (ip_compile proto l4 payload ip)"
  unfolding ip_compile_def v4compile_def v6compile_def Let_def
  by (intro preserves_intros) (simp add: preserves_modifyM)

lemma tcp_compile_sealed:
  assumes "tcp_checksum (tcp_header t) = 0"
    and "seals PROTO_TCP (tcp_ip t) payload h (tcp_prefix (tcp_header t)) (mem16 (urgentPtr (tcp_header t))) s"
  shows "\<exists>t' s' c. tcp_compile payload True t s = (Inr t', s')
    \<and> reassembled (tcp_ip t') = tcp_prefix (tcp_header t) @ mem16 c @ mem16 (urgentPtr (tcp_header t)) @ opt_bytes payload
    \<and> csum_at (h @ reassembled (tcp_ip t')) = Inr 0
    \<and> tcp_sequence s' = tcp_sequence s + of_nat (null_length payload) + of_bool (isSyn (tcp_header t))"
proof -
  let ?p = "tcp_prefix (tcp_header t)" and ?u = "mem16 (urgentPtr (tcp_header t))"
  have b0: "tcp_bytes (tcp_header t) = ?p @ [0, 0] @ ?u"
    using tcp_bytes_split [where h = "tcp_header t" and c = 0] assms(1) by (cases t; cases "tcp_header t") simp
  from assms(2) obtain ps s' c qs where
    m: "ip_compile PROTO_TCP (Some (?p @ [0, 0] @ ?u)) payload (tcp_ip t) s = (Inr (tcp_ip t\<lparr>m_packets := ps\<rparr>), s')"
    "calcChecksum PROTO_TCP (tcp_ip t\<lparr>m_packets := ps\<rparr>) (?p @ [0, 0] @ ?u) payload = Inr c"
    "updateL4Header (?p @ mem16 c @ ?u) (tcp_ip t\<lparr>m_packets := ps\<rparr>) = Inr (tcp_ip t\<lparr>m_packets := qs\<rparr>)"
    and r: "reassembled (tcp_ip t\<lparr>m_packets := qs\<rparr>) = ?p @ mem16 c @ ?u @ opt_bytes payload"
    "csum_at (h @ ?p @ mem16 c @ ?u @ opt_bytes payload) = Inr 0"
    unfolding seals_def by blast
  have "tcp_sequence s' = tcp_sequence s" using ip_compile_sequence m(1) by (rule preserves_apply)
  with m have "tcp_compile payload True t s = (Inr \<lparr>tcp_ip = tcp_ip t\<lparr>m_packets := qs\<rparr>,
      tcp_header = tcp_header t\<lparr>tcp_checksum := c\<rparr>\<rparr>,
      s'\<lparr>tcp_sequence := tcp_sequence s + (of_nat (null_length payload) + of_bool (isSyn (tcp_header t)))\<rparr>)"
    unfolding tcp_compile_def b0 by (simp add: bindM_def tcp_bytes_split isSyn_def)
  with r show ?thesis by (auto simp: add.assoc)
qed

end
