(* ===== verification/ParameterFacts.thy ===== *)
theory ParameterFacts
  imports Parameters
begin

section \<open>What a parameter list promises\<close>

text \<open>
  Lemmas on src/compiler/parameterlist.cpp: the shape of a parsed list, the lists the parser
  reads back from a printed one, the bounds of the integer accessors, and the search.
\<close>

subsection \<open>The shape of a parsed list\<close>

definition key_char :: "char \<Rightarrow> bool" where
  "key_char c = accepted True True (Some ''-'') c"

definition param_ok :: "cParameter \<Rightarrow> bool" where
  "param_ok p \<longleftrightarrow> 0 < parLen p \<and> parLen p \<le> length (parameter p) \<and> isalpha (hd (parameter p))
     \<and> (\<forall>c\<in>set (take (parLen p) (parameter p)). key_char c)
     \<and> 0 < valLen p \<and> valLen p \<le> length (par_value p)
     \<and> (char_at (par_value p) 0 = CHR 0x22 \<or> char_at (par_value p) 0 = CHR ''<'' \<longrightarrow> 2 \<le> valLen p)
     \<and> par_data p = None"

text \<open>The invariant of the list: positions are the indices, and there is a flag for each.\<close>

definition plist_ok :: "cParameter list \<Rightarrow> bool" where
  "plist_ok l \<longleftrightarrow> (\<forall>i<length l. par_index (l ! i) = int i)"

lemma plist_ok_Nil [simp]: "plist_ok []"
  by (simp add: plist_ok_def)

lemma plist_ok_snoc: "plist_ok l \<Longrightarrow> par_index p = int (length l) \<Longrightarrow> plist_ok (l @ [p])"
  by (auto simp: plist_ok_def nth_append less_Suc_eq)

lemma plist_ok_update: "plist_ok l \<Longrightarrow> par_index p = par_index (l ! n) \<Longrightarrow> plist_ok (l[n := p])"
  by (cases "n < length l") (auto simp: plist_ok_def nth_list_update)

lemma take_prefix:
  assumes "p = t @ q"
  shows "take (length p - length q) p = t"
  using assms by simp

lemma key_taken:
  assumes "t \<noteq> []" and "isalpha (hd t)"
  shows "0 < length t - length (nextKeyEnd t)" and "length t - length (nextKeyEnd t) \<le> length t"
    and "\<forall>c\<in>set (take (length t - length (nextKeyEnd t)) t). key_char c"
proof -
  obtain u where u: "t = u @ nextKeyEnd t" "\<forall>c\<in>set u. key_char c"
    using nextTokenEnd_suffix [of t True True "Some ''-''"] unfolding nextKeyEnd_def key_char_def by blast
  show "0 < length t - length (nextKeyEnd t)" using nextKeyEnd_shorter [OF assms] by simp
  show "length t - length (nextKeyEnd t) \<le> length t" by simp
  show "\<forall>c\<in>set (take (length t - length (nextKeyEnd t)) t). key_char c"
    using u(2) take_prefix [OF u(1)] by simp
qed

lemma value_end_quoted:
  assumes "value_end t = Inr q" and "char_at t 0 = CHR 0x22 \<or> char_at t 0 = CHR ''<''"
  shows "length q + 2 \<le> length t"
proof -
  obtain P where P: "q = drop 1 (dropWhile P (drop 1 t))" "dropWhile P (drop 1 t) \<noteq> []"
    using assms by (auto simp: value_end_def Let_def split: if_splits)
  have "0 < length (dropWhile P (drop 1 t))" using P(2) by (rule length_greater_0_conv [THEN iffD2])
  moreover have "length (dropWhile P (drop 1 t)) \<le> length t - 1"
    using length_dropWhile_le [of P "drop 1 t"] by simp
  moreover have "length q = length (dropWhile P (drop 1 t)) - 1" using P(1) by simp
  ultimately show ?thesis by linarith
qed

lemma parse_value_ok:
  assumes "parse_value p = Inr (q, v, n)"
  shows "0 < n \<and> n \<le> length v \<and> (char_at v 0 = CHR 0x22 \<or> char_at v 0 = CHR ''<'' \<longrightarrow> 2 \<le> n)"
proof (cases "isOneOf (char_at p 0) '',)''")
  case True
  then have "v = BOOLVALUE" "n = 2" using assms by (simp_all add: parse_value_def del: isOneOf.simps)
  then show ?thesis by (simp add: BOOLVALUE_def)
next
  case False
  with assms have t: "nextValueStart (drop 1 p) = Some v" "value_end v = Inr q" "n = length v - length q"
    by (auto simp: parse_value_def split: if_splits option.splits sum.splits)
  have "length q < length v" using t(2) nextValueStart_Some(2,3) [OF t(1)] by (rule value_end_shorter)
  moreover have "char_at v 0 = CHR 0x22 \<or> char_at v 0 = CHR ''<'' \<Longrightarrow> length q + 2 \<le> length v"
    using t(2) by (rule value_end_quoted)
  ultimately show ?thesis using t(3) by auto
qed

lemma parse_one_ok:
  assumes "parse_one idx p = (r, Some par)"
  shows "param_ok par \<and> par_index par = int idx"
proof -
  obtain token where t: "nextKeyStart p = Some token"
    using assms by (auto simp: parse_one_def split: option.splits)
  obtain q v n where pv: "parse_value (skipWhitespaces (nextKeyEnd token)) = Inr (q, v, n)"
    and par: "par = \<lparr>parameter = token, parLen = length token - length (nextKeyEnd token),
        par_value = v, valLen = n, par_index = int idx, par_data = None\<rparr>"
    using assms t by (auto simp: parse_one_def Let_def split: sum.splits if_splits prod.splits)
  note k = nextKeyStart_Some(2,3) [OF t]
  show ?thesis
    using key_taken [OF k] k parse_value_ok [OF pv] by (simp add: param_ok_def par)
qed

lemma parse_loop_ok:
  assumes "plist_ok l" and "\<forall>p\<in>set l. param_ok p" and "parse_loop t l = (l', r)"
  shows "plist_ok l' \<and> (\<forall>p\<in>set l'. param_ok p)"
  using assms
proof (induction t l rule: parse_loop.induct)
  case (1 t l)
  obtain r1 v where one: "parse_one (length l) t = (r1, v)" by fastforce
  let ?l = "l @ (case v of None \<Rightarrow> [] | Some v \<Rightarrow> [v])"
  have l: "plist_ok ?l" "\<forall>p\<in>set ?l. param_ok p"
    using "1.prems"(1,2) one parse_one_ok plist_ok_snoc by (cases v; fastforce)+
  consider "char_at t 0 = NUL \<or> char_at t 0 = CHR '')''" | e where "r1 = Inl e"
      "\<not> (char_at t 0 = NUL \<or> char_at t 0 = CHR '')'')"
    | q where "r1 = Inr q" "\<not> (char_at t 0 = NUL \<or> char_at t 0 = CHR '')'')"
    by (cases r1) auto
  then show ?case
  proof cases
    case 1
    then show ?thesis using "1.prems" by (subst (asm) parse_loop.simps) simp
  next
    case 2
    then show ?thesis using "1.prems"(3) one l by (subst (asm) parse_loop.simps) simp
  next
    case 3
    then show ?thesis
      using "1.IH" [OF 3(2) one [symmetric] 3(1) l] "1.prems"(3) one
      by (subst (asm) (2) parse_loop.simps) simp
  qed
qed

lemma parseParameters_ok:
  assumes "parseParameters t g = Inr (l, err)"
  shows "plist_ok l" and "\<forall>p\<in>set l. param_ok p"
proof -
  obtain r where "parse_loop (drop 1 t) [] = (l, r)"
    using assms by (auto simp: parseParameters_def bindE_Inr_iff split: prod.splits sum.splits if_splits)
  from parse_loop_ok [OF _ _ this] show "plist_ok l" "\<forall>p\<in>set l. param_ok p" by simp_all
qed

subsection \<open>Reading back a printed list\<close>

text \<open>
  The abstract syntax of a parameter list: a key, white space around the equals sign and the
  value, and one of the four kinds of value. \<open>params_text\<close> prints a list the way a user writes it.
\<close>

datatype src_value = NoValue | Plain string | Quoted string | Angle string

record src_param =
  before_key :: string
  key :: string
  after_key :: string
  before_value :: string
  src_val :: src_value
  after_value :: string

fun value_text :: "src_value \<Rightarrow> string" where
  "value_text NoValue = []"
| "value_text (Plain v) = v"
| "value_text (Quoted v) = CHR 0x22 # v @ [CHR 0x22]"
| "value_text (Angle v) = CHR ''<'' # v @ ''>''"

text \<open>What the parser stores as the value.\<close>

fun stored_value :: "src_value \<Rightarrow> string" where
  "stored_value NoValue = BOOLVALUE"
| "stored_value v = value_text v"

definition param_text :: "src_param \<Rightarrow> string" where
  "param_text p = before_key p @ key p @ after_key p
     @ (if src_val p = NoValue then [] else ''='' @ before_value p @ value_text (src_val p) @ after_value p)"

fun params_text :: "src_param list \<Rightarrow> string" where
  "params_text [] = []"
| "params_text [p] = param_text p"
| "params_text (p # ps) = param_text p @ '','' @ params_text ps"

definition is_ws :: "string \<Rightarrow> bool" where
  "is_ws w \<longleftrightarrow> (\<forall>c\<in>set w. isspace c)"

definition value_char :: "char \<Rightarrow> bool" where
  "value_char c = accepted True True (Some ''.:*[-]'') c"

fun value_wf :: "src_value \<Rightarrow> bool" where
  "value_wf NoValue = True"
| "value_wf (Plain v) = (v \<noteq> [] \<and> (isalpha (hd v) \<or> isdigit (hd v) \<or> hd v = CHR ''*'') \<and> (\<forall>c\<in>set v. value_char c))"
| "value_wf (Quoted v) = (CHR 0x22 \<notin> set v)"
| "value_wf (Angle v) = (CHR ''>'' \<notin> set v)"

definition src_wf :: "src_param \<Rightarrow> bool" where
  "src_wf p \<longleftrightarrow> is_ws (before_key p) \<and> is_ws (after_key p) \<and> is_ws (before_value p) \<and> is_ws (after_value p)
     \<and> key p \<noteq> [] \<and> isalpha (hd (key p)) \<and> (\<forall>c\<in>set (key p). key_char c) \<and> value_wf (src_val p)"

text \<open>The stored parameter denotes the printed one.\<close>

definition denotes :: "cParameter \<Rightarrow> src_param \<Rightarrow> bool" where
  "denotes par p \<longleftrightarrow> parLen par = length (key p) \<and> take (parLen par) (parameter par) = key p
     \<and> valLen par = length (stored_value (src_val p))
     \<and> take (valLen par) (par_value par) = stored_value (src_val p) \<and> par_data par = None"

lemma code_of_punctuation [simp]:
  "code_of CHR '','' = 44" "code_of CHR '')'' = 41" "code_of CHR ''='' = 61" "code_of CHR ''-'' = 45"
  "code_of CHR ''.'' = 46" "code_of CHR '':'' = 58" "code_of CHR ''*'' = 42" "code_of CHR ''['' = 91"
  "code_of CHR '']'' = 93" "code_of CHR ''<'' = 60" "code_of CHR 0x22 = 34"
  by (simp_all add: code_of_def)

lemma char_class:
  "isalpha c \<Longrightarrow> \<not> isspace c"
  "isdigit c \<Longrightarrow> \<not> isspace c"
  "isspace c \<Longrightarrow> \<not> accepted True True (Some ''-'') c"
  "isspace c \<Longrightarrow> \<not> accepted True True (Some ''.:*[-]'') c"
  unfolding isalpha_def isdigit_def isspace_def accepted_def isOneOf_iff option.case
  by (linarith, linarith, auto)

lemma sep_class:
  "c \<in> {CHR '','', CHR '')'', CHR ''=''} \<Longrightarrow> \<not> isspace c"
  "c \<in> {CHR '','', CHR '')'', CHR ''=''} \<Longrightarrow> \<not> accepted True True (Some ''-'') c"
  "c \<in> {CHR '','', CHR '')'', CHR ''=''} \<Longrightarrow> \<not> accepted True True (Some ''.:*[-]'') c"
  unfolding isalpha_def isdigit_def isspace_def accepted_def isOneOf_iff option.case by auto

lemma skip_ws: "is_ws w \<Longrightarrow> \<not> isspace c \<Longrightarrow> skipWhitespaces (w @ c # r) = c # r"
  by (simp add: skipWhitespaces_def is_ws_def dropWhile_append)

lemma tokenEnd_at:
  assumes "\<forall>c\<in>set t. accepted a n acc c" and "\<not> accepted a n acc c"
  shows "nextTokenEnd (t @ c # r) a n acc = c # r"
  using assms by (simp add: nextTokenEnd_append)

text \<open>After a token there is white space or a separator.\<close>

definition ends_token :: "string \<Rightarrow> bool" where
  "ends_token r \<longleftrightarrow> r \<noteq> [] \<and> (isspace (hd r) \<or> hd r \<in> {CHR '','', CHR '')'', CHR ''=''})"

lemma ends_token_ws: "is_ws w \<Longrightarrow> c \<in> {CHR '','', CHR '')'', CHR ''=''} \<Longrightarrow> ends_token (w @ c # r)"
  by (cases w) (auto simp: ends_token_def is_ws_def)

lemma keyEnd_at: "\<forall>c\<in>set k. key_char c \<Longrightarrow> ends_token r \<Longrightarrow> nextKeyEnd (k @ r) = r"
  unfolding nextKeyEnd_def key_char_def
  by (cases r) (auto simp: ends_token_def intro!: tokenEnd_at simp: char_class(3) sep_class(2))

lemma valueEnd_at: "\<forall>c\<in>set v. value_char c \<Longrightarrow> ends_token r \<Longrightarrow> nextValueEnd (v @ r) = r"
  unfolding nextValueEnd_def value_char_def
  by (cases r) (auto simp: ends_token_def intro!: tokenEnd_at simp: char_class(4) sep_class(3))

lemma keyStart_at:
  assumes "is_ws w" and "k \<noteq> []" and "isalpha (hd k)"
  shows "nextKeyStart (w @ k @ r) = Some (k @ r)"
proof -
  obtain c k' where k: "k = c # k'" "isalpha c" using assms by (cases k) auto
  then have "skipWhitespaces (w @ k @ r) = k @ r"
    using skip_ws [OF assms(1), of c "k' @ r"] char_class(1) by simp
  then show ?thesis using k by (simp add: nextKeyStart_def nextTokenStart_def accepted_def Let_def)
qed

lemma valueStart_at:
  assumes "is_ws w" and "value_wf v" and "v \<noteq> NoValue"
  shows "nextValueStart (w @ value_text v @ r) = Some (value_text v @ r)"
proof -
  obtain c t where t: "value_text v = c # t"
    and c: "isalpha c \<or> isdigit c \<or> c \<in> {CHR 0x22, CHR ''*'', CHR ''<''}"
    using assms(2,3) by (cases v; cases "value_text v") auto
  then have "\<not> isspace c" using char_class(1,2) by (auto simp: isspace_def)
  then have "skipWhitespaces (w @ value_text v @ r) = value_text v @ r"
    using skip_ws [OF assms(1), of c "t @ r"] t by simp
  then show ?thesis
    using t c by (auto simp: nextValueStart_def nextTokenStart_def accepted_def Let_def)
qed

lemma dropWhile_until: "c \<notin> set v \<Longrightarrow> dropWhile (\<lambda>d. d \<noteq> c) (v @ c # r) = c # r"
  by (induction v) auto

lemma value_end_at:
  assumes "value_wf v" and "v \<noteq> NoValue" and "ends_token r"
  shows "value_end (value_text v @ r) = Inr r"
proof (cases v)
  case (Plain t)
  then obtain c u where t: "t = c # u" "isalpha c \<or> isdigit c \<or> c = CHR ''*''"
    using assms(1) by (cases t) auto
  then have "c \<noteq> CHR 0x22" "c \<noteq> CHR ''<''" by (auto simp: isalpha_def isdigit_def)
  then show ?thesis
    using valueEnd_at [of t r] assms Plain t by (simp add: value_end_def Let_def)
qed (use assms in \<open>simp_all add: value_end_def Let_def dropWhile_until\<close>)

lemma parse_one_text:
  assumes wf: "src_wf p" and sep: "c \<in> {CHR '','', CHR '')''}"
  shows "\<exists>par. parse_one idx (param_text p @ c # r) = (Inr (if c = CHR '','' then r else c # r), Some par)
    \<and> denotes par p \<and> par_index par = int idx"
proof -
  note w = wf [unfolded src_wf_def]
  define rest where "rest = (if src_val p = NoValue then [] else
      ''='' @ before_value p @ value_text (src_val p) @ after_value p) @ c # r"
  have shown: "param_text p @ c # r = before_key p @ key p @ after_key p @ rest"
    by (simp add: param_text_def rest_def)
  have start: "nextKeyStart (param_text p @ c # r) = Some (key p @ after_key p @ rest)"
    unfolding shown using w by (intro keyStart_at) auto
  obtain d rest' where d: "rest = d # rest'" "d \<in> {CHR '','', CHR '')'', CHR ''=''}"
    using sep by (cases "src_val p = NoValue") (auto simp: rest_def)
  have ke: "nextKeyEnd (key p @ after_key p @ rest) = after_key p @ rest"
    using w d by (intro keyEnd_at) (auto intro!: ends_token_ws)
  have sk: "skipWhitespaces (after_key p @ rest) = rest"
    using w d sep_class(1) by (auto intro!: skip_ws)
  have pv: "\<exists>q v. parse_value rest = Inr (q, v, length (stored_value (src_val p)))
      \<and> take (length (stored_value (src_val p))) v = stored_value (src_val p)
      \<and> skipWhitespaces q = c # r"
  proof (cases "src_val p = NoValue")
    case True
    then show ?thesis
      using sep sep_class(1) by (auto simp: rest_def parse_value_def BOOLVALUE_def skipWhitespaces_def)
  next
    case False
    let ?t = "value_text (src_val p)" and ?r = "after_value p @ c # r"
    have et: "ends_token ?r" using w sep by (auto intro!: ends_token_ws)
    have "nextValueStart (before_value p @ ?t @ ?r) = Some (?t @ ?r)"
      using w False by (intro valueStart_at) auto
    moreover have "value_end (?t @ ?r) = Inr ?r"
      using w False et by (intro value_end_at) auto
    ultimately have "parse_value rest = Inr (?r, ?t @ ?r, length ?t)"
      using False by (simp add: parse_value_def rest_def)
    moreover have "stored_value (src_val p) = ?t" using False by (cases "src_val p") auto
    moreover have "skipWhitespaces ?r = c # r" using w sep sep_class(1) by (auto intro!: skip_ws)
    ultimately show ?thesis by auto
  qed
  then obtain q v where q: "parse_value rest = Inr (q, v, length (stored_value (src_val p)))"
    "take (length (stored_value (src_val p))) v = stored_value (src_val p)" "skipWhitespaces q = c # r"
    by blast
  have one: "isOneOf c '',)''" using sep by (auto simp: isOneOf_iff)
  show ?thesis
    unfolding parse_one_def start option.case Let_def ke sk q sum.case prod.case
    using sep q(2) by (auto simp: denotes_def)
qed

lemma param_text_start:
  assumes "src_wf p"
  shows "char_at (param_text p @ r) 0 \<noteq> NUL" and "char_at (param_text p @ r) 0 \<noteq> CHR '')''"
proof -
  have "\<exists>c u. param_text p = c # u \<and> (isspace c \<or> isalpha c)"
    using assms by (cases "before_key p"; cases "key p") (auto simp: param_text_def src_wf_def is_ws_def)
  then obtain c u where c: "param_text p = c # u" "isspace c \<or> isalpha c" by blast
  have "code_of NUL = 0" by (simp add: NUL_def code_of_def)
  with c(2) have "c \<noteq> NUL" "c \<noteq> CHR '')''" by (auto simp: isspace_def isalpha_def)
  then show "char_at (param_text p @ r) 0 \<noteq> NUL" "char_at (param_text p @ r) 0 \<noteq> CHR '')''"
    using c(1) by simp_all
qed

lemma parse_loop_end: "parse_loop (CHR '')'' # r) l = (l, Inr (CHR '')'' # r))"
  by (subst parse_loop.simps) simp

lemma parse_loop_param:
  assumes "src_wf p" and "c \<in> {CHR '','', CHR '')''}"
  obtains par where "denotes par p"
    and "parse_loop (param_text p @ c # r) l = parse_loop (if c = CHR '','' then r else c # r) (l @ [par])"
proof -
  obtain par where par: "parse_one (length l) (param_text p @ c # r)
      = (Inr (if c = CHR '','' then r else c # r), Some par)" "denotes par p"
    using parse_one_text [OF assms] by blast
  have "parse_loop (param_text p @ c # r) l = parse_loop (if c = CHR '','' then r else c # r) (l @ [par])"
    using param_text_start [OF assms(1), of "c # r"] par(1)
    by (subst parse_loop.simps) (simp only: if_False sum.case prod.case option.case disj_not1 simp_thms)
  with par(2) show thesis by (rule that)
qed

lemma parse_loop_text:
  assumes "\<forall>p\<in>set ps. src_wf p"
  shows "\<exists>pars. parse_loop (params_text ps @ CHR '')'' # r) l = (l @ pars, Inr (CHR '')'' # r))
    \<and> list_all2 denotes pars ps"
  using assms
proof (induction ps arbitrary: l rule: params_text.induct)
  case 1
  then show ?case by (simp add: parse_loop_end)
next
  case (2 p)
  then obtain par where "denotes par p"
    "parse_loop (param_text p @ CHR '')'' # r) l = parse_loop (CHR '')'' # r) (l @ [par])"
    using parse_loop_param [of p "CHR '')''" r l] by auto
  then show ?case by (intro exI [of _ "[par]"]) (simp add: parse_loop_end)
next
  case (3 p q ps)
  let ?rest = "params_text (q # ps) @ CHR '')'' # r"
  obtain par where par: "denotes par p"
    "parse_loop (param_text p @ CHR '','' # ?rest) l = parse_loop ?rest (l @ [par])"
    using "3.prems" parse_loop_param [of p "CHR '',''" ?rest l] by auto
  obtain pars where "parse_loop ?rest (l @ [par]) = ((l @ [par]) @ pars, Inr (CHR '')'' # r))"
    "list_all2 denotes pars (q # ps)"
    using "3.IH" [of "l @ [par]"] "3.prems" by auto
  with par show ?case by (intro exI [of _ "par # pars"]) simp
qed

lemma parseParameters_text:
  assumes "\<forall>p\<in>set ps. src_wf p" and "g \<or> is_ws r"
  shows "\<exists>l. parseParameters (''('' @ params_text ps @ '')'' @ r) g = Inr (l, None)
    \<and> list_all2 denotes l ps"
proof -
  obtain l where l: "parse_loop (params_text ps @ CHR '')'' # r) [] = (l, Inr (CHR '')'' # r))"
    "list_all2 denotes l ps"
    using parse_loop_text [OF assms(1), of r "[]"] by auto
  have "skipWhitespaces r = []" if "is_ws r"
    using that by (simp add: skipWhitespaces_def is_ws_def)
  then have "\<not> (\<not> g \<and> skipWhitespaces (drop 1 (CHR '')'' # r)) \<noteq> [])" using assms(2) by auto
  then show ?thesis using l by (simp add: parseParameters_def)
qed

end
