(* ===== verification/SendQueue.thy ===== *)
theory SendQueue
  imports Sleep Ethernet
begin

section \<open>The send queues of the Windows interface\<close>

text \<open>
  src/os/win32/signal.cpp and the first half of interface.cpp: \<open>cPcapSendQueue\<close>, a queue of WinPcap with its counters, and
  \<open>cJob\<close>, which hands queues filled by the main thread to a worker thread that transmits them. The
  functions of WinPcap are parameters (the record \<open>winpcap\<close>), as is the performance counter of the
  system. A \<open>pcap_send_queue\<close> is its fields \<open>maxlen\<close> and \<open>len\<close> and the packets in the first \<open>len\<close> bytes
  of its buffer, so \<open>len = 0\<close> empties it. The \<open>long\<close> fields of a \<open>struct timeval\<close> have 32 bits on Windows.

  The two threads share a \<open>cJob\<close>; a semaphore is its count, an event is set or not. What a thread does
  between two waits is one action. A thread that uses a queue for longer, the main thread while it fills
  one and the worker while WinPcap transmits one, is in the state \<open>Filling\<close> or \<open>Sending\<close> meanwhile, so an
  action of the other thread can come in between.
\<close>

record win_timeval =
  wtv_sec :: u32
  wtv_usec :: u32

record win_pkthdr =
  hdr_caplen :: u32
  hdr_len :: u32
  hdr_ts :: win_timeval

type_synonym queued_packet = "win_pkthdr \<times> byte list"

definition sizeof_pkthdr :: nat where
  "sizeof_pkthdr = 16"

definition MAX_DOUBLE_TAGGED_PACKET :: nat where
  "MAX_DOUBLE_TAGGED_PACKET = 6 + 6 + 2 + MAX_ETHERNET_PAYLOAD + 4 + 4"

record pcap_send_queue =
  sq_maxlen :: u32
  sq_len :: u32
  sq_packets :: "queued_packet list"

record winpcap =
  sendqueue_alloc :: "u32 \<Rightarrow> pcap_send_queue option"
  sendqueue_queue :: "pcap_send_queue \<Rightarrow> queued_packet \<Rightarrow> int \<times> pcap_send_queue"
  sendqueue_transmit :: "nat \<Rightarrow> bool \<Rightarrow> pcap_send_queue \<Rightarrow> u32"
  pcap_sendpacket :: "nat \<Rightarrow> byte list \<Rightarrow> int"
  pcap_opens :: "string \<Rightarrow> bool"
  performance_counter :: clock
  performance_frequency :: nat

subsection \<open>cPcapSendQueue\<close>

text \<open>\<open>pcapQ\<close> is null in no object: the constructor throws when the allocation fails.\<close>

record cPcapSendQueue =
  bytesQueued :: u64
  packetsQueued :: u64
  packetBytesQueued :: u64
  pcapQ :: pcap_send_queue

definition new_cPcapSendQueue :: "winpcap \<Rightarrow> u64 \<Rightarrow> cPcapSendQueue res" where
  "new_cPcapSendQueue lib qlen = (case sendqueue_alloc lib (ucast qlen) of
     None \<Rightarrow> Inl (RuntimeError ''std::bad_alloc'')
   | Some q \<Rightarrow> Inr \<lparr>bytesQueued = 0, packetsQueued = 0, packetBytesQueued = 0, pcapQ = q\<rparr>)"

definition sq_reset :: "cPcapSendQueue \<Rightarrow> cPcapSendQueue" where
  "sq_reset q = q\<lparr>bytesQueued := 0, packetsQueued := 0, pcapQ := (pcapQ q)\<lparr>sq_len := 0, sq_packets := []\<rparr>\<rparr>"

definition sq_add :: "winpcap \<Rightarrow> win_pkthdr \<Rightarrow> byte list \<Rightarrow> (cPcapSendQueue, unit) M" where
  "sq_add lib h p q = (case sendqueue_queue lib (pcapQ q) (h, p) of (failed, pq) \<Rightarrow>
     if failed \<noteq> 0 then (Inl (Bug ''pcap_sendqueue_queue (pcapQ, pkt_header, pkt_data)''), q\<lparr>pcapQ := pq\<rparr>)
     else (Inr (), q\<lparr>bytesQueued := bytesQueued q + (ucast (hdr_caplen h) + of_nat sizeof_pkthdr),
                    packetsQueued := packetsQueued q + 1,
                    packetBytesQueued := packetBytesQueued q + ucast (hdr_caplen h), pcapQ := pq\<rparr>))"

text \<open>\<open>sent\<close> is what \<open>pcap_sendqueue_transmit\<close> returns.\<close>

definition sq_flush :: "u32 \<Rightarrow> cPcapSendQueue \<Rightarrow> bool \<times> cPcapSendQueue" where
  "sq_flush sent q = (ucast (bytesQueued q) = sent, sq_reset q)"

subsection \<open>cSignal\<close>

text \<open>
  src/os/win32/signal.cpp. \<open>sigintEvent\<close> is None before its first use, then whether it is set;
  \<open>win_callback\<close> is how often the callback was called, when there is one.
\<close>

record winSignal =
  sigintEvent :: "bool option"
  win_gSigIntStatus :: int
  win_callback :: "nat option"

definition CTRL_C_EVENT :: u32 where
  "CTRL_C_EVENT = 0"

definition signalHandler :: "u32 \<Rightarrow> winSignal \<Rightarrow> bool \<times> winSignal" where
  "signalHandler dwType g =
     (if dwType = CTRL_C_EVENT
      then (True, g\<lparr>sigintEvent := map_option (\<lambda>_. True) (sigintEvent g), win_gSigIntStatus := win_gSigIntStatus g + 1,
                   win_callback := map_option Suc (win_callback g)\<rparr>)
      else (False, g))"

definition win_sigintSignalled :: "winSignal \<Rightarrow> bool" where
  "win_sigintSignalled g = (win_gSigIntStatus g \<noteq> 0)"

definition sigintGetEventHandle :: "winSignal \<Rightarrow> winSignal" where
  "sigintGetEventHandle g = (case sigintEvent g of Some _ \<Rightarrow> g | None \<Rightarrow> g\<lparr>sigintEvent := Some False\<rparr>)"

definition win_sigintSetCallback :: "winSignal \<Rightarrow> winSignal" where
  "win_sigintSetCallback g = g\<lparr>win_callback := Some 0\<rparr>"

subsection \<open>cJob\<close>

datatype main_thread = Filling | Waiting | Joining | Joined | Failed error
datatype worker_thread = Idle | Sending u64 u64 | Finished | Killed

text \<open>
  The members of a \<open>cJob\<close> and of the interface it writes to, then the number of Ctrl-C events so far, the states of
  the threads, the local variable \<open>first\<close> of the worker, the number of readings of the performance
  counter and the packets of each transmission with its result. \<open>tStart\<close> is None until it is set.
\<close>

record cJob =
  allQueues :: "cPcapSendQueue list"
  currSendQueueIn :: nat
  currSendQueueOut :: nat
  semSpaceAvail :: nat
  semDataAvail :: nat
  sigEvent :: bool
  termEvent :: bool
  job_synchronized :: bool
  pcapMaxQueueSize :: u64
  job_finished :: bool
  job_sentPackets :: u64
  job_sentBytes :: u64
  job_duration :: "double res"
  job_tStart :: "nat option"
  interrupts :: nat
  main_thread :: main_thread
  worker_thread :: worker_thread
  worker_first :: bool
  k_counter :: nat
  transmits :: "(queued_packet list \<times> u32) list"

definition MAX_SEND_QUEUES :: nat where
  "MAX_SEND_QUEUES = 3"

definition ReleaseSemaphore :: "nat \<Rightarrow> nat" where
  "ReleaseSemaphore n = (if n < MAX_SEND_QUEUES then n + 1 else n)"

definition wholeNeededMemory :: "u64 \<Rightarrow> u64 \<Rightarrow> u64 \<Rightarrow> u64" where
  "wholeNeededMemory linkspeed packetCnt totalBytes =
     (if packetCnt > 0 then packetCnt * of_nat sizeof_pkthdr + totalBytes else linkspeed div 8)"

definition new_queues :: "winpcap \<Rightarrow> u64 \<Rightarrow> u64 \<Rightarrow> cPcapSendQueue list res" where
  "new_queues lib maxQueueSize needed =
     (if needed \<ge> maxQueueSize then mapE (\<lambda>n. new_cPcapSendQueue lib maxQueueSize) [0..<MAX_SEND_QUEUES]
      else bindE (new_cPcapSendQueue lib needed) (\<lambda>q. Inr [q]))"

definition new_cJob :: "winpcap \<Rightarrow> nat \<Rightarrow> winSignal \<Rightarrow> u64 \<Rightarrow> u64 \<Rightarrow> bool \<Rightarrow> u64 \<Rightarrow> cJob res" where
  "new_cJob lib k g packetCnt totalBytes sync linkspeed =
     bindE (new_queues lib (linkspeed div 8) (wholeNeededMemory linkspeed packetCnt totalBytes)) (\<lambda>queues.
     Inr \<lparr>allQueues = queues, currSendQueueIn = 0, currSendQueueOut = 0, semSpaceAvail = MAX_SEND_QUEUES - 1,
       semDataAvail = 0, sigEvent = (sigintEvent (sigintGetEventHandle g) = Some True),
       termEvent = False, job_synchronized = sync,
       pcapMaxQueueSize = linkspeed div 8, job_finished = False, job_sentPackets = 0, job_sentBytes = 0,
       job_duration = Inr (Fin 0 0), job_tStart = None,
       interrupts = nat (win_gSigIntStatus g), main_thread = Filling, worker_thread = Idle,
       worker_first = True, k_counter = k, transmits = []\<rparr>)"

subsection \<open>The main thread\<close>

definition packet_header :: "nat \<Rightarrow> cTimeval \<Rightarrow> win_pkthdr" where
  "packet_header n t = \<lparr>hdr_caplen = of_nat n, hdr_len = of_nat n,
     hdr_ts = \<lparr>wtv_sec = ucast (tv_sec (timeval_of t)), wtv_usec = ucast (tv_usec (timeval_of t))\<rparr>\<rparr>"

text \<open>
  \<open>addPacket\<close> up to its wait, or to its return when it does not wait. The state \<open>Waiting\<close> is the
  \<open>WaitForMultipleObjects\<close> on \<open>sigEvent\<close> and \<open>semSpaceAvail\<close>, in this order.
\<close>

definition queue_full :: "u64 \<Rightarrow> cPcapSendQueue \<Rightarrow> bool" where
  "queue_full maxQueueSize q =
     (bytesQueued q + of_nat MAX_DOUBLE_TAGGED_PACKET + of_nat sizeof_pkthdr \<ge> maxQueueSize)"

definition job_addPacket :: "winpcap \<Rightarrow> byte list \<Rightarrow> cTimeval \<Rightarrow> (cJob, unit) M" where
  "job_addPacket lib payload t j =
     (if length (allQueues j) \<le> currSendQueueIn j then (Inl (OutOfRange ''vector::at''), j)
      else case sq_add lib (packet_header (length payload) t) payload (allQueues j ! currSendQueueIn j) of (r, q) \<Rightarrow>
        let j = j\<lparr>allQueues := (allQueues j)[currSendQueueIn j := q]\<rparr>
        in case r of
            Inl e \<Rightarrow> (Inl e, j)
          | Inr _ \<Rightarrow> (Inr (), if queue_full (pcapMaxQueueSize j) q
                             then j\<lparr>semDataAvail := ReleaseSemaphore (semDataAvail j), main_thread := Waiting\<rparr>
                             else j))"

definition space_available :: "cJob \<Rightarrow> cJob" where
  "space_available j = j\<lparr>semSpaceAvail := semSpaceAvail j - 1,
     currSendQueueIn := (currSendQueueIn j + 1) mod length (allQueues j), main_thread := Filling\<rparr>"

definition wait_interrupted :: "cJob \<Rightarrow> cJob" where
  "wait_interrupted j = j\<lparr>sigEvent := False, job_finished := True, main_thread := Filling\<rparr>"

text \<open>The destructor up to its wait for the worker, and what follows the wait.\<close>

definition job_close :: "cJob \<Rightarrow> cJob" where
  "job_close j =
     (if length (allQueues j) \<le> currSendQueueIn j then j\<lparr>main_thread := Failed (OutOfRange ''vector::at'')\<rparr>
      else j\<lparr>semDataAvail := (if \<not> job_finished j \<and> bytesQueued (allQueues j ! currSendQueueIn j) \<noteq> 0
                            then ReleaseSemaphore (semDataAvail j) else semDataAvail j),
             termEvent := True, main_thread := Joining\<rparr>)"

definition job_end :: "winpcap \<Rightarrow> cJob \<Rightarrow> cJob" where
  "job_end lib j = j\<lparr>job_duration := (case job_tStart j of
         None \<Rightarrow> Inl (Undefined ''tStart is not initialised'')
       | Some s \<Rightarrow> Inr (ddiv (dbl (performance_counter lib (k_counter j) - performance_counter lib s) 1)
                           (dbl (performance_frequency lib) 1))),
     main_thread := Joined, k_counter := k_counter j + 1\<rparr>"

subsection \<open>The worker thread\<close>

text \<open>
  \<open>thread\<close> waits for \<open>semDataAvail\<close> and \<open>termEvent\<close>, in this order. \<open>worker_take\<close> is what it does from the
  end of its wait to the call of \<open>pcap_sendqueue_transmit\<close>, \<open>worker_sent\<close> what follows the call.
\<close>

definition worker_take :: "cJob \<Rightarrow> cJob" where
  "worker_take j =
     (let q = allQueues j ! currSendQueueOut j;
          j = j\<lparr>semDataAvail := semDataAvail j - 1, worker_thread := Sending (packetsQueued q) (packetBytesQueued q)\<rparr>
      in if worker_first j then j\<lparr>worker_first := False, job_tStart := Some (k_counter j), k_counter := k_counter j + 1\<rparr>
         else j)"

definition worker_sent :: "winpcap \<Rightarrow> u64 \<Rightarrow> u64 \<Rightarrow> cJob \<Rightarrow> cJob" where
  "worker_sent lib packets bytes j =
     (let q = allQueues j ! currSendQueueOut j;
          sent = sendqueue_transmit lib (length (transmits j)) (job_synchronized j) (pcapQ q);
          j = j\<lparr>transmits := transmits j @ [(sq_packets (pcapQ q), sent)]\<rparr>
      in case sq_flush sent q of (success, q) \<Rightarrow>
         j\<lparr>allQueues := (allQueues j)[currSendQueueOut j := q],
           currSendQueueOut := (currSendQueueOut j + 1) mod length (allQueues j),
           semSpaceAvail := ReleaseSemaphore (semSpaceAvail j),
           job_sentBytes := (if success then job_sentBytes j + bytes else job_sentBytes j),
           job_sentPackets := (if success then job_sentPackets j + packets else job_sentPackets j),
           worker_thread := Idle\<rparr>)"

subsection \<open>The two threads together\<close>

text \<open>
  One action of a thread, or Ctrl-C (the handler of signal.cpp sets the event of the job). None: the
  action is not possible in this state. \<open>KillTimeout\<close> and \<open>KillSignal\<close> are the two ways of the destructor to
  terminate the worker; both need a Ctrl-C before. \<open>sigEvent\<close> and \<open>termEvent\<close> are reset by the wait they end.
\<close>

datatype job_event = AddPacket "byte list" cTimeval | Acquire | Interrupted | Take | Sent | Leave
  | CtrlC | Close | Join | KillTimeout | KillSignal

fun job_do :: "winpcap \<Rightarrow> job_event \<Rightarrow> cJob \<Rightarrow> cJob option" where
  "job_do lib (AddPacket payload t) j =
     (if main_thread j = Filling
      then Some (case job_addPacket lib payload t j of (Inl e, j) \<Rightarrow> j\<lparr>main_thread := Failed e\<rparr> | (Inr _, j) \<Rightarrow> j) else None)"
| "job_do lib Acquire j =
     (if main_thread j = Waiting \<and> \<not> sigEvent j \<and> 0 < semSpaceAvail j then Some (space_available j) else None)"
| "job_do lib Interrupted j = (if main_thread j = Waiting \<and> sigEvent j then Some (wait_interrupted j) else None)"
| "job_do lib Take j = (if worker_thread j = Idle \<and> 0 < semDataAvail j then Some (worker_take j) else None)"
| "job_do lib Sent j = (case worker_thread j of Sending p b \<Rightarrow> Some (worker_sent lib p b j) | _ \<Rightarrow> None)"
| "job_do lib Leave j =
     (if worker_thread j = Idle \<and> semDataAvail j = 0 \<and> termEvent j
      then Some (j\<lparr>termEvent := False, worker_thread := Finished\<rparr>) else None)"
| "job_do lib CtrlC j = Some (j\<lparr>sigEvent := True, interrupts := interrupts j + 1\<rparr>)"
| "job_do lib Close j = (if main_thread j = Filling then Some (job_close j) else None)"
| "job_do lib Join j =
     (if main_thread j = Joining \<and> worker_thread j = Finished \<and> \<not> sigEvent j then Some (job_end lib j) else None)"
| "job_do lib KillTimeout j =
     (if main_thread j = Joining \<and> 0 < interrupts j \<and> worker_thread j \<noteq> Finished
      then Some (job_end lib (j\<lparr>worker_thread := Killed\<rparr>)) else None)"
| "job_do lib KillSignal j =
     (if main_thread j = Joining \<and> sigEvent j
      then Some (job_end lib (j\<lparr>sigEvent := False,
             worker_thread := (if worker_thread j = Finished then Finished else Killed)\<rparr>)) else None)"

text \<open>The states the two threads reach from a new job, with the actions that lead there.\<close>

inductive job_reach :: "winpcap \<Rightarrow> cJob \<Rightarrow> job_event list \<Rightarrow> cJob \<Rightarrow> bool" for lib j0 where
  start: "job_reach lib j0 [] j0"
| step: "job_reach lib j0 es j \<Longrightarrow> job_do lib e j = Some j' \<Longrightarrow> job_reach lib j0 (es @ [e]) j'"

inductive_cases job_reach_snocE: "job_reach lib j0 (es @ [e]) j"

fun job_run :: "winpcap \<Rightarrow> job_event list \<Rightarrow> cJob \<Rightarrow> cJob option" where
  "job_run lib [] j = Some j"
| "job_run lib (e # es) j = Option.bind (job_do lib e j) (job_run lib es)"

end
