(* ===== verification/SendQueueFacts.thy ===== *)
theory SendQueueFacts
  imports SendQueue
begin

section \<open>Both threads of the send queues\<close>

text \<open>
  The invariant of the two threads (\<open>job_ok\<close>): the queues from the worker's on, in the order of the ring,
  are the filled ones, then the one the main thread fills, then empty ones, and they hold what was added
  and is not sent yet. The semaphores count the filled and the free queues. \<open>winpcap_ok\<close> is what the code
  relies on of WinPcap: allocations succeed, a queue takes a packet it has room for, and a transmission
  sends everything.
\<close>

definition queue_bytes :: "queued_packet list \<Rightarrow> nat" where
  "queue_bytes xs = sum_list (map (\<lambda>(h, p). sizeof_pkthdr + length p) xs)"

definition winpcap_ok :: "winpcap \<Rightarrow> bool" where
  "winpcap_ok lib \<longleftrightarrow>
     (\<forall>n. sendqueue_alloc lib n = Some \<lparr>sq_maxlen = n, sq_len = 0, sq_packets = []\<rparr>)
   \<and> (\<forall>q h p. unat (hdr_caplen h) = length p \<longrightarrow> unat (sq_len q) + sizeof_pkthdr + length p \<le> unat (sq_maxlen q) \<longrightarrow>
        sendqueue_queue lib q (h, p) =
          (0, q\<lparr>sq_len := sq_len q + of_nat (sizeof_pkthdr + length p), sq_packets := sq_packets q @ [(h, p)]\<rparr>))
   \<and> (\<forall>k sync q. sendqueue_transmit lib k sync q = sq_len q)"

definition sent_packets :: "cJob \<Rightarrow> queued_packet list" where
  "sent_packets j = concat (map fst (transmits j))"

fun added_by :: "job_event \<Rightarrow> queued_packet list" where
  "added_by (AddPacket p t) = [(packet_header (length p) t, p)]"
| "added_by e = []"

definition added :: "job_event list \<Rightarrow> queued_packet list" where
  "added es = concat (map added_by es)"

definition packets_in :: "cPcapSendQueue \<Rightarrow> queued_packet list" where
  "packets_in q = sq_packets (pcapQ q)"

definition queue_ok :: "u32 \<Rightarrow> cPcapSendQueue \<Rightarrow> bool" where
  "queue_ok cap q \<longleftrightarrow> sq_maxlen (pcapQ q) = cap \<and> queue_bytes (packets_in q) \<le> unat cap
     \<and> sq_len (pcapQ q) = of_nat (queue_bytes (packets_in q)) \<and> bytesQueued q = of_nat (queue_bytes (packets_in q))
     \<and> packetsQueued q = of_nat (length (packets_in q))"

definition ring :: "cJob \<Rightarrow> cPcapSendQueue list" where
  "ring j = rotate (currSendQueueOut j) (allQueues j)"

definition filled :: "cJob \<Rightarrow> nat" where
  "filled j = semDataAvail j + (case worker_thread j of Sending _ _ \<Rightarrow> 1 | _ \<Rightarrow> 0)"

definition in_hand :: "cJob \<Rightarrow> nat" where
  "in_hand j = (if main_thread j = Filling then 1 else 0)"

definition max_room :: nat where
  "max_room = MAX_DOUBLE_TAGGED_PACKET + sizeof_pkthdr"

subsection \<open>Lists and rings\<close>

lemma ring_position:
  fixes i k m n :: nat
  assumes "i < n" and "k < n"
  shows "(m + i) mod n = (m + k) mod n \<longleftrightarrow> i = k"
proof -
  have "i = k" if "(m + i) mod n = (m + k) mod n" "i \<le> k" "k < n" for i k :: nat
  proof -
    have "n dvd k - i" using that mod_eq_dvd_iff_nat [of "m + i" "m + k" n] by simp
    then show ?thesis using that by (auto dest: dvd_imp_le)
  qed
  from this [of i k] this [of k i] show ?thesis using assms by (cases "i \<le> k") auto
qed

lemma rotate_update:
  assumes "i < length xs"
  shows "rotate m (xs[(m + i) mod length xs := x]) = (rotate m xs)[i := x]"
proof (rule nth_equalityI)
  fix k assume "k < length (rotate m (xs[(m + i) mod length xs := x]))"
  then have k: "k < length xs" by simp
  then have "(m + k) mod length xs < length xs" by (intro mod_less_divisor) linarith
  then show "rotate m (xs[(m + i) mod length xs := x]) ! k = (rotate m xs)[i := x] ! k"
    using k ring_position [OF assms k] by (cases "i = k") (simp_all add: nth_rotate nth_list_update)
qed simp

lemma concat_map_empty_tail:
  assumes "k < length xs" and "\<forall>i<length xs. k < i \<longrightarrow> f (xs ! i) = []"
  shows "concat (map f (xs[k := y])) = concat (map f (take k xs)) @ f y"
proof -
  have "\<forall>x\<in>set (drop (Suc k) xs). f x = []"
  proof
    fix x assume "x \<in> set (drop (Suc k) xs)"
    then obtain i where "i < length xs - Suc k" "x = xs ! (Suc k + i)" by (auto simp: in_set_conv_nth)
    then show "f x = []" using assms(2) by simp
  qed
  then have "concat (map f (drop (Suc k) xs)) = []" by simp
  then show ?thesis using assms(1) by (simp add: upd_conv_take_nth_drop)
qed

lemma queue_bytes_simps [simp]:
  "queue_bytes [] = 0" "queue_bytes (x # xs) = sizeof_pkthdr + length (snd x) + queue_bytes xs"
  "queue_bytes (xs @ ys) = queue_bytes xs + queue_bytes ys"
  by (auto simp: queue_bytes_def split_beta)

subsection \<open>One queue\<close>

lemma sq_add_ok:
  assumes "winpcap_ok lib" and "queue_ok cap q" and "queue_bytes (packets_in q) + sizeof_pkthdr + length p \<le> unat cap"
  obtains q' where "sq_add lib (packet_header (length p) t) p q = (Inr (), q')" "queue_ok cap q'"
    "packets_in q' = packets_in q @ [(packet_header (length p) t, p)]"
proof -
  let ?h = "packet_header (length p) t" and ?n = "queue_bytes (packets_in q)"
  have cap: "?n + 16 + length p < 2 ^ 32" using assms(3) unsigned_less [of cap, where 'a = nat] by (simp add: sizeof_pkthdr_def)
  have l: "unat (hdr_caplen ?h) = length p" using cap by (simp add: packet_header_def unat_of_nat)
  have "unat (sq_len (pcapQ q)) = ?n" using assms(2) cap by (simp add: queue_ok_def unat_of_nat)
  then have q: "sendqueue_queue lib (pcapQ q) (?h, p) = (0, (pcapQ q)\<lparr>sq_len := sq_len (pcapQ q)
      + of_nat (sizeof_pkthdr + length p), sq_packets := sq_packets (pcapQ q) @ [(?h, p)]\<rparr>)"
    using assms l by (auto simp: winpcap_ok_def queue_ok_def)
  have u: "(ucast (hdr_caplen ?h) :: u64) = of_nat (length p)"
    using l by (metis of_nat_unat)
  show thesis
    by (rule that) (use assms q u in \<open>auto simp: sq_add_def queue_ok_def packets_in_def\<close>)
qed

lemma sq_flush_ok:
  assumes "winpcap_ok lib" and "queue_ok cap q"
  shows "sq_flush (sendqueue_transmit lib k sync (pcapQ q)) q = (True, sq_reset q)"
    and "queue_ok cap (sq_reset q)" and "packets_in (sq_reset q) = []"
proof -
  have "(ucast (of_nat n :: u64) :: u32) = of_nat n" for n
    by (simp add: unsigned_of_nat word_of_nat_eq_iff take_bit_take_bit)
  then have "(ucast (bytesQueued q) :: u32) = sq_len (pcapQ q)" using assms(2) by (simp add: queue_ok_def)
  then show "sq_flush (sendqueue_transmit lib k sync (pcapQ q)) q = (True, sq_reset q)"
    using assms(1) by (simp add: sq_flush_def winpcap_ok_def)
  show "queue_ok cap (sq_reset q)" "packets_in (sq_reset q) = []"
    using assms(2) by (simp_all add: queue_ok_def sq_reset_def packets_in_def)
qed

lemma new_cPcapSendQueue_ok:
  assumes "winpcap_ok lib"
  obtains q where "new_cPcapSendQueue lib n = Inr q" "queue_ok (ucast n) q" "packets_in q = []"
  by (rule that [of "\<lparr>bytesQueued = 0, packetsQueued = 0, packetBytesQueued = 0,
       pcapQ = \<lparr>sq_maxlen = ucast n, sq_len = 0, sq_packets = []\<rparr>\<rparr>"])
    (use assms in \<open>simp_all add: new_cPcapSendQueue_def winpcap_ok_def queue_ok_def packets_in_def\<close>)

lemma queue_full_iff:
  assumes "queue_ok cap q"
  shows "queue_full maxQueueSize q \<longleftrightarrow> unat maxQueueSize \<le> queue_bytes (packets_in q) + max_room"
proof -
  let ?n = "queue_bytes (packets_in q) + max_room"
  have "?n < 2 ^ 64"
    using assms unsigned_less [of cap, where 'a = nat]
    by (simp add: queue_ok_def max_room_def MAX_DOUBLE_TAGGED_PACKET_def MAX_ETHERNET_PAYLOAD_def sizeof_pkthdr_def)
  then have "unat (of_nat ?n :: u64) = ?n" by (simp only: unat_of_nat) simp
  moreover have "bytesQueued q + of_nat MAX_DOUBLE_TAGGED_PACKET + of_nat sizeof_pkthdr = of_nat ?n"
    using assms by (simp add: queue_ok_def max_room_def)
  ultimately show ?thesis by (simp add: queue_full_def word_le_nat_alt)
qed

subsection \<open>The invariant\<close>

definition positions_ok :: "cJob \<Rightarrow> bool" where
  "positions_ok j \<longleftrightarrow> (let n = length (allQueues j); f = filled j in
     (n = 1 \<or> n = 3) \<and> currSendQueueIn j < n \<and> currSendQueueOut j < n
   \<and> semSpaceAvail j + f + in_hand j \<le> 3 \<and> f + in_hand j \<le> n
   \<and> (main_thread j = Filling \<or> main_thread j = Waiting \<longrightarrow> semSpaceAvail j + f + in_hand j = 3)
   \<and> (main_thread j = Filling \<longrightarrow> currSendQueueIn j = (currSendQueueOut j + f) mod n)
   \<and> (main_thread j = Waiting \<longrightarrow> n = 3 \<and> (currSendQueueIn j + 1) mod n = (currSendQueueOut j + f) mod n))"

definition queues_ok :: "u32 \<Rightarrow> cJob \<Rightarrow> queued_packet list \<Rightarrow> bool" where
  "queues_ok cap j xs \<longleftrightarrow>
     (\<forall>q\<in>set (allQueues j). queue_ok cap q)
   \<and> (\<forall>i<length (allQueues j). filled j + in_hand j \<le> i \<longrightarrow> packets_in (ring j ! i) = [])
   \<and> sent_packets j @ concat (map packets_in (ring j)) = xs
   \<and> (main_thread j = Filling \<longrightarrow> queue_bytes (packets_in (ring j ! filled j)) + max_room < unat (pcapMaxQueueSize j))
   \<and> job_sentPackets j = of_nat (length (sent_packets j))
   \<and> (\<forall>p b. worker_thread j = Sending p b \<longrightarrow> p = of_nat (length (packets_in (ring j ! 0))))"

definition threads_ok :: "cJob \<Rightarrow> bool" where
  "threads_ok j \<longleftrightarrow> (\<forall>e. main_thread j \<noteq> Failed e) \<and> worker_thread j \<noteq> Killed
   \<and> (termEvent j \<or> worker_thread j = Finished \<longrightarrow> main_thread j = Joining \<or> main_thread j = Joined)
   \<and> (worker_thread j = Finished \<longrightarrow> semDataAvail j = 0)
   \<and> (main_thread j = Joining \<longrightarrow> termEvent j \<or> worker_thread j = Finished)
   \<and> (main_thread j = Joined \<longrightarrow> worker_thread j = Finished)
   \<and> \<not> job_finished j \<and> \<not> sigEvent j \<and> interrupts j = 0"

text \<open>The queues have the room they need: a queue takes what is filled into it before it is passed on.\<close>

definition room_ok :: "u32 \<Rightarrow> nat \<Rightarrow> u64 \<Rightarrow> bool" where
  "room_ok cap n maxQueueSize \<longleftrightarrow>
     (if n = 3 then unat cap = unat maxQueueSize \<and> max_room < unat maxQueueSize
      else unat cap + max_room < unat maxQueueSize)"

definition job_ok :: "u32 \<Rightarrow> cJob \<Rightarrow> queued_packet list \<Rightarrow> bool" where
  "job_ok cap j xs \<longleftrightarrow> positions_ok j \<and> queues_ok cap j xs \<and> threads_ok j
     \<and> room_ok cap (length (allQueues j)) (pcapMaxQueueSize j)"

lemmas job_defs = positions_ok_def Let_def queues_ok_def threads_ok_def ring_def filled_def in_hand_def sent_packets_def

lemma ring_nth: "i < length (allQueues j) \<Longrightarrow>
   ring j ! i = allQueues j ! ((currSendQueueOut j + i) mod length (allQueues j))"
  by (simp add: ring_def nth_rotate)

lemma ring_length [simp]: "length (ring j) = length (allQueues j)"
  by (simp add: ring_def)

lemma queues_update [simp]:
  "filled (j\<lparr>allQueues := qs\<rparr>) = filled j" "in_hand (j\<lparr>allQueues := qs\<rparr>) = in_hand j"
  "sent_packets (j\<lparr>allQueues := qs\<rparr>) = sent_packets j"
  by (simp_all add: filled_def in_hand_def sent_packets_def)

lemma ring_put:
  assumes "k < length (allQueues j)" and "currSendQueueIn j = (currSendQueueOut j + k) mod length (allQueues j)"
  shows "ring (j\<lparr>allQueues := (allQueues j)[currSendQueueIn j := q]\<rparr>) = (ring j)[k := q]"
  using assms by (simp add: ring_def rotate_update)

lemma filling_position:
  assumes "job_ok cap j xs" and "main_thread j = Filling"
  shows "filled j < length (allQueues j)" and "currSendQueueIn j < length (allQueues j)"
    and "allQueues j ! currSendQueueIn j = ring j ! filled j"
    and "currSendQueueIn j = (currSendQueueOut j + filled j) mod length (allQueues j)"
  using assms by (auto simp: job_ok_def positions_ok_def Let_def in_hand_def ring_nth)

lemma filling_fits:
  assumes "job_ok cap j xs" and "main_thread j = Filling" and "length p \<le> MAX_DOUBLE_TAGGED_PACKET"
    and "length (allQueues j) = 1 \<Longrightarrow> queue_bytes (xs @ [(h, p)]) \<le> unat cap"
  shows "queue_bytes (packets_in (ring j ! filled j)) + sizeof_pkthdr + length p \<le> unat cap"
proof (cases "length (allQueues j) = 1")
  case True
  then have k: "filled j = 0" and r: "ring j = [ring j ! 0]"
    using filling_position(1) [OF assms(1,2)] by (auto simp: list_eq_iff_nth_eq)
  have "xs = sent_packets j @ concat (map packets_in (ring j))" using assms(1) by (simp add: job_ok_def queues_ok_def)
  then have "xs = sent_packets j @ packets_in (ring j ! 0)" by (subst (asm) r) simp
  then show ?thesis using assms(4) True k by simp
next
  case False
  then have "unat cap = unat (pcapMaxQueueSize j)" using assms(1) by (auto simp: job_ok_def room_ok_def positions_ok_def Let_def)
  moreover have "queue_bytes (packets_in (ring j ! filled j)) + max_room < unat (pcapMaxQueueSize j)"
    using assms(1,2) by (simp add: job_ok_def queues_ok_def)
  ultimately show ?thesis using assms(3) by (simp add: max_room_def)
qed

lemma filling_contents:
  assumes "job_ok cap j xs" and "main_thread j = Filling" and "packets_in q = packets_in (ring j ! filled j) @ [x]"
  shows "sent_packets j @ concat (map packets_in ((ring j)[filled j := q])) = xs @ [x]"
proof -
  let ?k = "filled j"
  have k: "?k < length (ring j)" using filling_position(1) [OF assms(1,2)] by simp
  have tail: "\<forall>i<length (ring j). ?k < i \<longrightarrow> packets_in (ring j ! i) = []"
    using assms(1,2) by (simp add: job_ok_def queues_ok_def in_hand_def Suc_le_eq)
  have "concat (map packets_in (ring j)) = concat (map packets_in (take ?k (ring j))) @ packets_in (ring j ! ?k)"
    using concat_map_empty_tail [OF k tail, of "ring j ! ?k"] by simp
  then show ?thesis
    using concat_map_empty_tail [OF k tail, of q] assms(1,3) by (auto simp: job_ok_def queues_ok_def)
qed

lemma stays_empty:
  assumes "job_ok cap j xs" and "main_thread j = Filling"
  shows "\<forall>i<length (allQueues j). Suc (filled j) \<le> i \<longrightarrow> packets_in ((ring j)[filled j := q] ! i) = []"
  using assms by (auto simp: job_ok_def queues_ok_def in_hand_def)

lemma put_ok:
  assumes "job_ok cap j xs" and "main_thread j = Filling" and "queue_ok cap q"
    and "packets_in q = packets_in (ring j ! filled j) @ [x]"
    and "queue_bytes (packets_in q) + max_room < unat (pcapMaxQueueSize j)"
  shows "job_ok cap (j\<lparr>allQueues := (allQueues j)[currSendQueueIn j := q]\<rparr>) (xs @ [x])"
proof -
  let ?j = "j\<lparr>allQueues := (allQueues j)[currSendQueueIn j := q]\<rparr>"
  note pos = filling_position [OF assms(1,2)]
  have r: "ring ?j = (ring j)[filled j := q]" by (rule ring_put [OF pos(1,4)])
  have same: "in_hand j = 1" using assms(2) by (simp add: in_hand_def)
  have "queues_ok cap ?j (xs @ [x])"
    unfolding queues_ok_def r
    using assms stays_empty [OF assms(1,2), of q] filling_contents [OF assms(1,2,4)] pos(1) same
    by (auto simp: job_ok_def queues_ok_def filled_def in_hand_def dest!: set_update_subset_insert [THEN subsetD])
  moreover have "positions_ok ?j" using assms(1,2) by (simp add: job_ok_def positions_ok_def same Let_def)
  moreover have "threads_ok ?j" "room_ok cap (length (allQueues ?j)) (pcapMaxQueueSize ?j)"
    using assms(1,2) by (simp_all add: job_ok_def threads_ok_def)
  ultimately show ?thesis by (simp add: job_ok_def)
qed

lemma put_full_ok:
  assumes "job_ok cap j xs" and "main_thread j = Filling" and "queue_ok cap q"
    and "packets_in q = packets_in (ring j ! filled j) @ [x]" and "length (allQueues j) = 3"
  shows "job_ok cap (j\<lparr>allQueues := (allQueues j)[currSendQueueIn j := q],
           semDataAvail := ReleaseSemaphore (semDataAvail j), main_thread := Waiting\<rparr>) (xs @ [x])"
proof -
  let ?j1 = "j\<lparr>allQueues := (allQueues j)[currSendQueueIn j := q]\<rparr>"
  let ?j = "j\<lparr>allQueues := (allQueues j)[currSendQueueIn j := q],
           semDataAvail := ReleaseSemaphore (semDataAvail j), main_thread := Waiting\<rparr>"
  note pos = filling_position [OF assms(1,2)]
  have r: "ring ?j = (ring j)[filled j := q]" using ring_put [OF pos(1,4), of q] by (simp add: ring_def)
  have "semDataAvail j < 3" using assms(5) pos(1) by (simp add: filled_def)
  then have same: "filled ?j = Suc (filled j)" "in_hand ?j = 0" "sent_packets ?j = sent_packets j" "in_hand j = 1"
    using assms(2) by (simp_all add: filled_def in_hand_def sent_packets_def ReleaseSemaphore_def MAX_SEND_QUEUES_def)
  have p: "packets_in ((ring j)[filled j := q] ! 0) = packets_in (ring j ! 0)" if "worker_thread j = Sending p b" for p b
    using that by (simp add: filled_def)
  have "queues_ok cap ?j (xs @ [x])"
    unfolding queues_ok_def r same
    using assms stays_empty [OF assms(1,2), of q] filling_contents [OF assms(1,2,4)] pos(1) p
    by (auto simp: job_ok_def queues_ok_def dest!: set_update_subset_insert [THEN subsetD])
  moreover have "positions_ok ?j"
    using assms(1,2,5) pos same by (auto simp: job_ok_def positions_ok_def Let_def mod_Suc_eq)
  moreover have "threads_ok ?j" "room_ok cap (length (allQueues ?j)) (pcapMaxQueueSize ?j)"
    using assms(1,2) by (simp_all add: job_ok_def threads_ok_def)
  ultimately show ?thesis by (simp add: job_ok_def)
qed

lemma job_addPacket_ok:
  assumes "winpcap_ok lib" and "job_ok cap j xs" and "main_thread j = Filling" and "length p \<le> MAX_DOUBLE_TAGGED_PACKET"
    and "length (allQueues j) = 1 \<Longrightarrow> queue_bytes (xs @ [(packet_header (length p) t, p)]) \<le> unat cap"
  obtains j' where "job_addPacket lib p t j = (Inr (), j')" "job_ok cap j' (xs @ [(packet_header (length p) t, p)])"
proof -
  let ?x = "(packet_header (length p) t, p)" and ?max = "pcapMaxQueueSize j"
  note pos = filling_position [OF assms(2,3)]
  have "queue_ok cap (ring j ! filled j)"
    unfolding pos(3) [symmetric] using assms(2) nth_mem [OF pos(2)] by (simp add: job_ok_def queues_ok_def)
  from sq_add_ok [OF assms(1) this filling_fits [OF assms(2-5)], of t]
  obtain q where q: "sq_add lib (fst ?x) p (ring j ! filled j) = (Inr (), q)" "queue_ok cap q"
    "packets_in q = packets_in (ring j ! filled j) @ [?x]" by auto
  show thesis
  proof (cases "queue_full ?max q")
    case False
    then have "queue_bytes (packets_in q) + max_room < unat ?max" using queue_full_iff [OF q(2)] by simp
    from put_ok [OF assms(2,3) q(2,3) this] show thesis
      using q(1) pos False by (intro that) (simp_all add: job_addPacket_def)
  next
    case True
    then have full: "unat ?max \<le> queue_bytes (packets_in q) + max_room" using queue_full_iff [OF q(2)] by simp
    have "queue_bytes (packets_in q) \<le> unat cap" using q(2) by (simp add: queue_ok_def)
    then have "length (allQueues j) = 3"
      using full assms(2) by (auto simp: job_ok_def room_ok_def split: if_splits)
    from put_full_ok [OF assms(2,3) q(2,3) this] show thesis
      using q(1) pos True by (intro that) (simp_all add: job_addPacket_def)
  qed
qed

lemma space_available_ok:
  assumes "job_ok cap j xs" and "main_thread j = Waiting" and "0 < semSpaceAvail j"
  shows "job_ok cap (space_available j) xs"
proof -
  let ?j = "space_available j"
  have n: "length (allQueues j) = 3" "in_hand j = 0" "filled j < 3"
    using assms by (auto simp: job_ok_def positions_ok_def Let_def in_hand_def)
  have same: "filled ?j = filled j" "in_hand ?j = 1" "ring ?j = ring j" "sent_packets ?j = sent_packets j"
    "main_thread ?j = Filling" "allQueues ?j = allQueues j"
    by (simp_all add: space_available_def filled_def in_hand_def ring_def sent_packets_def)
  have "packets_in (ring j ! filled j) = []" using assms(1) n by (simp add: job_ok_def queues_ok_def)
  then have "queues_ok cap ?j xs"
    using assms(1) n unfolding queues_ok_def same
    by (auto simp: job_ok_def queues_ok_def room_ok_def space_available_def)
  moreover have "positions_ok ?j"
    using assms n unfolding positions_ok_def Let_def same
    by (auto simp: job_ok_def positions_ok_def Let_def space_available_def)
  moreover have "threads_ok ?j" "room_ok cap (length (allQueues ?j)) (pcapMaxQueueSize ?j)"
    using assms(1,2) by (auto simp: job_ok_def threads_ok_def space_available_def)
  ultimately show ?thesis by (simp add: job_ok_def)
qed

lemma worker_take_ok:
  assumes "job_ok cap j xs" and "worker_thread j = Idle" and "0 < semDataAvail j"
  shows "job_ok cap (worker_take j) xs"
proof -
  let ?j = "worker_take j"
  have n: "0 < length (allQueues j)" "currSendQueueOut j < length (allQueues j)"
    using assms(1) by (auto simp: job_ok_def positions_ok_def Let_def)
  then have q: "ring j ! 0 = allQueues j ! currSendQueueOut j" by (subst ring_nth) simp_all
  have "queue_ok cap (ring j ! 0)" using assms(1) n unfolding q by (simp add: job_ok_def queues_ok_def)
  then obtain p b where w: "worker_thread ?j = Sending p b" "p = of_nat (length (packets_in (ring j ! 0)))"
    by (simp add: worker_take_def Let_def q queue_ok_def)
  have same: "filled ?j = filled j" "in_hand ?j = in_hand j" "ring ?j = ring j" "sent_packets ?j = sent_packets j"
    "main_thread ?j = main_thread j" "allQueues ?j = allQueues j"
    using assms(2,3) by (simp_all add: worker_take_def Let_def filled_def in_hand_def ring_def sent_packets_def)
  have "queues_ok cap ?j xs"
    using assms(1) w unfolding queues_ok_def same
    by (auto simp: job_ok_def queues_ok_def worker_take_def Let_def)
  moreover have "positions_ok ?j"
    using assms(1) unfolding positions_ok_def Let_def same
    by (auto simp: job_ok_def positions_ok_def Let_def worker_take_def)
  moreover have "threads_ok ?j" "room_ok cap (length (allQueues ?j)) (pcapMaxQueueSize ?j)"
    using assms(1,2) by (auto simp: job_ok_def threads_ok_def worker_take_def Let_def)
  ultimately show ?thesis by (simp add: job_ok_def)
qed

lemma ring_taken:
  assumes "currSendQueueOut j < length (allQueues j)"
  shows "ring (j\<lparr>allQueues := (allQueues j)[currSendQueueOut j := q],
            currSendQueueOut := (currSendQueueOut j + 1) mod length (allQueues j)\<rparr>) = tl (ring j) @ [q]"
proof -
  let ?n = "length (allQueues j)" and ?out = "currSendQueueOut j"
  have n: "0 < ?n" using assms by linarith
  have "rotate ?out ((allQueues j)[?out := q]) = (ring j)[0 := q]"
    using rotate_update [OF n, of ?out q] assms by (simp add: ring_def)
  moreover have "rotate ((?out + 1) mod ?n) ((allQueues j)[?out := q]) = rotate1 (rotate ?out ((allQueues j)[?out := q]))"
    using rotate_conv_mod [of "?out + 1" "(allQueues j)[?out := q]"] by simp
  moreover have "rotate1 (r[0 := q]) = tl r @ [q]" if "r \<noteq> []" for r using that by (cases r) simp_all
  moreover have "ring j \<noteq> []" using n by (auto simp: ring_def)
  ultimately have "rotate ((?out + 1) mod ?n) ((allQueues j)[?out := q]) = tl (ring j) @ [q]" by simp
  then show ?thesis by (simp add: ring_def)
qed

lemma worker_sent_ok:
  assumes "winpcap_ok lib" and "job_ok cap j xs" and w: "worker_thread j = Sending p b"
  shows "job_ok cap (worker_sent lib p b j) xs"
proof -
  let ?j = "worker_sent lib p b j" and ?n = "length (allQueues j)" and ?out = "currSendQueueOut j"
  let ?q = "allQueues j ! ?out" and ?r = "ring j"
  have pos: "0 < ?n" "?out < ?n" "filled j + in_hand j \<le> ?n" "semSpaceAvail j + filled j \<le> 3"
    using assms(2) by (auto simp: job_ok_def positions_ok_def Let_def)
  have f: "0 < filled j" using w by (simp add: filled_def)
  have q: "?q = ?r ! 0" using pos(1,2) by (subst ring_nth) simp_all
  have ok: "queue_ok cap ?q" using assms(2) pos(2) by (simp add: job_ok_def queues_ok_def)
  note flush = sq_flush_ok(1) [OF assms(1) ok, of "length (transmits j)" "job_synchronized j"] sq_flush_ok(2,3) [OF assms(1) ok]
  obtain qs where r: "?r = ?q # qs" using q pos(1) by (metis hd_conv_nth length_0_conv list.collapse ring_length less_numeral_extra(3))
  have ring: "ring ?j = qs @ [sq_reset ?q]"
    using ring_taken [OF pos(2), of "sq_reset ?q"] r by (simp add: worker_sent_def Let_def flush(1) ring_def)
  have same: "filled ?j = filled j - 1" "in_hand ?j = in_hand j" "main_thread ?j = main_thread j" "worker_thread ?j = Idle"
    "sent_packets ?j = sent_packets j @ packets_in ?q" "semSpaceAvail ?j = semSpaceAvail j + 1"
    "allQueues ?j = (allQueues j)[?out := sq_reset ?q]" "currSendQueueOut ?j = (?out + 1) mod ?n"
    "currSendQueueIn ?j = currSendQueueIn j" "pcapMaxQueueSize ?j = pcapMaxQueueSize j"
    "job_sentPackets ?j = job_sentPackets j + p"
    using w f pos(4) by (simp_all add: worker_sent_def Let_def flush filled_def in_hand_def sent_packets_def packets_in_def
        ReleaseSemaphore_def MAX_SEND_QUEUES_def)
  have nth: "ring ?j ! i = (if Suc i < ?n then ?r ! Suc i else sq_reset ?q)" if "i < ?n" for i
    using that r ring_length [of j] unfolding ring by (auto simp: nth_append)
  have "queues_ok cap ?j xs"
    unfolding queues_ok_def same
  proof (intro conjI allI impI ballI)
    fix x assume "x \<in> set ((allQueues j)[?out := sq_reset ?q])"
    then show "queue_ok cap x" using assms(2) flush(2)
      by (auto simp: job_ok_def queues_ok_def dest!: set_update_subset_insert [THEN subsetD])
  next
    fix i assume "i < length ((allQueues j)[?out := sq_reset ?q])" "filled j - 1 + in_hand j \<le> i"
    then show "packets_in (ring ?j ! i) = []"
      using assms(2) f flush(3) by (auto simp: nth job_ok_def queues_ok_def)
  next
    have "sent_packets j @ concat (map packets_in ?r) = xs" using assms(2) by (simp add: job_ok_def queues_ok_def)
    then show "(sent_packets j @ packets_in ?q) @ concat (map packets_in (ring ?j)) = xs"
      unfolding ring using flush(3) by (subst (asm) r) simp
  next
    assume m: "main_thread j = Filling"
    then have "filled j < ?n" using pos(3) by (simp add: in_hand_def)
    then have "ring ?j ! (filled j - 1) = ?r ! filled j" using f by (simp add: nth)
    then show "queue_bytes (packets_in (ring ?j ! (filled j - 1))) + max_room < unat (pcapMaxQueueSize j)"
      using assms(2) m by (simp add: job_ok_def queues_ok_def)
  next
    show "job_sentPackets j + p = of_nat (length (sent_packets j @ packets_in ?q))"
      using assms(2) w q by (simp add: job_ok_def queues_ok_def)
  qed simp_all
  moreover have "((?out + 1) mod ?n + (filled j - 1)) mod ?n = (?out + filled j) mod ?n"
    using f mod_add_left_eq [of "?out + 1" ?n "filled j - 1"] by (simp del: mod_Suc_eq)
  then have "positions_ok ?j"
    using assms(2) f pos unfolding positions_ok_def Let_def same
    by (auto simp: job_ok_def positions_ok_def Let_def)
  moreover have "threads_ok ?j" "room_ok cap (length (allQueues ?j)) (pcapMaxQueueSize ?j)"
    using assms(2) w by (auto simp: job_ok_def threads_ok_def worker_sent_def Let_def flush(1))
  ultimately show ?thesis by (simp add: job_ok_def)
qed

lemma queue_bytes_0: "queue_bytes xs = 0 \<longleftrightarrow> xs = []"
  by (cases xs) (simp_all add: sizeof_pkthdr_def)

lemma job_close_ok:
  assumes "job_ok cap j xs" and "main_thread j = Filling"
  shows "job_ok cap (job_close j) xs" and "main_thread (job_close j) = Joining"
proof -
  let ?j = "job_close j" and ?q = "ring j ! filled j"
  note pos = filling_position [OF assms]
  have n: "length (allQueues j) \<le> 3" "in_hand j = 1"
    using assms by (auto simp: job_ok_def positions_ok_def Let_def in_hand_def)
  have "queue_ok cap ?q" unfolding pos(3) [symmetric] using assms(1) nth_mem [OF pos(2)] by (simp add: job_ok_def queues_ok_def)
  then have q: "bytesQueued ?q = of_nat (queue_bytes (packets_in ?q))" "queue_bytes (packets_in ?q) < 2 ^ 32"
    using unsigned_less [of cap, where 'a = nat] by (simp_all add: queue_ok_def)
  have "unat (bytesQueued ?q) = queue_bytes (packets_in ?q)" using q by (simp add: unat_of_nat)
  then have empty: "bytesQueued ?q = 0 \<longleftrightarrow> packets_in ?q = []" by (metis queue_bytes_0 unat_eq_zero)
  have "job_finished j = False" using assms(1) by (simp add: job_ok_def threads_ok_def)
  then have j: "?j = j\<lparr>semDataAvail := (if packets_in ?q \<noteq> [] then ReleaseSemaphore (semDataAvail j) else semDataAvail j),
       termEvent := True, main_thread := Joining\<rparr>"
    using pos empty by (simp add: job_close_def)
  then show "main_thread ?j = Joining" by simp
  have d: "semDataAvail j < 3" using pos(1) n by (simp add: filled_def)
  have same: "filled ?j = (if packets_in ?q \<noteq> [] then filled j + 1 else filled j)" "in_hand ?j = 0" "ring ?j = ring j"
    "sent_packets ?j = sent_packets j" "allQueues ?j = allQueues j"
    using d unfolding j by (simp_all add: filled_def in_hand_def ring_def sent_packets_def ReleaseSemaphore_def MAX_SEND_QUEUES_def)
  have e: "packets_in (ring j ! i) = []" if "i < length (allQueues j)" "filled j + 1 \<le> i" for i
    using assms(1) that n by (simp add: job_ok_def queues_ok_def)
  have tail: "packets_in (ring j ! i) = []" if "i < length (allQueues j)" "filled ?j \<le> i" for i
    using that e [of i] unfolding same by (cases "i = filled j") (auto split: if_splits)
  have rest: "main_thread ?j = Joining" "worker_thread ?j = worker_thread j" "job_sentPackets ?j = job_sentPackets j"
    by (simp_all add: j)
  have "queues_ok cap ?j xs"
    unfolding queues_ok_def same(2-) rest using assms(1) tail by (simp add: job_ok_def queues_ok_def)
  moreover have "positions_ok ?j"
    using assms n pos(1) unfolding positions_ok_def Let_def same
    by (auto simp: job_ok_def positions_ok_def Let_def j)
  moreover have "threads_ok ?j" "room_ok cap (length (allQueues ?j)) (pcapMaxQueueSize ?j)"
    using assms by (auto simp: job_ok_def threads_ok_def j)
  ultimately show "job_ok cap ?j xs" by (simp add: job_ok_def)
qed

lemma job_fields_ok:
  assumes "job_ok cap j xs"
  shows "worker_thread j = Idle \<Longrightarrow> semDataAvail j = 0 \<Longrightarrow> termEvent j \<Longrightarrow>
      job_ok cap (j\<lparr>termEvent := False, worker_thread := Finished\<rparr>) xs"
    and "main_thread j = Joining \<Longrightarrow> worker_thread j = Finished \<Longrightarrow> job_ok cap (job_end lib j) xs"
  using assms by (auto simp: job_ok_def positions_ok_def Let_def queues_ok_def threads_ok_def job_end_def filled_def
      in_hand_def ring_def sent_packets_def)

subsection \<open>Every reachable state\<close>

text \<open>
  What the caller promises: no packet is longer than the longest frame, no more packets and bytes than
  announced, no Ctrl-C. \<open>well_sized\<close> is what it takes of the numbers given to \<open>prepareSendQueue\<close>: one queue
  is used only when everything fits with room for another packet.
\<close>

definition quiet :: "job_event list \<Rightarrow> bool" where
  "quiet es \<longleftrightarrow> CtrlC \<notin> set es \<and> (\<forall>p t. AddPacket p t \<in> set es \<longrightarrow> length p \<le> MAX_DOUBLE_TAGGED_PACKET)"

definition calm :: "winSignal \<Rightarrow> bool" where
  "calm g \<longleftrightarrow> win_gSigIntStatus g = 0 \<and> sigintEvent g \<noteq> Some True"

definition announced :: "u64 \<Rightarrow> u64 \<Rightarrow> queued_packet list \<Rightarrow> bool" where
  "announced packetCnt totalBytes xs \<longleftrightarrow> packetCnt = 0 \<or> length xs \<le> unat packetCnt
     \<and> sum_list (map (\<lambda>x. length (snd x)) xs) \<le> unat totalBytes
     \<and> unat packetCnt * sizeof_pkthdr + unat totalBytes < 2 ^ 64"

definition well_sized :: "u64 \<Rightarrow> u64 \<Rightarrow> u64 \<Rightarrow> bool" where
  "well_sized linkspeed packetCnt totalBytes \<longleftrightarrow>
     (let most = linkspeed div 8; needed = wholeNeededMemory linkspeed packetCnt totalBytes
      in max_room < unat most \<and> unat most < 2 ^ 32 \<and> (most \<le> needed \<or> unat needed + max_room < unat most))"

lemma new_cJob_ok:
  assumes "winpcap_ok lib" and "calm g" and "well_sized linkspeed packetCnt totalBytes"
    and "new_cJob lib k g packetCnt totalBytes sync linkspeed = Inr j"
  obtains cap where "job_ok cap j []"
    "length (allQueues j) = 1 \<Longrightarrow> packetCnt \<noteq> 0 \<and> unat cap = unat (wholeNeededMemory linkspeed packetCnt totalBytes)"
proof -
  let ?most = "linkspeed div 8" and ?needed = "wholeNeededMemory linkspeed packetCnt totalBytes"
  have most: "max_room < unat ?most" "unat ?most < 2 ^ 32" "?most \<le> ?needed \<or> unat ?needed + max_room < unat ?most"
    using assms(3) by (simp_all add: well_sized_def Let_def)
  have down: "unat (ucast n :: u32) = unat n" if "unat n < 2 ^ 32" for n :: u64
    using that by (simp add: unsigned_ucast_eq take_bit_nat_eq_self)
  have ok: "job_ok cap j []" if "set (allQueues j) \<subseteq> {q. queue_ok cap q \<and> packets_in q = []}"
    "length (allQueues j) = 1 \<or> length (allQueues j) = 3" "room_ok cap (length (allQueues j)) ?most" for cap
  proof -
    have j: "currSendQueueIn j = 0" "currSendQueueOut j = 0" "semSpaceAvail j = 2" "semDataAvail j = 0" "transmits j = []"
      "main_thread j = Filling" "worker_thread j = Idle" "\<not> sigEvent j" "\<not> termEvent j" "interrupts j = 0"
      "\<not> job_finished j" "job_sentPackets j = 0" "pcapMaxQueueSize j = ?most"
      using assms(2,4) by (auto simp: new_cJob_def MAX_SEND_QUEUES_def calm_def sigintGetEventHandle_def split: option.splits)
    have "packets_in (allQueues j ! i) = []" if "i < length (allQueues j)" for i
      using that \<open>set _ \<subseteq> _\<close> nth_mem by fastforce
    moreover have "concat (map packets_in (allQueues j)) = []" using \<open>set _ \<subseteq> _\<close> by auto
    moreover have "0 < length (allQueues j)" using that(2) by linarith
    ultimately show ?thesis
      using that j most(1) by (auto simp: job_ok_def positions_ok_def Let_def queues_ok_def threads_ok_def filled_def
          in_hand_def ring_def sent_packets_def)
  qed
  show thesis
  proof (cases "?most \<le> ?needed")
    case True
    obtain q where q: "new_cPcapSendQueue lib ?most = Inr q" "queue_ok (ucast ?most) q" "packets_in q = []"
      using new_cPcapSendQueue_ok [OF assms(1)] .
    then have "allQueues j = [q, q, q]"
      using assms(4) True by (auto simp: new_cJob_def new_queues_def MAX_SEND_QUEUES_def upt_rec)
    then show thesis using q most down [of ?most] by (intro that [of "ucast ?most"] ok) (simp_all add: room_ok_def)
  next
    case False
    obtain q where q: "new_cPcapSendQueue lib ?needed = Inr q" "queue_ok (ucast ?needed) q" "packets_in q = []"
      using new_cPcapSendQueue_ok [OF assms(1)] .
    then have "allQueues j = [q]" using assms(4) False by (auto simp: new_cJob_def new_queues_def)
    moreover have "packetCnt \<noteq> 0" using False by (auto simp: wholeNeededMemory_def)
    ultimately show thesis using q most down [of ?needed] False
      by (intro that [of "ucast ?needed"] ok) (simp_all add: room_ok_def)
  qed
qed

lemma announced_bytes:
  assumes "announced packetCnt totalBytes xs" and "packetCnt \<noteq> 0"
  shows "queue_bytes xs \<le> unat (wholeNeededMemory linkspeed packetCnt totalBytes)"
proof -
  have b: "queue_bytes xs = length xs * sizeof_pkthdr + sum_list (map (\<lambda>x. length (snd x)) xs)"
    by (induction xs) simp_all
  let ?n = "unat packetCnt * sizeof_pkthdr + unat totalBytes"
  have n: "length xs \<le> unat packetCnt" "sum_list (map (\<lambda>x. length (snd x)) xs) \<le> unat totalBytes" "?n < 2 ^ 64"
    using assms by (simp_all add: announced_def)
  have "packetCnt * of_nat sizeof_pkthdr + totalBytes = of_nat ?n" by simp
  moreover have "unat (of_nat ?n :: u64) = ?n" using n(3) by (simp only: unat_of_nat) simp
  ultimately have "unat (wholeNeededMemory linkspeed packetCnt totalBytes) = ?n"
    using assms(2) by (simp add: wholeNeededMemory_def word_gt_0 del: of_nat_add of_nat_mult)
  then show ?thesis using b n(1,2) by (simp add: add_mono mult_le_mono1)
qed

lemma quiet_append: "quiet (es @ es') \<longleftrightarrow> quiet es \<and> quiet es'"
  by (auto simp: quiet_def)

lemma added_append [simp]: "added (es @ es') = added es @ added es'"
  by (simp add: added_def)

lemma added_simps [simp]: "added [] = []" "added (e # es) = added_by e @ added es"
  by (simp_all add: added_def)

lemma job_do_length: "job_do lib e j = Some j' \<Longrightarrow> length (allQueues j') = length (allQueues j)"
  by (cases e) (auto simp: job_addPacket_def space_available_def wait_interrupted_def worker_take_def worker_sent_def sq_flush_def
      job_close_def job_end_def Let_def split: if_splits prod.splits sum.splits worker_thread.splits)

lemma job_reach_length: "job_reach lib j0 es j \<Longrightarrow> length (allQueues j) = length (allQueues j0)"
  by (induction rule: job_reach.induct) (simp_all add: job_do_length)

lemma job_do_ok:
  assumes "winpcap_ok lib" and "job_ok cap j xs" and "quiet [e]" and "job_do lib e j = Some j'"
    and "length (allQueues j) = 1 \<Longrightarrow> queue_bytes (xs @ added_by e) \<le> unat cap"
  shows "job_ok cap j' (xs @ added_by e)"
proof (cases e)
  case (AddPacket p t)
  then have m: "main_thread j = Filling" using assms(4) by (simp split: if_splits)
  have l: "length p \<le> MAX_DOUBLE_TAGGED_PACKET" using assms(3) AddPacket by (simp add: quiet_def)
  obtain j'' where "job_addPacket lib p t j = (Inr (), j'')" "job_ok cap j'' (xs @ added_by e)"
    using job_addPacket_ok [OF assms(1,2) m l, of t] assms(5) AddPacket by auto
  then show ?thesis using assms(4) AddPacket m by simp
next
  case Interrupted
  then show ?thesis using assms(2,4) by (auto simp: job_ok_def threads_ok_def split: if_splits)
next
  case KillTimeout
  then show ?thesis using assms(2,4) by (auto simp: job_ok_def threads_ok_def split: if_splits)
next
  case KillSignal
  then show ?thesis using assms(2,4) by (auto simp: job_ok_def threads_ok_def split: if_splits)
qed (use assms in \<open>auto simp: quiet_def split: if_splits worker_thread.splits
  intro: space_available_ok worker_take_ok worker_sent_ok job_fields_ok job_close_ok\<close>)

lemma job_reach_ok:
  assumes "job_reach lib j0 es j" and "winpcap_ok lib" and "job_ok cap j0 []" and "quiet es"
    and "length (allQueues j0) = 1 \<Longrightarrow> queue_bytes (added es) \<le> unat cap"
  shows "job_ok cap j (added es)"
  using assms
proof (induction rule: job_reach.induct)
  case (step es j e j')
  have b: "queue_bytes (added es) \<le> unat cap" if "length (allQueues j0) = 1"
    using step.prems(4) [OF that] by simp
  have "job_ok cap j (added es)" using step.prems(3) by (intro step.IH step.prems(1,2) b) (simp_all add: quiet_append)
  then show ?case
    using job_do_ok [OF step.prems(1) _ _ step.hyps(2)] step.prems job_reach_length [OF step.hyps(1)]
    by (simp add: quiet_append)
qed simp

lemma job_reach_from_new:
  assumes "winpcap_ok lib" and "calm g" and "well_sized linkspeed packetCnt totalBytes"
    and "new_cJob lib k g packetCnt totalBytes sync linkspeed = Inr j0" and "job_reach lib j0 es j"
    and "quiet es" and "announced packetCnt totalBytes (added es)"
  obtains cap where "job_ok cap j (added es)" "length (allQueues j) = 1 \<Longrightarrow> queue_bytes (added es) \<le> unat cap"
proof -
  obtain cap where cap: "job_ok cap j0 []"
    "length (allQueues j0) = 1 \<Longrightarrow> packetCnt \<noteq> 0 \<and> unat cap = unat (wholeNeededMemory linkspeed packetCnt totalBytes)"
    by (rule new_cJob_ok [OF assms(1-4)]) blast
  have room: "queue_bytes (added es) \<le> unat cap" if "length (allQueues j0) = 1"
    using cap(2) [OF that] announced_bytes [OF assms(7), of linkspeed] by simp
  from job_reach_ok [OF assms(5,1) cap(1) assms(6) this] show thesis
    using room job_reach_length [OF assms(5)] by (intro that) simp_all
qed

text \<open>The two threads never use the same queue, and what is sent is what was added, in this order.\<close>

lemma job_ok_safe:
  assumes "job_ok cap j xs"
  shows "main_thread j = Filling \<Longrightarrow> worker_thread j = Sending p b \<Longrightarrow> currSendQueueIn j \<noteq> currSendQueueOut j"
    and "\<exists>ys. xs = sent_packets j @ ys"
    and "main_thread j \<noteq> Failed e"
    and "main_thread j = Joined \<Longrightarrow> sent_packets j = xs \<and> job_sentPackets j = of_nat (length xs)"
proof -
  let ?n = "length (allQueues j)"
  assume m: "main_thread j = Filling" "worker_thread j = Sending p b"
  then have "0 < filled j" by (simp add: filled_def)
  moreover have "filled j < ?n" by (rule filling_position(1) [OF assms m(1)])
  moreover have "currSendQueueOut j < ?n" using assms by (simp add: job_ok_def positions_ok_def Let_def)
  ultimately show "currSendQueueIn j \<noteq> currSendQueueOut j"
    using ring_position [of "filled j" ?n 0 "currSendQueueOut j"] filling_position(4) [OF assms m(1)] by fastforce
next
  show "\<exists>ys. xs = sent_packets j @ ys" using assms by (auto simp: job_ok_def queues_ok_def)
  show "main_thread j \<noteq> Failed e" using assms by (simp add: job_ok_def threads_ok_def)
  assume m: "main_thread j = Joined"
  then have "filled j = 0" "in_hand j = 0" using assms by (auto simp: job_ok_def threads_ok_def filled_def in_hand_def)
  then have "\<forall>q\<in>set (ring j). packets_in q = []"
    using assms by (auto simp: job_ok_def queues_ok_def in_set_conv_nth)
  then have "concat (map packets_in (ring j)) = []" by simp
  moreover have "sent_packets j @ concat (map packets_in (ring j)) = xs" "job_sentPackets j = of_nat (length (sent_packets j))"
    using assms by (simp_all add: job_ok_def queues_ok_def)
  ultimately show "sent_packets j = xs \<and> job_sentPackets j = of_nat (length xs)" by (metis append_Nil2)
qed

subsection \<open>The job can always be finished\<close>

definition can_finish :: "winpcap \<Rightarrow> cJob \<Rightarrow> bool" where
  "can_finish lib j \<longleftrightarrow> (\<exists>es j'. job_reach lib j es j' \<and> main_thread j' = Joined \<and> quiet es \<and> added es = [])"

lemma job_reach_trans: "job_reach lib j es' j' \<Longrightarrow> job_reach lib j0 es j \<Longrightarrow> job_reach lib j0 (es @ es') j'"
  by (induction rule: job_reach.induct) (auto simp flip: append_assoc intro: job_reach.step)

lemma job_reach_single: "job_do lib e j = Some j' \<Longrightarrow> job_reach lib j [e] j'"
  by (metis append_Nil job_reach.start job_reach.step)

lemma job_run_reach: "job_run lib es j = Some j' \<Longrightarrow> job_reach lib j es j'"
proof (induction es arbitrary: j)
  case (Cons e es)
  then obtain j1 where "job_do lib e j = Some j1" "job_run lib es j1 = Some j'" by (auto simp: bind_eq_Some_conv)
  then have "job_reach lib j ([e] @ es) j'" by (intro job_reach_trans [of lib j1 es j' j "[e]"] Cons.IH job_reach_single)
  then show ?case by simp
qed (simp add: job_reach.start)

lemma can_finish_step:
  assumes "job_do lib e j = Some j'" and "can_finish lib j'" and "added_by e = []" and "e \<noteq> CtrlC"
  shows "can_finish lib j"
proof -
  obtain es j'' where es: "job_reach lib j' es j''" "main_thread j'' = Joined" "quiet es" "added es = []"
    using assms(2) by (auto simp: can_finish_def)
  have "job_reach lib j (e # es) j''" using job_reach_trans [OF es(1) job_reach_single [OF assms(1)]] by simp
  moreover have "quiet (e # es)" using assms(3,4) es(3) by (auto simp: quiet_def)
  ultimately show ?thesis using es(2,4) assms(3) unfolding can_finish_def by (intro exI [of _ "e # es"] exI [of _ j'']) simp
qed

text \<open>An action that adds nothing keeps the invariant.\<close>

lemma job_do_idle_ok:
  assumes "winpcap_ok lib" and "job_ok cap j xs" and "job_do lib e j = Some j'" and "added_by e = []" and "e \<noteq> CtrlC"
    and "length (allQueues j) = 1 \<Longrightarrow> queue_bytes xs \<le> unat cap"
  shows "job_ok cap j' xs"
proof -
  have "quiet [e]" using assms(4,5) by (auto simp: quiet_def)
  from job_do_ok [OF assms(1,2) this assms(3)] show ?thesis using assms(4,6) by simp
qed

lemma joining_finishes:
  assumes "winpcap_ok lib" and "job_ok cap j xs" and "main_thread j = Joining"
    and "length (allQueues j) = 1 \<Longrightarrow> queue_bytes xs \<le> unat cap"
  shows "can_finish lib j"
  using assms
proof (induction "2 * semDataAvail j + (case worker_thread j of Sending _ _ \<Rightarrow> 1 | _ \<Rightarrow> 0)" arbitrary: j rule: less_induct)
  case less
  have t: "\<not> sigEvent j" "worker_thread j \<noteq> Killed" "termEvent j \<or> worker_thread j = Finished"
    using less.prems by (simp_all add: job_ok_def threads_ok_def)
  have joined: "can_finish lib j" if "main_thread j = Joining" "worker_thread j = Finished" "\<not> sigEvent j" for j
    unfolding can_finish_def
    by (intro exI [of _ "[Join]"] exI [of _ "job_end lib j"] conjI job_reach_single)
      (use that in \<open>simp_all add: job_end_def quiet_def\<close>)
  have smaller: "can_finish lib j" if "job_do lib e j = Some j'" "e \<in> {Take, Sent}" for e j'
  proof (rule can_finish_step [OF that(1)])
    have "job_ok cap j' xs" using job_do_idle_ok [OF less.prems(1,2) that(1)] that(2) less.prems(4) by auto
    moreover have "main_thread j' = Joining"
      using that less.prems(3) by (auto simp: worker_take_def worker_sent_def sq_flush_def Let_def split: if_splits worker_thread.splits)
    ultimately show "can_finish lib j'"
      using that less.prems(1,4) job_do_length [OF that(1)]
      by (intro less.hyps) (auto simp: worker_take_def worker_sent_def sq_flush_def Let_def split: if_splits worker_thread.splits)
  qed (use that(2) in auto)
  show ?case
  proof (cases "worker_thread j")
    case Idle
    show ?thesis
    proof (cases "semDataAvail j")
      case 0
      then have "job_do lib Leave j = Some (j\<lparr>termEvent := False, worker_thread := Finished\<rparr>)" using Idle t by simp
      then show ?thesis by (rule can_finish_step [OF _ joined]) (use less.prems(3) t(1) in simp_all)
    next
      case (Suc n)
      then show ?thesis using smaller [of Take "worker_take j"] Idle by simp
    qed
  next
    case (Sending p b)
    then show ?thesis using smaller [of Sent "worker_sent lib p b j"] by simp
  qed (use t less.prems(3) joined in auto)
qed

lemma filling_finishes:
  assumes "winpcap_ok lib" and "job_ok cap j xs" and "main_thread j = Filling"
    and "length (allQueues j) = 1 \<Longrightarrow> queue_bytes xs \<le> unat cap"
  shows "can_finish lib j"
proof -
  have c: "job_do lib Close j = Some (job_close j)" using assms(3) by simp
  show ?thesis
    using job_close_ok [OF assms(2,3)] job_do_length [OF c] assms(1,4)
    by (intro can_finish_step [OF c] joining_finishes) auto
qed

lemma waiting_finishes:
  assumes "winpcap_ok lib" and "job_ok cap j xs" and "main_thread j = Waiting"
  shows "can_finish lib j"
proof -
  have acquire: "can_finish lib j" if j: "job_ok cap j xs" "main_thread j = Waiting" "0 < semSpaceAvail j" for j
  proof -
    have c: "job_do lib Acquire j = Some (space_available j)" using j by (simp add: job_ok_def threads_ok_def)
    have "length (allQueues j) = 3" using j by (auto simp: job_ok_def positions_ok_def Let_def)
    then show ?thesis
      using space_available_ok [OF j] job_do_length [OF c] assms(1)
      by (intro can_finish_step [OF c] filling_finishes) (auto simp: space_available_def)
  qed
  have sent: "can_finish lib j" if j: "job_ok cap j xs" "main_thread j = Waiting" "worker_thread j = Sending p b" for j p b
  proof -
    have c: "job_do lib Sent j = Some (worker_sent lib p b j)" using j by simp
    show ?thesis
      using worker_sent_ok [OF assms(1) j(1,3)] j
      by (intro can_finish_step [OF c] acquire) (auto simp: worker_sent_def sq_flush_def Let_def ReleaseSemaphore_def MAX_SEND_QUEUES_def)
  qed
  show ?thesis
  proof (cases "0 < semSpaceAvail j")
    case True
    then show ?thesis using assms acquire by blast
  next
    case False
    then have f: "filled j = 3" using assms(2,3) by (simp add: job_ok_def positions_ok_def Let_def in_hand_def)
    show ?thesis
    proof (cases "worker_thread j")
      case Idle
      then have c: "job_do lib Take j = Some (worker_take j)" and d: "0 < semDataAvail j" using f by (simp_all add: filled_def)
      show ?thesis
        using worker_take_ok [OF assms(2) Idle d] assms(3)
        by (intro can_finish_step [OF c] sent) (auto simp: worker_take_def Let_def)
    next
      case (Sending p b)
      then show ?thesis using sent assms(2,3) by blast
    qed (use assms(2,3) in \<open>auto simp: job_ok_def threads_ok_def\<close>)
  qed
qed

subsection \<open>One queue for both threads\<close>

definition adding :: "byte list \<times> cTimeval \<Rightarrow> job_event" where
  "adding x = AddPacket (fst x) (snd x)"

lemma added_adding_snoc: "added (map adding (xs @ [y])) =
   added (map adding xs) @ [(packet_header (length (fst y)) (snd y), fst y)]"
  by (simp add: adding_def)

lemma job_reach_snoc: "job_reach lib j0 es j \<Longrightarrow> job_do lib e j = Some j' \<Longrightarrow> es' = es @ [e] \<Longrightarrow> job_reach lib j0 es' j'"
  by (simp add: job_reach.step)

lemma single_queue_put:
  assumes "winpcap_ok lib" and "queue_ok cap q" and "currSendQueueIn j = 0" and "main_thread j = Filling"
    and "queue_bytes (packets_in q @ [(packet_header (length (fst y)) (snd y), fst y)]) \<le> unat cap"
  obtains q' where "queue_ok cap q'" "packets_in q' = packets_in q @ [(packet_header (length (fst y)) (snd y), fst y)]"
    "job_do lib (adding y) (j\<lparr>allQueues := [q]\<rparr>) = Some (if unat (pcapMaxQueueSize j) \<le> queue_bytes (packets_in q') + max_room
       then j\<lparr>allQueues := [q'], semDataAvail := ReleaseSemaphore (semDataAvail j), main_thread := Waiting\<rparr>
       else j\<lparr>allQueues := [q']\<rparr>)"
proof -
  obtain q' where q: "sq_add lib (packet_header (length (fst y)) (snd y)) (fst y) q = (Inr (), q')" "queue_ok cap q'"
    "packets_in q' = packets_in q @ [(packet_header (length (fst y)) (snd y), fst y)]"
    using sq_add_ok [OF assms(1,2), of "fst y"] assms(5) by auto
  show thesis
    by (rule that [OF q(2,3)])
      (use q(1) assms(3,4) queue_full_iff [OF q(2), of "pcapMaxQueueSize j"] in \<open>simp add: adding_def job_addPacket_def\<close>)
qed

lemma single_queue_filled:
  assumes "winpcap_ok lib" and "allQueues j0 = [q0]" and "queue_ok cap q0" and "packets_in q0 = []"
    and "currSendQueueIn j0 = 0" and "main_thread j0 = Filling"
  shows "queue_bytes (added (map adding xs)) \<le> unat cap \<Longrightarrow>
     queue_bytes (added (map adding xs)) + max_room < unat (pcapMaxQueueSize j0) \<Longrightarrow>
     \<exists>q. job_reach lib j0 (map adding xs) (j0\<lparr>allQueues := [q]\<rparr>) \<and> queue_ok cap q \<and> packets_in q = added (map adding xs)"
proof (induction xs rule: rev_induct)
  case Nil
  have "j0\<lparr>allQueues := [q0]\<rparr> = j0" using assms(2) by (metis cJob.surjective cJob.update_convs(1))
  then show ?case using assms(3,4) job_reach.start [of lib j0] by (intro exI [of _ q0]) simp
next
  case (snoc y xs)
  have "queue_bytes (added (map adding xs)) \<le> unat cap"
    "queue_bytes (added (map adding xs)) + max_room < unat (pcapMaxQueueSize j0)"
    using snoc.prems by (simp_all add: added_adding_snoc del: map_append)
  from snoc.IH [OF this] obtain q where q: "job_reach lib j0 (map adding xs) (j0\<lparr>allQueues := [q]\<rparr>)" "queue_ok cap q"
    "packets_in q = added (map adding xs)" by blast
  have "queue_bytes (packets_in q @ [(packet_header (length (fst y)) (snd y), fst y)]) \<le> unat cap"
    using snoc.prems(1) q(3) by (simp add: added_adding_snoc del: map_append)
  from single_queue_put [OF assms(1) q(2) assms(5,6) this]
  obtain q' where q': "queue_ok cap q'" "packets_in q' = packets_in q @ [(packet_header (length (fst y)) (snd y), fst y)]"
    "job_do lib (adding y) (j0\<lparr>allQueues := [q]\<rparr>) = Some (if unat (pcapMaxQueueSize j0) \<le> queue_bytes (packets_in q') + max_room
       then j0\<lparr>allQueues := [q'], semDataAvail := ReleaseSemaphore (semDataAvail j0), main_thread := Waiting\<rparr>
       else j0\<lparr>allQueues := [q']\<rparr>)" by blast
  have "packets_in q' = added (map adding (xs @ [y]))" using q'(2) q(3) by (simp only: added_adding_snoc)
  moreover from this have "job_do lib (adding y) (j0\<lparr>allQueues := [q]\<rparr>) = Some (j0\<lparr>allQueues := [q']\<rparr>)"
    using q'(3) snoc.prems(2) by simp
  ultimately show ?case using q'(1) job_reach.step [OF q(1)] by (intro exI [of _ q']) simp
qed

lemma single_queue_shared:
  assumes "winpcap_ok lib" and "allQueues j0 = [q0]" and "queue_ok cap q0" and "packets_in q0 = []"
    and "currSendQueueIn j0 = 0" and "currSendQueueOut j0 = 0" and "main_thread j0 = Filling" and "worker_thread j0 = Idle"
    and "semSpaceAvail j0 = 2" and "semDataAvail j0 = 0" and "\<not> sigEvent j0"
    and "queue_bytes (added (map adding (xs @ [y]))) \<le> unat cap"
    and "queue_bytes (added (map adding xs)) + max_room < unat (pcapMaxQueueSize j0)"
    and "unat (pcapMaxQueueSize j0) \<le> queue_bytes (added (map adding (xs @ [y]))) + max_room"
  shows "\<exists>j p b. job_reach lib j0 (map adding (xs @ [y]) @ [Take, Acquire]) j \<and> main_thread j = Filling
    \<and> worker_thread j = Sending p b \<and> currSendQueueIn j = currSendQueueOut j"
proof -
  have "queue_bytes (added (map adding xs)) \<le> unat cap"
    using assms(12) by (simp add: added_adding_snoc del: map_append)
  from single_queue_filled [OF assms(1-5,7) this assms(13)] obtain q where
    q: "job_reach lib j0 (map adding xs) (j0\<lparr>allQueues := [q]\<rparr>)" "queue_ok cap q" "packets_in q = added (map adding xs)" by blast
  have "queue_bytes (packets_in q @ [(packet_header (length (fst y)) (snd y), fst y)]) \<le> unat cap"
    using assms(12) q(3) by (simp add: added_adding_snoc del: map_append)
  from single_queue_put [OF assms(1) q(2) assms(5,7) this]
  obtain q' where q': "packets_in q' = packets_in q @ [(packet_header (length (fst y)) (snd y), fst y)]"
    "job_do lib (adding y) (j0\<lparr>allQueues := [q]\<rparr>) = Some (if unat (pcapMaxQueueSize j0) \<le> queue_bytes (packets_in q') + max_room
       then j0\<lparr>allQueues := [q'], semDataAvail := ReleaseSemaphore (semDataAvail j0), main_thread := Waiting\<rparr>
       else j0\<lparr>allQueues := [q']\<rparr>)" by blast
  let ?j = "j0\<lparr>allQueues := [q'], semDataAvail := 1, main_thread := Waiting\<rparr>"
  let ?j' = "space_available (worker_take ?j)"
  have "packets_in q' = added (map adding (xs @ [y]))" using q'(1) q(3) by (simp only: added_adding_snoc)
  then have "job_do lib (adding y) (j0\<lparr>allQueues := [q]\<rparr>) = Some ?j"
    using q'(2) assms(10,14) by (simp add: ReleaseSemaphore_def MAX_SEND_QUEUES_def)
  from job_reach.step [OF q(1) this] have "job_reach lib j0 (map adding (xs @ [y])) ?j" by simp
  moreover have take: "job_do lib Take ?j = Some (worker_take ?j)" using assms(8) by simp
  moreover have "job_do lib Acquire (worker_take ?j) = Some ?j'"
    using assms(9,11) by (simp add: worker_take_def Let_def)
  ultimately have "job_reach lib j0 ((map adding (xs @ [y]) @ [Take]) @ [Acquire]) ?j'" by (blast intro: job_reach.step)
  moreover have "main_thread ?j' = Filling" "currSendQueueIn ?j' = currSendQueueOut ?j'"
    "worker_thread ?j' = Sending (packetsQueued q') (packetBytesQueued q')"
    using assms(5,6) by (simp_all add: space_available_def worker_take_def Let_def)
  ultimately show ?thesis by (intro exI [of _ ?j'] exI) simp
qed

lemma new_cJob_single:
  assumes "winpcap_ok lib" and "calm g" and "new_cJob lib k g packetCnt totalBytes sync linkspeed = Inr j0"
    and "wholeNeededMemory linkspeed packetCnt totalBytes < linkspeed div 8" and "unat (linkspeed div 8) < 2 ^ 32"
  obtains q0 cap where "allQueues j0 = [q0]" "queue_ok cap q0" "packets_in q0 = []"
    "unat cap = unat (wholeNeededMemory linkspeed packetCnt totalBytes)" "packetCnt \<noteq> 0"
    "pcapMaxQueueSize j0 = linkspeed div 8"
    "currSendQueueIn j0 = 0" "currSendQueueOut j0 = 0" "main_thread j0 = Filling" "worker_thread j0 = Idle"
    "semSpaceAvail j0 = 2" "semDataAvail j0 = 0" "\<not> sigEvent j0"
proof -
  let ?needed = "wholeNeededMemory linkspeed packetCnt totalBytes"
  obtain q where q: "new_cPcapSendQueue lib ?needed = Inr q" "queue_ok (ucast ?needed) q" "packets_in q = []"
    using new_cPcapSendQueue_ok [OF assms(1)] .
  have "unat ?needed < 2 ^ 32" using assms(4,5) by (simp add: word_less_nat_alt)
  then have u: "unat (ucast ?needed :: u32) = unat ?needed" by (simp add: unsigned_ucast_eq take_bit_nat_eq_self)
  have c: "packetCnt \<noteq> 0" "\<not> linkspeed div 8 \<le> ?needed" using assms(4) by (auto simp: wholeNeededMemory_def)
  show thesis
    by (rule that [OF _ q(2,3) u c(1)])
      (use assms(2,3) q(1) c(2) in \<open>auto simp: calm_def sigintGetEventHandle_def new_cJob_def new_queues_def MAX_SEND_QUEUES_def split: option.splits\<close>)
qed

subsection \<open>An example\<close>

text \<open>
  A WinPcap as the hypotheses describe it, no Ctrl-C so far, a link of 12400 bit/s, on which every packet
  fills a queue, and a run of both threads.
\<close>

definition example_winpcap :: winpcap where
  "example_winpcap = \<lparr>sendqueue_alloc = (\<lambda>n. Some \<lparr>sq_maxlen = n, sq_len = 0, sq_packets = []\<rparr>),
     sendqueue_queue = (\<lambda>q (h, p).
       if unat (sq_len q) + sizeof_pkthdr + length p \<le> unat (sq_maxlen q)
       then (0, q\<lparr>sq_len := sq_len q + of_nat (sizeof_pkthdr + length p), sq_packets := sq_packets q @ [(h, p)]\<rparr>)
       else (-1, q)),
     sendqueue_transmit = (\<lambda>k sync q. sq_len q), pcap_sendpacket = (\<lambda>k p. 0), pcap_opens = (\<lambda>s. True),
     performance_counter = (\<lambda>k. k), performance_frequency = 10000000\<rparr>"

definition no_signal :: winSignal where
  "no_signal = \<lparr>sigintEvent = None, win_gSigIntStatus = 0, win_callback = None\<rparr>"

definition after_run :: "u64 \<Rightarrow> u64 \<Rightarrow> job_event list \<Rightarrow> (cJob \<Rightarrow> bool) \<Rightarrow> bool" where
  "after_run packetCnt totalBytes es P = (case new_cJob example_winpcap 0 no_signal packetCnt totalBytes False 12400 of
     Inl e \<Rightarrow> False | Inr j0 \<Rightarrow> (case job_run example_winpcap es j0 of None \<Rightarrow> False | Some j \<Rightarrow> P j))"

lemma after_runE:
  assumes "after_run packetCnt totalBytes es P"
  obtains j0 j where "new_cJob example_winpcap 0 no_signal packetCnt totalBytes False 12400 = Inr j0"
    "job_reach example_winpcap j0 es j" "P j"
  using assms by (auto simp: after_run_def split: sum.splits option.splits intro: job_run_reach)

definition example_start :: "job_event list" where
  "example_start = [AddPacket [1, 2, 3] 0, Acquire, AddPacket [4, 5] 1, Take, Acquire, AddPacket [6, 7] 2]"

definition example_events :: "job_event list" where
  "example_events = example_start @ [Sent, Take, Acquire, AddPacket [] 3, Sent, Take, Acquire, Close, Sent, Take, Sent, Leave, Join]"

lemmas run_simps = job_addPacket_def packet_header_def timeval_of_def tv_s_def sq_add_def sizeof_pkthdr_def queue_full_def
  MAX_DOUBLE_TAGGED_PACKET_def MAX_ETHERNET_PAYLOAD_def ReleaseSemaphore_def MAX_SEND_QUEUES_def space_available_def
  worker_take_def worker_sent_def sq_flush_def sq_reset_def job_close_def job_end_def Let_def max_room_def
  new_cJob_def new_queues_def wholeNeededMemory_def new_cPcapSendQueue_def sigintGetEventHandle_def no_signal_def
  example_winpcap_def after_run_def

lemma example_runs:
  "after_run 0 0 example_events (\<lambda>j. main_thread j = Joined)"
  "after_run 0 0 example_start (\<lambda>j. main_thread j = Waiting)"
  "after_run 2 6 [] (\<lambda>j. True)"
  by (simp_all add: example_events_def example_start_def run_simps upt_rec)

lemma example_ok:
  "winpcap_ok example_winpcap" "calm no_signal" "well_sized 12400 0 0" "quiet example_events" "quiet example_start"
  "announced 0 0 xs"
  by (auto simp: winpcap_ok_def example_winpcap_def calm_def no_signal_def well_sized_def Let_def wholeNeededMemory_def
      max_room_def MAX_DOUBLE_TAGGED_PACKET_def MAX_ETHERNET_PAYLOAD_def sizeof_pkthdr_def quiet_def example_events_def
      example_start_def announced_def)

subsection \<open>What the send queues promise\<close>

lemma job_finishes:
  assumes "winpcap_ok lib" and "job_ok cap j xs" and "length (allQueues j) = 1 \<Longrightarrow> queue_bytes xs \<le> unat cap"
  shows "can_finish lib j"
proof (cases "main_thread j")
  case Joined
  then show ?thesis using job_reach.start [of lib j] by (auto simp: can_finish_def quiet_def intro!: exI [of _ "[]"])
qed (use assms filling_finishes waiting_finishes joining_finishes in \<open>auto simp: job_ok_def threads_ok_def\<close>)

lemma announced_same: "added es' = [] \<Longrightarrow> announced c b (added (es @ es')) = announced c b (added es)"
  by simp

text \<open>
  C19: with the sizes announced to \<open>prepareSendQueue\<close> the two threads of the Windows interface never use
  the same send queue, whatever the order of their actions is; packets are sent in the order of their
  arrival and none is lost, doubled or refused, and when the destructor has waited for the worker all of
  them are sent and counted.
\<close>

theorem send_queues_in_order:
  assumes "winpcap_ok lib" and "calm g" and "well_sized linkspeed packetCnt totalBytes"
    and "new_cJob lib k g packetCnt totalBytes sync linkspeed = Inr j0" and "job_reach lib j0 es j"
    and "quiet es" and "announced packetCnt totalBytes (added es)"
  shows "(main_thread j = Filling \<longrightarrow> (\<exists>p b. worker_thread j = Sending p b) \<longrightarrow> currSendQueueIn j \<noteq> currSendQueueOut j)
    \<and> (\<exists>ys. added es = sent_packets j @ ys) \<and> (\<forall>e. main_thread j \<noteq> Failed e)
    \<and> (main_thread j = Joined \<longrightarrow> sent_packets j = added es \<and> job_sentPackets j = of_nat (length (added es)))"
proof -
  obtain cap where "job_ok cap j (added es)" by (rule job_reach_from_new [OF assms])
  from job_ok_safe [OF this] show ?thesis by blast
qed

theorem send_queues_in_order_witness:
  "\<exists>j0 j. job_reach example_winpcap j0 example_events j \<and> main_thread j = Joined \<and> sent_packets j = added example_events"
proof -
  obtain j0 j where j: "new_cJob example_winpcap 0 no_signal 0 0 False 12400 = Inr j0"
    "job_reach example_winpcap j0 example_events j" "main_thread j = Joined"
    using example_runs(1) by (rule after_runE)
  from send_queues_in_order [OF example_ok(1-3) j(1,2) example_ok(4,6)] show ?thesis using j(2,3) by blast
qed

text \<open>
  C20: from every state the two threads reach, the main thread waiting for a free queue included, the job can
  be finished: there is no deadlock, and then everything that was added is sent.
\<close>

theorem send_queues_finish:
  assumes "winpcap_ok lib" and "calm g" and "well_sized linkspeed packetCnt totalBytes"
    and "new_cJob lib k g packetCnt totalBytes sync linkspeed = Inr j0" and "job_reach lib j0 es j"
    and "quiet es" and "announced packetCnt totalBytes (added es)"
  shows "\<exists>es' j'. job_reach lib j es' j' \<and> quiet es' \<and> added es' = [] \<and> main_thread j' = Joined
    \<and> sent_packets j' = added es"
proof -
  obtain cap where cap: "job_ok cap j (added es)" "length (allQueues j) = 1 \<Longrightarrow> queue_bytes (added es) \<le> unat cap"
    by (rule job_reach_from_new [OF assms]) blast
  from job_finishes [OF assms(1) cap] obtain es' j' where j': "job_reach lib j es' j'" "main_thread j' = Joined"
    "quiet es'" "added es' = []" by (auto simp: can_finish_def)
  have "quiet (es @ es')" "announced packetCnt totalBytes (added (es @ es'))"
    using assms(6,7) j'(3,4) by (simp_all add: quiet_append)
  from job_reach_from_new [OF assms(1-4) job_reach_trans [OF j'(1) assms(5)] this]
  obtain cap' where "job_ok cap' j' (added (es @ es'))" .
  from job_ok_safe(4) [OF this j'(2)] show ?thesis using j' by auto
qed

theorem send_queues_finish_witness:
  "\<exists>j es j'. main_thread j = Waiting \<and> job_reach example_winpcap j es j' \<and> quiet es \<and> main_thread j' = Joined
    \<and> sent_packets j' = added example_start"
proof -
  obtain j0 j where j: "new_cJob example_winpcap 0 no_signal 0 0 False 12400 = Inr j0"
    "job_reach example_winpcap j0 example_start j" "main_thread j = Waiting"
    using example_runs(2) by (rule after_runE)
  from send_queues_finish [OF example_ok(1-3) j(1,2) example_ok(5,6)] show ?thesis using j(3) by blast
qed

text \<open>
  C29: when everything to send fits into one queue, but not with room for another packet of the greatest
  length, the queue counts as full before the last packets; the semaphore says there is another one, and
  both threads get the only queue: the worker transmits and empties it while the main thread fills it.
\<close>

theorem single_queue_race:
  assumes "winpcap_ok lib" and "calm g" and "new_cJob lib k g packetCnt totalBytes sync linkspeed = Inr j0"
    and "wholeNeededMemory linkspeed packetCnt totalBytes < linkspeed div 8" and "unat (linkspeed div 8) < 2 ^ 32"
    and "announced packetCnt totalBytes (added (map adding (xs @ y # z # zs)))"
    and "queue_bytes (added (map adding xs)) + max_room < unat (linkspeed div 8)"
    and "unat (linkspeed div 8) \<le> queue_bytes (added (map adding (xs @ [y]))) + max_room"
  shows "\<exists>j p b. job_reach lib j0 (map adding (xs @ [y]) @ [Take, Acquire]) j \<and> main_thread j = Filling
    \<and> worker_thread j = Sending p b \<and> currSendQueueIn j = currSendQueueOut j"
proof -
  obtain q0 cap where j0: "allQueues j0 = [q0]" "queue_ok cap q0" "packets_in q0 = []"
    "unat cap = unat (wholeNeededMemory linkspeed packetCnt totalBytes)" "packetCnt \<noteq> 0"
    "pcapMaxQueueSize j0 = linkspeed div 8"
    "currSendQueueIn j0 = 0" "currSendQueueOut j0 = 0" "main_thread j0 = Filling" "worker_thread j0 = Idle"
    "semSpaceAvail j0 = 2" "semDataAvail j0 = 0" "\<not> sigEvent j0"
    by (rule new_cJob_single [OF assms(1-5)])
  have "queue_bytes (added (map adding (xs @ [y]))) \<le> queue_bytes (added (map adding (xs @ y # z # zs)))" by simp
  also have "\<dots> \<le> unat cap" using announced_bytes [OF assms(6) j0(5), of linkspeed] j0(4) by simp
  finally show ?thesis
    using assms(7,8) j0(6) by (intro single_queue_shared [OF assms(1) j0(1-3,7-13)]) simp_all
qed

theorem single_queue_race_witness:
  "\<exists>j0 j p b. job_reach example_winpcap j0 [AddPacket [1, 2, 3] 0, Take, Acquire] j \<and> main_thread j = Filling
    \<and> worker_thread j = Sending p b \<and> currSendQueueIn j = currSendQueueOut j"
proof -
  obtain j0 where j0: "new_cJob example_winpcap 0 no_signal 2 6 False 12400 = Inr j0"
    using example_runs(3) by (rule after_runE)
  show ?thesis
    using single_queue_race [OF example_ok(1,2) j0, of "[]" "([1, 2, 3], 0)" "([4, 5, 6], 0)" "[]"]
    by (auto simp: wholeNeededMemory_def announced_def adding_def run_simps)
qed

end
