(* ===== verification/WinInterface.thy ===== *)
theory WinInterface
  imports SendQueue
begin

section \<open>The network interface on Windows\<close>

text \<open>
  The rest of src/os/win32: \<open>cInterface\<close>, which sends over WinPcap, directly or with a \<open>cJob\<close>, and arp.cpp and
  sleep.cpp. What the system answers is the record \<open>win32\<close>, what WinPcap does \<open>winpcap\<close>. A
  \<open>PIP_ADAPTER_ADDRESSES\<close> into the list of the adapters is a position in it; the list is None before it is
  read and after it is freed. Console output is left out.
\<close>

subsection \<open>The adapters\<close>

datatype win_sockaddr = NoSockaddr | SockaddrIn "byte list" | SockaddrIn6 "byte list" | OtherSockaddr

record win_adapter =
  AdapterName :: string
  FriendlyName :: "u16 list"
  PhysicalAddress :: "byte list"
  PhysicalAddressLength :: u32
  UnicastAddresses :: "win_sockaddr list"
  Mtu :: u32
  TransmitLinkSpeed :: u64

record win32 =
  adapters_size :: u32
  malloc_succeeds :: bool
  adapter_list :: "win_adapter list option"
  SendARP :: "byte list \<Rightarrow> byte list \<Rightarrow> u32 \<times> byte list \<times> u32"

record winInterface =
  wi_name :: string
  wi_opened :: bool
  winNetAdapters :: "win_adapter list option"
  adapterInfo :: "nat option"
  wi_linkSpeed :: u64
  wi_sentPackets :: u64
  wi_sentBytes :: u64
  wi_duration :: "double res"
  wi_job :: "cJob option"
  wi_sends :: nat
  wi_wire :: "byte list list"
  wi_clock :: nat

definition getAdapterAddresses :: "win32 \<Rightarrow> win_adapter list option" where
  "getAdapterAddresses os =
     (if adapters_size os = 0 then None else if \<not> malloc_succeeds os then None else adapter_list os)"

text \<open>\<open>std::wstring wname (name.begin (), name.end ())\<close>: every \<open>char\<close>, which is signed, becomes a \<open>wchar_t\<close>.\<close>

definition wide :: "string \<Rightarrow> u16 list" where
  "wide s = map (\<lambda>c. scast (of_nat (code_of c) :: byte)) s"

fun find_adapter :: "string \<Rightarrow> nat \<Rightarrow> win_adapter list \<Rightarrow> nat option" where
  "find_adapter name n [] = None"
| "find_adapter name n (a # as) =
     (if AdapterName a = name then Some n
      else if FriendlyName a = wide name then Some n
      else find_adapter name (n + 1) as)"

definition getAdapterInfo :: "winInterface \<Rightarrow> nat option" where
  "getAdapterInfo i = (case winNetAdapters i of None \<Rightarrow> None | Some as \<Rightarrow> find_adapter (wi_name i) 0 as)"

definition new_winInterface :: "win32 \<Rightarrow> string \<Rightarrow> winInterface" where
  "new_winInterface os ifname =
     (let i = \<lparr>wi_name = ifname, wi_opened = False, winNetAdapters = None, adapterInfo = None, wi_linkSpeed = 0,
                wi_sentPackets = 0, wi_sentBytes = 0, wi_duration = Inr (Fin 0 0), wi_job = None, wi_sends = 0,
                wi_wire = [], wi_clock = 0\<rparr>;
          i = i\<lparr>winNetAdapters := getAdapterAddresses os\<rparr>
      in i\<lparr>adapterInfo := getAdapterInfo i\<rparr>)"

text \<open>\<open>*adapterInfo\<close>, or None for a null pointer.\<close>

definition selected :: "(winInterface, win_adapter option) M" where
  "selected = bindM (getM id) (\<lambda>i. case adapterInfo i of
     None \<Rightarrow> returnM None
   | Some n \<Rightarrow> (case winNetAdapters i of
       None \<Rightarrow> throwM (Undefined ''adapterInfo points to freed memory'')
     | Some as \<Rightarrow> returnM (Some (as ! n))))"

definition win_isReady :: "winInterface \<Rightarrow> bool" where
  "win_isReady i = (adapterInfo i \<noteq> None)"

definition win_isOpen :: "winInterface \<Rightarrow> bool" where
  "win_isOpen i = wi_opened i"

definition win_getMAC :: "(winInterface, byte list option) M" where
  "win_getMAC = bindM selected (\<lambda>a. case a of
     None \<Rightarrow> returnM None
   | Some a \<Rightarrow>
       bindM (liftE (bugOn (PhysicalAddressLength a \<noteq> 6) ''adapterInfo->PhysicalAddressLength != cMacAddress::size()'')) (\<lambda>_.
       bindM (liftE (mac_set_mem (take (unat (PhysicalAddressLength a)) (PhysicalAddress a)))) (\<lambda>m. returnM (Some m))))"

text \<open>The loops over the unicast addresses. Zeroconf addresses are those of 169.254.0.0/16.\<close>

fun first_ipv4 :: "win_sockaddr list \<Rightarrow> byte list option" where
  "first_ipv4 [] = None"
| "first_ipv4 (a # as) = (case a of
     SockaddrIn addr \<Rightarrow> if rd32 addr AND 0xFFFF0000 \<noteq> 0xA9FE0000 then Some addr else first_ipv4 as
   | _ \<Rightarrow> first_ipv4 as)"

fun first_ipv6 :: "win_sockaddr list \<Rightarrow> byte list option" where
  "first_ipv6 [] = None"
| "first_ipv6 (a # as) = (case a of SockaddrIn6 addr \<Rightarrow> Some addr | _ \<Rightarrow> first_ipv6 as)"

definition win_getIPv4 :: "(winInterface, byte list option) M" where
  "win_getIPv4 = bindM selected (\<lambda>a. returnM (Option.bind a (\<lambda>a. first_ipv4 (UnicastAddresses a))))"

definition win_getIPv6 :: "(winInterface, byte list option) M" where
  "win_getIPv6 = bindM selected (\<lambda>a. returnM (Option.bind a (\<lambda>a. first_ipv6 (UnicastAddresses a))))"

definition win_getMTU :: "(winInterface, u32) M" where
  "win_getMTU = bindM selected (\<lambda>a. returnM (case a of None \<Rightarrow> 0 | Some a \<Rightarrow> Mtu a))"

subsection \<open>Opening and sending\<close>

text \<open>The name WinPcap gives the adapter.\<close>

definition device_prefix :: string where
  "device_prefix = [CHR 0x5C] @ ''Device'' @ [CHR 0x5C] @ ''NPF_''"

definition win_open :: "winpcap \<Rightarrow> (winInterface, bool) M" where
  "win_open lib =
     bindM (getM wi_opened) (\<lambda>opened.
     if opened then returnM True
     else bindM selected (\<lambda>a. case a of
         None \<Rightarrow> returnM False
       | Some a \<Rightarrow>
           bindM (modifyM (\<lambda>i. i\<lparr>wi_opened := pcap_opens lib (device_prefix @ AdapterName a)\<rparr>)) (\<lambda>_.
           bindM (modifyM (\<lambda>i. i\<lparr>wi_linkSpeed := TransmitLinkSpeed a\<rparr>)) (\<lambda>_. getM wi_opened))))"

definition win_prepareSendQueue :: "winpcap \<Rightarrow> winSignal \<Rightarrow> u64 \<Rightarrow> u64 \<Rightarrow> bool \<Rightarrow> (winInterface, bool) M" where
  "win_prepareSendQueue lib g packetCnt totalBytes synchronized =
     bindM (getM id) (\<lambda>i.
     bindM (liftE (bugOn (wi_job i \<noteq> None) ''job'')) (\<lambda>_.
     bindM (liftE (bugOn (\<not> wi_opened i) ''!ifcHandle'')) (\<lambda>_.
     bindM (modifyM (\<lambda>i. i\<lparr>wi_sentPackets := 0, wi_sentBytes := 0, wi_duration := Inr (Fin 0 0)\<rparr>)) (\<lambda>_.
     bindM (liftE (new_cJob lib (wi_clock i) g packetCnt totalBytes synchronized (wi_linkSpeed i))) (\<lambda>j.
     bindM (modifyM (\<lambda>i. i\<lparr>wi_job := Some j\<rparr>)) (\<lambda>_. returnM True))))))"

text \<open>
  A call of the job by the main thread: its first action, then the actions \<open>es\<close> of both threads until the
  call returns. The main thread takes no action of another call meanwhile. None: these are no possible
  actions.
\<close>

definition during_call :: "job_event \<Rightarrow> bool" where
  "during_call e = (case e of AddPacket _ _ \<Rightarrow> False | Close \<Rightarrow> False | _ \<Rightarrow> True)"

definition job_call :: "winpcap \<Rightarrow> job_event \<Rightarrow> job_event list \<Rightarrow> cJob \<Rightarrow> cJob option" where
  "job_call lib e es j = (if list_all during_call es then job_run lib (e # es) j else None)"

definition sendPacket_job :: "winpcap \<Rightarrow> job_event list \<Rightarrow> byte list \<Rightarrow> cTimeval \<Rightarrow> cJob \<Rightarrow> (unit res \<times> cJob) option" where
  "sendPacket_job lib es payload t j = (case job_call lib (AddPacket payload t) es j of
     None \<Rightarrow> None
   | Some j \<Rightarrow> (case main_thread j of
       Filling \<Rightarrow> Some (Inr (), j)
     | Failed e \<Rightarrow> Some (Inl e, j)
     | _ \<Rightarrow> None))"

definition win_sendPacket :: "winpcap \<Rightarrow> job_event list \<Rightarrow> byte list \<Rightarrow> cTimeval \<Rightarrow> (winInterface, bool) N" where
  "win_sendPacket lib es payload t i = (case wi_job i of
     Some j \<Rightarrow> map_option (\<lambda>(r, j). (map_sum id (\<lambda>_. True) r, i\<lparr>wi_job := Some j\<rparr>)) (sendPacket_job lib es payload t j)
   | None \<Rightarrow>
       (let ret = pcap_sendpacket lib (wi_sends i) payload;
            i = i\<lparr>wi_sends := wi_sends i + 1\<rparr>;
            i = (if ret = -1 then i
                 else i\<lparr>wi_sentBytes := wi_sentBytes i + of_nat (length payload), wi_sentPackets := wi_sentPackets i + 1,
                       wi_wire := wi_wire i @ [payload]\<rparr>)
        in Some (Inr (ret = 0), i)))"

text \<open>
  \<open>delete job\<close>; deleting a null pointer does nothing. What the job has counted is in the members of the
  interface, and what it has sent is on the wire.
\<close>

definition win_flushSendQueue :: "winpcap \<Rightarrow> job_event list \<Rightarrow> (winInterface, bool) N" where
  "win_flushSendQueue lib es i = (case wi_job i of
     None \<Rightarrow> Some (Inr True, i)
   | Some j \<Rightarrow> (case job_call lib Close es j of
       None \<Rightarrow> None
     | Some j \<Rightarrow> (case main_thread j of
         Joined \<Rightarrow> Some (Inr True, i\<lparr>wi_job := None, wi_sentPackets := job_sentPackets j, wi_sentBytes := job_sentBytes j,
             wi_duration := job_duration j, wi_clock := k_counter j,
             wi_wire := wi_wire i @ map snd (concat (map fst (transmits j)))\<rparr>)
       | Failed e \<Rightarrow> Some (Inl e, i\<lparr>wi_job := Some j\<rparr>)
       | _ \<Rightarrow> None)))"

definition win_close :: "winpcap \<Rightarrow> job_event list \<Rightarrow> (winInterface, bool) N" where
  "win_close lib es =
     bindN (liftN (getM wi_opened)) (\<lambda>opened.
     if \<not> opened then liftN (returnM True)
     else bindN (win_flushSendQueue lib es) (\<lambda>_.
          liftN (bindM (modifyM (\<lambda>i. i\<lparr>wi_opened := False, winNetAdapters := None\<rparr>)) (\<lambda>_. returnM True))))"

definition win_getSendStatistic :: "winInterface \<Rightarrow> u64 \<times> u64 \<times> double res" where
  "win_getSendStatistic i = (case wi_job i of
     None \<Rightarrow> (wi_sentPackets i, wi_sentBytes i, wi_duration i)
   | Some j \<Rightarrow> (job_sentPackets j, job_sentBytes j, job_duration j))"

subsection \<open>cArp\<close>

text \<open>\<open>ownIp\<close> is zero when the interface has no address.\<close>

definition win_resolve :: "win32 \<Rightarrow> byte list \<Rightarrow> (winInterface, byte list option) M" where
  "win_resolve os ip =
     bindM (getM win_isOpen) (\<lambda>opened.
     bindM (liftE (bugOn (\<not> opened) ''!ifc.isOpen ()'')) (\<lambda>_.
     bindM win_getIPv4 (\<lambda>own.
     let ownIp = (case own of None \<Rightarrow> replicate 4 0 | Some a \<Rightarrow> a)
     in case SendARP os ip ownIp of (ret, macAddr, macLen) \<Rightarrow>
        if ret = 0 \<and> macLen = 6
        then bindM (liftE (mac_set_mem (take (unat macLen) macAddr))) (\<lambda>m. returnM (Some m))
        else returnM None)))"

end
