(* ===== verification/WinSleep.thy ===== *)
theory WinSleep
  imports Sleep
begin

section \<open>Waiting on Windows\<close>

text \<open>
  src/os/win32/sleep.cpp. The readings of the performance counter are a \<open>clock\<close>, in ticks; \<open>freq\<close> is the
  number of ticks of a second. The static variables are a record. \<open>::Sleep\<close> lets time pass, which the next
  reading shows.
\<close>

record win_sleep =
  ticksPerUs :: u32
  win_resolution :: cTimeval

text \<open>The sum of two doubles.\<close>

definition dadd :: "double \<Rightarrow> double \<Rightarrow> double" where
  "dadd a b = (case (a, b) of
     (Fin m e, Fin m' e') \<Rightarrow>
       (let k = min e e'; s = m * 2 ^ nat (e - k) + m' * 2 ^ nat (e' - k)
        in fst (if 0 \<le> k then to_double (s * 2 ^ nat k) 1 else to_double s (2 ^ nat (- k))))
   | (Inf s, Inf t) \<Rightarrow> if s = t then Inf s else NaN
   | (Inf s, Fin _ _) \<Rightarrow> Inf s
   | (Fin _ _, Inf s) \<Rightarrow> Inf s
   | _ \<Rightarrow> NaN)"

text \<open>\<open>uint64_t (t2 - t1)\<close>\<close>

definition ticks_since :: "nat \<Rightarrow> nat \<Rightarrow> u64" where
  "ticks_since t1 t2 = of_nat t2 - of_nat t1"

partial_function (option) win_busy_loop :: "clock \<Rightarrow> nat \<Rightarrow> u64 \<Rightarrow> nat \<Rightarrow> nat option" where
  "win_busy_loop clock t1 ticks k =
     (if ticks_since t1 (clock k) < ticks then win_busy_loop clock t1 ticks (k + 1) else Some (k + 1))"

definition win_busyWaitUs :: "clock \<Rightarrow> win_sleep \<Rightarrow> u64 \<Rightarrow> nat \<Rightarrow> nat option" where
  "win_busyWaitUs clock w us k =
     (if us = 0 then Some k else win_busy_loop clock (clock k) (us * ucast (ticksPerUs w)) (k + 1))"

definition LOOPS :: nat where
  "LOOPS = 50"

text \<open>The loop of \<open>SleepInit\<close>. A division by zero gives an infinity or NaN, whose conversion is undefined.\<close>

fun measure_sleeps :: "clock \<Rightarrow> u32 \<Rightarrow> nat \<Rightarrow> double \<Rightarrow> nat \<Rightarrow> double \<times> nat" where
  "measure_sleeps clock ticks 0 elapsedTime k = (elapsedTime, k)"
| "measure_sleeps clock ticks (Suc n) elapsedTime k =
     measure_sleeps clock ticks n
       (dadd elapsedTime (ddiv (dbl (clock (k + 1) - clock k) 1) (dbl (unat ticks) 1))) (k + 2)"

definition win_SleepInit :: "clock \<Rightarrow> nat \<Rightarrow> nat \<Rightarrow> win_sleep res \<times> nat" where
  "win_SleepInit clock freq k =
     (case dto_unsigned 32 (ddiv (dbl freq 1) (dbl 1000000 1)) of
        Inl e \<Rightarrow> (Inl e, k)
      | Inr perUs \<Rightarrow> (case measure_sleeps clock (of_nat perUs) LOOPS (dbl 0 1) k of (elapsedTime, k) \<Rightarrow>
          (bindE (dto_unsigned 64 (ddiv elapsedTime (dbl LOOPS 1))) (\<lambda>us.
           Inr \<lparr>ticksPerUs = of_nat perUs, win_resolution = of_nat us\<rparr>), k)))"

definition win_Sleep :: "clock \<Rightarrow> win_sleep \<Rightarrow> cTimeval \<Rightarrow> nat \<Rightarrow> nat res option" where
  "win_Sleep clock w t k =
     (if tv_isNull (win_resolution w) then Some (Inl (Bug ''resolution.isNull()''))
      else if t < win_resolution w then map_option Inr (win_busyWaitUs clock w t k)
      else (case roundDown (win_resolution w) t of
          Inl e \<Rightarrow> Some (Inl e)
        | Inr tRounded \<Rightarrow>
            if ticksPerUs w = 0 then Some (Inl (Undefined ''division by zero''))
            else (let elapsedUs = ticks_since (clock k) (clock (k + 1)) div ucast (ticksPerUs w)
                  in if t > elapsedUs then map_option Inr (win_busyWaitUs clock w (t - elapsedUs) (k + 2))
                     else Some (Inr (k + 2)))))"

subsection \<open>A busy wait ends, after the ticks it counts\<close>

lemma ticks_since_exact: "t1 \<le> t2 \<Longrightarrow> t2 - t1 < 2 ^ 64 \<Longrightarrow> unat (ticks_since t1 t2) = t2 - t1"
  by (simp add: ticks_since_def unat_of_nat flip: of_nat_diff)

lemma win_busy_loop_runs:
  assumes "\<And>i. k \<le> i \<Longrightarrow> i < j \<Longrightarrow> ticks_since t1 (clock i) < ticks" and "ticks \<le> ticks_since t1 (clock j)" and "k \<le> j"
  shows "win_busy_loop clock t1 ticks k = Some (j + 1)"
  using assms
proof (induction "j - k" arbitrary: k)
  case 0
  then show ?case by (subst win_busy_loop.simps) (simp add: not_less [symmetric])
next
  case (Suc n)
  have "win_busy_loop clock t1 ticks (k + 1) = Some (j + 1)" using Suc.hyps(2) Suc.prems by (intro Suc.hyps(1)) auto
  then show ?case using Suc.hyps(2) Suc.prems(1) [of k] by (subst win_busy_loop.simps) simp
qed

text \<open>
  On a counter that counts every tick the wait takes \<open>us * ticksPerUs\<close> ticks. \<open>ticksPerUs\<close> is truncated, so
  with a counter whose ticks are no whole number in a microsecond this is less than \<open>us\<close> microseconds.
\<close>

lemma win_busyWaitUs_ticks:
  assumes "us \<noteq> 0" and "unat us * unat (ticksPerUs w) < 2 ^ 64"
  shows "win_busyWaitUs id w us k = Some (max (k + 1) (k + unat us * unat (ticksPerUs w)) + 1)"
proof -
  let ?ticks = "us * ucast (ticksPerUs w)" and ?n = "unat us * unat (ticksPerUs w)"
  have t: "unat ?ticks = ?n" using assms(2) by (simp add: unat_mult_lem [THEN iffD1])
  have early: "ticks_since k (id i) < ?ticks" if "k + 1 \<le> i" "i < max (k + 1) (k + ?n)" for i
    using that t assms(2) ticks_since_exact [of k i] by (simp add: word_less_nat_alt)
  have late: "?ticks \<le> ticks_since k (id (max (k + 1) (k + ?n)))"
    using t assms(2) ticks_since_exact [of k "max (k + 1) (k + ?n)"] by (simp add: word_le_nat_alt)
  have "win_busy_loop id k ?ticks (k + 1) = Some (max (k + 1) (k + ?n) + 1)"
    by (rule win_busy_loop_runs) (use early late in auto)
  then show ?thesis using assms(1) by (simp add: win_busyWaitUs_def)
qed

lemma win_wait_too_short:
  assumes "us \<noteq> 0" and "ticksPerUs w \<noteq> 0" and "unat us * unat (ticksPerUs w) < 2 ^ 64" and "unat (ticksPerUs w) * 1000000 < freq"
  shows "\<exists>k'. win_busyWaitUs id w us k = Some k' \<and> (k' - 1 - k) * 1000000 < unat us * freq"
proof -
  have p: "0 < unat us" "0 < unat (ticksPerUs w)" using assms(1,2) by (simp_all add: unat_gt_0)
  then have "0 < unat us * unat (ticksPerUs w)" by simp
  moreover have "unat us * unat (ticksPerUs w) * 1000000 < unat us * freq" using p(1) assms(4) by (simp add: mult.assoc)
  ultimately show ?thesis using win_busyWaitUs_ticks [OF assms(1,3), of k] by (simp add: max_def)
qed

end
