(* ===== verification/WinFacts.thy ===== *)
theory WinFacts
  imports SendQueueFacts WinInterface WinSleep
begin

section \<open>Sending on Windows\<close>

text \<open>
  The calls of \<open>cOutput\<close> on the Windows interface, with the actions of the two threads during each call as
  a parameter: what comes out on the wire; and what the selection of the adapter and of its addresses
  promises.
\<close>

subsection \<open>The selected adapter\<close>

lemma find_adapter_Some:
  "find_adapter name n as = Some k \<Longrightarrow> n \<le> k \<and> k - n < length as
    \<and> (AdapterName (as ! (k - n)) = name \<or> FriendlyName (as ! (k - n)) = wide name)
    \<and> (\<forall>i<k - n. AdapterName (as ! i) \<noteq> name \<and> FriendlyName (as ! i) \<noteq> wide name)"
proof (induction as arbitrary: n)
  case (Cons a as)
  show ?case
  proof (cases "AdapterName a = name \<or> FriendlyName a = wide name")
    case False
    then have "find_adapter name (n + 1) as = Some k" using Cons.prems by simp
    note IH = Cons.IH [OF this]
    then have "k - n = Suc (k - (n + 1))" by linarith
    then show ?thesis using IH False by (auto simp: less_Suc_eq_0_disj)
  qed (use Cons.prems in \<open>auto split: if_splits\<close>)
qed simp

lemma first_ipv4_no_zeroconf: "first_ipv4 as = Some addr \<Longrightarrow> SockaddrIn addr \<in> set as \<and> rd32 addr AND 0xFFFF0000 \<noteq> 0xA9FE0000"
  by (induction as) (auto split: win_sockaddr.splits if_splits)

text \<open>
  \<open>close\<close> frees the list of the adapters but keeps the pointer into it: every later question for an address
  reads freed memory.
\<close>

lemma closed_adapter_dangles:
  assumes "win_close lib es i = Some (Inr True, i')" and "wi_opened i" and "adapterInfo i \<noteq> None" and "wi_job i = None"
  shows "win_isReady i' \<and> fst (win_getMAC i') = Inl (Undefined ''adapterInfo points to freed memory'')"
proof -
  have "i' = i\<lparr>wi_opened := False, winNetAdapters := None\<rparr>"
    using assms(1,2,4) by (simp add: win_close_def bindN_def bindM_def win_flushSendQueue_def)
  then show ?thesis using assms(3) by (auto simp: win_isReady_def win_getMAC_def selected_def bindM_def)
qed

subsection \<open>The calls of the main thread\<close>

fun win_send_all :: "winpcap \<Rightarrow> (byte list \<times> cTimeval \<times> job_event list) list \<Rightarrow> (winInterface, unit) N" where
  "win_send_all lib [] = liftN (returnM ())"
| "win_send_all lib ((p, t, es) # xs) = bindN (win_sendPacket lib es p t) (\<lambda>_. win_send_all lib xs)"

definition frame_of :: "byte list \<times> cTimeval \<times> job_event list \<Rightarrow> queued_packet" where
  "frame_of x = (case x of (p, t, es) \<Rightarrow> (packet_header (length p) t, p))"

definition calls_ok :: "(byte list \<times> cTimeval \<times> job_event list) list \<Rightarrow> bool" where
  "calls_ok xs = list_all (\<lambda>(p, t, es). length p \<le> MAX_DOUBLE_TAGGED_PACKET \<and> CtrlC \<notin> set es) xs"

lemma during_call_adds_nothing: "list_all during_call es \<Longrightarrow> added es = []"
  by (induction es) (auto simp: during_call_def split: job_event.splits elim: added_by.elims)

lemma during_call_quiet: "list_all during_call es \<Longrightarrow> CtrlC \<notin> set es \<Longrightarrow> quiet es"
  by (auto simp: quiet_def list_all_iff during_call_def split: job_event.splits)

lemma new_cJob_total:
  assumes "winpcap_ok lib"
  obtains j where "new_cJob lib k g packetCnt totalBytes sync linkspeed = Inr j"
proof -
  have "\<exists>qs. mapE (\<lambda>n. new_cPcapSendQueue lib m) xs = Inr qs" for m and xs :: "nat list"
  proof (induction xs)
    case (Cons x xs)
    obtain q where "new_cPcapSendQueue lib m = Inr q" using new_cPcapSendQueue_ok [OF assms] .
    then show ?case using Cons by auto
  qed simp
  moreover obtain q where "new_cPcapSendQueue lib (wholeNeededMemory linkspeed packetCnt totalBytes) = Inr q"
    using new_cPcapSendQueue_ok [OF assms] .
  ultimately have "\<exists>qs. new_queues lib (linkspeed div 8) (wholeNeededMemory linkspeed packetCnt totalBytes) = Inr qs"
    by (auto simp: new_queues_def)
  then show thesis using that by (auto simp: new_cJob_def)
qed

lemma announced_prefix: "announced c b (xs @ ys) \<Longrightarrow> announced c b xs"
  by (auto simp: announced_def)

text \<open>A call of the job leads to a reachable state, and none fails.\<close>

lemma job_call_reach:
  assumes "job_call lib e es j = Some j'" and "job_reach lib j0 es0 j"
  shows "job_reach lib j0 (es0 @ e # es) j'" and "added (es0 @ e # es) = added es0 @ added_by e" and "list_all during_call es"
proof -
  have r: "job_run lib (e # es) j = Some j'" "list_all during_call es" using assms(1) by (simp_all add: job_call_def split: if_splits)
  show "job_reach lib j0 (es0 @ e # es) j'" by (rule job_reach_trans [OF job_run_reach [OF r(1)] assms(2)])
  show "list_all during_call es" by (rule r(2))
  then show "added (es0 @ e # es) = added es0 @ added_by e" using during_call_adds_nothing by simp
qed

definition job_setting :: "winpcap \<Rightarrow> u64 \<Rightarrow> u64 \<Rightarrow> cJob \<Rightarrow> bool" where
  "job_setting lib packetCnt totalBytes j0 \<longleftrightarrow> winpcap_ok lib \<and> (\<exists>k g sync linkspeed. calm g
     \<and> well_sized linkspeed packetCnt totalBytes \<and> new_cJob lib k g packetCnt totalBytes sync linkspeed = Inr j0)"

lemma job_setting_safe:
  assumes "job_setting lib packetCnt totalBytes j0" and "job_reach lib j0 es j" and "quiet es"
    and "announced packetCnt totalBytes (added es)"
  shows "main_thread j \<noteq> Failed e"
    and "main_thread j = Joined \<Longrightarrow> sent_packets j = added es \<and> job_sentPackets j = of_nat (length (added es))"
proof -
  obtain k g sync linkspeed where s: "calm g" "well_sized linkspeed packetCnt totalBytes"
    "new_cJob lib k g packetCnt totalBytes sync linkspeed = Inr j0" and lib: "winpcap_ok lib"
    using assms(1) by (auto simp: job_setting_def)
  obtain cap where "job_ok cap j (added es)" by (rule job_reach_from_new [OF lib s assms(2-4)])
  note safe = job_ok_safe [OF this]
  show "main_thread j \<noteq> Failed e" by (rule safe(3))
  show "main_thread j = Joined \<Longrightarrow> sent_packets j = added es \<and> job_sentPackets j = of_nat (length (added es))" by (rule safe(4))
qed

lemma win_send_all_reach:
  assumes "job_setting lib packetCnt totalBytes j0"
  shows "win_send_all lib xs i = Some (r, i') \<Longrightarrow> wi_job i = Some j \<Longrightarrow> job_reach lib j0 es0 j \<Longrightarrow> quiet es0 \<Longrightarrow> calls_ok xs \<Longrightarrow>
     announced packetCnt totalBytes (added es0 @ map frame_of xs) \<Longrightarrow>
     r = Inr () \<and> (\<exists>es j'. i' = i\<lparr>wi_job := Some j'\<rparr> \<and> job_reach lib j0 es j' \<and> quiet es \<and> added es = added es0 @ map frame_of xs)"
proof (induction xs arbitrary: i j es0)
  case Nil
  then have "i' = i\<lparr>wi_job := Some j\<rparr>" "r = Inr ()" by simp_all
  then show ?case using Nil by (intro conjI exI [of _ es0] exI [of _ j]) simp_all
next
  case (Cons x xs)
  obtain p t es where x: "x = (p, t, es)" by (cases x)
  have ok: "length p \<le> MAX_DOUBLE_TAGGED_PACKET" "CtrlC \<notin> set es" "calls_ok xs"
    using Cons.prems(5) x by (simp_all add: calls_ok_def)
  obtain r1 j1 where call: "sendPacket_job lib es p t j = Some (r1, j1)"
    using Cons.prems(1,2) x by (auto simp: bindN_def win_sendPacket_def split: option.splits)
  then have c: "job_call lib (AddPacket p t) es j = Some j1"
    by (auto simp: sendPacket_job_def split: option.splits main_thread.splits)
  let ?es = "es0 @ AddPacket p t # es"
  note reach = job_call_reach [OF c Cons.prems(3)]
  have q: "quiet ?es" using Cons.prems(4) during_call_quiet [OF reach(3) ok(2)] ok(1) by (auto simp: quiet_def)
  have a: "added ?es = added es0 @ [frame_of x]" using reach(2) x by (simp add: frame_of_def)
  have "announced packetCnt totalBytes (added ?es)"
    unfolding a by (rule announced_prefix [where ys = "map frame_of xs"]) (use Cons.prems(6) in simp)
  then have "main_thread j1 \<noteq> Failed e" for e by (rule job_setting_safe(1) [OF assms reach(1) q])
  then have "r1 = Inr ()"
    using c call by (auto simp: sendPacket_job_def split: main_thread.splits)
  then have rest: "win_send_all lib xs (i\<lparr>wi_job := Some j1\<rparr>) = Some (r, i')"
    using Cons.prems(1,2) x call by (simp add: bindN_def win_sendPacket_def)
  have "announced packetCnt totalBytes (added ?es @ map frame_of xs)" unfolding a using Cons.prems(6) by simp
  from Cons.IH [OF rest _ reach(1) q ok(3) this] show ?case unfolding a by simp
qed

lemma win_prepare_ok:
  assumes "winpcap_ok lib" and "calm g" and "wi_opened i" and "wi_job i = None"
    and "well_sized (wi_linkSpeed i) packetCnt totalBytes" and "win_prepareSendQueue lib g packetCnt totalBytes sync i = (r, i')"
  obtains j where "r = Inr True" "i' = i\<lparr>wi_sentPackets := 0, wi_sentBytes := 0, wi_duration := Inr (Fin 0 0), wi_job := Some j\<rparr>"
    "job_setting lib packetCnt totalBytes j"
proof -
  obtain j where j: "new_cJob lib (wi_clock i) g packetCnt totalBytes sync (wi_linkSpeed i) = Inr j"
    by (rule new_cJob_total [OF assms(1)])
  show thesis
    by (rule that [of j]) (use assms j in \<open>auto simp: win_prepareSendQueue_def bindM_def job_setting_def\<close>)
qed

lemma win_flush_ok:
  assumes "job_setting lib packetCnt totalBytes j0" and "job_reach lib j0 es0 j" and "quiet es0" and "CtrlC \<notin> set es"
    and "announced packetCnt totalBytes (added es0)" and "wi_job i = Some j" and "win_flushSendQueue lib es i = Some (r, i')"
  shows "r = Inr True \<and> wi_job i' = None \<and> wi_wire i' = wi_wire i @ map snd (added es0)
    \<and> wi_sentPackets i' = of_nat (length (added es0))"
proof -
  obtain j' where c: "job_call lib Close es j = Some j'" using assms(6,7) by (auto simp: win_flushSendQueue_def split: option.splits)
  note reach = job_call_reach [OF c assms(2)]
  have q: "quiet (es0 @ Close # es)" using assms(3) during_call_quiet [OF reach(3) assms(4)] by (auto simp: quiet_def)
  have a: "added (es0 @ Close # es) = added es0" using reach(2) by simp
  have "announced packetCnt totalBytes (added (es0 @ Close # es))" unfolding a by (rule assms(5))
  note safe = job_setting_safe [OF assms(1) reach(1) q this]
  have m: "main_thread j' = Joined"
    using assms(6,7) c safe(1) by (auto simp: win_flushSendQueue_def split: main_thread.splits)
  then show ?thesis
    using assms(6,7) c safe(2) [OF m] unfolding a by (auto simp: win_flushSendQueue_def sent_packets_def)
qed

text \<open>
  C18: what \<open>cOutput\<close> does with the Windows interface: after \<open>prepareSendQueue\<close> with the right numbers every
  \<open>sendPacket\<close> that returns returns true, and when \<open>flushSendQueue\<close> has returned, the frames are on the wire in
  the order of the calls and the statistic counts them; whatever the interleaving of the threads was.
\<close>

theorem windows_frames_sent:
  assumes "winpcap_ok lib" and "calm g" and "wi_opened i" and "wi_job i = None"
    and "well_sized (wi_linkSpeed i) packetCnt totalBytes" and "announced packetCnt totalBytes (map frame_of xs)"
    and "calls_ok xs" and "CtrlC \<notin> set es"
    and "win_prepareSendQueue lib g packetCnt totalBytes sync i = (r1, i1)"
    and "win_send_all lib xs i1 = Some (r2, i2)" and "win_flushSendQueue lib es i2 = Some (r3, i3)"
  shows "r1 = Inr True \<and> r2 = Inr () \<and> r3 = Inr True \<and> wi_job i3 = None \<and> wi_wire i3 = wi_wire i @ map fst xs
    \<and> fst (win_getSendStatistic i3) = of_nat (length xs)"
proof -
  obtain j where p: "r1 = Inr True" "i1 = i\<lparr>wi_sentPackets := 0, wi_sentBytes := 0, wi_duration := Inr (Fin 0 0), wi_job := Some j\<rparr>"
    "job_setting lib packetCnt totalBytes j" by (rule win_prepare_ok [OF assms(1-5,9)])
  have "r2 = Inr () \<and> (\<exists>es' j'. i2 = i1\<lparr>wi_job := Some j'\<rparr> \<and> job_reach lib j es' j' \<and> quiet es' \<and> added es' = map frame_of xs)"
    using win_send_all_reach [OF p(3) assms(10) _ job_reach.start _ assms(7)] p(2) assms(6) by (simp add: quiet_def)
  then obtain es' j' where s: "r2 = Inr ()" "i2 = i1\<lparr>wi_job := Some j'\<rparr>" "job_reach lib j es' j'" "quiet es'"
    "added es' = map frame_of xs" by blast
  have "announced packetCnt totalBytes (added es')" unfolding s(5) by (rule assms(6))
  from win_flush_ok [OF p(3) s(3,4) assms(8) this _ assms(11)] s(2,5)
  have "r3 = Inr True" "wi_job i3 = None" "wi_wire i3 = wi_wire i2 @ map snd (map frame_of xs)" "wi_sentPackets i3 = of_nat (length xs)"
    by simp_all
  moreover have "map snd (map frame_of xs) = map fst xs" by (auto simp: frame_of_def)
  ultimately show ?thesis using p s(1,2) by (simp add: win_getSendStatistic_def)
qed

definition example_interface :: winInterface where
  "example_interface = \<lparr>wi_name = ''WiFi'', wi_opened = True, winNetAdapters = None, adapterInfo = None, wi_linkSpeed = 12400,
     wi_sentPackets = 0, wi_sentBytes = 0, wi_duration = Inr (Fin 0 0), wi_job = None, wi_sends = 0, wi_wire = [], wi_clock = 0\<rparr>"

definition example_calls :: "(byte list \<times> cTimeval \<times> job_event list) list" where
  "example_calls = [([1, 2, 3], 0, [Acquire]), ([4, 5], 1, [Take, Acquire, Sent])]"

lemma example_interface_runs:
  "\<exists>r1 i1 r2 i2 r3 i3. win_prepareSendQueue example_winpcap no_signal 0 0 True example_interface = (r1, i1)
    \<and> win_send_all example_winpcap example_calls i1 = Some (r2, i2)
    \<and> win_flushSendQueue example_winpcap [Take, Sent, Leave, Join] i2 = Some (r3, i3)"
  by (simp add: example_interface_def example_calls_def win_prepareSendQueue_def bindM_def bindN_def win_sendPacket_def
      win_flushSendQueue_def sendPacket_job_def job_call_def during_call_def run_simps upt_rec)

theorem windows_frames_sent_witness:
  "\<exists>i1 i2 i3. win_send_all example_winpcap example_calls i1 = Some (Inr (), i2)
    \<and> win_flushSendQueue example_winpcap [Take, Sent, Leave, Join] i2 = Some (Inr True, i3)
    \<and> wi_wire i3 = [[1, 2, 3], [4, 5]]"
proof -
  obtain r1 i1 r2 i2 r3 i3 where run: "win_prepareSendQueue example_winpcap no_signal 0 0 True example_interface = (r1, i1)"
    "win_send_all example_winpcap example_calls i1 = Some (r2, i2)"
    "win_flushSendQueue example_winpcap [Take, Sent, Leave, Join] i2 = Some (r3, i3)"
    using example_interface_runs by blast
  have i: "wi_opened example_interface" "wi_job example_interface = None" "wi_linkSpeed example_interface = 12400"
    "wi_wire example_interface = []" by (simp_all add: example_interface_def)
  have "well_sized (wi_linkSpeed example_interface) 0 0" unfolding i(3) by (rule example_ok(3))
  moreover have "calls_ok example_calls"
    by (simp add: calls_ok_def example_calls_def MAX_DOUBLE_TAGGED_PACKET_def MAX_ETHERNET_PAYLOAD_def)
  ultimately show ?thesis
    using windows_frames_sent [OF example_ok(1,2) i(1,2) _ example_ok(6) _ _ run] run i(4) by (auto simp: example_calls_def)
qed

end
