(* ===== verification/Spec2Isabelle.thy ===== *)
theory Spec2Isabelle
  imports ProgramFacts AddressFacts ByteArray LinkPackets Transport TransportFacts Uuid ParameterFacts Syntax_Tables LldpPacket
    LldpParser Md5 Instruction IpFacts CaptureFacts Examples WinFacts
begin

text \<open>
  tcppump builds network packets from a textual instruction language ("udp(sip=1.2.3.4, ...)") and sends
  them through a network interface or writes them to a file. This development models the program for Linux
  from \<open>cTcpPump::execute\<close> down to the system calls, and the operating system layer for Windows: the
  instruction compiler (src/compiler), the packet classes (src/packets), the stages between compiler and output
  (src/engine), capture files (src/pcap), the operating system layers (src/os) and what they share (src/common).
  The data goes

    arguments \<open>\<longrightarrow>\<close> compiler \<open>\<longrightarrow>\<close> filter \<open>\<longrightarrow>\<close> resolver \<open>\<longrightarrow>\<close> scheduler \<open>\<longrightarrow>\<close> output \<open>\<longrightarrow>\<close> network or file

  where everything from the compiler to the output works on one packet list (\<open>cPacketData\<close>).

  Theories, bottom up:
    \<^item> Prelude: errors as values (\<open>res\<close>, the exceptions of the program, \<open>Bug\<close> for its BUG_ON and \<open>Undefined\<close>
      for C++ undefined behaviour), state passing (\<open>M\<close>), computations that need not return (\<open>N\<close>, where None
      is no result at all), buffers, \<open>size_t\<close> arithmetic.
    \<^item> Endian, ByteArray (common/endian.h, bytearray.hpp), ParseHelper (compiler/parsehelper.cpp),
      Environment (common/random.cpp and the program's global state), Address (macaddress.hpp,
      ipaddress.hpp, settings.cpp), Uuid, Md5, Double (IEEE doubles as exact fractions), Timeval (timeval.hpp).
    \<^item> Checksum, Ethernet, LinkPackets (ARP, STP), IpPacket, Transport (UDP, TCP, VXLAN, GRE, ICMP,
      IGMP, VRRP), LldpPacket: src/packets, one record per class, one definition per method.
    \<^item> Syntax_Tables, Parameters, Instruction, LldpParser: src/compiler, the tables of the language,
      the parameter list and the compile function of every protocol.
    \<^item> PacketData (packetdata.hpp, linkable.hpp: the linked list on an explicit heap), Script (fileparser.cpp),
      PcapFile (src/pcap), Compiler (compiler.cpp).
    \<^item> Pipeline (filter, resolver, scheduler, preprocessor), Sleep and LinuxInterface (src/os/linux), Output
      (output.cpp and the file backends), TcpPump (tcppump.cpp).
    \<^item> SendQueue (the send queues of WinPcap and the two threads that share them, \<open>cPcapSendQueue\<close>, \<open>cJob\<close>,
      and \<open>cSignal\<close>), WinInterface (\<open>cInterface\<close>, \<open>cArp\<close>), WinSleep: src/os/win32. The two threads are a step
      relation: \<open>job_do\<close> is one action of a thread, \<open>job_reach\<close> the states they reach in any interleaving.
      SendQueueFacts has their invariant, WinFacts the calls of \<open>cOutput\<close> on this interface.
    \<^item> AddressFacts: what the text of an IPv4 address means, and that \<open>cIPv4::set\<close> accepts that and nothing else.
    \<^item> ParameterFacts, IpFacts, TransportFacts, CompilerFacts, CaptureFacts, InterfaceFacts, OutputFacts: the
      lemmas on the components of these names. Examples: two instructions compiled step by step.
    \<^item> ConfigureFacts: the state \<open>execute\<close> starts the compiler with, its early exits, and that what the backends count is
      what the files have.
    \<^item> Delivery, ProgramFacts, SendQueueFacts, WinFacts and this theory hold the claims.

  What the lemmas show: each packet class builds the bytes its protocol asks for (IP fragments a receiver puts
  together again, checksums that verify); texts are read back as they were written (parameter lists, addresses,
  UUIDs, hexstream files, capture files); a text that is no address is rejected; the packet list stays well-formed under everything that is done with
  it, and the compiler refines a specification without heap; every stage does to the list what it does to the
  sequence of its packets; the output sends the sequence of frames \<open>rounds n 0 fs\<close>, each with the sum of the
  delays before it, on time; loops end, or go on, as they should; the program as a whole composes these. On Windows the two
  threads use different queues, lose nothing and cannot block each other, provided the announced sizes are
  not just below the size of a queue.

  Interfaces are locales: \<open>byte_sink\<close> (what accepts bytes; provided by growing and fixed arrays and
  by an Ethernet packet's payload), \<open>random_source\<close> (provided by \<open>rand\<close>), \<open>self_checking\<close> (a
  checksum that verifies once stored; provided by \<open>rfc1071\<close> and by its form without zero), \<open>datagram\<close>
  (what UDP and TCP rely on; provided by IPv4 and IPv6), \<open>list_stage\<close> (what walks over the packet list and
  keeps the lengths of the frames; provided by the filter and the resolver) and \<open>frame_sink\<close> (what takes the
  frames; provided by the capture file, the network interface and the hexstream file).

  A \<open>const char*\<close> is the suffix of the string it points into. The host is little-endian LP64. The
  order in which C++ evaluates arguments is taken from left to right. Parameters of the model, for all of
  which the theorems hold: the C library's \<open>inet_pton\<close> for IPv6, the stream of the Mersenne twister and the
  content of fresh memory (record \<open>env\<close>), the files (a map from paths to texts), libpcap (record \<open>libpcap\<close>),
  the streams of stdio (record \<open>stdio\<close>), the system calls (record \<open>os\<close>) and the signals; on Windows, where
  \<open>long\<close> has 32 bits, WinPcap and the performance counter (record \<open>winpcap\<close>) and the system (record \<open>win32\<close>). Where an answer
  changes from call to call the calls are numbered, and the state of the caller counts them: \<open>os_clock k\<close> is
  the reading number \<open>k\<close> of the clock in nanoseconds, \<open>w_signals k\<close> what the look number \<open>k\<close> at
  \<open>gSigIntStatus\<close> sees. Hypotheses about them say what their documentation does: a clock that does not run
  backwards and passes every moment (\<open>ticking\<close>), a \<open>sendto\<close> that sends all bytes (\<open>reliable\<close>), addresses of
  the documented sizes (\<open>sane_os\<close>), a capture file whose end is reported with -2 (what libpcap leaves in the
  header pointer then is open), a WinPcap whose queues take what they have room for and whose transmissions send
  everything (\<open>winpcap_ok\<close>).

  The recursion of embedded packets is fuel of 9, one more than the depth at which the code throws. Loops that
  need not end (waiting, receiving, the repetition) are partial functions with None for no result, and that
  they return is proved where it holds.

  Not modelled: the registration of the options and the console of the git
  submodule libcmdline, whose files are not here (\<open>execute\<close> gets the options as a record), \<open>main\<close>, which starts
  them, the texts of progress messages, \<open>cTimeval::now\<close>, which reads the system clock for debug output, the lack of
  memory (\<open>new\<close> and \<open>realloc\<close> always succeed, so no \<open>std::bad_alloc\<close> comes), and unit tests and the benchmark.
\<close>

section \<open>Objects the examples use\<close>

definition start :: env where
  "start = initial_env (\<lambda>_. 0) (\<lambda>_. 0) (\<lambda>_. None)"

text \<open>A new packet on an interface with the given MTU.\<close>

lemma new_on_mtu:
  obtains ip p f where "ip_new v6 (start\<lparr>m_mtu := n\<rparr>) = (Inr ip, start\<lparr>m_mtu := n\<rparr>)"
    "m_packets ip = [p]" "holds p f" "f_tags f = []" "f_llc f = []" "packetMaxLength p = unat n + 18"
    "ip_mtu ip = unat n" "m_isIPv6 ip = v6" "length (v4_srcIP ip) = 4" "length (v4_dstIP ip) = 4"
    "length (v6_srcIP ip) = 16" "length (v6_dstIP ip) = 16" "\<not> hasRouterAlertOption ip" "\<not> hasChksum ip"
  using ip_new_object [of v6 "start\<lparr>m_mtu := n\<rparr>"] by auto

definition blank :: frame where
  "blank = \<lparr>f_dest = replicate 6 0, f_src = replicate 6 0, f_tags = [], f_type = [0, 0], f_llc = [], f_payload = []\<rparr>"

lemma new_frame:
  assumes "14 \<le> n" and "n < 2 ^ 62"
  obtains e where "eth_new junk n = Inr e" "packetMaxLength e = n" "holds e blank"
  using eth_new_holds [OF assms, of junk] by (auto simp: blank_def)

lemma blank_sel [simp]:
  "f_dest blank = [0, 0, 0, 0, 0, 0]" "f_src blank = [0, 0, 0, 0, 0, 0]" "f_tags blank = []"
  "f_type blank = [0, 0]" "f_llc blank = []" "f_payload blank = []"
  by (simp_all add: blank_def numeral_eq_Suc)

lemma fst_eqD: "fst p = r \<Longrightarrow> \<exists>s. p = (r, s)"
  by (cases p) simp

section \<open>IP datagrams\<close>

text \<open>
  C3: \<open>cIPPacket::compile\<close> on an IPv4 packet whose full fragments are multiples of eight bytes (or
  which needs one fragment only) delivers the datagram: it does not throw, a receiver that puts the
  fragments together by their offset fields gets the L4 header and the payload, exactly the last
  fragment has no more-fragments flag, every IP header checksum verifies and no fragment exceeds the MTU.
\<close>

theorem ipv4_datagram_delivered:
  assumes "m_packets ip = [p]" and "holds p f"
    and "frag_setup ip l4 (opt_bytes l4 @ opt_bytes payload) M cnt" and "M mod 8 = 0 \<or> cnt = 1"
    and "14 + length (f_tags f) + length (f_llc f) + ip_mtu ip \<le> packetMaxLength p"
    and "packetMaxLength p < 2 ^ 62" and "\<not> hasChksum ip"
  shows "\<exists>qs s'. ip_compile proto l4 payload ip s = (Inr (ip\<lparr>m_packets := qs\<rparr>), s') \<and> length qs = cnt
    \<and> reassembled (ip\<lparr>m_packets := qs\<rparr>) = opt_bytes l4 @ opt_bytes payload
    \<and> (\<forall>k<cnt. length (getPayload (qs ! k)) \<le> ip_mtu ip
        \<and> csum_at (take (getHeaderLength ip) (getPayload (qs ! k))) = Inr 0
        \<and> fragment_offset (getPayload (qs ! k)) = length (reassembled (ip\<lparr>m_packets := take k qs\<rparr>))
        \<and> more_fragments (getPayload (qs ! k)) = (k + 1 \<noteq> cnt))"
proof -
  let ?d = "opt_bytes l4 @ opt_bytes payload"
  from v4compile_frames [OF assms(3,1,2,5,6)] obtain qs s' ipId f' where
    c: "v4compile proto l4 payload ip s = (Inr (ip\<lparr>m_packets := qs\<rparr>), s')"
    and fr: "v4_frames ip proto ipId M cnt ?d f' qs" unfolding v4_frames_def by blast
  have ip: "ip_compile proto l4 payload ip s = (Inr (ip\<lparr>m_packets := qs\<rparr>), s')"
    using c assms(3) by (simp add: ip_compile_def frag_setup_def)
  have len: "length qs = cnt" using fr by (simp add: v4_frames_def list_all2_conv_all_nth)
  have all: "reassembled (ip\<lparr>m_packets := qs\<rparr>) = ?d"
    by (rule v4_frames_complete [OF assms(3,4) fr refl])
  show ?thesis
    using ip len all v4_frames_offsets [OF assms(3) fr] v4_frames_sizes [OF assms(3) fr]
      v4_frames_checksums [OF assms(3) fr assms(7)]
    by (intro exI [of _ qs] exI [of _ s']) (simp add: reassembled_def getHeaderLength_def)
qed

theorem ipv4_datagram_delivered_witness:
  "\<exists>ip qs s'. ip_new False (start\<lparr>m_mtu := 36\<rparr>) = (Inr ip, start\<lparr>m_mtu := 36\<rparr>)
    \<and> ip_compile 17 (Some [1, 2, 3, 4]) (Some (replicate 30 7)) ip start = (Inr (ip\<lparr>m_packets := qs\<rparr>), s')
    \<and> length qs = 3 \<and> reassembled (ip\<lparr>m_packets := qs\<rparr>) = [1, 2, 3, 4] @ replicate 30 7
    \<and> fragment_offset (getPayload (qs ! 2)) = length (reassembled (ip\<lparr>m_packets := take 2 qs\<rparr>))"
proof -
  obtain ip p f where ip: "ip_new False (start\<lparr>m_mtu := 36\<rparr>) = (Inr ip, start\<lparr>m_mtu := 36\<rparr>)"
    "m_packets ip = [p]" "holds p f" "f_tags f = []" "f_llc f = []" "packetMaxLength p = 54"
    "ip_mtu ip = 36" "\<not> m_isIPv6 ip" "length (v4_srcIP ip) = 4" "length (v4_dstIP ip) = 4"
    "\<not> hasRouterAlertOption ip" "\<not> hasChksum ip"
    by (rule new_on_mtu [of False 36]) simp
  have "frag_setup ip (Some [1, 2, 3, 4]) (opt_bytes (Some [1, 2, 3, 4]) @ opt_bytes (Some (replicate 30 7))) 16 3"
    using ip by (simp add: frag_setup_def getHeaderLength_def opt_bytes_def null_length_def)
  from ipv4_datagram_delivered [OF ip(2,3) this, of 17 start] ip show ?thesis
    by (fastforce simp: opt_bytes_def)
qed

text \<open>
  C30: without the condition on eight bytes the number of fragments is computed from the MTU as it is
  while the fragments are cut at multiples of eight bytes, so the receiver gets a prefix of the
  datagram only; how long it is says the right-hand side.
\<close>

theorem ipv4_datagram_prefix:
  assumes "m_packets ip = [p]" and "holds p f"
    and "frag_setup ip l4 (opt_bytes l4 @ opt_bytes payload) M cnt"
    and "14 + length (f_tags f) + length (f_llc f) + ip_mtu ip \<le> packetMaxLength p"
    and "packetMaxLength p < 2 ^ 62"
  shows "\<exists>qs s'. ip_compile proto l4 payload ip s = (Inr (ip\<lparr>m_packets := qs\<rparr>), s') \<and> length qs = cnt
    \<and> reassembled (ip\<lparr>m_packets := qs\<rparr>)
        = take ((cnt - 1) * (M div 8 * 8) + M) (opt_bytes l4 @ opt_bytes payload)"
proof -
  let ?d = "opt_bytes l4 @ opt_bytes payload"
  from v4compile_frames [OF assms(3,1,2,4,5)] obtain qs s' ipId f' where
    c: "v4compile proto l4 payload ip s = (Inr (ip\<lparr>m_packets := qs\<rparr>), s')"
    and fr: "v4_frames ip proto ipId M cnt ?d f' qs" unfolding v4_frames_def by blast
  have "ip_compile proto l4 payload ip s = (Inr (ip\<lparr>m_packets := qs\<rparr>), s')"
    using c assms(3) by (simp add: ip_compile_def frag_setup_def)
  moreover have "length qs = cnt" using fr by (simp add: v4_frames_def list_all2_conv_all_nth)
  ultimately show ?thesis using v4_frames_reassembled [OF assms(3) fr] by blast
qed

text \<open>With an MTU of 35 a datagram of 30 bytes loses its last seven.\<close>

theorem ipv4_datagram_prefix_witness:
  "\<exists>ip qs s'. ip_new False (start\<lparr>m_mtu := 35\<rparr>) = (Inr ip, start\<lparr>m_mtu := 35\<rparr>)
    \<and> ip_compile 17 (Some [1, 2, 3, 4]) (Some (replicate 26 7)) ip start = (Inr (ip\<lparr>m_packets := qs\<rparr>), s')
    \<and> length qs = 2 \<and> reassembled (ip\<lparr>m_packets := qs\<rparr>) = [1, 2, 3, 4] @ replicate 19 7"
proof -
  obtain ip p f where ip: "ip_new False (start\<lparr>m_mtu := 35\<rparr>) = (Inr ip, start\<lparr>m_mtu := 35\<rparr>)"
    "m_packets ip = [p]" "holds p f" "f_tags f = []" "f_llc f = []" "packetMaxLength p = 53"
    "ip_mtu ip = 35" "\<not> m_isIPv6 ip" "length (v4_srcIP ip) = 4" "length (v4_dstIP ip) = 4"
    "\<not> hasRouterAlertOption ip"
    by (rule new_on_mtu [of False 35]) simp
  have "frag_setup ip (Some [1, 2, 3, 4]) (opt_bytes (Some [1, 2, 3, 4]) @ opt_bytes (Some (replicate 26 7))) 15 2"
    using ip by (simp add: frag_setup_def getHeaderLength_def opt_bytes_def null_length_def)
  from ipv4_datagram_prefix [OF ip(2,3) this, of 17 start] ip show ?thesis
    by (fastforce simp: opt_bytes_def)
qed

text \<open>The first word of an IPv6 header: version 6, DSCP, ECN and flow label.\<close>

definition v6_word :: "cIPPacket \<Rightarrow> u32" where
  "v6_word ip = push_bit 28 6 OR push_bit 22 (m_dscp ip AND 0x3f) OR push_bit 20 (m_ecn ip AND 3)
     OR (flowlabel ip AND 0xfffff)"

lemma v6_header_word:
  "v6_header ip proto n = be32 (v6_word ip) @ be16 (of_nat n) @ [proto, m_ttl ip] @ v6_srcIP ip @ v6_dstIP ip"
proof -
  have "ucast (ucast t :: u32) = t" for t :: byte by (rule bit_word_eqI) (simp add: bit_simps)
  then show ?thesis unfolding v6_header_def ipv6_header_layout v6_word_def by simp
qed

text \<open>
  C4: \<open>cIPPacket::compile\<close> on an IPv6 packet that fits the MTU builds one frame with the 40 header
  bytes of RFC 8200 (version and traffic class, flow label, payload length, next header, hop limit,
  addresses) before the L4 header and the payload.
\<close>

theorem ipv6_datagram_delivered:
  assumes "m_packets ip = [p]" and "holds p f"
    and "v6_setup ip (null_length l4) (opt_bytes l4 @ opt_bytes payload)"
    and "14 + length (f_tags f) + length (f_llc f) + ip_mtu ip \<le> packetMaxLength p"
  shows "\<exists>q. ip_compile proto l4 payload ip s = (Inr (ip\<lparr>m_packets := [q]\<rparr>), s)
    \<and> visible q = f_dest f @ f_src f @ f_tags f @ f_type f @ f_llc f @ be32 (v6_word ip)
        @ be16 (of_nat (null_length l4 + null_length payload)) @ [proto, m_ttl ip]
        @ v6_srcIP ip @ v6_dstIP ip @ opt_bytes l4 @ opt_bytes payload"
proof -
  have "m_isIPv6 ip" using assms(3) by (simp add: v6_setup_def)
  moreover obtain q where q: "v6compile proto l4 payload ip s = (Inr (ip\<lparr>m_packets := [q]\<rparr>), s)"
    "holds q (f\<lparr>f_payload := v6_header ip proto (length (opt_bytes l4 @ opt_bytes payload))
        @ opt_bytes l4 @ opt_bytes payload\<rparr>)"
    using v6compile_frame [OF assms(3,1,2,4), of proto s] by blast
  ultimately show ?thesis
    using holds_visible [OF q(2)]
    by (intro exI [of _ q]) (simp add: ip_compile_def frame_bytes_def v6_header_word opt_bytes_length)
qed

theorem ipv6_datagram_delivered_witness:
  "\<exists>ip q (f :: frame). ip_new True (start\<lparr>m_mtu := 1280\<rparr>) = (Inr ip, start\<lparr>m_mtu := 1280\<rparr>)
    \<and> ip_compile 58 None (Some [1, 2, 3]) ip start = (Inr (ip\<lparr>m_packets := [q]\<rparr>), start)
    \<and> visible q = f_dest f @ f_src f @ f_type f @ be32 (v6_word ip) @ be16 3 @ [58, m_ttl ip]
        @ v6_srcIP ip @ v6_dstIP ip @ [1, 2, 3]"
proof -
  obtain ip p f where ip: "ip_new True (start\<lparr>m_mtu := 1280\<rparr>) = (Inr ip, start\<lparr>m_mtu := 1280\<rparr>)"
    "m_packets ip = [p]" "holds p f" "f_tags f = []" "f_llc f = []" "packetMaxLength p = 1298"
    "ip_mtu ip = 1280" "m_isIPv6 ip" "length (v6_srcIP ip) = 16" "length (v6_dstIP ip) = 16"
    by (rule new_on_mtu [of True 1280]) simp
  have "v6_setup ip (null_length None) (opt_bytes None @ opt_bytes (Some [1, 2, 3]))"
    using ip by (simp add: v6_setup_def opt_bytes_def null_length_def)
  from ipv6_datagram_delivered [OF ip(2,3) this, of 58 start] ip(4-7) obtain q where
    "ip_compile 58 None (Some [1, 2, 3]) ip start = (Inr (ip\<lparr>m_packets := [q]\<rparr>), start)"
    "visible q = f_dest f @ f_src f @ f_type f @ be32 (v6_word ip) @ be16 3 @ [58, m_ttl ip]
        @ v6_srcIP ip @ v6_dstIP ip @ [1, 2, 3]"
    by (auto simp: opt_bytes_def null_length_def)
  with ip(1) show ?thesis by blast
qed

section \<open>UDP and TCP\<close>

text \<open>
  C10: \<open>cUdpPacket::compile\<close> over IPv4: the receiver gets the ports, the length and a checksum in
  front of the payload, and the one's complement sum over the pseudo header of RFC 768 and the
  datagram is zero. The checksum that is sent is never zero, which would mean that there is none.
\<close>

theorem udp_over_ipv4:
  assumes "udp_checksum (udp_header u) = 0"
    and "v4_ready 8 (udp_ip u) (8 + null_length payload)"
  shows "\<exists>u' s' c. udp_compile payload u s = (Inr u', s') \<and> c \<noteq> 0
    \<and> reassembled (udp_ip u') = mem16 (udp_srcPort (udp_header u)) @ mem16 (udp_dstPort (udp_header u))
        @ be16 (of_nat (8 + null_length payload)) @ mem16 c @ opt_bytes payload
    \<and> csum_at (v4_srcIP (udp_ip u) @ v4_dstIP (udp_ip u) @ [0, 17] @ be16 (of_nat (8 + null_length payload))
        @ reassembled (udp_ip u')) = Inr 0"
  using udp_compile_sealed [OF assms(1) v4_seals [of "udp_prefix (udp_header u) (null_length payload)" "[]"]] assms(2)
  by (simp add: udp_prefix_def v4_pseudo_def ipv4_pseudo_header_def mem16_htons PROTO_UDP_def add.commute)

definition example_udp :: "cIPPacket \<Rightarrow> cUdpPacket" where
  "example_udp ip = \<lparr>udp_ip = ip, udp_header = \<lparr>udp_srcPort = htons 53, udp_dstPort = htons 4000,
     udp_length = 0, udp_checksum = 0\<rparr>\<rparr>"

lemma v4_readyI:
  assumes "m_packets ip = [p]" "holds p f" "f_tags f = []" "f_llc f = []" "packetMaxLength p = M + 38"
    "ip_mtu ip = M + 20" "\<not> m_isIPv6 ip" "length (v4_srcIP ip) = 4" "length (v4_dstIP ip) = 4"
    "\<not> hasRouterAlertOption ip" and "8 \<le> M" "M < 1000000" "0 < len" "len \<le> 65515" "n \<le> M div 8 * 8" "n \<le> len"
    and "M mod 8 = 0"
  shows "v4_ready n ip len"
  unfolding v4_ready_def
  by (rule exI [of _ M], rule exI [of _ "(len - 1) div M + 1"], rule exI [of _ p], rule exI [of _ f])
    (use assms in \<open>simp add: frag_setup_def getHeaderLength_def null_length_def\<close>)

theorem udp_over_ipv4_witness:
  "\<exists>ip u' s' c. ip_new False (start\<lparr>m_mtu := 36\<rparr>) = (Inr ip, start\<lparr>m_mtu := 36\<rparr>)
    \<and> udp_compile (Some (replicate 25 7)) (example_udp ip) start = (Inr u', s') \<and> c \<noteq> 0
    \<and> reassembled (udp_ip u') = [0, 53] @ [15, 160] @ [0, 33] @ mem16 c @ replicate 25 7
    \<and> csum_at (v4_srcIP ip @ v4_dstIP ip @ [0, 17] @ [0, 33] @ reassembled (udp_ip u')) = Inr 0"
proof -
  obtain ip p f where ip: "ip_new False (start\<lparr>m_mtu := 36\<rparr>) = (Inr ip, start\<lparr>m_mtu := 36\<rparr>)"
    "m_packets ip = [p]" "holds p f" "f_tags f = []" "f_llc f = []" "packetMaxLength p = 16 + 38"
    "ip_mtu ip = 16 + 20" "\<not> m_isIPv6 ip" "length (v4_srcIP ip) = 4" "length (v4_dstIP ip) = 4"
    "\<not> hasRouterAlertOption ip"
    by (rule new_on_mtu [of False 36]) simp
  have "v4_ready 8 ip 33" by (rule v4_readyI [OF ip(2-11)]) simp_all
  with udp_over_ipv4 [of "example_udp ip" "Some (replicate 25 7)" start] ip(1) show ?thesis
    by (auto simp: example_udp_def null_length_def opt_bytes_def be16_def mem16_htons)
qed

text \<open>
  C12: the same over IPv6, with the pseudo header of RFC 8200, section 8.1.
\<close>

theorem udp_over_ipv6:
  assumes "udp_checksum (udp_header u) = 0"
    and "v6_ready 8 (udp_ip u) (8 + null_length payload)"
  shows "\<exists>u' s' c. udp_compile payload u s = (Inr u', s') \<and> c \<noteq> 0
    \<and> reassembled (udp_ip u') = mem16 (udp_srcPort (udp_header u)) @ mem16 (udp_dstPort (udp_header u))
        @ be16 (of_nat (8 + null_length payload)) @ mem16 c @ opt_bytes payload
    \<and> csum_at (v6_srcIP (udp_ip u) @ v6_dstIP (udp_ip u) @ be32 (of_nat (8 + null_length payload))
        @ [0, 0, 0, 17] @ reassembled (udp_ip u')) = Inr 0"
  using udp_compile_sealed [OF assms(1) v6_seals [of "udp_prefix (udp_header u) (null_length payload)" "[]"]] assms(2)
  by (simp add: udp_prefix_def v6_pseudo_def ipv6_pseudo_header_def mem32_htonl PROTO_UDP_def add.commute)

theorem udp_over_ipv6_witness:
  "\<exists>ip u' s' c. ip_new True (start\<lparr>m_mtu := 1280\<rparr>) = (Inr ip, start\<lparr>m_mtu := 1280\<rparr>)
    \<and> udp_compile (Some [1, 2, 3]) (example_udp ip) start = (Inr u', s') \<and> c \<noteq> 0
    \<and> reassembled (udp_ip u') = [0, 53] @ [15, 160] @ [0, 11] @ mem16 c @ [1, 2, 3]
    \<and> csum_at (v6_srcIP ip @ v6_dstIP ip @ [0, 0, 0, 11] @ [0, 0, 0, 17] @ reassembled (udp_ip u')) = Inr 0"
proof -
  obtain ip p f where ip: "ip_new True (start\<lparr>m_mtu := 1280\<rparr>) = (Inr ip, start\<lparr>m_mtu := 1280\<rparr>)"
    "m_packets ip = [p]" "holds p f" "f_tags f = []" "f_llc f = []" "packetMaxLength p = 1298"
    "ip_mtu ip = 1280" "m_isIPv6 ip" "length (v6_srcIP ip) = 16" "length (v6_dstIP ip) = 16"
    by (rule new_on_mtu [of True 1280]) simp
  then have "v6_ready 8 ip 11" by (auto simp: v6_ready_def v6_setup_def intro!: exI [of _ f])
  with udp_over_ipv6 [of "example_udp ip" "Some [1, 2, 3]" start] ip(1) show ?thesis
    by (auto simp: example_udp_def null_length_def opt_bytes_def be16_def be32_def mem16_htons)
qed

text \<open>
  C11: \<open>cTcpPacket::compile\<close> over IPv4: the receiver gets the header with its checksum and the payload,
  the sum over the pseudo header and the segment is zero, and the sequence number the next packet
  will get advances by the payload's length, plus one for a SYN.
\<close>

theorem tcp_over_ipv4:
  assumes "tcp_checksum (tcp_header t) = 0"
    and "v4_ready 20 (tcp_ip t) (20 + null_length payload)"
  shows "\<exists>t' s' c. tcp_compile payload True t s = (Inr t', s')
    \<and> reassembled (tcp_ip t') = tcp_bytes (tcp_header t\<lparr>tcp_checksum := c\<rparr>) @ opt_bytes payload
    \<and> csum_at (v4_srcIP (tcp_ip t) @ v4_dstIP (tcp_ip t) @ [0, 6] @ be16 (of_nat (20 + null_length payload))
        @ reassembled (tcp_ip t')) = Inr 0
    \<and> tcp_sequence s' = tcp_sequence s + of_nat (null_length payload) + of_bool (isSyn (tcp_header t))"
  using tcp_compile_sealed [OF assms(1) v4_seals [of "tcp_prefix (tcp_header t)" "mem16 (urgentPtr (tcp_header t))"]] assms(2)
  by (simp add: tcp_bytes_split v4_pseudo_def ipv4_pseudo_header_def mem16_htons PROTO_TCP_def ac_simps split del: split_of_bool)

theorem tcp_over_ipv4_witness:
  "\<exists>ip t' s'. ip_new False (start\<lparr>m_mtu := 60\<rparr>) = (Inr ip, start\<lparr>m_mtu := 60\<rparr>)
    \<and> tcp_compile (Some (replicate 45 7)) True (tcp_setFlagSYN True \<lparr>tcp_ip = ip, tcp_header = tcp_init\<rparr>) start
        = (Inr t', s')
    \<and> csum_at (v4_srcIP ip @ v4_dstIP ip @ [0, 6] @ [0, 65] @ reassembled (tcp_ip t')) = Inr 0
    \<and> tcp_sequence s' = 88"
proof -
  obtain ip p f where ip: "ip_new False (start\<lparr>m_mtu := 60\<rparr>) = (Inr ip, start\<lparr>m_mtu := 60\<rparr>)"
    "m_packets ip = [p]" "holds p f" "f_tags f = []" "f_llc f = []" "packetMaxLength p = 40 + 38"
    "ip_mtu ip = 40 + 20" "\<not> m_isIPv6 ip" "length (v4_srcIP ip) = 4" "length (v4_dstIP ip) = 4"
    "\<not> hasRouterAlertOption ip"
    by (rule new_on_mtu [of False 60]) simp
  have "v4_ready 20 ip 65" by (rule v4_readyI [OF ip(2-11)]) simp_all
  with tcp_over_ipv4 [of "tcp_setFlagSYN True \<lparr>tcp_ip = ip, tcp_header = tcp_init\<rparr>" "Some (replicate 45 7)" start] ip(1)
  show ?thesis
    by (auto simp: tcp_setFlagSYN_def tcp_onHeader_def tcp_init_def isSyn_def set_flag_def null_length_def
        be16_def start_def initial_env_def)
qed

section \<open>Texts and addresses\<close>

text \<open>
  C21: what \<open>cParameterList\<close> parses is what was written: for every list of well-formed parameters,
  with any white space around keys and values, quoted values and values in angle brackets included,
  the constructor returns their keys and values in their order.
\<close>

theorem parameter_list_roundtrip:
  assumes "\<forall>p\<in>set ps. src_wf p" and "garbage \<or> is_ws r"
  shows "\<exists>l. parseParameters (''('' @ params_text ps @ '')'' @ r) garbage = Inr (l, None)
    \<and> map (\<lambda>p. take (parLen p) (parameter p)) l = map key ps
    \<and> map (\<lambda>p. take (valLen p) (par_value p)) l = map (stored_value \<circ> src_val) ps"
proof -
  obtain l where l: "parseParameters (''('' @ params_text ps @ '')'' @ r) garbage = Inr (l, None)"
    "list_all2 denotes l ps" using parseParameters_text [OF assms] by blast
  have "map key ps = map (\<lambda>p. take (parLen p) (parameter p)) l"
    by (rule list_all2_map_eq, rule list_all2_mono [OF l(2)]) (unfold denotes_def, elim conjE, rule sym)
  moreover have "map (stored_value \<circ> src_val) ps = map (\<lambda>p. take (valLen p) (par_value p)) l"
    by (rule list_all2_map_eq, rule list_all2_mono [OF l(2)]) (unfold denotes_def comp_def, elim conjE, rule sym)
  ultimately show ?thesis using l(1) by simp
qed

definition example_params :: "src_param list" where
  "example_params =
     [\<lparr>before_key = '' '', key = ''dmac'', after_key = '' '', before_value = '' '',
       src_val = Plain ''11:22:33:44:55:66'', after_value = []\<rparr>,
      \<lparr>before_key = '' '', key = ''df'', after_key = [], before_value = [], src_val = NoValue, after_value = []\<rparr>,
      \<lparr>before_key = [], key = ''payload'', after_key = [], before_value = [],
       src_val = Quoted ''a, b)'', after_value = '' ''\<rparr>]"

theorem parameter_list_roundtrip_witness:
  "\<exists>l. parseParameters ''( dmac = 11:22:33:44:55:66, df,payload=\"a, b)\" ) '' False = Inr (l, None)
    \<and> map (\<lambda>p. take (parLen p) (parameter p)) l = [''dmac'', ''df'', ''payload'']"
proof -
  have wf: "\<forall>p\<in>set example_params. src_wf p"
    by code_simp
  have ws: "False \<or> is_ws '' ''" by code_simp
  have t: "''('' @ params_text example_params @ '')'' @ '' '' = ''( dmac = 11:22:33:44:55:66, df,payload=\"a, b)\" ) ''"
    by (simp add: example_params_def param_text_def)
  have k: "map key example_params = [''dmac'', ''df'', ''payload'']" by (simp add: example_params_def)
  obtain l where l: "parseParameters (''('' @ params_text example_params @ '')'' @ '' '') False = Inr (l, None)"
    "map (\<lambda>p. take (parLen p) (parameter p)) l = map key example_params"
    using parameter_list_roundtrip [OF wf ws] by (elim exE conjE) (rule that)
  show ?thesis by (rule exI, rule conjI, rule l(1) [unfolded t], rule l(2) [unfolded k])
qed

text \<open>
  \<open>cMacAddress::set\<close> reads what \<open>cMacAddress::get\<close> writes, for every address and in every state,
  and draws no random number.
\<close>

lemma mac_roundtrip:
  "mac_set (mac_get_string [m0, m1, m2, m3, m4, m5]) 0 s = (Inr (Some [m0, m1, m2, m3, m4, m5]), s)"
  by (simp add: mac_set_print)

text \<open>\<open>cIPv4::set\<close> reads the dotted decimal text of every address, whatever follows it.\<close>

lemma ipv4_roundtrip:
  "ipv4_set (dotted [a, b, c, d] @ rest) (length (dotted [a, b, c, d])) s = (Inr (Some [a, b, c, d]), s)"
  by (simp add: ipv4_set_print)



section \<open>Checksums, frames and buffers\<close>

text \<open>
  C33: \<open>cInetChecksum::rfc1071\<close> computes the checksum of RFC 1071: on up to 2^17 bytes, at whichever
  address they lie (the code reads words or single bytes), it is the complement of the one's
  complement sum of the 16-bit words. No carry is lost in the 32-bit accumulator.
\<close>

theorem rfc1071_reference:
  assumes "length bs \<le> 2 ^ 17"
  shows "\<exists>v. rfc1071_one (Some (al, bs)) = Inr v \<and> unat v = 65535 - ocsum bs
    \<and> ocsum bs \<le> 65535 \<and> ocsum bs mod 65535 = word_sum bs mod 65535"
  using rfc1071_one_value [OF assms, of al] ocsum_bound [OF assms] ocsum_mod [of bs] by auto

theorem rfc1071_reference_witness:
  "\<exists>v. rfc1071_one (Some (1, [0x45, 0, 0, 0x1c])) = Inr v \<and> unat v = 65535 - (0x45 + 256 * 0x1c)"
  using rfc1071_reference [of "[0x45, 0, 0, 0x1c]" 1] by (auto simp: ocsum_def fold16_def)

text \<open>
  C34: the two bytes the checksum is stored in make the message verify: with the value computed
  over zeros in their place (at an even offset) the checksum of the whole is zero.
\<close>

theorem rfc1071_verifies_stored:
  assumes "even (length a)" and "length (a @ [0, 0] @ b) \<le> 2 ^ 17"
  shows "\<exists>v. csum_at (a @ [0, 0] @ b) = Inr v \<and> csum_at (a @ mem16 v @ b) = Inr 0"
proof -
  obtain v where "csum_at (a @ [0, 0] @ b) = Inr v" using inet.total [OF assms(2)] by blast
  with inet.verifies [OF assms] show ?thesis by blast
qed

theorem rfc1071_verifies_stored_witness:
  "\<exists>v. csum_at ([1, 2] @ [0, 0] @ [3]) = Inr v \<and> csum_at ([1, 2] @ mem16 v @ [3]) = Inr 0"
  by (rule rfc1071_verifies_stored) simp_all

text \<open>
  C31: \<open>cEthernetPacket::setPayload\<close> refines writing the payload of the frame: when the frame fits
  the packet's length the bytes that are sent are the header and the payload, whatever the buffer
  held before; otherwise it throws a range error and never writes outside of the buffer.
\<close>

theorem payload_written_or_rejected:
  assumes "holds e f" and "length p < 2 ^ 63"
  shows "if 14 + length (f_tags f) + length (f_llc f) + length p \<le> packetMaxLength e
    then \<exists>e'. setPayload p e = Inr e' \<and> holds e' (f\<lparr>f_payload := p\<rparr>)
      \<and> visible e' = f_dest f @ f_src f @ f_tags f @ f_type f @ f_llc f @ p
    else setPayload p e = Inl rangeError"
proof -
  have n: "length (frame_bytes (f\<lparr>f_payload := p\<rparr>)) = 14 + length (f_tags f) + length (f_llc f) + length p"
    using assms(1) by (simp add: holds_def frame_shape_def frame_bytes_def)
  have "visible e' = f_dest f @ f_src f @ f_tags f @ f_type f @ f_llc f @ p" if "holds e' (f\<lparr>f_payload := p\<rparr>)" for e'
    using holds_visible [OF that] by (simp add: frame_bytes_def)
  with setPayload_holds [OF assms] show ?thesis unfolding n by (auto split: if_splits)
qed

theorem payload_written_or_rejected_witness:
  "\<exists>e e'. eth_new (\<lambda>_. 0xff) 60 = Inr e \<and> setPayload [1, 2, 3] e = Inr e'
    \<and> visible e' = [0, 0, 0, 0, 0, 0] @ [0, 0, 0, 0, 0, 0] @ [0, 0, 1, 2, 3] \<and> setPayload (replicate 47 0) e = Inl rangeError"
proof -
  obtain e where e: "eth_new (\<lambda>_. 0xff) 60 = Inr e" "packetMaxLength e = 60" "holds e blank"
    by (rule new_frame [of 60 "\<lambda>_. 0xff"]) simp_all
  from payload_written_or_rejected [OF e(3), of "[1, 2, 3]"]
    payload_written_or_rejected [OF e(3), of "replicate 47 0"] e(1,2) show ?thesis
    by auto
qed

text \<open>
  C32: \<open>cEthernetPacket::addVlanTag\<close> moves the EtherType and the payload up by four bytes and puts
  the tag before them; everything else of the frame stays, and a frame without room for it is
  rejected.
\<close>

theorem vlan_tag_inserted:
  assumes "holds e f" and "f_llc f = []"
  shows "if length (frame_bytes f) + 4 \<le> packetMaxLength e
    then \<exists>e'. addVlanTag isCTag vid prio dei e = Inr e'
      \<and> visible e' = f_dest f @ f_src f @ f_tags f @ tag_bytes isCTag vid prio dei @ f_type f @ f_payload f
    else addVlanTag isCTag vid prio dei e = Inl rangeError"
proof -
  have v: "visible e' = f_dest f @ f_src f @ f_tags f @ tag_bytes isCTag vid prio dei @ f_type f @ f_payload f"
    if "holds e' (f\<lparr>f_tags := f_tags f @ tag_bytes isCTag vid prio dei\<rparr>)" for e'
    using holds_visible [OF that] assms(2) by (simp add: frame_bytes_def)
  with addVlanTag_holds [OF assms refl, of isCTag vid prio dei] show ?thesis by (auto split: if_splits)
qed

theorem vlan_tag_inserted_witness:
  "\<exists>e e'. eth_new (\<lambda>_. 0) 60 = Inr e \<and> addVlanTag True 5 3 0 e = Inr e'
    \<and> visible e' = [0, 0, 0, 0, 0, 0] @ [0, 0, 0, 0, 0, 0] @ [0x81, 0, 0x60, 5, 0, 0]"
proof -
  obtain e where e: "eth_new (\<lambda>_. 0) 60 = Inr e" "packetMaxLength e = 60" "holds e blank"
    by (rule new_frame [of 60 "\<lambda>_. 0"]) simp_all
  have "tag_bytes True 5 3 0 = [0x81, 0, 0x60, 5]" by code_simp
  with vlan_tag_inserted [OF e(3), of True 5 3 0] e(1,2) show ?thesis
    by (auto simp: frame_bytes_def)
qed

text \<open>
  C35: the ARP frame of \<open>cArpPacket::setAll\<close>: broadcast if no target MAC is given, EtherType 0x0806
  and the 28 bytes of RFC 826 in network order.
\<close>

theorem arp_frame:
  assumes "holds e f" and "f_llc f = []"
    and "length sha = 6" "length spa = 4" "length tha = 6" "length tpa = 4"
    and "42 + length (f_tags f) \<le> packetMaxLength e"
  shows "\<exists>e'. arp_setAll opc sha spa tha tpa e = Inr e' \<and> hasDMAC e' \<and>
     visible e' = (if mac_isNull tha then replicate 6 0xff else tha) @ sha @ f_tags f
       @ [0x08, 0x06] @ [0, 1, 0x08, 0, 6, 4] @ be16 opc @ sha @ spa @ tha @ tpa"
  by (rule arp_setAll_frame [OF assms])

theorem arp_frame_witness:
  "\<exists>e e'. eth_new (\<lambda>_. 0) 64 = Inr e
    \<and> arp_setAll 1 [2, 0, 0, 0, 0, 1] [10, 0, 0, 1] [0, 0, 0, 0, 0, 0] [10, 0, 0, 2] e = Inr e'
    \<and> visible e' = replicate 6 0xff @ [2, 0, 0, 0, 0, 1] @ [0x08, 0x06] @ [0, 1, 0x08, 0, 6, 4] @ [0, 1]
        @ [2, 0, 0, 0, 0, 1] @ [10, 0, 0, 1] @ [0, 0, 0, 0, 0, 0] @ [10, 0, 0, 2]"
proof -
  obtain e where e: "eth_new (\<lambda>_. 0) 64 = Inr e" "packetMaxLength e = 64" "holds e blank"
    by (rule new_frame [of 64 "\<lambda>_. 0"]) simp_all
  have n: "mac_isNull [0, 0, 0, 0, 0, 0]" by (simp add: mac_isNull_def)
  have "be16 1 = [0, 1]" by (simp add: be16_def)
  with arp_frame [OF e(3), of "[2, 0, 0, 0, 0, 1]" "[10, 0, 0, 1]" "[0, 0, 0, 0, 0, 0]" "[10, 0, 0, 2]" 1] e(1,2) n
  show ?thesis by auto
qed

text \<open>
  \<open>cFixedByteArray\<close> takes exactly what it has room for: appending chunks whose lengths sum up to at
  most its size leaves their concatenation in it.
\<close>

lemma fixed_array_filled:
  assumes "length (concat cs) \<le> n"
  shows "\<exists>a. append_all junk (new_cFixedByteArray junk n) cs = Inr a \<and> bytes_of a = concat cs"
  by (rule fixed_array_exact [OF assms])

section \<open>UUIDs and random numbers\<close>

text \<open>C36: the string constructor of \<open>cUUID\<close> reads what \<open>asString\<close> writes.\<close>

theorem uuid_roundtrip:
  assumes "length u = 16"
  shows "uuid_fromString junk (uuid_asString u) = Inr u"
  by (rule uuid_print_parse [OF assms])

theorem uuid_roundtrip_witness:
  "uuid_fromString (\<lambda>_. 1) (uuid_asString (replicate 15 0xab @ [7])) = Inr (replicate 15 0xab @ [7])"
  by (rule uuid_roundtrip) simp

text \<open>
  C37: the constructor counts characters but not hex digits: 36 digits without a dash pass every check
  and the seventeenth byte is written behind the array.
\<close>

theorem uuid_overflow:
  assumes "length u = 18"
  shows "uuid_fromString junk (concat (map hex_byte u)) = Inl (Undefined ''write outside of buffer'')"
  by (rule uuid_without_dashes [OF assms])

theorem uuid_overflow_witness:
  "uuid_fromString (\<lambda>_. 0) (concat (map hex_byte (replicate 18 0xa5))) = Inl (Undefined ''write outside of buffer'')"
  by (rule uuid_overflow) simp

text \<open>
  \<open>cRandom::rand\<close> never fails and its result lies between the bounds, for every content of the
  generator and in counter mode; the full 64-bit range, where \<open>hi - lo + 1\<close> wraps to zero, included.
\<close>

lemma rand_between:
  assumes "lo \<le> hi"
  shows "\<exists>r s'. rand lo hi s = (Inr r, s') \<and> lo \<le> r \<and> r \<le> hi"
  using rng.draw_total [of lo hi s] rng.draw_bounds [OF assms] by blast

section \<open>The packet list\<close>

text \<open>
  C24: \<open>cPacketData::addPacket\<close> appends: on a well-formed list (linked, counters right) a live object
  that is not in the list becomes its last element, with its time; a walk from \<open>getFirst\<close> ends and visits
  exactly the list, and the counters are right again.
\<close>

theorem packet_list_append:
  assumes "data_ok d xs" and "live (pd_heap d) a" and "a \<notin> set xs"
  shows "\<exists>d'. addPacket a d = Inr d' \<and> data_ok d' (xs @ [a]) \<and> getAll d' = Some (Inr (xs @ [a]))
    \<and> contents d' (xs @ [a]) = contents d xs @ [(l_item (pd_heap d ! a), m_t (pd_heap d ! a))]"
proof -
  obtain d' where "addPacket a d = Inr d'" "data_ok d' (xs @ [a])"
    "contents d' (xs @ [a]) = contents d xs @ [(l_item (pd_heap d ! a), m_t (pd_heap d ! a))]"
    using addPacket_appends [OF assms] by blast
  then show ?thesis using walk_linked by (auto simp: getAll_def data_ok_def)
qed

theorem packet_list_append_witness:
  "\<exists>e d'. eth_new (\<lambda>_. 3) 60 = Inr e \<and> addPacket 0 (snd (new_linkable (EthPacket e) new_cPacketData)) = Inr d'
    \<and> getAll d' = Some (Inr [0])"
proof -
  obtain e where e: "eth_new (\<lambda>_. 3) 60 = Inr e" by (rule new_frame [of 60 "\<lambda>_. 3"]) simp_all
  let ?d = "snd (new_linkable (EthPacket e) new_cPacketData)"
  have "data_ok ?d []" by (simp add: data_ok_def new_linkable_def new_cPacketData_def frames_in_def)
  moreover have "live (pd_heap ?d) 0" by (simp add: live_def new_linkable_def new_cPacketData_def)
  ultimately show ?thesis using packet_list_append [of ?d "[]" 0] e by auto
qed

text \<open>
  C25: the destructor of \<open>cPacketData\<close> ends and frees every object of a well-formed list once and no
  other; it never reads a freed object.
\<close>

theorem packet_list_freed:
  assumes "data_ok d xs"
  shows "\<exists>d'. destroy d (pd_head d) = Some (Inr d') \<and> length (pd_heap d') = length (pd_heap d)
    \<and> (\<forall>b. b < length (pd_heap d) \<longrightarrow> m_freed (pd_heap d' ! b) = (m_freed (pd_heap d ! b) \<or> b \<in> set xs))"
  using destroy_linked [of d "pd_head d" xs] assms by (auto simp: data_ok_def)

theorem packet_list_freed_witness:
  "\<exists>e d d'. eth_new (\<lambda>_. 3) 60 = Inr e \<and> addPacket 0 (snd (new_linkable (EthPacket e) new_cPacketData)) = Inr d
    \<and> destroy d (pd_head d) = Some (Inr d') \<and> m_freed (pd_heap d' ! 0)"
proof -
  obtain e where e: "eth_new (\<lambda>_. 3) 60 = Inr e" by (rule new_frame [of 60 "\<lambda>_. 3"]) simp_all
  let ?d = "snd (new_linkable (EthPacket e) new_cPacketData)"
  have "data_ok ?d []" by (simp add: data_ok_def new_linkable_def new_cPacketData_def frames_in_def)
  moreover have l: "live (pd_heap ?d) 0" by (simp add: live_def new_linkable_def new_cPacketData_def)
  ultimately obtain d where d: "addPacket 0 ?d = Inr d" "data_ok d [0]" "length (pd_heap d) = length (pd_heap ?d)"
    using addPacket_appends [of ?d "[]" 0] by auto
  have "0 < length (pd_heap d)" using l d(3) by (simp add: live_def)
  then show ?thesis using packet_list_freed [OF d(2)] e d(1) by auto
qed

section \<open>Scripts\<close>

text \<open>
  C26: \<open>cFileParser::parse\<close> hands the text up to the next \<open>;\<close> to the instruction parser, without the
  comments in it, leaves the file behind the \<open>;\<close> and has counted every line end, those in comments
  included. The text may hold anything but braces and \<open>;\<close> outside of comments, and must fit the buffer.
\<close>

theorem script_instruction_read:
  assumes "fp f = Some (t @ CHR '';'' # cs)" and "plain (strip_comments False t)" and "\<not> in_comment False t"
    and "length t + 10240 < 2 ^ 31"
  shows "\<exists>f'. fp_next junk f = (Inr (Some (instruction_of t)), f') \<and> fp f' = Some cs
    \<and> lineNbr f' = lineNbr f + of_nat (count_list t NL) \<and> openControlBlocks f' = openControlBlocks f"
  using fp_next_instruction [OF assms, of junk] by (auto simp: instruction_of_def c_str_def)

definition example_script :: cFileParser where
  "example_script = (new_cFileParser 0 False)\<lparr>fp := Some (''raw'' @ NL # ''# a; comment'' @ NL # ''();rest'')\<rparr>"

theorem script_instruction_read_witness:
  "\<exists>f'. fp_next (\<lambda>_. 0) example_script = (Inr (Some (''raw'' @ [NL, NL] @ ''()'')), f')
    \<and> fp f' = Some ''rest'' \<and> lineNbr f' = 3"
proof -
  let ?t = "''raw'' @ NL # ''# a; comment'' @ NL # ''()''"
  have "fp example_script = Some (?t @ CHR '';'' # ''rest'')" by (simp add: example_script_def)
  moreover have "plain (strip_comments False ?t)" "\<not> in_comment False ?t" "length ?t + 10240 < 2 ^ 31"
    "instruction_of ?t = ''raw'' @ [NL, NL] @ ''()''" "count_list ?t NL = 2"
    by (simp_all add: plain_def instruction_of_def c_str_def NUL_def)
  ultimately show ?thesis using script_instruction_read [of example_script ?t "''rest''" "\<lambda>_. 0"]
    by (simp add: example_script_def new_cFileParser_def) blast
qed

text \<open>
  C27: a closing brace behind an unfinished instruction, or outside of a control block, ends the reading with a
  \<open>FileParseException\<close> of the script and the line the brace is in, which quotes the text read so far. The code does not
  terminate this text: up to the next NUL the exception quotes what is behind the brace, which is what earlier
  instructions have left there and then the new memory of \<open>realloc\<close>; with no NUL there, the buffer is read
  beyond its end.
\<close>

theorem script_brace_error:
  assumes "fp f = Some (t @ CHR ''}'' # cs)" and "plain (strip_comments False t)" and "\<not> in_comment False t"
    and "length t + 10240 < 2 ^ 31"
    and "(\<exists>c\<in>set (strip_comments False t). \<not> isspace c) \<and> msg = ''syntax error before '}'. Missing ';'?''
      \<or> (\<forall>c\<in>set (strip_comments False t). isspace c) \<and> openControlBlocks f \<le> 0
         \<and> msg = ''Missing matching '' @ quoted CHR ''{''"
  shows "\<exists>m rest. (m = 0 \<or> length (instructionBuffer f) + 10240 \<le> m)
    \<and> length (grown junk m (instructionBuffer f)) = length (strip_comments False t) + 1 + length rest
    \<and> rest = drop (length (strip_comments False t) + 1) (grown junk m (instructionBuffer f))
    \<and> fst (fp_next junk f) = Inl (let text = strip_comments False t @ CHR ''}'' # rest in
        if NUL \<in> set text
        then FileParseException (fp_path f) (sint (lineNbr f + of_nat (count_list t NL)))
               (Some (takeWhile (\<lambda>c. c \<noteq> NUL) text)) msg (Some (skipWhitespaces (takeWhile (\<lambda>c. c \<noteq> NUL) text))) 0 None
        else Undefined ''read outside of buffer'')"
  by (rule fp_next_brace [OF assms])

theorem script_brace_error_witness:
  "fst (fp_next (\<lambda>_. 0) (example_script\<lparr>fp := Some (NL # ''  }'')\<rparr>))
      = Inl (FileParseException [] 2 (Some (NL # ''  }'')) (''Missing matching '' @ quoted CHR ''{'') (Some ''}'') 0 None)"
proof -
  let ?f = "example_script\<lparr>fp := Some (NL # ''  }'')\<rparr>" and ?t = "NL # ''  ''" and ?msg = "''Missing matching '' @ quoted CHR ''{''"
  have fp: "fp ?f = Some (?t @ CHR ''}'' # [])" "openControlBlocks ?f \<le> 0" and f: "instructionBuffer ?f = []"
    "fp_path ?f = []" "length ([] :: string) + 10240 = 10240" "length ?t + 1 = 4"
    and n: "sint (lineNbr ?f + of_nat (count_list ?t NL)) = 2"
    by (simp_all add: example_script_def new_cFileParser_def)
  have t: "plain (strip_comments False ?t)" "\<not> in_comment False ?t" "length ?t + 10240 < 2 ^ 31"
    "\<forall>c\<in>set (strip_comments False ?t). isspace c" "strip_comments False ?t = ?t"
    by (simp_all add: plain_def isspace_def) code_simp+
  from script_brace_error [OF fp(1) t(1-3) disjI2 [OF conjI [OF t(4) conjI [OF fp(2) refl]]], of "\<lambda>_. 0", unfolded f t(5) n]
  obtain m rest where m: "m = 0 \<or> 10240 \<le> m" "length (grown (\<lambda>_. 0) m []) = 4 + length rest"
    "rest = drop 4 (grown (\<lambda>_. 0) m [])"
    and e: "fst (fp_next (\<lambda>_. 0) ?f) = Inl (let text = ?t @ CHR ''}'' # rest in
        if NUL \<in> set text then FileParseException [] 2 (Some (takeWhile (\<lambda>c. c \<noteq> NUL) text)) ?msg
          (Some (skipWhitespaces (takeWhile (\<lambda>c. c \<noteq> NUL) text))) 0 None
        else Undefined ''read outside of buffer'')"
    by blast
  have "rest = NUL # drop 5 (grown (\<lambda>_. 0) m [])"
  proof -
    have "4 < m" using m(1,2) by (auto simp: grown_def)
    then have "[4..<m] = 4 # [5..<m]" by (simp add: upt_rec)
    moreover have "char_of (0 :: nat) = NUL" unfolding NUL_def by code_simp
    ultimately show ?thesis unfolding m(3) by (simp add: grown_def drop_map)
  qed
  then have "takeWhile (\<lambda>c. c \<noteq> NUL) (?t @ CHR ''}'' # rest) = ?t @ ''}''" "NUL \<in> set (?t @ CHR ''}'' # rest)"
    by (simp_all add: NUL_def)
  moreover have "skipWhitespaces (?t @ ''}'') = ''}''" by code_simp
  ultimately show ?thesis unfolding e Let_def by simp
qed

section \<open>The compiler\<close>

text \<open>
  C7: \<open>cCompiler\<close> on the packets of the command line computes what the specification \<open>compile_all\<close>
  computes, which compiles each instruction by itself and has no heap and no shared result object: the
  same exception, or the same packets with the same delays in a well-formed list, and the same state of
  the random source and the counters.
\<close>

theorem command_line_compiled:
  assumes "new_cCompiler t delay sc opt scaling e = Inr (c, s)"
  shows "case compile_all c 0 (map c_str input) 0 e of
      (Inl err, e1) \<Rightarrow> \<exists>s'. processPackets c input s = (Inl err, s') \<and> env.truncate s' = e1
    | (Inr (xs, currtime), e1) \<Rightarrow> \<exists>s'. processPackets c input s = (Inr (), s') \<and> env.truncate s' = e1
        \<and> queued s' (listed xs) \<and> hasUserTimestamps (c_data s') = any_user xs"
  using processPackets_refines [OF fresh_compiler(3) [OF assms], of c input] fresh_compiler(2,6) [OF assms]
  by (auto split: prod.splits sum.splits)

theorem command_line_compiled_witness:
  "\<exists>c s x s'. new_cCompiler PACKET 7 1 False (Fin 1 0) start = Inr (c, s)
    \<and> processPackets c [''raw()'', ''raw()''] s = (Inr (), s')
    \<and> queued s' [(EthPacket x, 7), (EthPacket x, 7)] \<and> env.truncate s' = start"
proof -
  obtain c s where n: "new_cCompiler PACKET 7 1 False (Fin 1 0) start = Inr (c, s)"
    by (auto simp: new_cCompiler_def)
  then have c: "defaultDelayScale c = 1" "defaultDelay c = 7" by (simp_all add: fresh_compiler(1) [OF n])
  obtain x where "compile_all c 0 [''raw()'', ''raw()''] 0 start
      = (Inr ([(EthPacket x, 7, False), (EthPacket x, 7, False)], 14), start)"
    using compile_two_raw [OF c] by blast
  with command_line_compiled [OF n, of "[''raw()'', ''raw()'']"] n show ?thesis
    by (auto simp: listed_def any_user_def simp del: compile_all.simps)
qed

text \<open>
  C8: script files are compiled like the same instructions on the command line, file by file. Absolute times
  count from the time the files before have reached, as the test \<open>delay-21\<close> expects it; \<open>doc/PACKET_REFERENCE.md\<close>
  says that they are relative to the start of the program, which is true of the first file only. An exception is
  reported with a file that was given.
\<close>

theorem script_files_compiled:
  assumes "new_cCompiler t delay sc opt scaling e = Inr (c, s)"
    and "\<forall>path\<in>set input. script_file files texts path"
  shows "case compile_files c (map (\<lambda>path. map instruction_of (texts path)) input) 0 e of
      (Inl err, e1) \<Rightarrow> \<exists>s' f. processScriptFiles c files input s = (Inl (in_file f err), s')
        \<and> env.truncate s' = e1 \<and> fp_path f \<in> set input
    | (Inr xs, e1) \<Rightarrow> \<exists>s'. processScriptFiles c files input s = (Inr (), s') \<and> env.truncate s' = e1
        \<and> queued s' (listed xs) \<and> hasUserTimestamps (c_data s') = any_user xs"
proof -
  note f = fresh_compiler [OF assms(1)]
  obtain s0 where s0: "clear_result s = (Inr (), s0)" "queued s0 []" "env.truncate s0 = e"
    "c_fileParser s0 = c_fileParser s" "c_data s0 = c_data s"
    using clear_result_run [OF f(3)] f(2) by auto
  then have "reader_ready c s0" "fp (c_fileParser s0) = None" using f(4,5) by (simp_all add: reader_ready_def)
  from script_files_refine [OF s0(2) this assms(2), of 0] show ?thesis using s0 f(6)
    by (auto simp: processScriptFiles_def bindM_def split: prod.splits sum.splits)
qed

definition example_files :: "string \<Rightarrow> string option" where
  "example_files path = (if path = ''a'' then Some (''raw();raw();'' @ [NL]) else None)"

lemma example_script_file: "script_file example_files (\<lambda>_. [''raw()'', ''raw()'']) ''a''"
  by (auto simp: script_file_def example_files_def script_def instruction_text_def trailing_text_def plain_def
      intro!: exI [of _ "[NL]"])

lemma example_instruction_of [simp]: "instruction_of ''raw()'' = ''raw()''"
  by (simp add: instruction_of_def)

theorem script_files_compiled_witness:
  "\<exists>c s x s'. new_cCompiler SCRIPT 7 1 False (Fin 1 0) start = Inr (c, s)
    \<and> processScriptFiles c example_files [''a''] s = (Inr (), s')
    \<and> queued s' [(EthPacket x, 7), (EthPacket x, 7)] \<and> env.truncate s' = start"
proof -
  obtain c s where n: "new_cCompiler SCRIPT 7 1 False (Fin 1 0) start = Inr (c, s)"
    by (auto simp: new_cCompiler_def)
  then have c: "defaultDelayScale c = 1" "defaultDelay c = 7" by (simp_all add: fresh_compiler(1) [OF n])
  obtain x where x: "compile_all c 0 [''raw()'', ''raw()''] 0 start
      = (Inr ([(EthPacket x, 7, False), (EthPacket x, 7, False)], 14), start)"
    using compile_two_raw [OF c] by blast
  have "\<forall>path\<in>set [''a'']. script_file example_files (\<lambda>_. [''raw()'', ''raw()'']) path"
    using example_script_file by simp
  from script_files_compiled [OF n this] x n show ?thesis
    by (auto simp: listed_def any_user_def bindM_def simp del: compile_all.simps)
qed

text \<open>
  C9: when the compiler returns, adding up the delays of the packets gives the times the instructions ask
  for: an absolute timestamp is the time of its packet, a relative one (or the default delay) counts from
  the packet before it. The packets are those the instructions give one by one.
\<close>

theorem packets_due:
  assumes "new_cCompiler t delay sc opt scaling e = Inr (c, s)" and "processPackets c input s = (Inr (), s')"
  shows "\<exists>ys items. compile_each c (map c_str input) e = (Inr ys, env.truncate s') \<and> queued s' items
    \<and> map fst items = map fst ys
    \<and> send_times 0 (map snd items) = due 0 0 (map (\<lambda>(x, user, at). at) ys)"
proof (cases "compile_all c 0 (map c_str input) 0 e")
  case (Pair r e1)
  note ref = processPackets_refines [OF fresh_compiler(3) [OF assms(1)], of c input]
  then obtain xs ct where r: "r = Inr (xs, ct)"
    using assms(2) Pair fresh_compiler(2) [OF assms(1)] by (cases r) auto
  then have "queued s' (listed xs)" "env.truncate s' = e1"
    using ref assms(2) Pair fresh_compiler(2) [OF assms(1)] by auto
  moreover obtain ys where "compile_each c (map c_str input) e = (Inr ys, e1)" "map fst xs = map fst ys"
    "send_times 0 (map (\<lambda>(x, d, user). d) xs) = due 0 0 (map (\<lambda>(x, user, at). at) ys)"
    using compile_all_due [OF Pair [unfolded r]] by blast
  moreover have "map fst (listed xs) = map fst xs" "map snd (listed xs) = map (\<lambda>(x, d, user). d) xs"
    by (auto simp: listed_def)
  ultimately show ?thesis by (intro exI [of _ ys] exI [of _ "listed xs"]) simp
qed

theorem packets_due_witness:
  "\<exists>c s s' ys items. new_cCompiler PACKET 7 1 False (Fin 1 0) start = Inr (c, s)
    \<and> processPackets c [''raw()'', ''raw()''] s = (Inr (), s') \<and> queued s' items
    \<and> compile_each c [''raw()'', ''raw()''] start = (Inr ys, start) \<and> send_times 0 (map snd items) = [7, 14]"
proof -
  obtain c s where n: "new_cCompiler PACKET 7 1 False (Fin 1 0) start = Inr (c, s)"
    by (auto simp: new_cCompiler_def)
  then have c: "defaultDelayScale c = 1" "defaultDelay c = 7" by (simp_all add: fresh_compiler(1) [OF n])
  obtain x where x: "compile_all c 0 [''raw()'', ''raw()''] 0 start
      = (Inr ([(EthPacket x, 7, False), (EthPacket x, 7, False)], 14), start)"
    using compile_two_raw [OF c] by blast
  then obtain s' where s': "processPackets c [''raw()'', ''raw()''] s = (Inr (), s')" "env.truncate s' = start"
    using processPackets_refines [OF fresh_compiler(3) [OF n], of c "[''raw()'', ''raw()'']"] fresh_compiler(2) [OF n]
    by (auto simp del: compile_all.simps)
  obtain y where "compile_instruction c ''raw()'' start = (Inr (EthPacket y, False, False, 7), start)"
    using compile_raw [of c start] c by auto
  then have "compile_each c [''raw()'', ''raw()''] start
      = (Inr [(EthPacket y, False, False, 7), (EthPacket y, False, False, 7)], start)" by (simp add: bindM_def)
  with packets_due [OF n s'(1)] s' n show ?thesis by (auto simp del: compile_each.simps)
qed

text \<open>
  C28: when an instruction fails while its packet is built, the handler of \<open>parse\<close> deletes the packet of
  the instruction before it, which is in the list: the destructor of the list then reads freed memory.
\<close>

theorem failed_instruction_dangles:
  assumes "new_cCompiler t delay sc opt scaling e = Inr (c, s)"
    and "compile_all c 0 (map c_str input) 0 e = (Inr (xs, currtime), e1)" and "input \<noteq> []"
    and "\<And>res. packets res \<noteq> None \<Longrightarrow> \<exists>p. parse (c_str bad) res False False
          (new_cInstructionParser e1 (c_ipOptionalDestMAC c)) = (Inl err, p) \<and> m_deleted p"
  shows "\<exists>s'. processPackets c (input @ [bad]) s = (Inl err, s')
    \<and> destroy (c_data s') (pd_head (c_data s')) = Some (Inl (Undefined ''use after free''))"
  using processPackets_dangling [OF fresh_compiler(3) [OF assms(1)] _ assms(3)] assms(2,4)
    fresh_compiler(2) [OF assms(1)] by simp

theorem failed_instruction_dangles_witness:
  "\<exists>c s s' err. new_cCompiler PACKET 7 1 False (Fin 1 0) start = Inr (c, s)
    \<and> processPackets c [''raw()'', ''raw()'', ''raw(byte=x)''] s = (Inl err, s')
    \<and> destroy (c_data s') (pd_head (c_data s')) = Some (Inl (Undefined ''use after free''))"
proof -
  obtain c s where n: "new_cCompiler PACKET 7 1 False (Fin 1 0) start = Inr (c, s)"
    by (auto simp: new_cCompiler_def)
  then have c: "defaultDelayScale c = 1" "defaultDelay c = 7" by (simp_all add: fresh_compiler(1) [OF n])
  obtain xs ct where x: "compile_all c 0 (map c_str [''raw()'', ''raw()'']) 0 start = (Inr (xs, ct), start)"
    unfolding list.map c_str_raw using compile_two_raw [OF c] by blast
  let ?err = "ParseException ''raw(byte=x)'' ''Invalid parameter value'' (Some ''x)'') 1 None"
  have "\<exists>p. parse (c_str ''raw(byte=x)'') res False False
      (new_cInstructionParser start (c_ipOptionalDestMAC c)) = (Inl ?err, p) \<and> m_deleted p"
    if "packets res \<noteq> None" for res
    using parse_raw_bad [of "new_cInstructionParser start (c_ipOptionalDestMAC c)" res] that by auto
  from failed_instruction_dangles [OF n x _ this] n show ?thesis by auto
qed

end
